(* ===== verification/Prelude.thy ===== *)
theory Prelude
  imports Main "HOL-Library.List_Lexorder" "HOL-Library.Char_ord" "HOL-Library.Product_Lexorder"
begin

text \<open>
  The prelude of the development: the types every component names (identifiers, instants,
  days, results), the result combinators that stand for Python's exceptions, the operations on
  tables (lists of rows looked up by a key, as the repositories under
  \<^verbatim>\<open>app/repositories\<close> do), and the automation the component proofs share.

  A Python call that may raise is a value of type \<open>'e + 'a\<close>: \<open>Inl\<close> the exception,
  \<open>Inr\<close> the returned value. \<open>bindR\<close> is sequencing: the first exception wins, as it
  does when it propagates out of a method.
\<close>

section \<open>Basic types\<close>

text \<open>
  A UUID is a number; a \<^verbatim>\<open>datetime\<close> (always UTC-aware in the code) is a count of
  microseconds, a \<^verbatim>\<open>date\<close> a day ordinal and a \<^verbatim>\<open>time\<close> a count of
  microseconds since midnight. Only equality, order and addition of these are used.
\<close>

type_synonym uuid = nat
type_synonym datetime = int
type_synonym date = int
type_synonym time = int

named_theorems result_simps "how the result combinators compute and invert"
named_theorems table_simps "lookup, update and deletion of rows by key"

section \<open>Results\<close>

definition bindR :: "'e + 'a \<Rightarrow> ('a \<Rightarrow> 'e + 'b) \<Rightarrow> 'e + 'b" where
  "bindR m f = (case m of Inl e \<Rightarrow> Inl e | Inr x \<Rightarrow> f x)"

definition ensure :: "bool \<Rightarrow> 'e \<Rightarrow> 'e + unit" where
  "ensure b e = (if b then Inr () else Inl e)"

definition some_or :: "'e \<Rightarrow> 'a option \<Rightarrow> 'e + 'a" where
  "some_or e x = (case x of None \<Rightarrow> Inl e | Some v \<Rightarrow> Inr v)"

lemma bindR_Inl [simp]: "bindR (Inl e) f = Inl e"
  by (simp add: bindR_def)

lemma bindR_Inr [simp]: "bindR (Inr x) f = f x"
  by (simp add: bindR_def)

lemma bindR_eq_Inr [result_simps]: "bindR m f = Inr y \<longleftrightarrow> (\<exists>x. m = Inr x \<and> f x = Inr y)"
  by (cases m) auto

lemma bindR_eq_Inl [result_simps]:
  "bindR m f = Inl e \<longleftrightarrow> m = Inl e \<or> (\<exists>x. m = Inr x \<and> f x = Inl e)"
  by (cases m) auto

lemma ensure_eq_Inr [result_simps]: "ensure b e = Inr u \<longleftrightarrow> b"
  by (simp add: ensure_def)

lemma ensure_eq_Inl [result_simps]: "ensure b e = Inl e' \<longleftrightarrow> \<not> b \<and> e' = e"
  by (auto simp: ensure_def)

lemma ensure_True [simp]: "ensure True e = Inr ()"
  by (simp add: ensure_def)

lemma ensure_False [simp]: "ensure False e = Inl e"
  by (simp add: ensure_def)

lemma some_or_eq_Inr [result_simps]: "some_or e x = Inr v \<longleftrightarrow> x = Some v"
  by (cases x) (auto simp: some_or_def)

lemma some_or_eq_Inl [result_simps]: "some_or e x = Inl e' \<longleftrightarrow> x = None \<and> e' = e"
  by (cases x) (auto simp: some_or_def)

lemma some_or_None [simp]: "some_or e None = Inl e"
  by (simp add: some_or_def)

lemma some_or_Some [simp]: "some_or e (Some v) = Inr v"
  by (simp add: some_or_def)

section \<open>Tables\<close>

text \<open>
  A table is the list of its rows, in insertion order. \<open>find_by\<close> is
  \<^verbatim>\<open>select(M).where(M.key == k)\<close> read as a scalar, \<open>update_by\<close> an attribute
  assignment on the loaded row, \<open>delete_by\<close> a \<^verbatim>\<open>db.delete\<close>.
\<close>

definition find_by :: "('r \<Rightarrow> 'k) \<Rightarrow> 'k \<Rightarrow> 'r list \<Rightarrow> 'r option" where
  "find_by key k rows = find (\<lambda>r. key r = k) rows"

definition update_by :: "('r \<Rightarrow> 'k) \<Rightarrow> 'k \<Rightarrow> ('r \<Rightarrow> 'r) \<Rightarrow> 'r list \<Rightarrow> 'r list" where
  "update_by key k f rows = map (\<lambda>r. if key r = k then f r else r) rows"

definition delete_by :: "('r \<Rightarrow> 'k) \<Rightarrow> 'k \<Rightarrow> 'r list \<Rightarrow> 'r list" where
  "delete_by key k rows = filter (\<lambda>r. key r \<noteq> k) rows"

lemma find_by_Nil [simp]: "find_by key k [] = None"
  by (simp add: find_by_def)

lemma find_by_Cons [simp]:
  "find_by key k (r # rows) = (if key r = k then Some r else find_by key k rows)"
  by (simp add: find_by_def)

lemma update_by_Nil [simp]: "update_by key k f [] = []"
  by (simp add: update_by_def)

lemma update_by_Cons [simp]:
  "update_by key k f (r # rows) = (if key r = k then f r else r) # update_by key k f rows"
  by (simp add: update_by_def)

lemma delete_by_Nil [simp]: "delete_by key k [] = []"
  by (simp add: delete_by_def)

lemma delete_by_Cons [simp]:
  "delete_by key k (r # rows) = (if key r = k then delete_by key k rows else r # delete_by key k rows)"
  by (simp add: delete_by_def)

lemma find_by_key: "find_by key k rows = Some r \<Longrightarrow> key r = k"
  by (induction rows) (auto split: if_splits)

lemma find_by_in_set: "find_by key k rows = Some r \<Longrightarrow> r \<in> set rows"
  by (induction rows) (auto split: if_splits)

lemma find_by_None_iff: "find_by key k rows = None \<longleftrightarrow> k \<notin> key ` set rows"
  by (induction rows) auto

lemma find_by_append [table_simps]:
  "find_by key k (xs @ ys) = (case find_by key k xs of None \<Rightarrow> find_by key k ys | Some r \<Rightarrow> Some r)"
  by (induction xs) auto

lemma find_by_unique:
  "distinct (map key rows) \<Longrightarrow> r \<in> set rows \<Longrightarrow> find_by key (key r) rows = Some r"
  by (induction rows) force+

lemma keys_update_by:
  assumes "\<And>r. key (f r) = key r"
  shows "map key (update_by key k f rows) = map key rows"
  using assms by (induction rows) auto

lemma find_by_update_by:
  assumes "\<And>r. key (f r) = key r"
  shows "find_by key k' (update_by key k f rows) =
    (if k' = k then map_option f (find_by key k' rows) else find_by key k' rows)"
  using assms by (induction rows) auto

lemma find_by_delete_by [table_simps]:
  "find_by key k' (delete_by key k rows) = (if k' = k then None else find_by key k' rows)"
  by (induction rows) auto

lemma set_update_by: "set (update_by key k f rows) = (\<lambda>r. if key r = k then f r else r) ` set rows"
  by (simp add: update_by_def)

lemma set_delete_by [table_simps]: "set (delete_by key k rows) = {r \<in> set rows. key r \<noteq> k}"
  by (auto simp: delete_by_def)

lemma distinct_delete_by: "distinct (map key rows) \<Longrightarrow> distinct (map key (delete_by key k rows))"
  by (simp add: delete_by_def distinct_map_filter)

lemma length_update_by [simp]: "length (update_by key k f rows) = length rows"
  by (simp add: update_by_def)

lemma update_by_absent: "k \<notin> key ` set rows \<Longrightarrow> update_by key k f rows = rows"
  by (induction rows) auto

lemma update_by_same:
  assumes "\<And>r. r \<in> set rows \<Longrightarrow> key r = k \<Longrightarrow> f r = r"
  shows "update_by key k f rows = rows"
  using assms by (induction rows) auto

lemma in_set_update_byE:
  assumes "r \<in> set (update_by key k f rows)"
  obtains "r \<in> set rows" "key r \<noteq> k" | r0 where "r0 \<in> set rows" "key r0 = k" "r = f r0"
  using assms by (auto simp: set_update_by split: if_splits)

text \<open>
  \<^verbatim>\<open>ORDER BY key LIMIT 1\<close>: the first row of the stable sort by the key.
\<close>

definition first_by :: "('r \<Rightarrow> 'k::linorder) \<Rightarrow> 'r list \<Rightarrow> 'r option" where
  "first_by key rows = (case sort_key key rows of [] \<Rightarrow> None | r # _ \<Rightarrow> Some r)"

lemma sort_key_Nil_iff [simp]: "sort_key key rows = [] \<longleftrightarrow> rows = []"
  by (metis set_empty set_sort)

lemma first_by_None [simp]: "first_by key rows = None \<longleftrightarrow> rows = []"
  by (cases "sort_key key rows") (auto simp: first_by_def split: list.splits)

lemma first_by_Some:
  assumes "first_by key rows = Some r"
  shows "r \<in> set rows \<and> (\<forall>r' \<in> set rows. key r \<le> key r')"
proof -
  obtain rs where eq: "sort_key key rows = r # rs"
    using assms by (auto simp: first_by_def split: list.splits)
  have "sorted (map key (r # rs))"
    using sorted_sort_key [of key rows] by (simp only: eq)
  moreover have "set (r # rs) = set rows"
    using set_sort [of key rows] by (simp only: eq)
  ultimately show ?thesis by auto
qed

lemma first_by_in_set: "first_by key rows = Some r \<Longrightarrow> r \<in> set rows"
  by (simp add: first_by_Some)

text \<open>
  A flush writes a column of a loaded row only if the assignment moved it; otherwise the row keeps what it
  holds by then. The column as it was loaded, as it was assigned and as it is now:
\<close>

definition moved :: "'a \<Rightarrow> 'a \<Rightarrow> 'a \<Rightarrow> 'a" where
  "moved old new current = (if new = old then current else new)"

text \<open>The repository interface every table of the code is read and written through.\<close>

locale repository =
  fixes key :: "'r \<Rightarrow> 'k"
    and get :: "'k \<Rightarrow> 't \<Rightarrow> 'r option"
    and add :: "'r \<Rightarrow> 't \<Rightarrow> 't"
    and remove :: "'k \<Rightarrow> 't \<Rightarrow> 't"
    and rows :: "'t \<Rightarrow> 'r list"
  assumes get_find: "get k t = find_by key k (rows t)"
    and rows_add: "rows (add r t) = rows t @ [r]"
    and rows_remove: "rows (remove k t) = delete_by key k (rows t)"
begin

lemma get_add_new: "get (key r) t = None \<Longrightarrow> get (key r) (add r t) = Some r"
  by (simp add: get_find rows_add find_by_append)

lemma get_add_other: "k \<noteq> key r \<Longrightarrow> get k (add r t) = get k t"
  by (simp add: get_find rows_add find_by_append split: option.split)

lemma get_remove: "get k' (remove k t) = (if k' = k then None else get k' t)"
  by (simp add: get_find rows_remove find_by_delete_by)

lemma get_key: "get k t = Some r \<Longrightarrow> key r = k \<and> r \<in> set (rows t)"
  by (auto simp: get_find dest: find_by_key find_by_in_set)

lemma unique_add: "distinct (map key (rows t)) \<Longrightarrow> get (key r) t = None \<Longrightarrow> distinct (map key (rows (add r t)))"
  by (auto simp: get_find rows_add find_by_None_iff)

lemma unique_remove: "distinct (map key (rows t)) \<Longrightarrow> distinct (map key (rows (remove k t)))"
  by (simp add: rows_remove distinct_delete_by)

end

section \<open>Strings\<close>

text \<open>\<^verbatim>\<open>str.lower\<close> on the ASCII letters.\<close>

definition lower_char :: "char \<Rightarrow> char" where
  "lower_char c = (if 65 \<le> (of_char c :: nat) \<and> (of_char c :: nat) \<le> 90
     then char_of ((of_char c :: nat) + 32) else c)"

definition lower :: "string \<Rightarrow> string" where
  "lower s = map lower_char s"

lemma lower_char_idem: "lower_char (lower_char c) = lower_char c"
  by (auto simp: lower_char_def)

lemma lower_idem [simp]: "lower (lower s) = lower s"
  by (simp add: lower_def lower_char_idem)

text \<open>
  \<^verbatim>\<open>str.strip\<close> on ASCII whitespace, and SQL \<^verbatim>\<open>LIKE\<close> as PostgreSQL
  matches it: \<^verbatim>\<open>%\<close> any string, \<^verbatim>\<open>_\<close> any character, a backslash takes the
  next pattern character literally (the patterns of the code never end in one).
\<close>

definition is_space :: "char \<Rightarrow> bool" where
  "is_space c \<longleftrightarrow> c = CHR 0x20 \<or> (0x09 \<le> (of_char c :: nat) \<and> (of_char c :: nat) \<le> 0x0D) \<or>
     (0x1C \<le> (of_char c :: nat) \<and> (of_char c :: nat) \<le> 0x1F)"

definition strip :: "string \<Rightarrow> string" where
  "strip s = rev (dropWhile is_space (rev (dropWhile is_space s)))"

fun like :: "string \<Rightarrow> string \<Rightarrow> bool" where
  "like [] s \<longleftrightarrow> s = []"
| "like (p # ps) s \<longleftrightarrow>
     (if p = CHR ''%'' then like ps s \<or> (case s of [] \<Rightarrow> False | c # t \<Rightarrow> like (p # ps) t)
      else if p = CHR ''_'' then (case s of [] \<Rightarrow> False | c # t \<Rightarrow> like ps t)
      else if p = CHR 0x5C then
        (case (ps, s) of (q # qs, c # t) \<Rightarrow> c = q \<and> like qs t | _ \<Rightarrow> False)
      else (case s of [] \<Rightarrow> False | c # t \<Rightarrow> c = p \<and> like ps t))"

definition ilike :: "string \<Rightarrow> string \<Rightarrow> bool" where
  "ilike pattern s = like (lower pattern) (lower s)"

definition contains_pattern :: "string \<Rightarrow> string" where
  "contains_pattern s = ''%'' @ strip s @ ''%''"

text \<open>
  The decimal text of a number, and the text of an identifier: \<^verbatim>\<open>str(uuid)\<close> is another
  injective text, which the code only compares and embeds.
\<close>

fun digits :: "nat \<Rightarrow> string" where
  "digits n = (if n < 10 then [char_of (48 + n)] else digits (n div 10) @ [char_of (48 + n mod 10)])"

declare digits.simps [simp del]

lemma digits_nth_char: "n < 10 \<Longrightarrow> m < 10 \<Longrightarrow> char_of (48 + n) = (char_of (48 + m) :: char) \<longleftrightarrow> n = (m :: nat)"
  by (auto simp: char_of_eq_iff take_bit_nat_def)

lemma digits_inj: "digits n = digits m \<longleftrightarrow> n = m"
proof (induction n arbitrary: m rule: digits.induct)
  case (1 n)
  have ne: "digits k \<noteq> []" for k by (subst digits.simps) simp
  show ?case
  proof (cases "n < 10"; cases "m < 10")
    assume "n < 10" "m < 10"
    then show ?thesis by (subst (1 2) digits.simps) (simp add: digits_nth_char)
  next
    assume "n < 10" "\<not> m < 10"
    then show ?thesis using ne [of "m div 10"] by (subst (1 2) digits.simps) auto
  next
    assume "\<not> n < 10" "m < 10"
    then show ?thesis using ne [of "n div 10"] by (subst (1 2) digits.simps) auto
  next
    assume *: "\<not> n < 10" "\<not> m < 10"
    have "digits n = digits m \<longleftrightarrow> n div 10 = m div 10 \<and> n mod 10 = m mod 10"
      using * 1 [OF *(1), of "m div 10"] by (subst (1 2) digits.simps) (simp add: digits_nth_char)
    then show ?thesis by (metis div_mult_mod_eq)
  qed
qed

definition uuid_str :: "uuid \<Rightarrow> string" where
  "uuid_str = digits"

lemma uuid_str_inj [simp]: "uuid_str i = uuid_str j \<longleftrightarrow> i = j"
  by (simp add: uuid_str_def digits_inj)

section \<open>Pages\<close>

text \<open>
  \<^verbatim>\<open>PaginationParams\<close>: FastAPI admits pages from 1 and sizes from 1 to 100.
\<close>

record pagination =
  pg_page :: nat
  pg_page_size :: nat

definition pagination_ok :: "pagination \<Rightarrow> bool" where
  "pagination_ok p \<longleftrightarrow> 1 \<le> pg_page p \<and> 1 \<le> pg_page_size p \<and> pg_page_size p \<le> 100"

definition pg_offset :: "pagination \<Rightarrow> nat" where
  "pg_offset p = (pg_page p - 1) * pg_page_size p"

definition page_of :: "nat \<Rightarrow> nat \<Rightarrow> 'a list \<Rightarrow> 'a list" where
  "page_of offset limit rows = take limit (drop offset rows)"

definition pages_upto :: "nat \<Rightarrow> nat \<Rightarrow> 'a list \<Rightarrow> 'a list" where
  "pages_upto n sz rows =
     concat (map (\<lambda>k. page_of (pg_offset \<lparr>pg_page = Suc k, pg_page_size = sz\<rparr>) sz rows) [0..<n])"

lemma set_page_of: "set (page_of o' l rows) \<subseteq> set rows"
  by (auto simp: page_of_def dest: in_set_takeD in_set_dropD)

lemma length_page_of: "length (page_of o' l rows) \<le> l"
  by (simp add: page_of_def)

text \<open>Successive pages partition the listing: none of its rows is skipped or repeated.\<close>

lemma pages_upto_take: "pages_upto n sz rows = take (n * sz) rows"
proof (induction n)
  case (Suc n)
  have "pages_upto (Suc n) sz rows = pages_upto n sz rows @ take sz (drop (n * sz) rows)"
    by (simp add: pages_upto_def page_of_def pg_offset_def)
  with Suc show ?case by (simp add: take_add add.commute [of sz])
qed (simp add: pages_upto_def)

lemma pages_cover: "length rows \<le> n * sz \<Longrightarrow> pages_upto n sz rows = rows"
  by (simp add: pages_upto_take)

end
