(* ===== verification/Enums.thy ===== *)
theory Enums
  imports Prelude
begin

text \<open>
  The enumerations of \<^verbatim>\<open>app/models/enums.py\<close> that the modelled services use, and the
  application errors of \<^verbatim>\<open>app/core/exceptions.py\<close>. Every Python enum is a
  \<^verbatim>\<open>str\<close> enum: a member is stored as its value and read back by the enum's
  constructor, which is the interface \<open>str_enum\<close>.
\<close>

section \<open>String enumerations\<close>

text \<open>\<^verbatim>\<open>E(value)\<close>: the member with that value, or \<^verbatim>\<open>ValueError\<close>.\<close>

definition enum_parse :: "('e \<Rightarrow> string) \<Rightarrow> 'e list \<Rightarrow> string \<Rightarrow> 'e option" where
  "enum_parse val members s = find (\<lambda>x. val x = s) members"

locale str_enum =
  fixes val :: "'e \<Rightarrow> string"
    and members :: "'e list"
  assumes val_inj: "val x = val y \<Longrightarrow> x = y"
    and members_all: "x \<in> set members"
    and members_distinct: "distinct members"
begin

lemma parse_val: "enum_parse val members (val x) = Some x"
proof -
  have "\<exists>y. enum_parse val members (val x) = Some y"
    using members_all [of x] by (cases "find (\<lambda>y. val y = val x) members")
      (auto simp: enum_parse_def find_None_iff)
  then show ?thesis
    by (auto simp: enum_parse_def find_Some_iff dest: val_inj)
qed

lemma parse_eq_Some: "enum_parse val members s = Some x \<longleftrightarrow> s = val x"
  using parse_val by (auto simp: enum_parse_def find_Some_iff)

lemma parse_eq_None: "enum_parse val members s = None \<longleftrightarrow> (\<forall>x. s \<noteq> val x)"
  using parse_eq_Some by (metis not_Some_eq option.distinct(1))

text \<open>A list comprehension over the class, as the code writes to normalise a set of members.\<close>

lemma members_filter_set: "set (filter P members) = {x. P x}"
  using members_all by auto

lemma members_filter_distinct: "distinct (filter P members)"
  using members_distinct by simp

end

section \<open>Users and per-client capabilities\<close>

datatype user_role = Role_admin | Role_manager | Role_user

fun role_value :: "user_role \<Rightarrow> string" where
  "role_value Role_admin = ''admin''"
| "role_value Role_manager = ''manager''"
| "role_value Role_user = ''user''"

datatype capability =
    Cap_manage_integrations
  | Cap_review_results
  | Cap_review_creatives
  | Cap_manage_calendar
  | Cap_manage_compliance
  | Cap_manage_campaigns
  | Cap_admin

fun cap_value :: "capability \<Rightarrow> string" where
  "cap_value Cap_manage_integrations = ''manage_integrations''"
| "cap_value Cap_review_results = ''review_results''"
| "cap_value Cap_review_creatives = ''review_creatives''"
| "cap_value Cap_manage_calendar = ''manage_calendar''"
| "cap_value Cap_manage_compliance = ''manage_compliance''"
| "cap_value Cap_manage_campaigns = ''manage_campaigns''"
| "cap_value Cap_admin = ''admin''"

definition all_caps :: "capability list" where
  "all_caps = [Cap_manage_integrations, Cap_review_results, Cap_review_creatives,
     Cap_manage_calendar, Cap_manage_compliance, Cap_manage_campaigns, Cap_admin]"

interpretation cap_enum: str_enum cap_value all_caps
proof
  fix x y :: capability
  show "cap_value x = cap_value y \<Longrightarrow> x = y" by (cases x; cases y) simp_all
  show "x \<in> set all_caps" by (cases x) (simp_all add: all_caps_def)
qed (simp add: all_caps_def)

definition parse_cap :: "string \<Rightarrow> capability option" where
  "parse_cap s = enum_parse cap_value all_caps s"

lemma parse_cap_value [simp]: "parse_cap (cap_value c) = Some c"
  by (simp add: parse_cap_def cap_enum.parse_val)

section \<open>The intelligence job queue\<close>

datatype job_type = Job_full_build | Job_incremental

fun job_type_value :: "job_type \<Rightarrow> string" where
  "job_type_value Job_full_build = ''full_build''"
| "job_type_value Job_incremental = ''incremental''"

datatype job_status = Job_queued | Job_running | Job_succeeded | Job_failed | Job_dead

fun job_status_value :: "job_status \<Rightarrow> string" where
  "job_status_value Job_queued = ''queued''"
| "job_status_value Job_running = ''running''"
| "job_status_value Job_succeeded = ''succeeded''"
| "job_status_value Job_failed = ''failed''"
| "job_status_value Job_dead = ''dead''"

section \<open>Clients and the task board\<close>

datatype client_status = Client_draft | Client_active | Client_inactive | Client_paused
  | Client_onboarding | Client_archived

fun client_status_value :: "client_status \<Rightarrow> string" where
  "client_status_value Client_draft = ''draft''"
| "client_status_value Client_active = ''active''"
| "client_status_value Client_inactive = ''inactive''"
| "client_status_value Client_paused = ''paused''"
| "client_status_value Client_onboarding = ''onboarding''"
| "client_status_value Client_archived = ''archived''"

datatype task_status = Task_todo | Task_in_progress | Task_blocked | Task_done

fun task_status_value :: "task_status \<Rightarrow> string" where
  "task_status_value Task_todo = ''todo''"
| "task_status_value Task_in_progress = ''in_progress''"
| "task_status_value Task_blocked = ''blocked''"
| "task_status_value Task_done = ''done''"

datatype task_priority = Priority_low | Priority_medium | Priority_high | Priority_urgent

fun task_priority_value :: "task_priority \<Rightarrow> string" where
  "task_priority_value Priority_low = ''low''"
| "task_priority_value Priority_medium = ''medium''"
| "task_priority_value Priority_high = ''high''"
| "task_priority_value Priority_urgent = ''urgent''"

datatype task_category = Cat_strategy | Cat_creative | Cat_ads | Cat_content | Cat_analytics
  | Cat_compliance | Cat_admin

fun task_category_value :: "task_category \<Rightarrow> string" where
  "task_category_value Cat_strategy = ''strategy''"
| "task_category_value Cat_creative = ''creative''"
| "task_category_value Cat_ads = ''ads''"
| "task_category_value Cat_content = ''content''"
| "task_category_value Cat_analytics = ''analytics''"
| "task_category_value Cat_compliance = ''compliance''"
| "task_category_value Cat_admin = ''admin''"

section \<open>The change-proposal engine\<close>

datatype proposal_status = Prop_draft | Prop_pending_approval | Prop_executing | Prop_completed
  | Prop_failed | Prop_cancelled | Prop_expired

datatype operation_status = Op_pending | Op_executed | Op_failed | Op_skipped

datatype operation_type = Op_create | Op_update | Op_delete | Op_assign | Op_unassign

fun operation_type_value :: "operation_type \<Rightarrow> string" where
  "operation_type_value Op_create = ''create''"
| "operation_type_value Op_update = ''update''"
| "operation_type_value Op_delete = ''delete''"
| "operation_type_value Op_assign = ''assign''"
| "operation_type_value Op_unassign = ''unassign''"

section \<open>Application errors\<close>

text \<open>
  The \<^verbatim>\<open>AppError\<close> subclasses that services raise. Any other exception (a database
  integrity error at flush, a missing payload key) is a \<open>Crash\<close>: no service catches it as
  an \<^verbatim>\<open>AppError\<close>, and the last-resort handler answers 500.
\<close>

datatype err_class = BadRequestError | AuthError | ForbiddenError | NotFoundError | ConflictError
  | PayloadTooLargeError | UnsupportedMediaTypeError | TooManyRequestsError
  | ServiceUnavailableError | ProviderAuthError | CapabilityDeniedError

datatype exn = AppError err_class string | Crash string

fun err_status_code :: "err_class \<Rightarrow> int" where
  "err_status_code BadRequestError = 400"
| "err_status_code AuthError = 401"
| "err_status_code ForbiddenError = 403"
| "err_status_code NotFoundError = 404"
| "err_status_code ConflictError = 409"
| "err_status_code PayloadTooLargeError = 413"
| "err_status_code UnsupportedMediaTypeError = 415"
| "err_status_code TooManyRequestsError = 429"
| "err_status_code ServiceUnavailableError = 503"
| "err_status_code ProviderAuthError = 400"
| "err_status_code CapabilityDeniedError = 409"

fun err_code :: "err_class \<Rightarrow> string" where
  "err_code BadRequestError = ''bad_request''"
| "err_code AuthError = ''unauthorized''"
| "err_code ForbiddenError = ''forbidden''"
| "err_code NotFoundError = ''not_found''"
| "err_code ConflictError = ''conflict''"
| "err_code PayloadTooLargeError = ''payload_too_large''"
| "err_code UnsupportedMediaTypeError = ''unsupported_media_type''"
| "err_code TooManyRequestsError = ''too_many_requests''"
| "err_code ServiceUnavailableError = ''service_unavailable''"
| "err_code ProviderAuthError = ''provider_auth_error''"
| "err_code CapabilityDeniedError = ''capability_denied''"

text \<open>The error envelope: the HTTP status, the code and the message the handlers answer with.\<close>

fun handle_error :: "exn \<Rightarrow> int \<times> string \<times> string" where
  "handle_error (AppError c msg) = (err_status_code c, err_code c, msg)"
| "handle_error (Crash msg) = (500, ''internal_error'', ''An unexpected error occurred.'')"

definition not_found :: "string \<Rightarrow> exn" where
  "not_found msg = AppError NotFoundError msg"

definition forbidden :: "string \<Rightarrow> exn" where
  "forbidden msg = AppError ForbiddenError msg"

definition conflict :: "string \<Rightarrow> exn" where
  "conflict msg = AppError ConflictError msg"

definition bad_request :: "string \<Rightarrow> exn" where
  "bad_request msg = AppError BadRequestError msg"

lemmas exn_defs = not_found_def forbidden_def conflict_def bad_request_def

lemma crash_never_leaks: "handle_error (Crash m1) = handle_error (Crash m2)"
  by simp

end
