(* ===== verification/Database.thy ===== *)
theory Database
  imports Enums
begin

text \<open>
  The rows of the tables the modelled services share (\<^verbatim>\<open>app/models\<close>), the database as the
  record of its tables, and the constraints the database enforces when the session flushes.

  An ORM attribute is an \<open>option\<close> wherever the code can hold \<^verbatim>\<open>None\<close> in it, also
  when its column is \<^verbatim>\<open>NOT NULL\<close>: the session accepts the assignment and the
  database refuses it at the flush, which is where the model refuses it.
\<close>

section \<open>JSON values and audit diffs\<close>

text \<open>
  A \<open>JDate\<close>, \<open>JTime\<close> or \<open>JUuid\<close> is the ISO or hexadecimal text that
  \<^verbatim>\<open>_audit_value\<close> writes for the value it carries.
\<close>

datatype jval = JNull | JStr string | JBool bool | JInt int | JDate date | JTime time | JUuid uuid
  | JList "jval list" | JObj "(string \<times> jval) list"

text \<open>A dict \<^verbatim>\<open>{field: value}\<close> and a diff \<^verbatim>\<open>{field: {before, after}}\<close>, in key order.\<close>

type_synonym jdict = "(string \<times> jval) list"
type_synonym changes = "(string \<times> jval \<times> jval) list"

fun jopt :: "('a \<Rightarrow> jval) \<Rightarrow> 'a option \<Rightarrow> jval" where
  "jopt f None = JNull"
| "jopt f (Some x) = f x"

section \<open>Rows\<close>

record user =
  u_id :: uuid
  u_email :: string
  u_name :: string
  u_password_hash :: string
  u_role :: user_role
  u_avatar_url :: "string option"
  u_is_active :: bool
  u_last_login_at :: "datetime option"
  u_created_at :: datetime
  u_updated_at :: datetime

record user_session =
  s_id :: uuid
  s_user_id :: uuid
  s_token_hash :: string
  s_user_agent :: "string option"
  s_ip_address :: "string option"
  s_expires_at :: datetime
  s_created_at :: datetime

record client =
  c_id :: uuid
  c_name :: "string option"
  c_business_type :: "string option"
  c_industry :: "string option"
  c_website :: "string option"
  c_location :: "string option"
  c_timezone :: "string option"
  c_language :: "string option"
  c_markets :: "string option"
  c_about_brand :: "string option"
  c_brand_voice :: "string option"
  c_brand_extracted :: "string option"
  c_color_guidelines :: "string option"
  c_logo_url :: "string option"
  c_status :: "client_status option"
  c_colors :: "(string \<times> string option \<times> int) list"
  c_fonts :: "string list"
  c_created_at :: datetime
  c_updated_at :: datetime

record assignment =
  a_id :: uuid
  a_client_id :: uuid
  a_user_id :: uuid
  a_assigned_by :: "uuid option"
  a_capabilities :: "string list option"
  a_created_at :: datetime

record plan_task =
  t_id :: uuid
  t_client_id :: uuid
  t_title :: "string option"
  t_description :: "string option"
  t_requirements :: "string option"
  t_category :: "task_category option"
  t_status :: "task_status option"
  t_priority :: "task_priority option"
  t_assignee_id :: "uuid option"
  t_event_id :: "uuid option"
  t_start_date :: "date option"
  t_due_date :: "date option"
  t_start_time :: "time option"
  t_end_time :: "time option"
  t_created_by :: "uuid option"
  t_archived :: "bool option"
  t_created_at :: datetime
  t_updated_at :: datetime

record plan_task_asset =
  pa_id :: uuid
  pa_task_id :: uuid
  pa_url :: string
  pa_label :: "string option"
  pa_position :: nat
  pa_created_at :: datetime

record plan_task_note =
  pn_id :: uuid
  pn_task_id :: uuid
  pn_user_id :: "uuid option"
  pn_body :: string
  pn_created_at :: datetime

record intel_job =
  j_id :: uuid
  j_client_id :: uuid
  j_type :: job_type
  j_status :: job_status
  j_changed_keys :: "string list option"
  j_priority :: int
  j_run_after :: "datetime option"
  j_attempts :: nat
  j_max_attempts :: nat
  j_locked_by :: "string option"
  j_locked_at :: "datetime option"
  j_last_error :: "string option"
  j_created_at :: datetime

record audit_log =
  au_id :: uuid
  au_actor_user_id :: "uuid option"
  au_client_id :: "uuid option"
  au_proposal_id :: "uuid option"
  au_entity :: string
  au_entity_id :: "uuid option"
  au_action :: string
  au_target_label :: "string option"
  au_meta :: "jdict option"
  au_changes :: "changes option"
  au_created_at :: datetime

section \<open>Request schemas the proposal payloads carry\<close>

text \<open>
  \<^verbatim>\<open>model_fields_set\<close> of a partial update is the list of the fields present in the
  body; the other attributes hold the schema's default \<^verbatim>\<open>None\<close>.
\<close>

record plan_task_create =
  tc_title :: string
  tc_description :: "string option"
  tc_requirements :: "string option"
  tc_category :: task_category
  tc_status :: task_status
  tc_priority :: task_priority
  tc_assignee_id :: "uuid option"
  tc_start_date :: "date option"
  tc_due_date :: "date option"
  tc_start_time :: "time option"
  tc_end_time :: "time option"

datatype task_field = TF_title | TF_description | TF_requirements | TF_category | TF_status
  | TF_priority | TF_assignee_id | TF_start_date | TF_due_date | TF_start_time | TF_end_time
  | TF_archived

record plan_task_update =
  tu_fields :: "task_field list"
  tu_title :: "string option"
  tu_description :: "string option"
  tu_requirements :: "string option"
  tu_category :: "task_category option"
  tu_status :: "task_status option"
  tu_priority :: "task_priority option"
  tu_assignee_id :: "uuid option"
  tu_start_date :: "date option"
  tu_due_date :: "date option"
  tu_start_time :: "time option"
  tu_end_time :: "time option"
  tu_archived :: "bool option"

datatype client_field = CF_name | CF_business_type | CF_industry | CF_website | CF_location
  | CF_language | CF_timezone | CF_markets | CF_status

record client_update =
  cu_fields :: "client_field list"
  cu_name :: "string option"
  cu_business_type :: "string option"
  cu_industry :: "string option"
  cu_website :: "string option"
  cu_location :: "string option"
  cu_language :: "string option"
  cu_timezone :: "string option"
  cu_markets :: "string option"
  cu_status :: "client_status option"

datatype brand_field = BF_about_brand | BF_brand_voice | BF_brand_extracted | BF_colors | BF_fonts
  | BF_color_guidelines | BF_logo_url

record brand_update =
  bu_fields :: "brand_field list"
  bu_about_brand :: "string option"
  bu_brand_voice :: "string option"
  bu_brand_extracted :: "string option"
  bu_colors :: "(string \<times> string option) list option"
  bu_fonts :: "string list option"
  bu_color_guidelines :: "string option"
  bu_logo_url :: "string option"

record user_update =
  uu_name :: "string option"
  uu_role :: "user_role option"
  uu_is_active :: "bool option"

section \<open>Change proposals\<close>

text \<open>
  A payload is the JSON dict of an operation: every key it may hold, \<open>None\<close> when absent. The
  value under \<^verbatim>\<open>"data"\<close> is one of the request schemas.
\<close>

datatype op_data =
    Data_task_create plan_task_create
  | Data_task_update plan_task_update
  | Data_note_create string
  | Data_client_update client_update
  | Data_brand_update brand_update
  | Data_user_update user_update

record payload =
  pl_data :: "op_data option"
  pl_created_by :: "uuid option"
  pl_source_task_id :: "uuid option"
  pl_task_id :: "uuid option"
  pl_user_id :: "uuid option"
  pl_assigned_by :: "uuid option"
  pl_capabilities :: "string list option"

definition empty_payload :: payload where
  "empty_payload = \<lparr>pl_data = None, pl_created_by = None, pl_source_task_id = None,
     pl_task_id = None, pl_user_id = None, pl_assigned_by = None, pl_capabilities = None\<rparr>"

record proposed_operation =
  o_seq :: nat
  o_operation_type :: operation_type
  o_entity_type :: string
  o_entity_id :: "uuid option"
  o_entity_label :: "string option"
  o_field_changes :: "changes option"
  o_payload :: payload
  o_base_snapshot :: "datetime option"
  o_required_capability :: "string option"
  o_requires_admin :: bool
  o_status :: operation_status
  o_error :: "string option"

record change_proposal =
  p_id :: uuid
  p_client_id :: uuid
  p_chat_id :: "uuid option"
  p_message_id :: "uuid option"
  p_created_by_user_id :: "uuid option"
  p_status :: proposal_status
  p_raw_request :: "string option"
  p_summary :: "string option"
  p_error :: "string option"
  p_created_at :: datetime
  p_expires_at :: "datetime option"
  p_approved_by_user_id :: "uuid option"
  p_approved_at :: "datetime option"
  p_executed_at :: "datetime option"
  p_operations :: "proposed_operation list"

section \<open>The database\<close>

text \<open>
  \<open>d_next_id\<close> is the supply of identifiers: \<^verbatim>\<open>uuid.uuid4\<close> draws an identifier
  that no row carries yet, which the model makes literal.
\<close>

record db =
  d_users :: "user list"
  d_sessions :: "user_session list"
  d_clients :: "client list"
  d_assignments :: "assignment list"
  d_tasks :: "plan_task list"
  d_assets :: "plan_task_asset list"
  d_notes :: "plan_task_note list"
  d_jobs :: "intel_job list"
  d_proposals :: "change_proposal list"
  d_audit :: "audit_log list"
  d_next_id :: uuid

text \<open>
  The environment of a request: the instant the transaction reads as \<^verbatim>\<open>now\<close>, the
  server's day and the settings the services consult.
\<close>

record env =
  e_now :: datetime
  e_today :: date
  e_intel_enabled :: bool

text \<open>A session operation: it reads and changes the session's view of the database, or raises.\<close>

type_synonym 'a op = "db \<Rightarrow> exn + ('a \<times> db)"

definition fresh_id :: "uuid op" where
  "fresh_id d = Inr (d_next_id d, d\<lparr>d_next_id := Suc (d_next_id d)\<rparr>)"

section \<open>Constraints the database enforces at flush\<close>

definition len_ok :: "nat \<Rightarrow> string option \<Rightarrow> bool" where
  "len_ok n s = (case s of None \<Rightarrow> True | Some x \<Rightarrow> length x \<le> n)"

definition fk_ok :: "uuid set \<Rightarrow> uuid option \<Rightarrow> bool" where
  "fk_ok ids r = (case r of None \<Rightarrow> True | Some i \<Rightarrow> i \<in> ids)"

definition user_row_ok :: "user \<Rightarrow> bool" where
  "user_row_ok u \<longleftrightarrow> length (u_email u) \<le> 255 \<and> length (u_name u) \<le> 120"

definition client_row_ok :: "client \<Rightarrow> bool" where
  "client_row_ok c \<longleftrightarrow> c_name c \<noteq> None \<and> c_status c \<noteq> None \<and> len_ok 160 (c_name c) \<and>
     len_ok 120 (c_business_type c) \<and> len_ok 120 (c_industry c) \<and> len_ok 255 (c_website c) \<and>
     len_ok 160 (c_location c) \<and> len_ok 60 (c_timezone c) \<and> len_ok 60 (c_language c) \<and>
     list_all (\<lambda>(hex, label, pos). length hex \<le> 9 \<and> len_ok 60 label) (c_colors c) \<and>
     list_all (\<lambda>f. length f \<le> 120) (c_fonts c)"

definition task_row_ok :: "plan_task \<Rightarrow> bool" where
  "task_row_ok t \<longleftrightarrow> t_title t \<noteq> None \<and> t_category t \<noteq> None \<and> t_status t \<noteq> None \<and>
     t_priority t \<noteq> None \<and> t_archived t \<noteq> None \<and> len_ok 200 (t_title t)"

text \<open>
  Primary keys, unique constraints, \<^verbatim>\<open>NOT NULL\<close>, \<^verbatim>\<open>VARCHAR\<close> bounds
  (PostgreSQL) and the foreign keys between the modelled tables.
\<close>

definition db_constraints :: "db \<Rightarrow> bool" where
  "db_constraints d \<longleftrightarrow>
     distinct (map u_id (d_users d)) \<and> distinct (map u_email (d_users d)) \<and>
     list_all user_row_ok (d_users d) \<and>
     distinct (map s_token_hash (d_sessions d)) \<and>
     list_all (\<lambda>s. s_user_id s \<in> u_id ` set (d_users d) \<and> len_ok 64 (s_ip_address s)) (d_sessions d) \<and>
     distinct (map c_id (d_clients d)) \<and> list_all client_row_ok (d_clients d) \<and>
     distinct (map (\<lambda>a. (a_client_id a, a_user_id a)) (d_assignments d)) \<and>
     list_all (\<lambda>a. a_client_id a \<in> c_id ` set (d_clients d) \<and>
       a_user_id a \<in> u_id ` set (d_users d) \<and>
       fk_ok (u_id ` set (d_users d)) (a_assigned_by a)) (d_assignments d) \<and>
     distinct (map t_id (d_tasks d)) \<and> list_all task_row_ok (d_tasks d) \<and>
     list_all (\<lambda>t. t_client_id t \<in> c_id ` set (d_clients d) \<and>
       fk_ok (u_id ` set (d_users d)) (t_assignee_id t) \<and>
       fk_ok (u_id ` set (d_users d)) (t_created_by t)) (d_tasks d) \<and>
     distinct (map pa_id (d_assets d)) \<and>
     list_all (\<lambda>a. pa_task_id a \<in> t_id ` set (d_tasks d) \<and> len_ok 200 (pa_label a)) (d_assets d) \<and>
     list_all (\<lambda>n. pn_task_id n \<in> t_id ` set (d_tasks d) \<and>
       fk_ok (u_id ` set (d_users d)) (pn_user_id n)) (d_notes d) \<and>
     distinct (map j_id (d_jobs d)) \<and>
     list_all (\<lambda>j. j_client_id j \<in> c_id ` set (d_clients d)) (d_jobs d) \<and>
     distinct (map p_id (d_proposals d)) \<and>
     list_all (\<lambda>p. p_client_id p \<in> c_id ` set (d_clients d) \<and>
       list_all (\<lambda>x. len_ok 200 (o_entity_label x)) (p_operations p)) (d_proposals d)"

text \<open>
  A flush sends the pending statements; a statement that breaks a constraint raises a
  \<^verbatim>\<open>DBAPIError\<close>, which is no \<^verbatim>\<open>AppError\<close>.
\<close>

definition flush :: "unit op" where
  "flush d = (if db_constraints d then Inr ((), d) else Inl (Crash ''DBAPIError''))"

lemma flush_eq_Inr [result_simps]: "flush d = Inr (u, d') \<longleftrightarrow> db_constraints d \<and> d' = d"
  by (auto simp: flush_def)

lemma flush_eq_Inl [result_simps]:
  "flush d = Inl e \<longleftrightarrow> \<not> db_constraints d \<and> e = Crash ''DBAPIError''"
  by (auto simp: flush_def)

text \<open>
  \<^verbatim>\<open>onupdate=func.now()\<close>: the column moves only if the row's other columns did. Brand
  colours and fonts are rows of child tables, not columns of the client.
\<close>

definition touch_task :: "datetime \<Rightarrow> plan_task \<Rightarrow> plan_task \<Rightarrow> plan_task" where
  "touch_task now old new = (if new = old then old else new\<lparr>t_updated_at := now\<rparr>)"

definition touch_client :: "datetime \<Rightarrow> client \<Rightarrow> client \<Rightarrow> client" where
  "touch_client now old new =
     (if new\<lparr>c_colors := c_colors old, c_fonts := c_fonts old\<rparr> = old then new
      else new\<lparr>c_updated_at := now\<rparr>)"

definition touch_user :: "datetime \<Rightarrow> user \<Rightarrow> user \<Rightarrow> user" where
  "touch_user now old new = (if new = old then old else new\<lparr>u_updated_at := now\<rparr>)"

section \<open>Sample rows\<close>

text \<open>A database with no rows, and rows the witnesses vary.\<close>

definition empty_db :: db where
  "empty_db = \<lparr>d_users = [], d_sessions = [], d_clients = [], d_assignments = [], d_tasks = [],
     d_assets = [], d_notes = [], d_jobs = [], d_proposals = [], d_audit = [], d_next_id = 100\<rparr>"

definition sample_env :: env where
  "sample_env = \<lparr>e_now = 1000, e_today = 10, e_intel_enabled = True\<rparr>"

definition sample_user :: "uuid \<Rightarrow> user_role \<Rightarrow> user" where
  "sample_user i r = \<lparr>u_id = i, u_email = replicate i CHR ''a'' @ ''@x.io'', u_name = ''A'',
     u_password_hash = ''h'', u_role = r, u_avatar_url = None, u_is_active = True,
     u_last_login_at = None, u_created_at = 0, u_updated_at = 0\<rparr>"

definition sample_client :: "uuid \<Rightarrow> client" where
  "sample_client i = \<lparr>c_id = i, c_name = Some ''Acme'', c_business_type = None, c_industry = None,
     c_website = None, c_location = None, c_timezone = None, c_language = None, c_markets = None,
     c_about_brand = None, c_brand_voice = None, c_brand_extracted = None,
     c_color_guidelines = None, c_logo_url = None, c_status = Some Client_active, c_colors = [],
     c_fonts = [], c_created_at = 0, c_updated_at = 0\<rparr>"

definition sample_task :: "uuid \<Rightarrow> uuid \<Rightarrow> plan_task" where
  "sample_task i cid = \<lparr>t_id = i, t_client_id = cid, t_title = Some ''Post'', t_description = None,
     t_requirements = None, t_category = Some Cat_content, t_status = Some Task_in_progress,
     t_priority = Some Priority_high, t_assignee_id = None, t_event_id = None, t_start_date = Some 10,
     t_due_date = Some 12, t_start_time = None, t_end_time = None, t_created_by = None,
     t_archived = Some False, t_created_at = 0, t_updated_at = 0\<rparr>"

end
