(* ===== verification/Job_Queue.thy ===== *)
theory Job_Queue
  imports Database
begin

text \<open>
  The durable job queue of the intelligence pipeline:
  \<^verbatim>\<open>app/services/intelligence/job_queue.py\<close>, its repository and the worker's
  \<^verbatim>\<open>process_job\<close>. The state is the table \<^verbatim>\<open>intel_jobs\<close>; a worker process
  also keeps the instant of its last stale-job sweep.

  \<open>claim_loop\<close> takes the table each of its two queries sees at each attempt, because other
  workers commit between them; \<open>claim_next\<close> is the call no other worker interferes with.
\<close>

section \<open>Constants\<close>

definition seconds :: "int \<Rightarrow> int" where
  "seconds n = n * 1000000"

definition STALE_RUNNING_TIMEOUT :: int where
  "STALE_RUNNING_TIMEOUT = seconds 1800"

definition RECLAIM_INTERVAL :: int where
  "RECLAIM_INTERVAL = seconds 60"

definition MAX_CLAIM_ATTEMPTS :: nat where
  "MAX_CLAIM_ATTEMPTS = 5"

section \<open>Producer side\<close>

definition pending_for_client :: "uuid \<Rightarrow> intel_job list \<Rightarrow> intel_job option" where
  "pending_for_client cid jobs =
     first_by j_created_at (filter (\<lambda>j. j_client_id j = cid \<and> j_status j = Job_queued) jobs)"

definition latest_for_client :: "uuid \<Rightarrow> intel_job list \<Rightarrow> intel_job option" where
  "latest_for_client cid jobs =
     first_by (\<lambda>j. - j_created_at j) (filter (\<lambda>j. j_client_id j = cid) jobs)"

text \<open>\<^verbatim>\<open>sorted(set(keys))\<close>\<close>

definition sorted_set :: "string list \<Rightarrow> string list" where
  "sorted_set ks = sort (remdups ks)"

definition keys_or_empty :: "string list option \<Rightarrow> string list" where
  "keys_or_empty ks = (case ks of None \<Rightarrow> [] | Some xs \<Rightarrow> xs)"

definition debounce :: "datetime \<Rightarrow> int \<Rightarrow> datetime option" where
  "debounce now n = (if n \<noteq> 0 then Some (now + seconds n) else None)"

text \<open>The coalescing branch of \<^verbatim>\<open>enqueue\<close>, on the existing queued row.\<close>

definition coalesce :: "job_type \<Rightarrow> string list option \<Rightarrow> datetime option \<Rightarrow> intel_job \<Rightarrow> intel_job" where
  "coalesce jt keys run_after job =
     (let merged = sorted_set (keys_or_empty (j_changed_keys job) @ keys_or_empty keys) in
      job\<lparr>j_type := (if jt = Job_full_build then Job_full_build else j_type job),
          j_changed_keys := (if merged \<noteq> [] then Some merged else j_changed_keys job),
          j_run_after := (case run_after of Some r \<Rightarrow> Some r | None \<Rightarrow> j_run_after job)\<rparr>)"

definition new_job :: "datetime \<Rightarrow> uuid \<Rightarrow> uuid \<Rightarrow> job_type \<Rightarrow> string list option \<Rightarrow> datetime option \<Rightarrow> intel_job" where
  "new_job now jid cid jt keys run_after =
     \<lparr>j_id = jid, j_client_id = cid, j_type = jt, j_status = Job_queued,
      j_changed_keys = (if keys_or_empty keys \<noteq> [] then Some (sorted_set (keys_or_empty keys)) else None),
      j_priority = 0, j_run_after = run_after, j_attempts = 0, j_max_attempts = 3,
      j_locked_by = None, j_locked_at = None, j_last_error = None, j_created_at = now\<rparr>"

text \<open>
  \<^verbatim>\<open>JobQueue.enqueue\<close>: the id of the queued job, or nothing when the pipeline is
  switched off. The caller owns the transaction.
\<close>

definition enqueue :: "env \<Rightarrow> uuid \<Rightarrow> job_type \<Rightarrow> string list option \<Rightarrow> int \<Rightarrow> uuid option op" where
  "enqueue e cid jt keys debounce_seconds d =
     (if \<not> e_intel_enabled e then Inr (None, d)
      else
        let run_after = debounce (e_now e) debounce_seconds in
        case pending_for_client cid (d_jobs d) of
          Some existing \<Rightarrow>
            Inr (Some (j_id existing),
                 d\<lparr>d_jobs := update_by j_id (j_id existing) (coalesce jt keys run_after) (d_jobs d)\<rparr>)
        | None \<Rightarrow>
            bindR (fresh_id d) (\<lambda>(jid, d1).
              Inr (Some jid, d1\<lparr>d_jobs := d_jobs d1 @ [new_job (e_now e) jid cid jt keys run_after]\<rparr>)))"

section \<open>Worker side\<close>

text \<open>The effect of a stale sweep on one row.\<close>

definition is_stale :: "datetime \<Rightarrow> intel_job \<Rightarrow> bool" where
  "is_stale now j \<longleftrightarrow> j_status j = Job_running \<and>
     (case j_locked_at j of None \<Rightarrow> False | Some l \<Rightarrow> l < now - STALE_RUNNING_TIMEOUT)"

definition reclaim_row :: "datetime \<Rightarrow> intel_job \<Rightarrow> intel_job" where
  "reclaim_row now j =
     (let st = (if j_max_attempts j \<le> j_attempts j then Job_dead else Job_queued) in
      j\<lparr>j_status := st,
        j_run_after := (if st = Job_queued then Some now else j_run_after j),
        j_last_error := Some ''Reclaimed: worker did not finish within the stale-job timeout.'',
        j_locked_by := None, j_locked_at := None\<rparr>)"

text \<open>
  \<^verbatim>\<open>reclaim_stale\<close>: the number of rows reclaimed, the process's new sweep instant and
  the committed table. \<open>mtime\<close> is the monotonic clock.
\<close>

definition reclaim_stale ::
    "bool \<Rightarrow> int \<Rightarrow> datetime \<Rightarrow> int \<Rightarrow> intel_job list \<Rightarrow> nat \<times> int \<times> intel_job list" where
  "reclaim_stale force mtime now last_sweep jobs =
     (if \<not> force \<and> mtime - last_sweep < RECLAIM_INTERVAL then (0, last_sweep, jobs)
      else (length (filter (is_stale now) jobs), mtime,
            map (\<lambda>j. if is_stale now j then reclaim_row now j else j) jobs))"

definition runnable :: "datetime \<Rightarrow> intel_job list \<Rightarrow> uuid list \<Rightarrow> intel_job \<Rightarrow> bool" where
  "runnable now jobs excluded j \<longleftrightarrow>
     j_status j = Job_queued \<and>
     (case j_run_after j of None \<Rightarrow> True | Some r \<Rightarrow> r \<le> now) \<and>
     j_client_id j \<notin> set (map j_client_id (filter (\<lambda>r. j_status r = Job_running) jobs)) \<and>
     j_client_id j \<notin> set excluded"

text \<open>The candidate query: highest priority first, oldest first among equals.\<close>

definition candidate :: "datetime \<Rightarrow> uuid list \<Rightarrow> intel_job list \<Rightarrow> intel_job option" where
  "candidate now excluded jobs =
     first_by (\<lambda>j. (- j_priority j, j_created_at j)) (filter (runnable now jobs excluded) jobs)"

definition client_running :: "uuid \<Rightarrow> intel_job list \<Rightarrow> bool" where
  "client_running cid jobs \<longleftrightarrow> list_ex (\<lambda>j. j_client_id j = cid \<and> j_status j = Job_running) jobs"

definition claim_row :: "string \<Rightarrow> datetime \<Rightarrow> intel_job \<Rightarrow> intel_job" where
  "claim_row w now j = j\<lparr>j_status := Job_running, j_locked_by := Some w, j_locked_at := Some now,
     j_attempts := Suc (j_attempts j)\<rparr>"

text \<open>
  The loop of \<^verbatim>\<open>claim_next\<close>. At the attempt with \<open>n\<close> further ones to go,
  \<open>fst (views n)\<close> is what the candidate query sees and \<open>snd (views n)\<close> what the recheck under
  the advisory lock sees and the claim is committed to.
\<close>

fun claim_loop :: "nat \<Rightarrow> (nat \<Rightarrow> intel_job list \<times> intel_job list) \<Rightarrow> uuid list \<Rightarrow> string \<Rightarrow>
    datetime \<Rightarrow> (uuid \<times> intel_job list) option" where
  "claim_loop 0 views excluded w now = None"
| "claim_loop (Suc n) views excluded w now =
     (case candidate now excluded (fst (views n)) of
        None \<Rightarrow> None
      | Some job \<Rightarrow>
          if client_running (j_client_id job) (snd (views n))
          then claim_loop n views (j_client_id job # excluded) w now
          else Some (j_id job, update_by j_id (j_id job) (claim_row w now) (snd (views n))))"

definition claim_next :: "string \<Rightarrow> int \<Rightarrow> datetime \<Rightarrow> int \<Rightarrow> intel_job list \<Rightarrow>
    uuid option \<times> int \<times> intel_job list" where
  "claim_next w mtime now last_sweep jobs =
     (let (cnt, last', jobs1) = reclaim_stale False mtime now last_sweep jobs in
      case claim_loop MAX_CLAIM_ATTEMPTS (\<lambda>_. (jobs1, jobs1)) [] w now of
        None \<Rightarrow> (None, last', jobs1)
      | Some (jid, jobs2) \<Rightarrow> (Some jid, last', jobs2))"

definition succeed_row :: "intel_job \<Rightarrow> intel_job" where
  "succeed_row j = j\<lparr>j_status := Job_succeeded, j_last_error := None\<rparr>"

definition succeed :: "uuid \<Rightarrow> intel_job list \<Rightarrow> intel_job list" where
  "succeed jid jobs = update_by j_id jid succeed_row jobs"

definition backoff :: "nat \<Rightarrow> int" where
  "backoff attempts = min 300 (10 * 2 ^ attempts)"

definition fail_row :: "datetime \<Rightarrow> string \<Rightarrow> intel_job \<Rightarrow> intel_job" where
  "fail_row now err j =
     (let j1 = j\<lparr>j_last_error := Some (take 1000 err)\<rparr>;
          j2 = (if j_max_attempts j1 \<le> j_attempts j1 then j1\<lparr>j_status := Job_dead\<rparr>
                else j1\<lparr>j_status := Job_queued,
                        j_run_after := Some (now + seconds (backoff (j_attempts j1)))\<rparr>)
      in j2\<lparr>j_locked_by := None, j_locked_at := None\<rparr>)"

definition fail :: "datetime \<Rightarrow> uuid \<Rightarrow> string \<Rightarrow> intel_job list \<Rightarrow> intel_job list" where
  "fail now jid err jobs = update_by j_id jid (fail_row now err) jobs"

text \<open>
  \<^verbatim>\<open>process_job\<close> of the worker: \<open>build\<close> is the outcome of the pipeline (the
  orchestrator, whose failure rolls back and is recorded), \<open>client_exists\<close> the client lookup.
\<close>

definition process_job :: "(uuid \<Rightarrow> job_type \<Rightarrow> string list option \<Rightarrow> string + unit) \<Rightarrow>
    (uuid \<Rightarrow> bool) \<Rightarrow> datetime \<Rightarrow> uuid \<Rightarrow> intel_job list \<Rightarrow> intel_job list" where
  "process_job build client_exists now jid jobs =
     (case find_by j_id jid jobs of
        None \<Rightarrow> jobs
      | Some job \<Rightarrow>
          if \<not> client_exists (j_client_id job) then succeed jid jobs
          else
            let changed = keys_or_empty (j_changed_keys job) in
            case build (j_client_id job) (j_type job) (if changed \<noteq> [] then Some changed else None) of
              Inr u \<Rightarrow> succeed jid jobs
            | Inl err \<Rightarrow> fail now jid err jobs)"

section \<open>Invariant\<close>

text \<open>
  What the queue keeps true of a row: the attempts never pass the bound, a queued row has one
  left, a running row was claimed (it is locked and its attempt is counted), and a dead row has
  used them all.
\<close>

definition job_ok :: "intel_job \<Rightarrow> bool" where
  "job_ok j \<longleftrightarrow> 0 < j_max_attempts j \<and> j_attempts j \<le> j_max_attempts j \<and>
     (j_status j = Job_queued \<longrightarrow> j_attempts j < j_max_attempts j) \<and>
     (j_status j = Job_running \<longrightarrow> 0 < j_attempts j \<and> j_locked_at j \<noteq> None \<and> j_locked_by j \<noteq> None) \<and>
     (j_status j = Job_dead \<longrightarrow> j_attempts j = j_max_attempts j)"

definition running_clients :: "intel_job list \<Rightarrow> uuid list" where
  "running_clients jobs = map j_client_id (filter (\<lambda>j. j_status j = Job_running) jobs)"

definition jobs_inv :: "intel_job list \<Rightarrow> bool" where
  "jobs_inv jobs \<longleftrightarrow> list_all job_ok jobs \<and> distinct (map j_id jobs) \<and> distinct (running_clients jobs)"

lemma job_ok_coalesce: "job_ok j \<Longrightarrow> job_ok (coalesce jt keys r j)"
  by (auto simp: job_ok_def coalesce_def Let_def split: option.splits)

lemma coalesce_simps [simp]:
  "j_id (coalesce jt keys r j) = j_id j" "j_client_id (coalesce jt keys r j) = j_client_id j"
  "j_status (coalesce jt keys r j) = j_status j" "j_attempts (coalesce jt keys r j) = j_attempts j"
  "j_max_attempts (coalesce jt keys r j) = j_max_attempts j"
  by (simp_all add: coalesce_def Let_def)

lemma claim_row_simps [simp]:
  "j_id (claim_row w now j) = j_id j" "j_client_id (claim_row w now j) = j_client_id j"
  "j_status (claim_row w now j) = Job_running" "j_attempts (claim_row w now j) = Suc (j_attempts j)"
  "j_max_attempts (claim_row w now j) = j_max_attempts j"
  by (simp_all add: claim_row_def)

lemma succeed_row_simps [simp]:
  "j_id (succeed_row j) = j_id j" "j_client_id (succeed_row j) = j_client_id j"
  "j_status (succeed_row j) = Job_succeeded" "j_attempts (succeed_row j) = j_attempts j"
  "j_max_attempts (succeed_row j) = j_max_attempts j"
  by (simp_all add: succeed_row_def)

lemma fail_row_simps [simp]:
  "j_id (fail_row now err j) = j_id j" "j_client_id (fail_row now err j) = j_client_id j"
  "j_attempts (fail_row now err j) = j_attempts j" "j_max_attempts (fail_row now err j) = j_max_attempts j"
  "j_status (fail_row now err j) = (if j_max_attempts j \<le> j_attempts j then Job_dead else Job_queued)"
  by (simp_all add: fail_row_def Let_def)

lemma reclaim_row_simps [simp]:
  "j_id (reclaim_row now j) = j_id j" "j_client_id (reclaim_row now j) = j_client_id j"
  "j_attempts (reclaim_row now j) = j_attempts j" "j_max_attempts (reclaim_row now j) = j_max_attempts j"
  "j_status (reclaim_row now j) = (if j_max_attempts j \<le> j_attempts j then Job_dead else Job_queued)"
  by (simp_all add: reclaim_row_def Let_def)

lemma job_ok_claim: "job_ok j \<Longrightarrow> j_status j = Job_queued \<Longrightarrow> job_ok (claim_row w now j)"
  by (auto simp: job_ok_def claim_row_def)

lemma job_ok_succeed: "job_ok j \<Longrightarrow> job_ok (succeed_row j)"
  by (auto simp: job_ok_def succeed_row_def)

lemma job_ok_fail: "job_ok j \<Longrightarrow> job_ok (fail_row now err j)"
  by (auto simp: job_ok_def)

lemma job_ok_reclaim: "job_ok j \<Longrightarrow> job_ok (reclaim_row now j)"
  by (auto simp: job_ok_def)

lemma job_ok_new: "job_ok (new_job now jid cid jt keys r)"
  by (simp add: job_ok_def new_job_def)

lemma running_clients_simps [simp]:
  "running_clients [] = []"
  "running_clients (j # js) = (if j_status j = Job_running then j_client_id j # running_clients js
     else running_clients js)"
  "running_clients (xs @ ys) = running_clients xs @ running_clients ys"
  by (simp_all add: running_clients_def)

lemma client_running_iff: "client_running cid jobs \<longleftrightarrow> cid \<in> set (running_clients jobs)"
  by (induction jobs) (auto simp: client_running_def)

text \<open>A row-wise change that starts no job keeps the running clients distinct.\<close>

lemma running_map_subset:
  assumes "\<And>j. j \<in> set jobs \<Longrightarrow> j_client_id (f j) = j_client_id j"
    and "\<And>j. j \<in> set jobs \<Longrightarrow> j_status (f j) = Job_running \<Longrightarrow> j_status j = Job_running"
  shows "set (running_clients (map f jobs)) \<subseteq> set (running_clients jobs) \<and>
    (distinct (running_clients jobs) \<longrightarrow> distinct (running_clients (map f jobs)))"
  using assms by (induction jobs) (auto split: if_splits)

lemma jobs_inv_map:
  assumes inv: "jobs_inv jobs"
    and ok: "\<And>j. j \<in> set jobs \<Longrightarrow> job_ok j \<Longrightarrow> job_ok (f j)"
    and ids: "\<And>j. j_id (f j) = j_id j" and cl: "\<And>j. j_client_id (f j) = j_client_id j"
    and run: "\<And>j. j \<in> set jobs \<Longrightarrow> j_status (f j) = Job_running \<Longrightarrow> j_status j = Job_running"
  shows "jobs_inv (map f jobs)"
proof -
  have "map j_id (map f jobs) = map j_id jobs"
    using ids by simp
  then have "distinct (map j_id (map f jobs))"
    using inv by (simp only: jobs_inv_def)
  moreover have "list_all job_ok (map f jobs)"
    using inv ok by (auto simp: jobs_inv_def list_all_iff)
  moreover have "distinct (running_clients (map f jobs))"
    using inv running_map_subset [of jobs f] cl run by (auto simp: jobs_inv_def)
  ultimately show ?thesis
    by (simp only: jobs_inv_def)
qed

lemma jobs_inv_update_by:
  assumes inv: "jobs_inv jobs"
    and ok: "\<And>j. job_ok j \<Longrightarrow> job_ok (f j)"
    and ids: "\<And>j. j_id (f j) = j_id j" and cl: "\<And>j. j_client_id (f j) = j_client_id j"
    and run: "\<And>j. j_status (f j) = Job_running \<Longrightarrow> j_status j = Job_running"
  shows "jobs_inv (update_by j_id k f jobs)"
  unfolding update_by_def
  by (rule jobs_inv_map [OF inv]) (auto simp: ok ids cl dest: run split: if_splits)

lemma jobs_inv_succeed: "jobs_inv jobs \<Longrightarrow> jobs_inv (succeed jid jobs)"
  unfolding succeed_def by (rule jobs_inv_update_by) (auto simp: job_ok_succeed)

lemma jobs_inv_fail: "jobs_inv jobs \<Longrightarrow> jobs_inv (fail now jid err jobs)"
  unfolding fail_def by (rule jobs_inv_update_by) (auto simp: job_ok_fail split: if_splits)

lemma jobs_inv_reclaim:
  assumes "jobs_inv jobs" and "reclaim_stale force mtime now sweep jobs = (n, sweep', jobs')"
  shows "jobs_inv jobs'"
proof (cases "\<not> force \<and> mtime - sweep < RECLAIM_INTERVAL")
  case True
  with assms show ?thesis by (simp add: reclaim_stale_def)
next
  case False
  with assms(2) have "jobs' = map (\<lambda>j. if is_stale now j then reclaim_row now j else j) jobs"
    by (auto simp: reclaim_stale_def)
  moreover have "jobs_inv (map (\<lambda>j. if is_stale now j then reclaim_row now j else j) jobs)"
    by (rule jobs_inv_map [OF assms(1)]) (auto simp: job_ok_reclaim split: if_splits)
  ultimately show ?thesis by simp
qed

text \<open>Claiming a queued row of a client with nothing running keeps the invariant.\<close>

lemma running_clients_claim:
  assumes "distinct (map j_id jobs)" and "distinct (running_clients jobs)"
    and "j \<in> set jobs" and "j_client_id j \<notin> set (running_clients jobs)"
  shows "distinct (running_clients (update_by j_id (j_id j) (claim_row w now) jobs)) \<and>
    set (running_clients (update_by j_id (j_id j) (claim_row w now) jobs)) =
      insert (j_client_id j) (set (running_clients jobs))"
  using assms
proof (induction jobs)
  case Nil
  then show ?case by simp
next
  case (Cons x jobs)
  show ?case
  proof (cases "j_id x = j_id j")
    case True
    with Cons.prems have "x = j" by (auto simp: image_iff)
    with Cons.prems True have "update_by j_id (j_id j) (claim_row w now) jobs = jobs"
      by (intro update_by_absent) auto
    with \<open>x = j\<close> Cons.prems show ?thesis by (auto split: if_splits)
  next
    case False
    with Cons show ?thesis by (auto split: if_splits)
  qed
qed

lemma jobs_inv_claim:
  assumes "jobs_inv jobs" and "j \<in> set jobs" and "j_status j = Job_queued"
    and "\<not> client_running (j_client_id j) jobs"
  shows "jobs_inv (update_by j_id (j_id j) (claim_row w now) jobs)"
proof -
  have only: "x = j" if "x \<in> set jobs" "j_id x = j_id j" for x
    using that assms by (auto simp: jobs_inv_def distinct_map inj_on_def)
  have "list_all job_ok (update_by j_id (j_id j) (claim_row w now) jobs)"
    using assms only by (auto simp: list_all_iff set_update_by jobs_inv_def intro!: job_ok_claim)
  moreover have "distinct (map j_id (update_by j_id (j_id j) (claim_row w now) jobs))"
    using assms(1) by (simp add: keys_update_by jobs_inv_def)
  ultimately show ?thesis
    using running_clients_claim [of jobs j w now] assms by (simp add: jobs_inv_def client_running_iff)
qed

section \<open>The claim\<close>

lemma candidate_runnable:
  assumes "candidate now excl jobs = Some j"
  shows "j \<in> set jobs \<and> runnable now jobs excl j"
  using first_by_in_set [of "\<lambda>j. (- j_priority j, j_created_at j)" "filter (runnable now jobs excl) jobs" j]
    assms by (simp add: candidate_def)

lemma candidate_None_iff: "candidate now excl jobs = None \<longleftrightarrow> (\<forall>j \<in> set jobs. \<not> runnable now jobs excl j)"
  by (auto simp: candidate_def filter_empty_conv)

lemma runnable_not_running: "runnable now jobs excl j \<Longrightarrow> \<not> client_running (j_client_id j) jobs"
  by (auto simp: runnable_def client_running_iff running_clients_def)

lemma runnable_alt:
  "runnable now jobs excl j \<longleftrightarrow> j_status j = Job_queued \<and>
     (case j_run_after j of None \<Rightarrow> True | Some r \<Rightarrow> r \<le> now) \<and>
     j_client_id j \<notin> set (running_clients jobs) \<and> j_client_id j \<notin> set excl"
  by (simp add: runnable_def running_clients_def)

lemma candidate_best:
  assumes "candidate now excl jobs = Some job" and "x \<in> set jobs" and "runnable now jobs excl x"
  shows "j_priority x < j_priority job \<or> j_priority x = j_priority job \<and> j_created_at job \<le> j_created_at x"
proof -
  have "(- j_priority job, j_created_at job) \<le> (- j_priority x, j_created_at x)"
    using assms first_by_Some [of "\<lambda>j. (- j_priority j, j_created_at j)" _ job]
    by (simp add: candidate_def)
  then show ?thesis by (auto simp: less_eq_prod_def)
qed

lemma claim_loop_quiescent:
  "claim_loop (Suc n) (\<lambda>_. (jobs, jobs)) excl w now =
     (case candidate now excl jobs of None \<Rightarrow> None
      | Some job \<Rightarrow> Some (j_id job, update_by j_id (j_id job) (claim_row w now) jobs))"
  by (auto split: option.split dest!: candidate_runnable runnable_not_running)

lemma claim_loop_shape:
  assumes "claim_loop n views excl w now = Some (jid, jobs')"
  obtains k excl' job where "k < n" "candidate now excl' (fst (views k)) = Some job"
    "\<not> client_running (j_client_id job) (snd (views k))" "jid = j_id job"
    "jobs' = update_by j_id (j_id job) (claim_row w now) (snd (views k))"
  using assms
proof (induction n arbitrary: excl thesis)
  case 0
  then show ?case by simp
next
  case (Suc n)
  show ?case
  proof (cases "candidate now excl (fst (views n))")
    case None
    with Suc.prems(2) show ?thesis by simp
  next
    case (Some job)
    show ?thesis
    proof (cases "client_running (j_client_id job) (snd (views n))")
      case True
      with Some Suc.prems(2) have "claim_loop n views (j_client_id job # excl) w now = Some (jid, jobs')"
        by simp
      then show ?thesis
        using Suc.IH Suc.prems(1) by (metis less_SucI)
    next
      case False
      with Some Suc.prems show ?thesis by auto
    qed
  qed
qed

text \<open>
  C3. Whatever other workers commit between the two queries of each attempt, a claim that is
  granted leaves at most one running job per client: the recheck under the per-client lock is
  what makes it so. The candidate row itself cannot change in between, because the candidate
  query holds its row lock.
\<close>

theorem claim_mutual_exclusion:
  assumes inv: "\<And>k. jobs_inv (snd (views k))"
    and row_lock: "\<And>k excl' job. candidate now excl' (fst (views k)) = Some job \<Longrightarrow> job \<in> set (snd (views k))"
    and claimed: "claim_loop n views excl w now = Some (jid, jobs')"
  shows "jobs_inv jobs' \<and>
    (\<exists>j. find_by j_id jid jobs' = Some j \<and> j_status j = Job_running \<and> j_locked_by j = Some w)"
proof -
  obtain k excl' job where c: "candidate now excl' (fst (views k)) = Some job"
      "\<not> client_running (j_client_id job) (snd (views k))" "jid = j_id job"
      "jobs' = update_by j_id (j_id job) (claim_row w now) (snd (views k))"
    using claim_loop_shape [OF claimed] by metis
  have mem: "job \<in> set (snd (views k))"
    using row_lock c(1) .
  have queued: "j_status job = Job_queued"
    using candidate_runnable [OF c(1)] by (simp add: runnable_def)
  have "find_by j_id (j_id job) (snd (views k)) = Some job"
    using find_by_unique mem inv [of k] by (metis jobs_inv_def)
  then show ?thesis
    using jobs_inv_claim [OF inv mem queued c(2)] c
    by (simp add: find_by_update_by) (simp add: claim_row_def)
qed

section \<open>Runs of the queue\<close>

text \<open>
  The operations of any number of workers and request handlers, in any order. A worker may report
  success or failure of any job at any time, also one that was reclaimed from it.
\<close>

datatype queue_event =
    Ev_enqueue env uuid job_type "string list option" int
  | Ev_claim string int datetime
  | Ev_sweep string int datetime
  | Ev_succeed uuid
  | Ev_fail datetime uuid string

record queue_state =
  q_db :: db
  q_sweeps :: "string \<Rightarrow> int"

definition with_jobs :: "(intel_job list \<Rightarrow> intel_job list) \<Rightarrow> queue_state \<Rightarrow> queue_state" where
  "with_jobs f q = q\<lparr>q_db := (q_db q)\<lparr>d_jobs := f (d_jobs (q_db q))\<rparr>\<rparr>"

text \<open>One event: the job it claims, if any, and the next state.\<close>

fun queue_step :: "queue_event \<Rightarrow> queue_state \<Rightarrow> uuid option \<times> queue_state" where
  "queue_step (Ev_enqueue e cid jt keys deb) q =
     (None, case enqueue e cid jt keys deb (q_db q) of Inl x \<Rightarrow> q | Inr (jid, d) \<Rightarrow> q\<lparr>q_db := d\<rparr>)"
| "queue_step (Ev_claim w mt now) q =
     (let (jid, sw, jobs) = claim_next w mt now (q_sweeps q w) (d_jobs (q_db q)) in
      (jid, (with_jobs (\<lambda>_. jobs) q)\<lparr>q_sweeps := (q_sweeps q)(w := sw)\<rparr>))"
| "queue_step (Ev_sweep w mt now) q =
     (let (n, sw, jobs) = reclaim_stale True mt now (q_sweeps q w) (d_jobs (q_db q)) in
      (None, (with_jobs (\<lambda>_. jobs) q)\<lparr>q_sweeps := (q_sweeps q)(w := sw)\<rparr>))"
| "queue_step (Ev_succeed jid) q = (None, with_jobs (succeed jid) q)"
| "queue_step (Ev_fail now jid err) q = (None, with_jobs (fail now jid err) q)"

fun queue_run :: "queue_event list \<Rightarrow> queue_state \<Rightarrow> uuid list \<times> queue_state" where
  "queue_run [] q = ([], q)"
| "queue_run (ev # evs) q =
     (let (c, q1) = queue_step ev q; (cs, q2) = queue_run evs q1
      in ((case c of None \<Rightarrow> [] | Some jid \<Rightarrow> [jid]) @ cs, q2))"

definition queue_inv :: "queue_state \<Rightarrow> bool" where
  "queue_inv q \<longleftrightarrow> jobs_inv (d_jobs (q_db q)) \<and> (\<forall>j \<in> set (d_jobs (q_db q)). j_id j < d_next_id (q_db q))"

definition attempts_of :: "uuid \<Rightarrow> intel_job list \<Rightarrow> nat" where
  "attempts_of jid jobs = (case find_by j_id jid jobs of None \<Rightarrow> 0 | Some j \<Rightarrow> j_attempts j)"

lemma attempts_of_map:
  assumes "\<And>j. j_id (f j) = j_id j" and "\<And>j. j_attempts (f j) = j_attempts j"
  shows "attempts_of jid (map f jobs) = attempts_of jid jobs"
  using assms by (induction jobs) (auto simp: attempts_of_def)

lemma attempts_of_update_by:
  assumes "\<And>j. j_id (f j) = j_id j" and "\<And>j. j_attempts (f j) = j_attempts j"
  shows "attempts_of jid (update_by j_id k f jobs) = attempts_of jid jobs"
  unfolding update_by_def by (rule attempts_of_map) (auto simp: assms)

lemma pending_for_client_Some:
  assumes "pending_for_client cid jobs = Some j"
  shows "j \<in> set jobs \<and> j_client_id j = cid \<and> j_status j = Job_queued"
  using first_by_in_set [of j_created_at "filter (\<lambda>j. j_client_id j = cid \<and> j_status j = Job_queued) jobs" j]
    assms by (auto simp: pending_for_client_def)

lemma enqueue_cases:
  assumes "enqueue e cid jt keys deb d = Inr (r, d')"
  obtains (off) "r = None" "d' = d"
  | (coalesced) j where "pending_for_client cid (d_jobs d) = Some j" "r = Some (j_id j)"
      "d' = d\<lparr>d_jobs := update_by j_id (j_id j) (coalesce jt keys (debounce (e_now e) deb)) (d_jobs d)\<rparr>"
  | (created) "pending_for_client cid (d_jobs d) = None" "r = Some (d_next_id d)"
      "d' = d\<lparr>d_next_id := Suc (d_next_id d),
        d_jobs := d_jobs d @ [new_job (e_now e) (d_next_id d) cid jt keys (debounce (e_now e) deb)]\<rparr>"
proof (cases "e_intel_enabled e")
  case False
  with assms off show thesis by (simp add: enqueue_def)
next
  case True
  show thesis
  proof (cases "pending_for_client cid (d_jobs d)")
    case None
    with True assms show thesis
      by (intro created) (auto simp: enqueue_def fresh_id_def Let_def)
  next
    case (Some j)
    with True assms show thesis
      by (intro coalesced [of j]) (auto simp: enqueue_def Let_def)
  qed
qed

lemma enqueue_never_fails: "\<exists>r d'. enqueue e cid jt keys deb d = Inr (r, d')"
  by (auto simp: enqueue_def fresh_id_def Let_def split: option.splits)

lemma claim_next_cases:
  assumes "claim_next w mt now sw jobs = (r, sw', jobs')"
  obtains (none) n jobs1 where "reclaim_stale False mt now sw jobs = (n, sw', jobs1)" "r = None"
      "jobs' = jobs1" "candidate now [] jobs1 = None"
  | (claimed) n jobs1 job where "reclaim_stale False mt now sw jobs = (n, sw', jobs1)"
      "candidate now [] jobs1 = Some job" "r = Some (j_id job)"
      "jobs' = update_by j_id (j_id job) (claim_row w now) jobs1"
proof -
  obtain n sw1 jobs1 where rec: "reclaim_stale False mt now sw jobs = (n, sw1, jobs1)"
    by (cases "reclaim_stale False mt now sw jobs") auto
  have loop: "claim_loop MAX_CLAIM_ATTEMPTS (\<lambda>_. (jobs1, jobs1)) [] w now =
     (case candidate now [] jobs1 of None \<Rightarrow> None
      | Some job \<Rightarrow> Some (j_id job, update_by j_id (j_id job) (claim_row w now) jobs1))"
    using claim_loop_quiescent [of 4 jobs1 "[]" w now] by (simp add: MAX_CLAIM_ATTEMPTS_def)
  show thesis
  proof (cases "candidate now [] jobs1")
    case None
    with assms rec loop have "r = None" "sw' = sw1" "jobs' = jobs1"
      by (simp_all add: claim_next_def)
    with None rec show thesis by (intro none) auto
  next
    case (Some job)
    with assms rec loop have "r = Some (j_id job)" "sw' = sw1"
        "jobs' = update_by j_id (j_id job) (claim_row w now) jobs1"
      by (simp_all add: claim_next_def)
    with Some rec show thesis by (intro claimed) auto
  qed
qed

lemma reclaim_stale_rows:
  assumes "reclaim_stale force mt now sw jobs = (n, sw', jobs')"
  obtains f where "jobs' = map f jobs" "\<And>j. j_id (f j) = j_id j" "\<And>j. j_client_id (f j) = j_client_id j"
    "\<And>j. j_attempts (f j) = j_attempts j" "\<And>j. j_max_attempts (f j) = j_max_attempts j"
    "\<And>j. j_status j \<noteq> Job_running \<Longrightarrow> f j = j"
    "\<And>j. j_status (f j) = Job_running \<Longrightarrow> j_status j = Job_running"
proof (cases "\<not> force \<and> mt - sw < RECLAIM_INTERVAL")
  case True
  with assms have "jobs' = map id jobs" by (simp add: reclaim_stale_def)
  then show thesis by (rule that) auto
next
  case False
  with assms have "jobs' = map (\<lambda>j. if is_stale now j then reclaim_row now j else j) jobs"
    by (auto simp: reclaim_stale_def)
  then show thesis by (rule that) (auto simp: is_stale_def split: if_splits)
qed

lemma jobs_inv_claim_next:
  assumes "jobs_inv jobs" and "claim_next w mt now sw jobs = (r, sw', jobs')"
  shows "jobs_inv jobs'"
  using assms(2)
proof (cases rule: claim_next_cases)
  case none
  with assms(1) show ?thesis by (auto dest: jobs_inv_reclaim)
next
  case (claimed n jobs1 job)
  with assms(1) have "jobs_inv jobs1" by (auto dest: jobs_inv_reclaim)
  moreover have "job \<in> set jobs1" "runnable now jobs1 [] job"
    using candidate_runnable [OF claimed(2)] by auto
  ultimately show ?thesis
    using claimed(4) jobs_inv_claim [of jobs1 job w now] runnable_not_running [of now jobs1 "[]" job]
    by (simp add: runnable_def)
qed

lemma ids_claim_next:
  assumes "claim_next w mt now sw jobs = (r, sw', jobs')"
  shows "map j_id jobs' = map j_id jobs"
  using assms
proof (cases rule: claim_next_cases)
  case (none n jobs1)
  from none(1) obtain f where "jobs1 = map f jobs" "\<And>j. j_id (f j) = j_id j"
    by (rule reclaim_stale_rows) blast
  with none show ?thesis by simp
next
  case (claimed n jobs1 job)
  from claimed(1) obtain f where "jobs1 = map f jobs" "\<And>j. j_id (f j) = j_id j"
    by (rule reclaim_stale_rows) blast
  with claimed show ?thesis by (simp add: keys_update_by)
qed

lemma attempts_claim_next:
  assumes "distinct (map j_id jobs)" and "claim_next w mt now sw jobs = (r, sw', jobs')"
  shows "attempts_of jid jobs' = attempts_of jid jobs + (if r = Some jid then 1 else 0)"
  using assms(2)
proof (cases rule: claim_next_cases)
  case (none n jobs1)
  from none(1) obtain f where "jobs1 = map f jobs" "\<And>j. j_id (f j) = j_id j" "\<And>j. j_attempts (f j) = j_attempts j"
    by (rule reclaim_stale_rows) blast
  with none show ?thesis by (simp add: attempts_of_map)
next
  case (claimed n jobs1 job)
  from claimed(1) obtain f where f: "jobs1 = map f jobs" "\<And>j. j_id (f j) = j_id j" "\<And>j. j_attempts (f j) = j_attempts j"
    by (rule reclaim_stale_rows) blast
  have "map j_id jobs1 = map j_id jobs" using f by simp
  then have "distinct (map j_id jobs1)" using assms(1) by (simp only:)
  moreover have "job \<in> set jobs1" using candidate_runnable [OF claimed(2)] by simp
  ultimately have "find_by j_id (j_id job) jobs1 = Some job" by (rule find_by_unique)
  then have "attempts_of jid jobs' = attempts_of jid jobs1 + (if r = Some jid then 1 else 0)"
    using claimed by (auto simp: attempts_of_def find_by_update_by split: option.splits)
  also have "attempts_of jid jobs1 = attempts_of jid jobs"
    using f by (simp add: attempts_of_map)
  finally show ?thesis .
qed

lemma with_jobs_simps [simp]:
  "d_jobs (q_db (with_jobs f q)) = f (d_jobs (q_db q))"
  "d_next_id (q_db (with_jobs f q)) = d_next_id (q_db q)"
  by (simp_all add: with_jobs_def)

lemma queue_inv_keys:
  assumes "jobs_inv jobs'" and "queue_inv q" and "map j_id jobs' = map j_id (d_jobs (q_db q))"
    and "d_jobs (q_db q') = jobs'" and "d_next_id (q_db q') = d_next_id (q_db q)"
  shows "queue_inv q'"
proof -
  have "j_id ` set jobs' = j_id ` set (d_jobs (q_db q))"
    using assms(3) by (metis list.set_map)
  then have "\<forall>j \<in> set jobs'. j_id j < d_next_id (q_db q)"
    using assms(2) by (metis (no_types, lifting) imageE imageI queue_inv_def)
  with assms show ?thesis by (simp add: queue_inv_def)
qed

lemma queue_inv_enqueue:
  assumes "queue_inv q" and "enqueue e cid jt keys deb (q_db q) = Inr (r, d')"
  shows "queue_inv (q\<lparr>q_db := d'\<rparr>)"
  using assms(2)
proof (cases rule: enqueue_cases)
  case off
  with assms show ?thesis by simp
next
  case (coalesced j)
  have "jobs_inv (update_by j_id (j_id j) (coalesce jt keys (debounce (e_now e) deb)) (d_jobs (q_db q)))"
    using assms(1) by (intro jobs_inv_update_by) (auto simp: queue_inv_def job_ok_coalesce)
  then show ?thesis
    by (rule queue_inv_keys [OF _ assms(1)]) (simp_all add: keys_update_by coalesced)
next
  case created
  let ?n = "new_job (e_now e) (d_next_id (q_db q)) cid jt keys (debounce (e_now e) deb)"
  have inv: "jobs_inv (d_jobs (q_db q))" and lt: "\<forall>j \<in> set (d_jobs (q_db q)). j_id j < d_next_id (q_db q)"
    using assms(1) by (auto simp: queue_inv_def)
  then have fresh: "d_next_id (q_db q) \<notin> j_id ` set (d_jobs (q_db q))" by auto
  have "j_id ?n = d_next_id (q_db q)" "j_status ?n = Job_queued" by (simp_all add: new_job_def)
  then have "jobs_inv (d_jobs (q_db q) @ [?n])"
    using inv job_ok_new fresh by (simp add: jobs_inv_def)
  then show ?thesis
    using created lt by (auto simp: queue_inv_def new_job_def less_SucI)
qed

lemma attempts_enqueue:
  assumes "enqueue e cid jt keys deb d = Inr (r, d')"
  shows "attempts_of jid (d_jobs d') = attempts_of jid (d_jobs d)"
  using assms
proof (cases rule: enqueue_cases)
  case (coalesced j)
  then show ?thesis by (simp add: attempts_of_update_by)
next
  case created
  then show ?thesis by (simp add: attempts_of_def find_by_append new_job_def split: option.split)
qed simp

lemma queue_step_inv: "queue_inv q \<Longrightarrow> queue_step ev q = (c, q') \<Longrightarrow> queue_inv q'"
proof (cases ev)
  case (Ev_enqueue e cid jt keys deb)
  assume "queue_inv q" "queue_step ev q = (c, q')"
  obtain r d where enq: "enqueue e cid jt keys deb (q_db q) = Inr (r, d)"
    using enqueue_never_fails by blast
  with \<open>queue_step ev q = (c, q')\<close> Ev_enqueue have "q' = q\<lparr>q_db := d\<rparr>" by simp
  with queue_inv_enqueue [OF \<open>queue_inv q\<close> enq] show ?thesis by simp
next
  case (Ev_claim w mt now)
  assume inv: "queue_inv q" and step: "queue_step ev q = (c, q')"
  obtain r sw jobs where cl: "claim_next w mt now (q_sweeps q w) (d_jobs (q_db q)) = (r, sw, jobs)"
    by (cases "claim_next w mt now (q_sweeps q w) (d_jobs (q_db q))") auto
  with Ev_claim step have q': "q' = (with_jobs (\<lambda>_. jobs) q)\<lparr>q_sweeps := (q_sweeps q)(w := sw)\<rparr>"
    by simp
  have "jobs_inv jobs" using inv cl by (auto simp: queue_inv_def intro: jobs_inv_claim_next)
  then show ?thesis
    by (rule queue_inv_keys [OF _ inv ids_claim_next [OF cl]]) (simp_all add: q')
next
  case (Ev_sweep w mt now)
  assume inv: "queue_inv q" and step: "queue_step ev q = (c, q')"
  obtain n sw jobs where rec: "reclaim_stale True mt now (q_sweeps q w) (d_jobs (q_db q)) = (n, sw, jobs)"
    by (cases "reclaim_stale True mt now (q_sweeps q w) (d_jobs (q_db q))") auto
  obtain f where "jobs = map f (d_jobs (q_db q))" "\<And>j. j_id (f j) = j_id j"
    using rec by (rule reclaim_stale_rows) blast
  then have "map j_id jobs = map j_id (d_jobs (q_db q))" by simp
  moreover have "q' = (with_jobs (\<lambda>_. jobs) q)\<lparr>q_sweeps := (q_sweeps q)(w := sw)\<rparr>"
    using Ev_sweep step rec by simp
  moreover have "jobs_inv jobs" using inv rec by (auto simp: queue_inv_def intro: jobs_inv_reclaim)
  ultimately show ?thesis
    using queue_inv_keys [OF _ inv] by simp
next
  case (Ev_succeed jid)
  assume inv: "queue_inv q" and "queue_step ev q = (c, q')"
  with Ev_succeed have q': "q' = with_jobs (succeed jid) q" by simp
  have "jobs_inv (succeed jid (d_jobs (q_db q)))"
    using inv by (simp add: queue_inv_def jobs_inv_succeed)
  then show ?thesis
    by (rule queue_inv_keys [OF _ inv]) (simp_all add: q' succeed_def keys_update_by)
next
  case (Ev_fail now jid err)
  assume inv: "queue_inv q" and "queue_step ev q = (c, q')"
  with Ev_fail have q': "q' = with_jobs (fail now jid err) q" by simp
  have "jobs_inv (fail now jid err (d_jobs (q_db q)))"
    using inv by (simp add: queue_inv_def jobs_inv_fail)
  then show ?thesis
    by (rule queue_inv_keys [OF _ inv]) (simp_all add: q' fail_def keys_update_by)
qed

lemma runnable_after_sweep:
  assumes rec: "reclaim_stale force mt now sw jobs = (n, sw1, jobs1)"
    and mem: "j \<in> set jobs" and run: "runnable now jobs [] j"
  shows "j \<in> set jobs1 \<and> runnable now jobs1 [] j"
proof -
  obtain f where f: "jobs1 = map f jobs" "\<And>x. j_client_id (f x) = j_client_id x"
      "\<And>x. j_status x \<noteq> Job_running \<Longrightarrow> f x = x" "\<And>x. j_status (f x) = Job_running \<Longrightarrow> j_status x = Job_running"
    using rec by (rule reclaim_stale_rows) blast
  have "f j = j" using run f(3) by (simp add: runnable_def)
  with mem f(1) have "j \<in> set jobs1" by (metis image_eqI list.set_map)
  moreover have "set (running_clients jobs1) \<subseteq> set (running_clients jobs)"
    using running_map_subset [of jobs f] f by blast
  ultimately show ?thesis using run by (auto simp: runnable_alt)
qed

lemma queue_run_inv: "queue_inv q \<Longrightarrow> queue_run evs q = (cs, q') \<Longrightarrow> queue_inv q'"
proof (induction evs arbitrary: q cs)
  case Nil
  then show ?case by simp
next
  case (Cons ev evs)
  obtain c q1 where s: "queue_step ev q = (c, q1)" by (cases "queue_step ev q") auto
  obtain cs1 q2 where r: "queue_run evs q1 = (cs1, q2)" by (cases "queue_run evs q1") auto
  from Cons.prems s r have "q' = q2" by simp
  moreover have "queue_inv q1" using Cons.prems(1) s by (rule queue_step_inv)
  ultimately show ?case using Cons.IH r by blast
qed

lemma attempts_queue_step:
  assumes inv: "queue_inv q" and step: "queue_step ev q = (c, q')"
  shows "attempts_of jid (d_jobs (q_db q')) =
    attempts_of jid (d_jobs (q_db q)) + (if c = Some jid then 1 else 0)"
proof (cases ev)
  case (Ev_enqueue e cid jt keys deb)
  obtain r d where enq: "enqueue e cid jt keys deb (q_db q) = Inr (r, d)"
    using enqueue_never_fails by blast
  with step Ev_enqueue have "c = None" "q' = q\<lparr>q_db := d\<rparr>" by auto
  with attempts_enqueue [OF enq] show ?thesis by simp
next
  case (Ev_claim w mt now)
  obtain r sw jobs where cl: "claim_next w mt now (q_sweeps q w) (d_jobs (q_db q)) = (r, sw, jobs)"
    by (cases "claim_next w mt now (q_sweeps q w) (d_jobs (q_db q))") auto
  with step Ev_claim have "c = r" "d_jobs (q_db q') = jobs" by auto
  with attempts_claim_next [OF _ cl] inv show ?thesis by (simp add: queue_inv_def jobs_inv_def)
next
  case (Ev_sweep w mt now)
  obtain n sw jobs where rec: "reclaim_stale True mt now (q_sweeps q w) (d_jobs (q_db q)) = (n, sw, jobs)"
    by (cases "reclaim_stale True mt now (q_sweeps q w) (d_jobs (q_db q))") auto
  obtain f where f: "jobs = map f (d_jobs (q_db q))" "\<And>j. j_id (f j) = j_id j" "\<And>j. j_attempts (f j) = j_attempts j"
    using rec by (rule reclaim_stale_rows) blast
  from rec step Ev_sweep have "c = None" "d_jobs (q_db q') = jobs" by auto
  with f show ?thesis by (simp add: attempts_of_map)
next
  case (Ev_succeed i)
  with step show ?thesis by (auto simp: succeed_def attempts_of_update_by)
next
  case (Ev_fail now i err)
  with step show ?thesis by (auto simp: fail_def attempts_of_update_by)
qed

lemma attempts_queue_run:
  "queue_inv q \<Longrightarrow> queue_run evs q = (cs, q') \<Longrightarrow>
   attempts_of jid (d_jobs (q_db q')) = attempts_of jid (d_jobs (q_db q)) + count_list cs jid"
proof (induction evs arbitrary: q cs)
  case Nil
  then show ?case by simp
next
  case (Cons ev evs)
  obtain c q1 where s: "queue_step ev q = (c, q1)" by (cases "queue_step ev q") auto
  obtain cs1 q2 where r: "queue_run evs q1 = (cs1, q2)" by (cases "queue_run evs q1") auto
  have q': "q' = q2" and cs: "cs = (case c of None \<Rightarrow> [] | Some i \<Rightarrow> [i]) @ cs1"
    using Cons.prems(2) s r by auto
  have "queue_inv q1" using Cons.prems(1) s by (rule queue_step_inv)
  from Cons.IH [OF this] r q'
  have "attempts_of jid (d_jobs (q_db q')) = attempts_of jid (d_jobs (q_db q1)) + count_list cs1 jid"
    by blast
  with cs show ?case
    using attempts_queue_step [OF Cons.prems(1) s, of jid] by (simp split: option.split)
qed

definition sample_queue :: queue_state where
  "sample_queue = \<lparr>q_db = empty_db, q_sweeps = (\<lambda>_. 0)\<rparr>"

lemma sample_queue_inv: "queue_inv sample_queue"
  by (simp add: queue_inv_def jobs_inv_def sample_queue_def empty_db_def)

text \<open>
  C9. Retries are bounded, whatever the workers and requests do and in whatever order: over any
  run of the queue a job is handed out at most \<^verbatim>\<open>max_attempts\<close> times, and when the run
  ends no client has two running jobs, every queued job has an attempt left and every dead job
  has used them all.
\<close>

theorem retries_bounded:
  assumes "queue_inv q" and "queue_run evs q = (claimed, q')"
    and "find_by j_id jid (d_jobs (q_db q')) = Some j"
  shows "count_list claimed jid \<le> j_max_attempts j \<and>
    distinct (running_clients (d_jobs (q_db q'))) \<and> job_ok j"
proof -
  have inv: "queue_inv q'" using assms(1,2) by (rule queue_run_inv)
  have "j \<in> set (d_jobs (q_db q'))" using assms(3) by (rule find_by_in_set)
  with inv have ok: "job_ok j" by (auto simp: queue_inv_def jobs_inv_def list_all_iff)
  have "count_list claimed jid \<le> j_attempts j"
    using attempts_queue_run [OF assms(1,2), of jid] assms(3) by (simp add: attempts_of_def)
  with ok inv show ?thesis by (auto simp: job_ok_def queue_inv_def jobs_inv_def)
qed

text \<open>
  The claim is fair and never blocked by a busy client: if any job is runnable, a poll claims
  one, and the claimed job has the highest priority among the runnable ones and is the oldest of
  that priority.
\<close>

theorem claim_picks_best:
  assumes mem: "j \<in> set jobs" and run: "runnable now jobs [] j"
    and claim: "claim_next w mt now sw jobs = (r, sw', jobs')"
    and sweep: "reclaim_stale False mt now sw jobs = (n, sw1, jobs1)"
  shows "\<exists>job \<in> set jobs1. r = Some (j_id job) \<and> runnable now jobs1 [] job \<and>
    (\<forall>x \<in> set jobs1. runnable now jobs1 [] x \<longrightarrow>
       j_priority x < j_priority job \<or>
       j_priority x = j_priority job \<and> j_created_at job \<le> j_created_at x)"
proof -
  have "candidate now [] jobs1 \<noteq> None"
    using runnable_after_sweep [OF sweep mem run] by (auto simp: candidate_None_iff)
  then obtain job where c: "candidate now [] jobs1 = Some job" by auto
  have r: "r = Some (j_id job)"
    using claim by (cases rule: claim_next_cases) (use sweep c in auto)
  have "\<forall>x \<in> set jobs1. runnable now jobs1 [] x \<longrightarrow>
       j_priority x < j_priority job \<or> j_priority x = j_priority job \<and> j_created_at job \<le> j_created_at x"
    using candidate_best [OF c] by blast
  with r candidate_runnable [OF c] show ?thesis by blast
qed

text \<open>
  Coalescing: while a job of the client is queued, an enqueue adds no row; it merges the
  changed sources into that job (no key of either set is lost), lets a full build dominate, and
  touches no other row.
\<close>

theorem enqueue_coalesces:
  assumes "e_intel_enabled e" and "pending_for_client cid (d_jobs d) = Some j"
    and "distinct (map j_id (d_jobs d))"
    and "enqueue e cid jt keys deb d = Inr (r, d')"
  shows "r = Some (j_id j) \<and> map j_id (d_jobs d') = map j_id (d_jobs d) \<and>
    (\<exists>j'. find_by j_id (j_id j) (d_jobs d') = Some j' \<and> j_status j' = Job_queued \<and>
       j_type j' = (if jt = Job_full_build then Job_full_build else j_type j) \<and>
       set (keys_or_empty (j_changed_keys j')) =
         set (keys_or_empty (j_changed_keys j)) \<union> set (keys_or_empty keys)) \<and>
    (\<forall>i. i \<noteq> j_id j \<longrightarrow> find_by j_id i (d_jobs d') = find_by j_id i (d_jobs d))"
  using assms(4)
proof (cases rule: enqueue_cases)
  case off
  with assms(1,4) show ?thesis
    by (auto simp: enqueue_def fresh_id_def Let_def assms(2))
next
  case (coalesced j')
  have eq: "j' = j" using coalesced(1) assms(2) by simp
  have "find_by j_id (j_id j) (d_jobs d) = Some j"
    using assms(2,3) by (auto dest: pending_for_client_Some intro: find_by_unique)
  then have "find_by j_id (j_id j) (d_jobs d') = Some (coalesce jt keys (debounce (e_now e) deb) j)"
    using coalesced eq by (simp add: find_by_update_by)
  moreover have "j_status j = Job_queued" using assms(2) by (auto dest: pending_for_client_Some)
  moreover have "set (keys_or_empty (j_changed_keys (coalesce jt keys (debounce (e_now e) deb) j))) =
      set (keys_or_empty (j_changed_keys j)) \<union> set (keys_or_empty keys)"
    by (auto simp: coalesce_def Let_def sorted_set_def keys_or_empty_def split: option.splits if_splits)
  ultimately show ?thesis
    using coalesced eq by (auto simp: keys_update_by find_by_update_by) (auto simp: coalesce_def Let_def)
next
  case created
  with assms(2) show ?thesis by simp
qed

text \<open>
  A rebuild asked for with no debounce does not run now when a job of the client is already
  queued for later (a debounce, or the backoff of a retry): the queued row keeps its
  \<^verbatim>\<open>run_after\<close> and stays unclaimable until then.
\<close>

theorem forced_rebuild_keeps_delay:
  assumes "pending_for_client cid (d_jobs d) = Some j" and "distinct (map j_id (d_jobs d))"
    and "j_run_after j = Some t" and "now < t"
    and "enqueue e cid jt keys 0 d = Inr (r, d')"
  shows "\<exists>j'. find_by j_id (j_id j) (d_jobs d') = Some j' \<and> j_run_after j' = Some t \<and>
    \<not> runnable now (d_jobs d') excl j'"
  using assms(5)
proof (cases rule: enqueue_cases)
  case off
  have "find_by j_id (j_id j) (d_jobs d) = Some j"
    using assms(1,2) by (auto dest: pending_for_client_Some intro: find_by_unique)
  with off assms(3,4) show ?thesis by (auto simp: runnable_alt)
next
  case (coalesced j')
  have "find_by j_id (j_id j) (d_jobs d) = Some j"
    using assms(1,2) by (auto dest: pending_for_client_Some intro: find_by_unique)
  with coalesced assms(1,3,4) show ?thesis
    by (auto simp: find_by_update_by runnable_alt debounce_def) (auto simp: coalesce_def Let_def)
next
  case created
  with assms(1) show ?thesis by simp
qed

lemma backoff_bounds: "0 < a \<Longrightarrow> 20 \<le> backoff a \<and> backoff a \<le> 300"
proof -
  assume "0 < a"
  then have "(2::int) ^ 1 \<le> 2 ^ a" by (intro power_increasing) auto
  then show ?thesis by (simp add: backoff_def)
qed

text \<open>
  The outcome of a claimed job. If its client is gone or the build succeeds it ends
  \<^verbatim>\<open>succeeded\<close>; if the build raises, it is retried between 20 and 300 seconds later
  while it has attempts left and is dead-lettered otherwise. No other row changes.
\<close>

theorem process_job_outcome:
  assumes "find_by j_id jid jobs = Some j" and "job_ok j" and "j_status j = Job_running"
  shows "\<exists>j'. find_by j_id jid (process_job build client_exists now jid jobs) = Some j' \<and>
    (if \<not> client_exists (j_client_id j) \<or>
        (\<exists>u. build (j_client_id j) (j_type j)
          (if keys_or_empty (j_changed_keys j) \<noteq> [] then j_changed_keys j else None) = Inr u)
     then j_status j' = Job_succeeded
     else if j_attempts j = j_max_attempts j then j_status j' = Job_dead
     else j_status j' = Job_queued \<and> j_locked_by j' = None \<and>
       (\<exists>s. 20 \<le> s \<and> s \<le> 300 \<and> j_run_after j' = Some (now + seconds s))) \<and>
    (\<forall>i. i \<noteq> jid \<longrightarrow> find_by j_id i (process_job build client_exists now jid jobs) = find_by j_id i jobs)"
proof -
  have keys: "(if keys_or_empty (j_changed_keys j) \<noteq> [] then Some (keys_or_empty (j_changed_keys j)) else None)
      = (if keys_or_empty (j_changed_keys j) \<noteq> [] then j_changed_keys j else None)"
    by (cases "j_changed_keys j") (simp_all add: keys_or_empty_def)
  have att: "0 < j_attempts j" "j_attempts j \<le> j_max_attempts j"
    using assms(2,3) by (auto simp: job_ok_def)
  have bk: "\<exists>s. 20 \<le> s \<and> s \<le> 300 \<and> seconds (backoff (j_attempts j)) = seconds s"
    using backoff_bounds [OF att(1)] by blast
  show ?thesis
  proof (cases "client_exists (j_client_id j)")
    case False
    with assms(1) show ?thesis by (simp add: process_job_def succeed_def find_by_update_by)
  next
    case True
    show ?thesis
    proof (cases "build (j_client_id j) (j_type j)
          (if keys_or_empty (j_changed_keys j) \<noteq> [] then j_changed_keys j else None)")
      case (Inr u)
      with True assms(1) keys show ?thesis
        by (simp add: process_job_def succeed_def find_by_update_by Let_def)
    next
      case (Inl err)
      have p: "process_job build client_exists now jid jobs = fail now jid err jobs"
        using True assms(1) keys Inl by (simp add: process_job_def Let_def)
      show ?thesis
      proof (cases "j_attempts j = j_max_attempts j")
        case True
        with assms(1) Inl \<open>client_exists (j_client_id j)\<close> show ?thesis
          by (simp add: p fail_def find_by_update_by)
      next
        case False
        with att have "j_attempts j < j_max_attempts j" by simp
        moreover have "j_run_after (fail_row now err j) = Some (now + seconds (backoff (j_attempts j)))"
            "j_locked_by (fail_row now err j) = None"
          using \<open>j_attempts j < j_max_attempts j\<close> by (simp_all add: fail_row_def Let_def)
        ultimately show ?thesis
          using assms(1) Inl \<open>client_exists (j_client_id j)\<close> bk
          by (auto simp add: p fail_def find_by_update_by)
      qed
    qed
  qed
qed


section \<open>Witnesses\<close>

text \<open>Three jobs: two of client 7, the second running, and one of client 8.\<close>

definition job_a :: intel_job where
  "job_a = new_job 0 1 7 Job_incremental (Some [''brand'']) (Some 500)"

definition job_b :: intel_job where
  "job_b = claim_row ''w1'' 5 (new_job 1 2 7 Job_full_build None None)"

definition job_c :: intel_job where
  "job_c = new_job 2 3 8 Job_incremental (Some [''goals'']) None"

lemmas sample_job_defs = job_a_def job_b_def job_c_def new_job_def claim_row_def keys_or_empty_def
  sorted_set_def

lemma sample_jobs_inv: "jobs_inv [job_a, job_b, job_c]"
  by (simp add: jobs_inv_def job_ok_def sample_job_defs)

text \<open>The recheck of the first attempt sees the job another worker claimed meanwhile.\<close>

definition racing_views :: "nat \<Rightarrow> intel_job list \<times> intel_job list" where
  "racing_views k = (if k = 4 then [job_a, job_c] else [job_a, job_b, job_c], [job_a, job_b, job_c])"

lemma racing_claim:
  "claim_loop 5 racing_views [] ''w2'' 600 =
     Some (3, update_by j_id 3 (claim_row ''w2'' 600) [job_a, job_b, job_c])"
  by (simp add: numeral_eq_Suc racing_views_def candidate_def first_by_def runnable_def
      client_running_def sample_job_defs less_eq_prod_def)

theorem claim_mutual_exclusion_witness:
  "\<exists>jobs'. claim_loop 5 racing_views [] ''w2'' 600 = Some (3, jobs') \<and> jobs_inv jobs'"
proof -
  have "jobs_inv (update_by j_id 3 (claim_row ''w2'' 600) [job_a, job_b, job_c])"
  proof (rule claim_mutual_exclusion [OF _ _ racing_claim, THEN conjunct1])
    show "jobs_inv (snd (racing_views k))" for k
      by (simp add: racing_views_def sample_jobs_inv)
    show "job \<in> set (snd (racing_views k))"
      if "candidate 600 excl' (fst (racing_views k)) = Some job" for k excl' job
      using candidate_runnable [OF that] by (auto simp: racing_views_def split: if_splits)
  qed
  with racing_claim show ?thesis by blast
qed

definition retry_run :: "queue_event list" where
  "retry_run = [Ev_enqueue sample_env 7 Job_full_build None 0, Ev_claim ''w1'' 0 2000,
     Ev_fail 3000 100 ''boom'', Ev_claim ''w1'' 0 (3000 + seconds 300),
     Ev_fail (4000 + seconds 300) 100 ''boom'', Ev_claim ''w1'' 0 (5000 + seconds 700),
     Ev_fail (6000 + seconds 700) 100 ''boom'', Ev_claim ''w1'' 0 (7000 + seconds 2000)]"

lemmas queue_eval = sample_queue_def empty_db_def sample_env_def enqueue_def debounce_def
  pending_for_client_def first_by_def fresh_id_def new_job_def keys_or_empty_def with_jobs_def
  claim_next_def reclaim_stale_def RECLAIM_INTERVAL_def candidate_def runnable_def claim_row_def
  client_running_def MAX_CLAIM_ATTEMPTS_def numeral_eq_Suc fail_def fail_row_def backoff_def Let_def
  seconds_def succeed_def succeed_row_def

lemma retry_run_claims:
  "fst (queue_run retry_run sample_queue) = [100, 100, 100] \<and>
   find_by j_id 100 (d_jobs (q_db (snd (queue_run retry_run sample_queue)))) \<noteq> None"
  by code_simp

theorem retries_bounded_witness:
  "\<exists>j. find_by j_id 100 (d_jobs (q_db (snd (queue_run retry_run sample_queue)))) = Some j \<and>
     count_list (fst (queue_run retry_run sample_queue)) 100 \<le> j_max_attempts j"
proof -
  obtain j where j: "find_by j_id 100 (d_jobs (q_db (snd (queue_run retry_run sample_queue)))) = Some j"
    using retry_run_claims by auto
  have "queue_run retry_run sample_queue =
      (fst (queue_run retry_run sample_queue), snd (queue_run retry_run sample_queue))" by simp
  from retries_bounded [OF sample_queue_inv this j] j show ?thesis by blast
qed

theorem claim_picks_best_witness:
  "\<exists>job \<in> {job_a, job_b, job_c}. fst (claim_next ''w2'' 0 600 0 [job_a, job_b, job_c]) = Some (j_id job)"
proof -
  have s: "reclaim_stale False 0 600 0 [job_a, job_b, job_c] = (0, 0, [job_a, job_b, job_c])"
    by (simp add: reclaim_stale_def RECLAIM_INTERVAL_def seconds_def)
  have run: "runnable 600 [job_a, job_b, job_c] [] job_c"
    by (simp add: runnable_def sample_job_defs)
  obtain r sw' jobs' where c: "claim_next ''w2'' 0 600 0 [job_a, job_b, job_c] = (r, sw', jobs')"
    by (cases "claim_next ''w2'' 0 600 0 [job_a, job_b, job_c]") auto
  from claim_picks_best [OF _ run c s] c show ?thesis by auto
qed

definition queued_db :: db where
  "queued_db = empty_db\<lparr>d_jobs := [job_a, job_b, job_c]\<rparr>"

lemma queued_db_pending: "pending_for_client 7 (d_jobs queued_db) = Some job_a"
  by (simp add: pending_for_client_def first_by_def queued_db_def sample_job_defs)

lemma queued_db_distinct: "distinct (map j_id (d_jobs queued_db))"
  by (simp add: queued_db_def sample_job_defs)

theorem enqueue_coalesces_witness:
  "\<exists>r d'. enqueue sample_env 7 Job_full_build (Some [''goals'']) 5 queued_db = Inr (r, d') \<and>
     map j_id (d_jobs d') = [1, 2, 3]"
proof -
  obtain r d' where enq: "enqueue sample_env 7 Job_full_build (Some [''goals'']) 5 queued_db = Inr (r, d')"
    using enqueue_never_fails by blast
  have "e_intel_enabled sample_env" by (simp add: sample_env_def)
  from enqueue_coalesces [OF this queued_db_pending queued_db_distinct enq] enq show ?thesis
    by (auto simp: queued_db_def sample_job_defs)
qed

theorem forced_rebuild_keeps_delay_witness:
  "\<exists>r d' j'. enqueue sample_env 7 Job_incremental (Some [''compliance'']) 0 queued_db = Inr (r, d') \<and>
     find_by j_id 1 (d_jobs d') = Some j' \<and> j_run_after j' = Some 500 \<and> \<not> runnable 400 (d_jobs d') [] j'"
proof -
  obtain r d' where enq: "enqueue sample_env 7 Job_incremental (Some [''compliance'']) 0 queued_db = Inr (r, d')"
    using enqueue_never_fails by blast
  have "j_run_after job_a = Some 500" "j_id job_a = 1" by (simp_all add: sample_job_defs)
  with forced_rebuild_keeps_delay [OF queued_db_pending queued_db_distinct _ _ enq, of 500 400 "[]"] enq
  show ?thesis by auto
qed

theorem process_job_outcome_witness:
  "\<exists>j'. find_by j_id 2 (process_job (\<lambda>_ _ _. Inl ''boom'') (\<lambda>_. True) 9 2 [job_a, job_b]) = Some j' \<and>
     j_status j' = Job_queued"
proof -
  have "find_by j_id 2 [job_a, job_b] = Some job_b" "job_ok job_b" "j_status job_b = Job_running"
    by (simp_all add: sample_job_defs job_ok_def)
  from process_job_outcome [OF this, of "\<lambda>_ _ _. Inl ''boom''" "\<lambda>_. True" 9] show ?thesis
    by (auto simp: sample_job_defs)
qed


definition late_run :: "queue_event list" where
  "late_run = [Ev_enqueue sample_env 7 Job_full_build None 0, Ev_claim ''w1'' 0 2000,
     Ev_claim ''w2'' (seconds 2000) (seconds 2000), Ev_succeed 100]"

text \<open>
  Nothing ties a completion to the worker that holds the job: a worker whose job was
  reclaimed as stale and handed to another can still report on it. There is a run in which it
  marks the job \<^verbatim>\<open>succeeded\<close> while the second worker is running it, and the second
  worker's failure then puts the succeeded job back in the queue.
\<close>

theorem late_completion_unowned:
  "let (claimed, q) = queue_run late_run sample_queue;
       (claimed', q') = queue_run [Ev_fail (seconds 2001) 100 ''boom''] q
   in claimed = [100, 100] \<and>
      map_option (\<lambda>j. (j_status j, j_locked_by j)) (find_by j_id 100 (d_jobs (q_db q))) =
        Some (Job_succeeded, Some ''w2'') \<and>
      map_option j_status (find_by j_id 100 (d_jobs (q_db q'))) = Some Job_queued"
  by code_simp

end
