(* ===== verification/Rate_Limit.thy ===== *)
theory Rate_Limit
  imports Enums "HOL-Library.AList"
begin

text \<open>
  The rate limiter of \<^verbatim>\<open>app/core/rate_limit.py\<close>: the protocol
  \<^verbatim>\<open>RateLimitStore\<close> as the locale \<open>rate_store\<close>, its two implementations
  \<^verbatim>\<open>MemoryRateLimitStore\<close> and \<^verbatim>\<open>RedisRateLimitStore\<close>, both proved to
  implement the same reference limiter, and the functions \<^verbatim>\<open>enforce\<close>,
  \<^verbatim>\<open>clear\<close> and \<^verbatim>\<open>_client_ip\<close> built on them.

  Instants are microseconds (the code's are floating-point seconds). Python dicts are association
  lists in insertion order, as \<^verbatim>\<open>AList.update\<close> keeps them. A call site fixes
  \<^verbatim>\<open>times\<close> and \<^verbatim>\<open>seconds\<close> per scope: they are the functions
  \<open>limit\<close> and \<open>window\<close>.
\<close>

section \<open>The in-memory store\<close>

type_synonym buckets = "(string \<times> int list) list"

record mem_store =
  ms_hits :: "(string \<times> buckets) list"
  ms_last_sweep :: int

definition BUCKET_TTL :: int where
  "BUCKET_TTL = 3600 * 1000000"

definition SWEEP_INTERVAL :: int where
  "SWEEP_INTERVAL = 300 * 1000000"

definition MAX_KEYS_PER_SCOPE :: nat where
  "MAX_KEYS_PER_SCOPE = 50000"

definition mem_reset :: mem_store where
  "mem_reset = \<lparr>ms_hits = [], ms_last_sweep = 0\<rparr>"

definition scope_buckets :: "mem_store \<Rightarrow> string \<Rightarrow> buckets" where
  "scope_buckets st sc = (case map_of (ms_hits st) sc of None \<Rightarrow> [] | Some ks \<Rightarrow> ks)"

definition bucket_of :: "mem_store \<Rightarrow> string \<Rightarrow> string \<Rightarrow> int list" where
  "bucket_of st sc k = (case map_of (scope_buckets st sc) k of None \<Rightarrow> [] | Some b \<Rightarrow> b)"

definition put_bucket :: "string \<Rightarrow> string \<Rightarrow> int list \<Rightarrow> mem_store \<Rightarrow> mem_store" where
  "put_bucket sc k b st =
     st\<lparr>ms_hits := AList.update sc (AList.update k b (scope_buckets st sc)) (ms_hits st)\<rparr>"

definition stale_bucket :: "int \<Rightarrow> int list \<Rightarrow> bool" where
  "stale_bucket before b \<longleftrightarrow> b = [] \<or> last b \<le> before"

definition mem_prune :: "int \<Rightarrow> mem_store \<Rightarrow> mem_store" where
  "mem_prune now st =
     (if now - ms_last_sweep st < SWEEP_INTERVAL then st
      else \<lparr>ms_hits = filter (\<lambda>(sc, ks). ks \<noteq> [])
              (map (\<lambda>(sc, ks). (sc, filter (\<lambda>(k, b). \<not> stale_bucket (now - BUCKET_TTL) b) ks))
                (ms_hits st)),
            ms_last_sweep = now\<rparr>)"

definition last_hit :: "string \<times> int list \<Rightarrow> int" where
  "last_hit kb = (if snd kb \<noteq> [] then last (snd kb) else 0)"

definition enforce_scope_cap :: "string \<Rightarrow> mem_store \<Rightarrow> mem_store" where
  "enforce_scope_cap sc st =
     (let ks = scope_buckets st sc in
      if length ks \<le> MAX_KEYS_PER_SCOPE then st
      else
        let evicted = map fst (take (length ks - MAX_KEYS_PER_SCOPE) (sort_key last_hit ks)) in
        st\<lparr>ms_hits := AList.update sc (filter (\<lambda>kb. fst kb \<notin> set evicted) ks) (ms_hits st)\<rparr>)"

definition mem_allow ::
    "(string \<Rightarrow> nat) \<Rightarrow> (string \<Rightarrow> int) \<Rightarrow> string \<Rightarrow> string \<Rightarrow> int \<Rightarrow> mem_store \<Rightarrow> bool \<times> mem_store" where
  "mem_allow limit window sc k now st =
     (let st1 = mem_prune now st;
          bucket = dropWhile (\<lambda>t. t \<le> now - window sc) (bucket_of st1 sc k) in
      if limit sc \<le> length bucket then (False, put_bucket sc k bucket st1)
      else (True, enforce_scope_cap sc (put_bucket sc k (bucket @ [now]) st1)))"

definition mem_forget :: "string \<Rightarrow> string \<Rightarrow> mem_store \<Rightarrow> mem_store" where
  "mem_forget sc k st =
     (case map_of (ms_hits st) sc of
        None \<Rightarrow> st
      | Some ks \<Rightarrow> st\<lparr>ms_hits := AList.update sc (AList.delete k ks) (ms_hits st)\<rparr>)"

section \<open>The Redis store\<close>

text \<open>
  What the Lua script uses of Redis: a sorted set per key (members with scores) and the instant at
  which the key expires. Members are drawn fresh (\<^verbatim>\<open>uuid4().hex\<close>). Clients and server
  are taken to read one clock.
\<close>

record redis_store =
  rs_keys :: "(string \<times> (nat \<times> int) list \<times> int) list"
  rs_next :: nat

definition redis_init :: redis_store where
  "redis_init = \<lparr>rs_keys = [], rs_next = 0\<rparr>"

definition redis_key :: "string \<Rightarrow> string \<Rightarrow> string" where
  "redis_key sc k = ''ratelimit:'' @ sc @ '':'' @ k"

definition zset :: "redis_store \<Rightarrow> string \<Rightarrow> (nat \<times> int) list" where
  "zset st key = (case map_of (rs_keys st) key of None \<Rightarrow> [] | Some (z, ex) \<Rightarrow> z)"

definition expires :: "redis_store \<Rightarrow> string \<Rightarrow> int" where
  "expires st key = (case map_of (rs_keys st) key of None \<Rightarrow> 0 | Some (z, ex) \<Rightarrow> ex)"

definition ceil_seconds :: "int \<Rightarrow> int" where
  "ceil_seconds w = - ((- w) div 1000000)"

definition sliding_window_lua ::
    "string \<Rightarrow> int \<Rightarrow> int \<Rightarrow> nat \<Rightarrow> redis_store \<Rightarrow> bool \<times> redis_store" where
  "sliding_window_lua key now window limit st =
     (let z0 = (if expires st key \<le> now then [] else zset st key);
          z = filter (\<lambda>(m, s). \<not> s \<le> now - window) z0 in
      if limit \<le> length z
      then (False, st\<lparr>rs_keys := AList.update key (z, expires st key) (rs_keys st)\<rparr>)
      else (True, st\<lparr>rs_keys := AList.update key
              (AList.update (rs_next st) now z, now + (ceil_seconds window + 1) * 1000000) (rs_keys st),
            rs_next := Suc (rs_next st)\<rparr>))"

text \<open>\<open>up\<close> says whether the call reaches Redis; if it does not, the hit is allowed.\<close>

definition redis_allow :: "bool \<Rightarrow> (string \<Rightarrow> nat) \<Rightarrow> (string \<Rightarrow> int) \<Rightarrow> string \<Rightarrow> string \<Rightarrow> int \<Rightarrow>
    redis_store \<Rightarrow> bool \<times> redis_store" where
  "redis_allow up limit window sc k now st =
     (if \<not> up then (True, st)
      else sliding_window_lua (redis_key sc k) now (window sc) (limit sc) st)"

definition redis_forget :: "bool \<Rightarrow> string \<Rightarrow> string \<Rightarrow> redis_store \<Rightarrow> redis_store" where
  "redis_forget up sc k st =
     (if \<not> up then st else st\<lparr>rs_keys := AList.delete (redis_key sc k) (rs_keys st)\<rparr>)"

section \<open>Enforcing a limit\<close>

definition too_many_requests :: exn where
  "too_many_requests =
     AppError TooManyRequestsError ''Too many requests. Please slow down and try again shortly.''"

text \<open>
  \<^verbatim>\<open>enforce\<close> and \<^verbatim>\<open>clear\<close> over any store; the store moves on also when
  the hit is refused.
\<close>

definition enforce_limit :: "bool \<Rightarrow> (string \<Rightarrow> string \<Rightarrow> int \<Rightarrow> 's \<Rightarrow> bool \<times> 's) \<Rightarrow>
    string \<Rightarrow> string \<Rightarrow> int \<Rightarrow> 's \<Rightarrow> (exn + unit) \<times> 's" where
  "enforce_limit enabled allow sc k now st =
     (if \<not> enabled then (Inr (), st)
      else case allow sc k now st of (b, st') \<Rightarrow> (if \<not> b then Inl too_many_requests else Inr (), st'))"

definition clear_limit :: "bool \<Rightarrow> (string \<Rightarrow> string \<Rightarrow> 's \<Rightarrow> 's) \<Rightarrow> string \<Rightarrow> string \<Rightarrow> 's \<Rightarrow> 's" where
  "clear_limit enabled forget sc k st = (if \<not> enabled then st else forget sc k st)"

text \<open>
  \<^verbatim>\<open>_client_ip\<close>: \<open>trusted\<close> is \<^verbatim>\<open>settings.app.is_trusted_proxy\<close>, the
  peer is absent when the server knows no socket address.
\<close>

definition client_ip :: "(string \<Rightarrow> bool) \<Rightarrow> string option \<Rightarrow> string option \<Rightarrow> string" where
  "client_ip trusted client forwarded =
     (let peer = (case client of None \<Rightarrow> ''unknown'' | Some h \<Rightarrow> h) in
      case forwarded of
        None \<Rightarrow> peer
      | Some f \<Rightarrow>
          if f \<noteq> [] \<and> peer \<noteq> ''unknown'' \<and> trusted peer
          then let first = strip (takeWhile (\<lambda>c. c \<noteq> CHR '','') f) in if first \<noteq> [] then first else peer
          else peer)"

definition rate_limit_dependency :: "bool \<Rightarrow> (string \<Rightarrow> bool) \<Rightarrow>
    (string \<Rightarrow> string \<Rightarrow> int \<Rightarrow> 's \<Rightarrow> bool \<times> 's) \<Rightarrow> string \<Rightarrow> string option \<Rightarrow> string option \<Rightarrow> int \<Rightarrow> 's \<Rightarrow>
    (exn + unit) \<times> 's" where
  "rate_limit_dependency enabled trusted allow sc client forwarded now st =
     (if \<not> enabled then (Inr (), st)
      else enforce_limit enabled allow sc (client_ip trusted client forwarded) now st)"

section \<open>Runs and the reference limiter\<close>

datatype limiter_event = Hit string string int | Forget string string

fun limiter_run :: "(string \<Rightarrow> string \<Rightarrow> int \<Rightarrow> 's \<Rightarrow> bool \<times> 's) \<Rightarrow> (string \<Rightarrow> string \<Rightarrow> 's \<Rightarrow> 's) \<Rightarrow>
    limiter_event list \<Rightarrow> 's \<Rightarrow> bool list \<times> 's" where
  "limiter_run allow forget [] st = ([], st)"
| "limiter_run allow forget (Hit sc k now # es) st =
     (case allow sc k now st of (b, st1) \<Rightarrow>
        case limiter_run allow forget es st1 of (bs, st2) \<Rightarrow> (b # bs, st2))"
| "limiter_run allow forget (Forget sc k # es) st = limiter_run allow forget es (forget sc k st)"

fun event_key :: "limiter_event \<Rightarrow> string \<times> string" where
  "event_key (Hit sc k now) = (sc, k)"
| "event_key (Forget sc k) = (sc, k)"

fun event_times :: "limiter_event list \<Rightarrow> int list" where
  "event_times [] = []"
| "event_times (Hit sc k now # es) = now # event_times es"
| "event_times (Forget sc k # es) = event_times es"

text \<open>
  The reference: the log of the admitted hits of each key since it was last forgotten, and a hit
  is admitted when fewer than \<open>limit\<close> of them are younger than the window.
\<close>

type_synonym hit_log = "string \<times> string \<Rightarrow> int list"

definition ref_allow :: "(string \<Rightarrow> nat) \<Rightarrow> (string \<Rightarrow> int) \<Rightarrow> string \<Rightarrow> string \<Rightarrow> int \<Rightarrow> hit_log \<Rightarrow>
    bool \<times> hit_log" where
  "ref_allow limit window sc k now log =
     (if length (filter (\<lambda>x. now - window sc < x) (log (sc, k))) < limit sc
      then (True, log((sc, k) := log (sc, k) @ [now])) else (False, log))"

definition ref_forget :: "string \<Rightarrow> string \<Rightarrow> hit_log \<Rightarrow> hit_log" where
  "ref_forget sc k log = log((sc, k) := [])"

text \<open>The log that the decisions of a run leave behind.\<close>

fun replay :: "limiter_event list \<Rightarrow> bool list \<Rightarrow> hit_log \<Rightarrow> hit_log" where
  "replay (Hit sc k now # es) (b # bs) log =
     replay es bs (if b then log((sc, k) := log (sc, k) @ [now]) else log)"
| "replay (Forget sc k # es) bs log = replay es bs (ref_forget sc k log)"
| "replay _ _ log = log"

locale rate_store =
  fixes allow :: "string \<Rightarrow> string \<Rightarrow> int \<Rightarrow> 's \<Rightarrow> bool \<times> 's"
    and forget :: "string \<Rightarrow> string \<Rightarrow> 's \<Rightarrow> 's"
    and live :: "'s \<Rightarrow> string \<Rightarrow> string \<Rightarrow> int \<Rightarrow> nat"
    and inv :: "int \<Rightarrow> 's \<Rightarrow> bool"
    and limit :: "string \<Rightarrow> nat"
    and window :: "string \<Rightarrow> int"
    and U :: "(string \<times> string) set"
  assumes decides: "inv t st \<Longrightarrow> t \<le> now \<Longrightarrow> (sc, k) \<in> U \<Longrightarrow>
      fst (allow sc k now st) \<longleftrightarrow> live st sc k (now - window sc) < limit sc"
    and records: "inv t st \<Longrightarrow> t \<le> now \<Longrightarrow> (sc, k) \<in> U \<Longrightarrow> (sc', k') \<in> U \<Longrightarrow> now - window sc' \<le> c \<Longrightarrow>
      live (snd (allow sc k now st)) sc' k' c = live st sc' k' c +
        (if (sc', k') = (sc, k) \<and> fst (allow sc k now st) \<and> c < now then 1 else 0)"
    and inv_allow: "inv t st \<Longrightarrow> t \<le> now \<Longrightarrow> (sc, k) \<in> U \<Longrightarrow> inv now (snd (allow sc k now st))"
    and forgets: "inv t st \<Longrightarrow> (sc, k) \<in> U \<Longrightarrow> (sc', k') \<in> U \<Longrightarrow>
      live (forget sc k st) sc' k' c = (if (sc', k') = (sc, k) then 0 else live st sc' k' c)"
    and inv_forget: "inv t st \<Longrightarrow> (sc, k) \<in> U \<Longrightarrow> inv t (forget sc k st)"
begin

text \<open>The store agrees with a log: it knows every logged hit that any window still reaches.\<close>

definition agrees :: "int \<Rightarrow> 's \<Rightarrow> hit_log \<Rightarrow> bool" where
  "agrees t st log \<longleftrightarrow> inv t st \<and>
     (\<forall>sc k c. (sc, k) \<in> U \<longrightarrow> t - window sc \<le> c \<longrightarrow>
        live st sc k c = length (filter (\<lambda>x. c < x) (log (sc, k))))"

lemma agrees_allow:
  assumes a: "agrees t st log" and t: "t \<le> now" and U: "(sc, k) \<in> U"
  shows "fst (allow sc k now st) = fst (ref_allow limit window sc k now log)"
    and "agrees now (snd (allow sc k now st)) (snd (ref_allow limit window sc k now log))"
proof -
  have inv: "inv t st" using a by (simp add: agrees_def)
  have lv: "live st sc' k' c = length (filter (\<lambda>x. c < x) (log (sc', k')))"
    if "(sc', k') \<in> U" "now - window sc' \<le> c" for sc' k' c
    using a that t by (simp add: agrees_def)
  show dec: "fst (allow sc k now st) = fst (ref_allow limit window sc k now log)"
    by (simp add: decides [OF inv t U] lv [OF U] ref_allow_def)
  have "live (snd (allow sc k now st)) sc' k' c =
      length (filter (\<lambda>x. c < x) (snd (ref_allow limit window sc k now log) (sc', k')))"
    if "(sc', k') \<in> U" "now - window sc' \<le> c" for sc' k' c
    using records [OF inv t U that(1) that(2)] lv [OF that] dec by (simp add: ref_allow_def)
  then show "agrees now (snd (allow sc k now st)) (snd (ref_allow limit window sc k now log))"
    using inv_allow [OF inv t U] by (simp add: agrees_def)
qed

lemma agrees_forget: "agrees t st log \<Longrightarrow> (sc, k) \<in> U \<Longrightarrow> agrees t (forget sc k st) (ref_forget sc k log)"
  by (auto simp: agrees_def inv_forget forgets ref_forget_def)

lemma run_refines:
  "agrees t st log \<Longrightarrow> sorted (t # event_times es) \<Longrightarrow> event_key ` set es \<subseteq> U \<Longrightarrow>
    fst (limiter_run allow forget es st) = fst (limiter_run (ref_allow limit window) ref_forget es log)"
proof (induction es arbitrary: t st log)
  case (Cons ev es)
  show ?case
  proof (cases ev)
    case (Hit sc k now)
    then have t: "t \<le> now" and U: "(sc, k) \<in> U" using Cons.prems by auto
    note step = agrees_allow [OF Cons.prems(1) t U]
    have "fst (limiter_run allow forget es (snd (allow sc k now st))) =
        fst (limiter_run (ref_allow limit window) ref_forget es (snd (ref_allow limit window sc k now log)))"
      using Cons.prems(2,3) Hit by (intro Cons.IH [OF step(2)]) auto
    with step(1) Hit show ?thesis by (auto simp: split_beta)
  next
    case (Forget sc k)
    then have "(sc, k) \<in> U" using Cons.prems by auto
    from Cons.IH [OF agrees_forget [OF Cons.prems(1) this]] show ?thesis
      using Cons.prems(2,3) Forget by simp
  qed
qed simp

end

section \<open>The reference limiter keeps its bound\<close>

definition log_bounded :: "(string \<Rightarrow> nat) \<Rightarrow> (string \<Rightarrow> int) \<Rightarrow> hit_log \<Rightarrow> bool" where
  "log_bounded limit window log \<longleftrightarrow>
     (\<forall>sc k a. length (filter (\<lambda>x. a < x \<and> x \<le> a + window sc) (log (sc, k))) \<le> limit sc)"

lemma filter_weaken_length:
  assumes "\<And>x. x \<in> set xs \<Longrightarrow> P x \<Longrightarrow> Q x"
  shows "length (filter P xs) \<le> length (filter Q xs)"
  using assms by (induction xs) auto

lemma log_bounded_allow:
  assumes "log_bounded limit window log"
  shows "log_bounded limit window (snd (ref_allow limit window sc k now log))"
proof (cases "length (filter (\<lambda>x. now - window sc < x) (log (sc, k))) < limit sc")
  case True
  have "length (filter (\<lambda>x. a < x \<and> x \<le> a + window sc) (log (sc, k) @ [now])) \<le> limit sc" for a
  proof (cases "a < now \<and> now \<le> a + window sc")
    case inw: True
    have "length (filter (\<lambda>x. a < x \<and> x \<le> a + window sc) (log (sc, k))) \<le>
        length (filter (\<lambda>x. now - window sc < x) (log (sc, k)))"
      using inw by (intro filter_weaken_length) auto
    with True inw show ?thesis by auto
  next
    case False
    then show ?thesis using assms by (auto simp: log_bounded_def)
  qed
  with True assms show ?thesis by (auto simp: ref_allow_def log_bounded_def)
next
  case False
  with assms show ?thesis by (simp add: ref_allow_def)
qed

lemma log_bounded_forget: "log_bounded limit window log \<Longrightarrow> log_bounded limit window (ref_forget sc k log)"
  by (auto simp: log_bounded_def ref_forget_def)

lemma ref_run_bounded:
  "log_bounded limit window log \<Longrightarrow>
    log_bounded limit window (replay es (fst (limiter_run (ref_allow limit window) ref_forget es log)) log)"
proof (induction es arbitrary: log)
  case (Cons ev es)
  show ?case
  proof (cases ev)
    case (Hit sc k now)
    have "replay (ev # es) (fst (limiter_run (ref_allow limit window) ref_forget (ev # es) log)) log =
        replay es (fst (limiter_run (ref_allow limit window) ref_forget es
            (snd (ref_allow limit window sc k now log)))) (snd (ref_allow limit window sc k now log))"
      using Hit by (auto simp: split_beta ref_allow_def)
    with Cons.IH [OF log_bounded_allow [OF Cons.prems]] show ?thesis by simp
  next
    case (Forget sc k)
    with Cons.IH [OF log_bounded_forget [OF Cons.prems]] show ?thesis by simp
  qed
qed simp

section \<open>The in-memory store implements it\<close>

definition mem_live :: "mem_store \<Rightarrow> string \<Rightarrow> string \<Rightarrow> int \<Rightarrow> nat" where
  "mem_live st sc k c = length (filter (\<lambda>x. c < x) (bucket_of st sc k))"

text \<open>
  The configuration under which the memory store is exact: no window outlives the bucket TTL and
  no scope sees more keys than its cap.
\<close>

definition mem_cfg :: "(string \<Rightarrow> int) \<Rightarrow> (string \<times> string) set \<Rightarrow> bool" where
  "mem_cfg window U \<longleftrightarrow> finite U \<and>
     (\<forall>sc. window sc \<le> BUCKET_TTL \<and> card {k. (sc, k) \<in> U} \<le> MAX_KEYS_PER_SCOPE)"

definition mem_inv :: "(string \<Rightarrow> int) \<Rightarrow> (string \<times> string) set \<Rightarrow> int \<Rightarrow> mem_store \<Rightarrow> bool" where
  "mem_inv window U t st \<longleftrightarrow> mem_cfg window U \<and> distinct (map fst (ms_hits st)) \<and>
     (\<forall>sc. distinct (map fst (scope_buckets st sc)) \<and> fst ` set (scope_buckets st sc) \<subseteq> {k. (sc, k) \<in> U}) \<and>
     (\<forall>sc k. sorted (bucket_of st sc k) \<and> (\<forall>x \<in> set (bucket_of st sc k). x \<le> t))"

lemma map_of_filter_distinct:
  assumes "distinct (map fst table)"
  shows "map_of (filter keep table) k =
    (case map_of table k of Some v \<Rightarrow> if keep (k, v) then Some v else None | None \<Rightarrow> None)"
  using assms
proof (induction table)
  case (Cons x xs)
  have "map_of xs (fst x) = None" using Cons.prems by (simp add: map_of_eq_None_iff)
  with Cons show ?case by (cases x) auto
qed simp

lemma scope_buckets_put: "scope_buckets (put_bucket sc k b st) sc' =
    (if sc' = sc then AList.update k b (scope_buckets st sc) else scope_buckets st sc')"
  by (simp add: scope_buckets_def put_bucket_def update_conv')

lemma bucket_of_put: "bucket_of (put_bucket sc k b st) sc' k' =
    (if sc' = sc \<and> k' = k then b else bucket_of st sc' k')"
  by (simp add: bucket_of_def scope_buckets_put update_conv')

lemma mem_inv_put:
  assumes "mem_inv window U t st" and "(sc, k) \<in> U" and "t \<le> now" and "sorted b" and "\<forall>x \<in> set b. x \<le> now"
  shows "mem_inv window U now (put_bucket sc k b st)"
  unfolding mem_inv_def
proof (intro conjI allI)
  show "mem_cfg window U" using assms(1) by (simp add: mem_inv_def)
  show "distinct (map fst (ms_hits (put_bucket sc k b st)))"
    using assms(1) by (simp add: mem_inv_def put_bucket_def distinct_update)
  fix sc'
  show "distinct (map fst (scope_buckets (put_bucket sc k b st) sc'))"
    using assms(1) by (simp add: mem_inv_def scope_buckets_put distinct_update)
  show "fst ` set (scope_buckets (put_bucket sc k b st) sc') \<subseteq> {k. (sc', k) \<in> U}"
    using assms(1,2) by (simp add: mem_inv_def scope_buckets_put dom_update)
  fix k'
  show "sorted (bucket_of (put_bucket sc k b st) sc' k')"
    using assms(1,4) by (simp add: mem_inv_def bucket_of_put)
  show "\<forall>x\<in>set (bucket_of (put_bucket sc k b st) sc' k'). x \<le> now"
  proof
    fix x
    assume x: "x \<in> set (bucket_of (put_bucket sc k b st) sc' k')"
    have "\<forall>x \<in> set (bucket_of st sc' k'). x \<le> t" using assms(1) by (simp add: mem_inv_def)
    then show "x \<le> now"
      using x assms(3,5) by (auto simp: bucket_of_put split: if_splits)
  qed
qed

lemma scope_buckets_prune:
  assumes "distinct (map fst (ms_hits st))" and "\<not> now - ms_last_sweep st < SWEEP_INTERVAL"
  shows "scope_buckets (mem_prune now st) sc =
    filter (\<lambda>(k, b). \<not> stale_bucket (now - BUCKET_TTL) b) (scope_buckets st sc)"
proof -
  let ?F = "filter (\<lambda>(k, b). \<not> stale_bucket (now - BUCKET_TTL) b)"
  have d: "distinct (map fst (map (\<lambda>(sc, ks). (sc, ?F ks)) (ms_hits st)))"
    using assms(1) by (simp add: split_beta comp_def)
  have m: "map_of (map (\<lambda>(sc, ks). (sc, ?F ks)) (ms_hits st)) sc = map_option ?F (map_of (ms_hits st) sc)"
    by (simp add: map_of_map)
  show ?thesis
    using assms(2) map_of_filter_distinct [OF d, of "\<lambda>(sc, ks). ks \<noteq> []" sc]
    by (simp add: mem_prune_def scope_buckets_def m split: option.split)
qed

lemma bucket_of_prune:
  assumes "mem_inv window U t st"
  shows "bucket_of (mem_prune now st) sc k =
    (if now - ms_last_sweep st < SWEEP_INTERVAL then bucket_of st sc k
     else if stale_bucket (now - BUCKET_TTL) (bucket_of st sc k) then [] else bucket_of st sc k)"
proof -
  have d: "distinct (map fst (ms_hits st))" "distinct (map fst (scope_buckets st sc))"
    using assms by (simp_all add: mem_inv_def)
  show ?thesis
    using map_of_filter_distinct [OF d(2), of "\<lambda>(k, b). \<not> stale_bucket (now - BUCKET_TTL) b" k]
      scope_buckets_prune [OF d(1)]
    by (auto simp: bucket_of_def stale_bucket_def mem_prune_def split: option.split)
qed

lemma mem_inv_prune:
  assumes "mem_inv window U t st"
  shows "mem_inv window U t (mem_prune now st)"
proof (cases "now - ms_last_sweep st < SWEEP_INTERVAL")
  case True
  with assms show ?thesis by (simp add: mem_prune_def)
next
  case False
  have d: "distinct (map fst (ms_hits st))" using assms by (simp add: mem_inv_def)
  have "distinct (map fst (ms_hits (mem_prune now st)))"
    using d False by (simp add: mem_prune_def split_beta comp_def distinct_map_filter)
  moreover have "distinct (map fst (scope_buckets (mem_prune now st) sc)) \<and>
      fst ` set (scope_buckets (mem_prune now st) sc) \<subseteq> {k. (sc, k) \<in> U}" for sc
    using assms by (auto simp: scope_buckets_prune [OF d False] mem_inv_def distinct_map_filter)
  moreover have "sorted (bucket_of (mem_prune now st) sc k) \<and>
      (\<forall>x \<in> set (bucket_of (mem_prune now st) sc k). x \<le> t)" for sc k
    using assms by (simp add: bucket_of_prune [OF assms]) (simp add: mem_inv_def)
  ultimately show ?thesis using assms by (simp add: mem_inv_def)
qed

lemma sorted_le_last: "sorted xs \<Longrightarrow> x \<in> set xs \<Longrightarrow> x \<le> last xs" for x :: int
  by (induction xs) auto

lemma live_prune:
  assumes "mem_inv window U t st" and "now - BUCKET_TTL \<le> c"
  shows "mem_live (mem_prune now st) sc k c = mem_live st sc k c"
proof -
  have s: "sorted (bucket_of st sc k)" using assms(1) by (simp add: mem_inv_def)
  have "filter (\<lambda>x. c < x) (bucket_of st sc k) = []" if "stale_bucket (now - BUCKET_TTL) (bucket_of st sc k)"
    using that assms(2) sorted_le_last [OF s] by (fastforce simp: stale_bucket_def filter_empty_conv)
  then show ?thesis
    by (simp add: mem_live_def bucket_of_prune [OF assms(1)])
qed

lemma dropWhile_sorted_filter: "sorted xs \<Longrightarrow> dropWhile (\<lambda>t. t \<le> c) xs = filter (\<lambda>t. c < t) xs" for c :: int
  by (induction xs) (auto intro!: filter_True [symmetric])

lemma sorted_filter_plain: "sorted xs \<Longrightarrow> sorted (filter P xs)"
  using sorted_filter [of "\<lambda>x. x" xs P] by simp

lemma cap_idle:
  assumes "mem_inv window U t st"
  shows "enforce_scope_cap sc st = st"
proof -
  let ?ks = "scope_buckets st sc"
  have "distinct (map fst ?ks)" "set (map fst ?ks) \<subseteq> {k. (sc, k) \<in> U}"
    using assms by (auto simp: mem_inv_def)
  moreover have "{k. (sc, k) \<in> U} \<subseteq> snd ` U" by force
  moreover have "finite U" "card {k. (sc, k) \<in> U} \<le> MAX_KEYS_PER_SCOPE"
    using assms by (simp_all add: mem_inv_def mem_cfg_def)
  ultimately have "length (map fst ?ks) \<le> MAX_KEYS_PER_SCOPE"
    using card_mono [of "{k. (sc, k) \<in> U}" "set (map fst ?ks)"] distinct_card [of "map fst ?ks"]
    by (simp add: finite_subset [of _ "snd ` U"] del: set_map)
  then show ?thesis by (simp add: enforce_scope_cap_def)
qed

lemma mem_allow_alt:
  assumes i: "mem_inv window U t st" and t: "t \<le> now" and U: "(sc, k) \<in> U"
  shows "mem_allow limit window sc k now st =
    (let st1 = mem_prune now st; b = filter (\<lambda>x. now - window sc < x) (bucket_of st1 sc k) in
     if limit sc \<le> length b then (False, put_bucket sc k b st1)
     else (True, put_bucket sc k (b @ [now]) st1))"
    and "mem_inv window U now (snd (mem_allow limit window sc k now st))"
proof -
  let ?st1 = "mem_prune now st"
  let ?b = "filter (\<lambda>x. now - window sc < x) (bucket_of ?st1 sc k)"
  have i1: "mem_inv window U t ?st1" using i by (rule mem_inv_prune)
  have s: "sorted (bucket_of ?st1 sc k)" "\<forall>x \<in> set (bucket_of ?st1 sc k). x \<le> t"
    using i1 by (simp_all add: mem_inv_def)
  have drop: "dropWhile (\<lambda>t. t \<le> now - window sc) (bucket_of ?st1 sc k) = ?b"
    by (rule dropWhile_sorted_filter [OF s(1)])
  have i2: "mem_inv window U now (put_bucket sc k ?b ?st1)"
    using s t by (intro mem_inv_put [OF i1 U t]) (auto intro: sorted_filter_plain)
  have i3: "mem_inv window U now (put_bucket sc k (?b @ [now]) ?st1)"
    using s t by (intro mem_inv_put [OF i1 U t]) (auto simp: sorted_append intro: sorted_filter_plain)
  show alt: "mem_allow limit window sc k now st =
    (let st1 = mem_prune now st; b = filter (\<lambda>x. now - window sc < x) (bucket_of st1 sc k) in
     if limit sc \<le> length b then (False, put_bucket sc k b st1)
     else (True, put_bucket sc k (b @ [now]) st1))"
    by (simp add: mem_allow_def Let_def drop cap_idle [OF i3])
  show "mem_inv window U now (snd (mem_allow limit window sc k now st))"
    using i2 i3 by (simp add: alt Let_def)
qed

lemma mem_live_put: "mem_live (put_bucket sc k b st) sc' k' c =
    (if (sc', k') = (sc, k) then length (filter (\<lambda>x. c < x) b) else mem_live st sc' k' c)"
  by (simp add: mem_live_def bucket_of_put)

lemma scope_buckets_forget:
  "scope_buckets (mem_forget sc k st) sc' =
    (if sc' = sc then AList.delete k (scope_buckets st sc) else scope_buckets st sc')"
  by (auto simp: mem_forget_def scope_buckets_def update_conv' split: option.split)

lemma bucket_of_forget: "bucket_of (mem_forget sc k st) sc' k' =
    (if (sc', k') = (sc, k) then [] else bucket_of st sc' k')"
  by (simp add: bucket_of_def scope_buckets_forget delete_conv')

interpretation mem: rate_store "mem_allow limit window" mem_forget mem_live "mem_inv window U" limit window U
  for limit window U
proof
  fix t st now sc k
  assume i: "mem_inv window U t st" and t: "t \<le> now" and U: "(sc, k) \<in> U"
  note alt = mem_allow_alt [OF i t U, of limit]
  have ttl: "window sc' \<le> BUCKET_TTL" for sc'
    using i by (simp add: mem_inv_def mem_cfg_def)
  have lv: "mem_live (mem_prune now st) sc' k' c = mem_live st sc' k' c" if "now - window sc' \<le> c" for sc' k' c
    using that ttl [of sc'] by (intro live_prune [OF i]) simp
  show dec: "fst (mem_allow limit window sc k now st) \<longleftrightarrow> mem_live st sc k (now - window sc) < limit sc"
    by (simp add: alt(1) Let_def lv [symmetric] mem_live_def [symmetric] not_le)
  show "mem_inv window U now (snd (mem_allow limit window sc k now st))"
    by (rule alt(2))
  fix sc' k' c
  assume "now - window sc' \<le> c"
  note lv' = lv [OF this]
  have *: "mem_live (mem_prune now st) sc k c =
      length (filter (\<lambda>x. c < x) (filter (\<lambda>x. now - window sc < x) (bucket_of (mem_prune now st) sc k)))"
    if "now - window sc \<le> c"
    using that by (auto simp: mem_live_def filter_filter intro!: arg_cong [where f = length] filter_cong)
  show "mem_live (snd (mem_allow limit window sc k now st)) sc' k' c = mem_live st sc' k' c +
      (if (sc', k') = (sc, k) \<and> fst (mem_allow limit window sc k now st) \<and> c < now then 1 else 0)"
    using \<open>now - window sc' \<le> c\<close> * lv'
    by (auto simp: alt(1) Let_def mem_live_put lv)
next
  fix t st sc k sc' k' c
  assume i: "mem_inv window U t st" "(sc, k) \<in> U"
  show "mem_live (mem_forget sc k st) sc' k' c = (if (sc', k') = (sc, k) then 0 else mem_live st sc' k' c)"
    by (simp add: mem_live_def bucket_of_forget)
  have "distinct (map fst (ms_hits (mem_forget sc k st)))"
    using i by (auto simp: mem_inv_def mem_forget_def distinct_update split: option.split)
  moreover have "distinct (map fst (AList.delete k ks))" if "distinct (map fst ks)" for ks :: buckets
    using that by (rule distinct_delete)
  moreover have "fst ` set (AList.delete k ks) \<subseteq> fst ` set ks" for ks :: buckets
    by (rule dom_delete_subset)
  ultimately show "mem_inv window U t (mem_forget sc k st)"
    using i by (simp add: mem_inv_def scope_buckets_forget bucket_of_forget) (meson subset_trans)
qed

section \<open>The Redis store implements it\<close>

definition redis_live :: "redis_store \<Rightarrow> string \<Rightarrow> string \<Rightarrow> int \<Rightarrow> nat" where
  "redis_live st sc k c = length (filter (\<lambda>(m, s). c < s) (zset st (redis_key sc k)))"

text \<open>Scopes are the fixed names of the call sites, none of which holds a colon.\<close>

definition redis_inv :: "(string \<Rightarrow> int) \<Rightarrow> (string \<times> string) set \<Rightarrow> int \<Rightarrow> redis_store \<Rightarrow> bool" where
  "redis_inv window U t st \<longleftrightarrow> (\<forall>(sc, k) \<in> U. CHR '':'' \<notin> set sc) \<and>
     (\<forall>(sc, k) \<in> U. \<forall>(m, s) \<in> set (zset st (redis_key sc k)).
        m < rs_next st \<and> s \<le> t \<and> s + window sc \<le> expires st (redis_key sc k))"

lemma redis_key_inj:
  assumes "CHR '':'' \<notin> set sc" and "CHR '':'' \<notin> set sc'"
  shows "redis_key sc k = redis_key sc' k' \<longleftrightarrow> sc = sc' \<and> k = k'"
proof
  assume "redis_key sc k = redis_key sc' k'"
  then have eq: "sc @ CHR '':'' # k = sc' @ CHR '':'' # k'" by (simp add: redis_key_def)
  have tw: "takeWhile (\<lambda>c. c \<noteq> CHR '':'') (xs @ CHR '':'' # ys) = xs" if "CHR '':'' \<notin> set xs" for xs ys
    using that by (induction xs) auto
  have "sc = sc'" using arg_cong [OF eq, of "takeWhile (\<lambda>c. c \<noteq> CHR '':'')"] by (simp add: tw assms)
  with eq show "sc = sc' \<and> k = k'" by simp
qed simp

lemma le_ceil_seconds: "w \<le> (ceil_seconds w + 1) * 1000000"
proof -
  have "(- w) div 1000000 * 1000000 \<le> - w" by (simp add: minus_mod_eq_div_mult [symmetric])
  then show ?thesis by (simp add: ceil_seconds_def algebra_simps)
qed

text \<open>The part of a sorted set that the script keeps: expiry drops only hits out of the window.\<close>

definition kept :: "redis_store \<Rightarrow> string \<Rightarrow> int \<Rightarrow> int \<Rightarrow> (nat \<times> int) list" where
  "kept st key now w = filter (\<lambda>(m, s). \<not> s \<le> now - w) (if expires st key \<le> now then [] else zset st key)"

lemma kept_live:
  assumes i: "redis_inv window U t st" and U: "(sc, k) \<in> U" and c: "now - window sc \<le> c"
  shows "length (filter (\<lambda>(m, s). c < s) (kept st (redis_key sc k) now (window sc))) = redis_live st sc k c"
proof (cases "expires st (redis_key sc k) \<le> now")
  case True
  have "filter (\<lambda>(m, s). c < s) (zset st (redis_key sc k)) = []"
    using i U c True by (fastforce simp: redis_inv_def filter_empty_conv)
  with True show ?thesis by (simp add: kept_def redis_live_def)
next
  case False
  then show ?thesis
    using c by (auto simp: kept_def redis_live_def filter_filter split_beta
        intro!: arg_cong [where f = length] filter_cong)
qed

lemma set_kept: "set (kept st key now w) \<subseteq> set (zset st key)"
  by (auto simp: kept_def)

lemma kept_live_all:
  assumes i: "redis_inv window U t st" and U: "(sc, k) \<in> U"
  shows "length (kept st (redis_key sc k) now (window sc)) = redis_live st sc k (now - window sc)"
proof -
  have "filter (\<lambda>(m, s). now - window sc < s) (kept st (redis_key sc k) now (window sc)) =
      kept st (redis_key sc k) now (window sc)"
    by (rule filter_True) (auto simp: kept_def)
  with kept_live [OF i U order_refl, of now] show ?thesis by simp
qed

lemma update_fresh: "k \<notin> fst ` set al \<Longrightarrow> AList.update k v al = al @ [(k, v)]"
  by (induction al) auto

text \<open>What the script does, on a key of the universe.\<close>

lemma lua_alt:
  assumes i: "redis_inv window U t st" and U: "(sc, k) \<in> U"
  shows "sliding_window_lua (redis_key sc k) now (window sc) n st =
    (let key = redis_key sc k; z = kept st key now (window sc) in
     if n \<le> length z then (False, st\<lparr>rs_keys := AList.update key (z, expires st key) (rs_keys st)\<rparr>)
     else (True, st\<lparr>rs_keys := AList.update key
             (z @ [(rs_next st, now)], now + (ceil_seconds (window sc) + 1) * 1000000) (rs_keys st),
           rs_next := Suc (rs_next st)\<rparr>))"
proof -
  have "rs_next st \<notin> fst ` set (kept st (redis_key sc k) now (window sc))"
    using i U set_kept by (fastforce simp: redis_inv_def)
  then show ?thesis
    by (simp add: sliding_window_lua_def Let_def kept_def [symmetric] update_fresh)
qed

lemma zset_update: "zset (st\<lparr>rs_keys := AList.update key (z, ex) (rs_keys st)\<rparr>) key' =
    (if key' = key then z else zset st key')"
  and zset_update_next: "zset (st\<lparr>rs_keys := AList.update key (z, ex) (rs_keys st), rs_next := n\<rparr>) key' =
    (if key' = key then z else zset st key')"
  and expires_update: "expires (st\<lparr>rs_keys := AList.update key (z, ex) (rs_keys st)\<rparr>) key' =
    (if key' = key then ex else expires st key')"
  and expires_update_next: "expires (st\<lparr>rs_keys := AList.update key (z, ex) (rs_keys st), rs_next := n\<rparr>) key' =
    (if key' = key then ex else expires st key')"
  by (simp_all add: zset_def expires_def update_conv')

lemmas redis_updates = zset_update zset_update_next expires_update expires_update_next

lemma redis_inv_entry:
  assumes "redis_inv window U t st" and "(sc, k) \<in> U" and "(m, s) \<in> set (zset st (redis_key sc k))"
  shows "m < rs_next st \<and> s \<le> t \<and> s + window sc \<le> expires st (redis_key sc k)"
  using assms by (fastforce simp: redis_inv_def)

lemma redis_inv_lua:
  assumes i: "redis_inv window U t st" and t: "t \<le> now" and U: "(sc, k) \<in> U"
  shows "redis_inv window U now (snd (sliding_window_lua (redis_key sc k) now (window sc) n st))"
proof -
  let ?st' = "snd (sliding_window_lua (redis_key sc k) now (window sc) n st)"
  have nc: "\<forall>(sc, k) \<in> U. CHR '':'' \<notin> set sc" using i by (simp add: redis_inv_def)
  have "m < rs_next ?st' \<and> s \<le> now \<and> s + window sc' \<le> expires ?st' (redis_key sc' k')"
    if U': "(sc', k') \<in> U" and e: "(m, s) \<in> set (zset ?st' (redis_key sc' k'))" for sc' k' m s
  proof (cases "redis_key sc' k' = redis_key sc k")
    case True
    have "CHR '':'' \<notin> set sc" "CHR '':'' \<notin> set sc'" using nc U U' by auto
    with True have eq: "sc' = sc" "k' = k" by (auto simp: redis_key_inj)
    have old: "m < rs_next st \<and> s \<le> t \<and> s + window sc \<le> expires st (redis_key sc k) \<and> s \<le> now"
      if "(m, s) \<in> set (kept st (redis_key sc k) now (window sc))"
      using that set_kept redis_inv_entry [OF i U] t by fastforce
    show ?thesis
      using e eq old le_ceil_seconds [of "window sc"] t
      by (cases "n \<le> length (kept st (redis_key sc k) now (window sc))")
        (auto simp: lua_alt [OF i U] Let_def redis_updates)
  next
    case False
    then have "(m, s) \<in> set (zset st (redis_key sc' k'))"
      using e by (auto simp: lua_alt [OF i U] Let_def redis_updates split: if_splits)
    from redis_inv_entry [OF i U' this] False t show ?thesis
      by (auto simp: lua_alt [OF i U] Let_def redis_updates)
  qed
  then show ?thesis using nc unfolding redis_inv_def by blast
qed

interpretation redis: rate_store "redis_allow True limit window" "redis_forget True" redis_live
    "redis_inv window U" limit window U
  for limit window U
proof
  fix t st now sc k
  assume i: "redis_inv window U t st" and t: "t \<le> now" and U: "(sc, k) \<in> U"
  show dec: "fst (redis_allow True limit window sc k now st) \<longleftrightarrow>
      redis_live st sc k (now - window sc) < limit sc"
    by (simp add: redis_allow_def lua_alt [OF i U] Let_def kept_live_all [OF i U] not_le)
  show "redis_inv window U now (snd (redis_allow True limit window sc k now st))"
    by (simp add: redis_allow_def redis_inv_lua [OF i t U])
  fix sc' k' c
  assume U': "(sc', k') \<in> U" and c: "now - window sc' \<le> c"
  have nc: "CHR '':'' \<notin> set sc" "CHR '':'' \<notin> set sc'" using i U U' by (auto simp: redis_inv_def)
  show "redis_live (snd (redis_allow True limit window sc k now st)) sc' k' c = redis_live st sc' k' c +
      (if (sc', k') = (sc, k) \<and> fst (redis_allow True limit window sc k now st) \<and> c < now then 1 else 0)"
  proof (cases "(sc', k') = (sc, k)")
    case True
    with kept_live [OF i U, of now c] c show ?thesis
      by (simp add: redis_allow_def lua_alt [OF i U] Let_def redis_live_def redis_updates)
  next
    case False
    then have "redis_key sc' k' \<noteq> redis_key sc k" using nc by (simp add: redis_key_inj)
    with False show ?thesis
      by (auto simp: redis_allow_def lua_alt [OF i U] Let_def redis_live_def redis_updates)
  qed
next
  fix t st sc k sc' k' c
  assume i: "redis_inv window U t st" and U: "(sc, k) \<in> U" and U': "(sc', k') \<in> U"
  have nc: "CHR '':'' \<notin> set sc" "CHR '':'' \<notin> set sc'" using i U U' by (auto simp: redis_inv_def)
  show "redis_live (redis_forget True sc k st) sc' k' c =
      (if (sc', k') = (sc, k) then 0 else redis_live st sc' k' c)"
    using nc by (auto simp: redis_forget_def redis_live_def zset_def delete_conv' redis_key_inj)
next
  fix t st sc k
  assume i: "redis_inv window U t st" and U: "(sc, k) \<in> U"
  have z: "zset (redis_forget True sc k st) key = (if key = redis_key sc k then [] else zset st key)"
    "key \<noteq> redis_key sc k \<Longrightarrow> expires (redis_forget True sc k st) key = expires st key" for key
    by (simp_all add: redis_forget_def zset_def expires_def delete_conv')
  have n: "rs_next (redis_forget True sc k st) = rs_next st" by (simp add: redis_forget_def)
  show "redis_inv window U t (redis_forget True sc k st)"
    unfolding redis_inv_def n
  proof (intro conjI ballI, goal_cases)
    case (1 x) then show ?case using i by (auto simp: redis_inv_def)
  next
    case (2 x)
    then show ?case
      using redis_inv_entry [OF i] by (cases x) (auto simp: z split: if_splits)
  qed
qed

section \<open>Properties\<close>

lemma mem_agrees_reset:
  assumes "mem_cfg window U"
  shows "mem.agrees window U t mem_reset (\<lambda>_. [])"
  using assms by (simp add: mem.agrees_def mem_inv_def mem_reset_def scope_buckets_def bucket_of_def mem_live_def)

lemma redis_agrees_init:
  assumes "\<forall>(sc, k) \<in> U. CHR '':'' \<notin> set sc"
  shows "redis.agrees window U t redis_init (\<lambda>_. [])"
  using assms by (auto simp: redis.agrees_def redis_inv_def redis_init_def zset_def redis_live_def)

lemma sorted_from: "sorted xs \<Longrightarrow> sorted ((case xs of [] \<Rightarrow> 0 | x # _ \<Rightarrow> x) # xs)" for xs :: "int list"
  by (cases xs) auto


text \<open>
  The memory store never admits more than \<open>limit\<close> hits of a key in any window of its scope
  (counted since the key's budget was last refunded), wherever the window is placed.
\<close>

theorem mem_window_bound:
  assumes "mem_cfg window U" and "sorted (event_times es)" and "event_key ` set es \<subseteq> U"
  shows "length (filter (\<lambda>x. a < x \<and> x \<le> a + window sc)
      (replay es (fst (limiter_run (mem_allow limit window) mem_forget es mem_reset)) (\<lambda>_. []) (sc, k)))
    \<le> limit sc"
proof -
  have "log_bounded limit window (\<lambda>_. [])" by (simp add: log_bounded_def)
  from ref_run_bounded [OF this, of es]
    mem.run_refines [OF mem_agrees_reset [OF assms(1)] sorted_from [OF assms(2)] assms(3), of limit]
  show ?thesis by (simp add: log_bounded_def)
qed

text \<open>The instants at which a route limited by address lets the requests of one client pass.\<close>

fun dependency_run :: "(string \<Rightarrow> bool) \<Rightarrow> (string \<Rightarrow> nat) \<Rightarrow> (string \<Rightarrow> int) \<Rightarrow> string \<Rightarrow> string option \<Rightarrow>
    (string option \<times> int) list \<Rightarrow> mem_store \<Rightarrow> int list" where
  "dependency_run trusted limit window sc client [] st = []"
| "dependency_run trusted limit window sc client ((fwd, now) # rs) st =
     (case rate_limit_dependency True trusted (mem_allow limit window) sc client fwd now st of
        (Inl e, st1) \<Rightarrow> dependency_run trusted limit window sc client rs st1
      | (Inr u, st1) \<Rightarrow> now # dependency_run trusted limit window sc client rs st1)"

lemma client_ip_untrusted:
  assumes "case client of None \<Rightarrow> True | Some h \<Rightarrow> \<not> trusted h"
  shows "client_ip trusted client fwd = (case client of None \<Rightarrow> ''unknown'' | Some h \<Rightarrow> h)"
  using assms by (simp add: client_ip_def Let_def split: option.splits)

lemma dependency_run_replay:
  assumes "case client of None \<Rightarrow> True | Some h \<Rightarrow> \<not> trusted h"
    and peer: "peer = (case client of None \<Rightarrow> ''unknown'' | Some h \<Rightarrow> h)"
  shows "replay (map (\<lambda>(fwd, now). Hit sc peer now) rs)
      (fst (limiter_run (mem_allow limit window) mem_forget (map (\<lambda>(fwd, now). Hit sc peer now) rs) st)) log
      (sc, peer) = log (sc, peer) @ dependency_run trusted limit window sc client rs st"
proof (induction rs arbitrary: st log)
  case (Cons r rs)
  obtain fwd now where r: "r = (fwd, now)" by (cases r)
  obtain b st1 where a: "mem_allow limit window sc peer now st = (b, st1)"
    by (cases "mem_allow limit window sc peer now st")
  obtain bs st2 where rn: "limiter_run (mem_allow limit window) mem_forget
      (map (\<lambda>(fwd, now). Hit sc peer now) rs) st1 = (bs, st2)"
    by (cases "limiter_run (mem_allow limit window) mem_forget (map (\<lambda>(fwd, now). Hit sc peer now) rs) st1")
  have ip: "client_ip trusted client fwd = peer" using client_ip_untrusted [OF assms(1)] peer by simp
  show ?case
    using Cons.IH [of st1] by (simp add: r a rn rate_limit_dependency_def enforce_limit_def ip)
qed simp

text \<open>
  A client that is not behind a trusted proxy cannot buy itself a fresh budget: whatever
  \<^verbatim>\<open>X-Forwarded-For\<close> headers it sends, its requests to a limited route (here with the
  memory store, the requests in order of time, at most \<open>limit\<close> admitted per window) are all
  counted against its socket address.
\<close>

theorem forwarded_header_buys_nothing:
  assumes "case client of None \<Rightarrow> True | Some h \<Rightarrow> \<not> trusted h"
    and "sorted (map snd rs)" and "\<forall>s. window s \<le> BUCKET_TTL"
  shows "length (filter (\<lambda>x. a < x \<and> x \<le> a + window sc)
    (dependency_run trusted limit window sc client rs mem_reset)) \<le> limit sc"
proof -
  define peer where "peer = (case client of None \<Rightarrow> ''unknown'' | Some h \<Rightarrow> h)"
  let ?es = "map (\<lambda>(fwd :: string option, now). Hit sc peer now) rs"
  have "{k. (s, k) \<in> {(sc, peer)}} \<subseteq> {peer}" for s by auto
  then have "card {k. (s, k) \<in> {(sc, peer)}} \<le> card {peer}" for s
    by (intro card_mono) simp_all
  moreover have "card {peer} \<le> MAX_KEYS_PER_SCOPE" by (simp add: MAX_KEYS_PER_SCOPE_def)
  ultimately have "card {k. (s, k) \<in> {(sc, peer)}} \<le> MAX_KEYS_PER_SCOPE" for s by (rule le_trans)
  with assms(3) have cfg: "mem_cfg window {(sc, peer)}"
    unfolding mem_cfg_def by blast
  have times: "event_times ?es = map snd rs"
    by (induction rs) auto
  have keys: "event_key ` set ?es \<subseteq> {(sc, peer)}" by auto
  have "length (filter (\<lambda>x. a < x \<and> x \<le> a + window sc) (replay ?es
      (fst (limiter_run (mem_allow limit window) mem_forget ?es mem_reset)) (\<lambda>_. []) (sc, peer))) \<le> limit sc"
    using mem.run_refines [OF mem_agrees_reset [OF cfg] sorted_from [of "event_times ?es"] keys, of limit]
      ref_run_bounded [of limit window "\<lambda>_. []" ?es] assms(2) times
    by (simp add: log_bounded_def)
  then show ?thesis
    by (simp only: dependency_run_replay [where log = "\<lambda>_. []", OF assms(1) peer_def] append_Nil)
qed

section \<open>Witnesses\<close>

definition login_events :: "limiter_event list" where
  "login_events = [Hit ''login'' ''1.2.3.4'' 10, Hit ''login'' ''1.2.3.4'' 20, Hit ''login'' ''1.2.3.4'' 30,
     Hit ''login'' ''5.6.7.8'' 40, Forget ''login'' ''1.2.3.4'', Hit ''login'' ''1.2.3.4'' 50,
     Hit ''login'' ''5.6.7.8'' 60000100]"

definition login_keys :: "(string \<times> string) set" where
  "login_keys = {(''login'', ''1.2.3.4''), (''login'', ''5.6.7.8'')}"

lemma login_sample: "sorted (event_times login_events)" "event_key ` set login_events \<subseteq> login_keys"
  "\<forall>(sc, k) \<in> login_keys. CHR '':'' \<notin> set sc"
  by (simp_all add: login_events_def login_keys_def)

lemma login_cfg: "mem_cfg (\<lambda>_. 60000000) login_keys"
proof -
  have "{k. (s, k) \<in> login_keys} \<subseteq> {''1.2.3.4'', ''5.6.7.8''}" for s by (auto simp: login_keys_def)
  then have "card {k. (s, k) \<in> login_keys} \<le> card {''1.2.3.4'', ''5.6.7.8''}" for s
    by (intro card_mono) auto
  moreover have "card {''1.2.3.4'', ''5.6.7.8''} \<le> 50000" by simp
  ultimately have "card {k. (s, k) \<in> login_keys} \<le> 50000" for s by (rule le_trans)
  then show ?thesis
    by (simp add: mem_cfg_def BUCKET_TTL_def MAX_KEYS_PER_SCOPE_def) (simp add: login_keys_def)
qed


theorem mem_window_bound_witness:
  "length (filter (\<lambda>x. 0 < x \<and> x \<le> 60000000)
     (replay login_events (fst (limiter_run (mem_allow (\<lambda>_. 2) (\<lambda>_. 60000000)) mem_forget login_events mem_reset))
       (\<lambda>_. []) (''login'', ''1.2.3.4''))) \<le> 2"
  using mem_window_bound [OF login_cfg login_sample(1,2), where limit = "\<lambda>_. 2" and a = 0 and sc = "''login''" and k = "''1.2.3.4''"]
  by simp

theorem forwarded_header_buys_nothing_witness:
  "length (filter (\<lambda>x. 0 < x \<and> x \<le> 60000000)
     (dependency_run (\<lambda>h. h = ''10.0.0.1'') (\<lambda>_. 2) (\<lambda>_. 60000000) ''login'' (Some ''6.6.6.6'')
       [(Some ''1.1.1.1'', 10), (Some ''2.2.2.2'', 20), (None, 30), (Some ''3.3.3.3'', 40)] mem_reset)) \<le> 2"
proof -
  have "\<forall>s. (\<lambda>_ :: string. 60000000) s \<le> BUCKET_TTL" by (simp add: BUCKET_TTL_def)
  from forwarded_header_buys_nothing [where limit = "\<lambda>_. 2" and client = "Some ''6.6.6.6''" and a = 0
      and trusted = "\<lambda>h. h = ''10.0.0.1''" and sc = "''login''" and window = "\<lambda>_. 60000000"
      and rs = "[(Some ''1.1.1.1'', 10), (Some ''2.2.2.2'', 20), (None, 30), (Some ''3.3.3.3'', 40)]", OF _ _ this]
  show ?thesis by simp
qed

end
