(* ===== verification/Access.thy ===== *)
theory Access
  imports Database
begin

text \<open>
  Who may see and change which client: the role and capability checks of
  \<^verbatim>\<open>app/services/client_service.py\<close> and \<^verbatim>\<open>app/api/deps.py\<close>, the
  assignments of \<^verbatim>\<open>app/services/assignment_service.py\<close> and their repositories. The
  state is the tables \<^verbatim>\<open>clients\<close>, \<^verbatim>\<open>users\<close> and
  \<^verbatim>\<open>client_assignments\<close> of the database.
\<close>

section \<open>Repositories\<close>

definition client_get :: "uuid \<Rightarrow> db \<Rightarrow> client option" where
  "client_get cid d = find_by c_id cid (d_clients d)"

definition user_get :: "uuid \<Rightarrow> db \<Rightarrow> user option" where
  "user_get uid d = find_by u_id uid (d_users d)"

definition a_key :: "assignment \<Rightarrow> uuid \<times> uuid" where
  "a_key a = (a_client_id a, a_user_id a)"

definition assignment_get :: "uuid \<times> uuid \<Rightarrow> db \<Rightarrow> assignment option" where
  "assignment_get k d = find_by a_key k (d_assignments d)"

definition assignment_exists :: "uuid \<Rightarrow> uuid \<Rightarrow> db \<Rightarrow> bool" where
  "assignment_exists cid uid d \<longleftrightarrow> assignment_get (cid, uid) d \<noteq> None"

definition assignment_add :: "assignment \<Rightarrow> db \<Rightarrow> db" where
  "assignment_add a d = d\<lparr>d_assignments := d_assignments d @ [a]\<rparr>"

definition assignment_delete :: "uuid \<times> uuid \<Rightarrow> db \<Rightarrow> db" where
  "assignment_delete k d = d\<lparr>d_assignments := delete_by a_key k (d_assignments d)\<rparr>"

interpretation assignments: repository a_key assignment_get assignment_add assignment_delete d_assignments
  by unfold_locales (simp_all add: assignment_get_def assignment_add_def assignment_delete_def)

definition list_client_ids_for_user :: "uuid \<Rightarrow> db \<Rightarrow> uuid list" where
  "list_client_ids_for_user uid d = map a_client_id (filter (\<lambda>a. a_user_id a = uid) (d_assignments d))"

definition list_for_client_rows :: "uuid \<Rightarrow> db \<Rightarrow> assignment list" where
  "list_for_client_rows cid d =
     sort_key a_created_at (filter (\<lambda>a. a_client_id a = cid) (d_assignments d))"

section \<open>Capabilities\<close>

definition ALL_CAPABILITIES :: "capability set" where
  "ALL_CAPABILITIES = set all_caps"

definition capabilities_from_stored :: "string list option \<Rightarrow> capability set" where
  "capabilities_from_stored stored =
     (case stored of
        None \<Rightarrow> ALL_CAPABILITIES
      | Some values \<Rightarrow>
          let caps = set (List.map_filter parse_cap values) in
          if Cap_admin \<in> caps then ALL_CAPABILITIES else caps)"

definition can_access :: "db \<Rightarrow> user \<Rightarrow> uuid \<Rightarrow> bool" where
  "can_access d user cid \<longleftrightarrow> u_role user = Role_admin \<or> assignment_exists cid (u_id user) d"

definition get_client :: "db \<Rightarrow> user \<Rightarrow> uuid \<Rightarrow> exn + client" where
  "get_client d user cid =
     (case client_get cid d of
        None \<Rightarrow> Inl (not_found ''Client not found.'')
      | Some c \<Rightarrow> if \<not> can_access d user cid then Inl (not_found ''Client not found.'') else Inr c)"

definition effective_capabilities :: "db \<Rightarrow> user \<Rightarrow> uuid \<Rightarrow> capability set" where
  "effective_capabilities d user cid =
     (if u_role user = Role_admin then ALL_CAPABILITIES
      else case assignment_get (cid, u_id user) d of
        None \<Rightarrow> {}
      | Some a \<Rightarrow> if u_role user = Role_manager then ALL_CAPABILITIES
                  else capabilities_from_stored (a_capabilities a))"

definition missing_capability :: "capability \<Rightarrow> exn" where
  "missing_capability cap =
     forbidden (''This action requires the '' @ CHR 0x27 # cap_value cap @ CHR 0x27 #
       '' capability on this client.'')"

definition require_capability :: "db \<Rightarrow> user \<Rightarrow> uuid \<Rightarrow> capability \<Rightarrow> exn + client" where
  "require_capability d user cid cap =
     bindR (get_client d user cid) (\<lambda>c.
       if cap \<notin> effective_capabilities d user cid then Inl (missing_capability cap) else Inr c)"

definition get_current_admin :: "user \<Rightarrow> exn + user" where
  "get_current_admin user =
     (if u_role user \<noteq> Role_admin then Inl (forbidden ''Administrator privileges are required.'')
      else Inr user)"

section \<open>Listing clients\<close>

definition opt_ilike :: "string \<Rightarrow> string option \<Rightarrow> bool" where
  "opt_ilike p s = (case s of None \<Rightarrow> False | Some x \<Rightarrow> ilike p x)"

definition client_filter :: "string option \<Rightarrow> client_status option \<Rightarrow> client \<Rightarrow> bool" where
  "client_filter search status c \<longleftrightarrow>
     (case search of
        None \<Rightarrow> True
      | Some s \<Rightarrow> s \<noteq> [] \<longrightarrow>
          opt_ilike (contains_pattern s) (c_name c) \<or> opt_ilike (contains_pattern s) (c_industry c)) \<and>
     (case status of None \<Rightarrow> True | Some st \<Rightarrow> c_status c = Some st)"

text \<open>
  \<^verbatim>\<open>_paginate\<close>: the page, newest first, and the number of rows of the whole listing.
\<close>

definition paginate_clients :: "client list \<Rightarrow> nat \<Rightarrow> nat \<Rightarrow> client list \<times> nat" where
  "paginate_clients base offset limit =
     (page_of offset limit (sort_key (\<lambda>c. - c_created_at c) base), length base)"

definition list_all_clients ::
    "nat \<Rightarrow> nat \<Rightarrow> string option \<Rightarrow> client_status option \<Rightarrow> db \<Rightarrow> client list \<times> nat" where
  "list_all_clients offset limit search status d =
     paginate_clients (filter (client_filter search status) (d_clients d)) offset limit"

text \<open>The join of \<^verbatim>\<open>clients\<close> with the assignments of one user.\<close>

definition assigned_clients :: "uuid \<Rightarrow> db \<Rightarrow> client list" where
  "assigned_clients uid d =
     concat (map (\<lambda>c. map (\<lambda>_. c)
       (filter (\<lambda>a. a_client_id a = c_id c \<and> a_user_id a = uid) (d_assignments d))) (d_clients d))"

definition list_assigned ::
    "uuid \<Rightarrow> nat \<Rightarrow> nat \<Rightarrow> string option \<Rightarrow> client_status option \<Rightarrow> db \<Rightarrow> client list \<times> nat" where
  "list_assigned uid offset limit search status d =
     paginate_clients (filter (client_filter search status) (assigned_clients uid d)) offset limit"

definition list_clients :: "db \<Rightarrow> user \<Rightarrow> pagination \<Rightarrow> string option \<Rightarrow> client_status option \<Rightarrow>
    client list \<times> nat" where
  "list_clients d user pg search status =
     (if u_role user = Role_admin
      then list_all_clients (pg_offset pg) (pg_page_size pg) search status d
      else list_assigned (u_id user) (pg_offset pg) (pg_page_size pg) search status d)"

section \<open>Assignments\<close>

definition sorted_caps :: "capability list option \<Rightarrow> string list option" where
  "sorted_caps caps =
     (case caps of
        None \<Rightarrow> None
      | Some cs \<Rightarrow> Some (map cap_value (filter (\<lambda>c. c \<in> set cs) all_caps)))"

definition effective_caps :: "string list option \<Rightarrow> capability list" where
  "effective_caps stored = filter (\<lambda>c. c \<in> capabilities_from_stored stored) all_caps"

definition apply_assign ::
    "env \<Rightarrow> uuid \<Rightarrow> uuid \<Rightarrow> uuid \<Rightarrow> capability list option \<Rightarrow> assignment op" where
  "apply_assign e cid uid assigned_by caps d =
     (if client_get cid d = None then Inl (not_found ''Client not found.'')
      else if user_get uid d = None then Inl (not_found ''User not found.'')
      else if assignment_exists cid uid d
      then Inl (conflict ''This client is already assigned to that user.'')
      else bindR (fresh_id d) (\<lambda>(i, d1).
        let a = \<lparr>a_id = i, a_client_id = cid, a_user_id = uid, a_assigned_by = Some assigned_by,
                 a_capabilities = sorted_caps caps, a_created_at = e_now e\<rparr> in
        bindR (flush (assignment_add a d1)) (\<lambda>(_, d2). Inr (a, d2))))"

definition set_caps_row :: "capability list \<Rightarrow> assignment \<Rightarrow> assignment" where
  "set_caps_row caps a = a\<lparr>a_capabilities := sorted_caps (Some caps)\<rparr>"

definition apply_set_capabilities :: "uuid \<Rightarrow> uuid \<Rightarrow> capability list \<Rightarrow> assignment op" where
  "apply_set_capabilities cid uid caps d =
     (case assignment_get (cid, uid) d of
        None \<Rightarrow> Inl (not_found ''Assignment not found.'')
      | Some a \<Rightarrow>
          bindR (flush (d\<lparr>d_assignments := update_by a_key (cid, uid) (set_caps_row caps) (d_assignments d)\<rparr>))
            (\<lambda>(_, d1). Inr (set_caps_row caps a, d1)))"

definition apply_unassign :: "uuid \<Rightarrow> uuid \<Rightarrow> unit op" where
  "apply_unassign cid uid d =
     (case assignment_get (cid, uid) d of
        None \<Rightarrow> Inl (not_found ''Assignment not found.'')
      | Some a \<Rightarrow> flush (assignment_delete (cid, uid) d))"

text \<open>\<^verbatim>\<open>list_for_client\<close> with \<^verbatim>\<open>to_read\<close>: each row with its concrete capabilities.\<close>

definition assignments_for_client :: "uuid \<Rightarrow> db \<Rightarrow> exn + (assignment \<times> capability list) list" where
  "assignments_for_client cid d =
     (if client_get cid d = None then Inl (not_found ''Client not found.'')
      else Inr (map (\<lambda>a. (a, effective_caps (a_capabilities a))) (list_for_client_rows cid d)))"

section \<open>Lemmas\<close>

lemma all_caps_UNIV [simp]: "set all_caps = UNIV"
  using cap_enum.members_all by auto

lemma client_get_Some: "client_get cid d = Some c \<Longrightarrow> c_id c = cid \<and> c \<in> set (d_clients d)"
  by (auto simp: client_get_def dest: find_by_key find_by_in_set)

lemma user_get_id: "user_get uid d = Some u \<Longrightarrow> u_id u = uid"
  by (auto simp: user_get_def dest: find_by_key)

lemma get_client_eq_Inr:
  "get_client d user cid = Inr c \<longleftrightarrow> client_get cid d = Some c \<and> can_access d user cid"
  by (auto simp: get_client_def split: option.splits)

lemma get_client_Inl: "get_client d user cid = Inl e \<Longrightarrow> e = not_found ''Client not found.''"
  by (auto simp: get_client_def split: option.splits if_splits)

lemma can_access_caps: "effective_capabilities d user cid \<noteq> {} \<Longrightarrow> can_access d user cid"
  by (auto simp: effective_capabilities_def can_access_def assignment_exists_def
      split: if_splits option.splits)

lemma map_filter_parse_values: "List.map_filter parse_cap (map cap_value cs) = cs"
  by (induction cs) (simp_all add: List.map_filter_simps)

text \<open>A stored capability list reads back as the requested set, \<^verbatim>\<open>admin\<close> expanded.\<close>

lemma capabilities_sorted_caps:
  "capabilities_from_stored (sorted_caps caps) =
     (case caps of None \<Rightarrow> UNIV | Some cs \<Rightarrow> if Cap_admin \<in> set cs then UNIV else set cs)"
  by (auto simp: capabilities_from_stored_def sorted_caps_def ALL_CAPABILITIES_def
      map_filter_parse_values Let_def split: option.split)

lemma effective_caps_sorted: "set (effective_caps (sorted_caps (Some cs))) =
    (if Cap_admin \<in> set cs then UNIV else set cs)"
  by (auto simp: effective_caps_def capabilities_sorted_caps)

lemma sorted_caps_cong: "set cs = set cs' \<Longrightarrow> sorted_caps (Some cs) = sorted_caps (Some cs')"
  by (simp add: sorted_caps_def)

lemma sorted_caps_idem: "sorted_caps (Some (effective_caps (sorted_caps (Some cs)))) =
    sorted_caps (Some (if Cap_admin \<in> set cs then all_caps else cs))"
  by (rule sorted_caps_cong) (simp add: effective_caps_sorted)

lemma assignment_get_cong: "d_assignments d = d_assignments d' \<Longrightarrow> assignment_get k d = assignment_get k d'"
  by (simp add: assignment_get_def)

text \<open>What an assignment change does to the checks of one user on one client.\<close>

lemma access_cong:
  assumes "assignment_get (cid, u_id user) d' = assignment_get (cid, u_id user) d"
    and "d_clients d' = d_clients d"
  shows "effective_capabilities d' user cid = effective_capabilities d user cid"
    and "get_client d' user cid = get_client d user cid"
    and "require_capability d' user cid cap = require_capability d user cid cap"
proof -
  show 1: "effective_capabilities d' user cid = effective_capabilities d user cid"
    by (simp add: effective_capabilities_def assms)
  show 2: "get_client d' user cid = get_client d user cid"
    using assms(1) by (simp add: get_client_def can_access_def assignment_exists_def client_get_def assms(2) split: option.split)
  show "require_capability d' user cid cap = require_capability d user cid cap"
    by (simp add: require_capability_def 1 2)
qed

lemma apply_assign_Inr:
  assumes "apply_assign e cid uid by caps d = Inr (a, d')"
  shows "d' = assignment_add a (d\<lparr>d_next_id := Suc (d_next_id d)\<rparr>)" "a_key a = (cid, uid)"
    "a_capabilities a = sorted_caps caps" "a_id a = d_next_id d" "client_get cid d \<noteq> None"
    "user_get uid d \<noteq> None" "assignment_get (cid, uid) d = None" "db_constraints d'"
  using assms
  by (auto simp: apply_assign_def fresh_id_def Let_def a_key_def assignment_exists_def result_simps
      split: if_splits)

lemma apply_set_capabilities_Inr:
  assumes "apply_set_capabilities cid uid caps d = Inr (a, d')"
  obtains a0 where "assignment_get (cid, uid) d = Some a0" "a = set_caps_row caps a0"
    "d' = d\<lparr>d_assignments := update_by a_key (cid, uid) (set_caps_row caps) (d_assignments d)\<rparr>"
    "db_constraints d'"
  using assms by (auto simp: apply_set_capabilities_def result_simps split: option.splits)

lemma apply_unassign_Inr:
  assumes "apply_unassign cid uid d = Inr (u, d')"
  shows "d' = assignment_delete (cid, uid) d" "assignment_get (cid, uid) d \<noteq> None" "db_constraints d'"
  using assms by (auto simp: apply_unassign_def result_simps split: option.splits)

lemma d_clients_assignment [simp]:
  "d_clients (assignment_add a d) = d_clients d" "d_clients (assignment_delete k d) = d_clients d"
  by (simp_all add: assignment_add_def assignment_delete_def)

lemma a_key_set_caps_row [simp]: "a_key (set_caps_row caps a) = a_key a"
  by (simp add: a_key_def set_caps_row_def)

section \<open>Properties\<close>

text \<open>What a user can see of the database: the clients open to it and its own assignments.\<close>

definition visible_to :: "user \<Rightarrow> db \<Rightarrow> db" where
  "visible_to user d = d\<lparr>d_clients := filter (\<lambda>c. can_access d user (c_id c)) (d_clients d),
     d_assignments := filter (\<lambda>a. a_user_id a = u_id user) (d_assignments d)\<rparr>"

lemma find_by_filter_key:
  assumes "\<And>r. key r = k \<Longrightarrow> P r = b"
  shows "find_by key k (filter P rows) = (if b then find_by key k rows else None)"
  using assms by (induction rows) auto

lemma visible_assignment: "assignment_get (cid, u_id user) (visible_to user d) = assignment_get (cid, u_id user) d"
  by (auto simp: assignment_get_def visible_to_def a_key_def intro: find_by_filter_key [where b = True, simplified])

lemma visible_client: "client_get cid (visible_to user d) =
    (if can_access d user cid then client_get cid d else None)"
  unfolding client_get_def visible_to_def
  by (simp add: find_by_filter_key [where b = "can_access d user cid"])

lemma visible_get_client: "get_client (visible_to user d) user cid = get_client d user cid"
  by (simp add: get_client_def visible_client can_access_def assignment_exists_def visible_assignment
      split: option.split)

lemma assigned_clients_alt: "assigned_clients uid d = concat (map (\<lambda>c.
    replicate (length (filter (\<lambda>a. a_client_id a = c_id c \<and> a_user_id a = uid) (d_assignments d))) c)
    (d_clients d))"
  by (simp add: assigned_clients_def map_replicate_const)

lemma concat_map_filter:
  assumes "\<And>x. x \<in> set xs \<Longrightarrow> \<not> P x \<Longrightarrow> f x = []"
  shows "concat (map f (filter P xs)) = concat (map f xs)"
  using assms by (induction xs) auto

lemma concat_map_if: "concat (map (\<lambda>x. if P x then [x] else []) xs) = filter P xs"
  by (induction xs) auto

lemma assignment_exists_iff: "assignment_exists cid uid d \<longleftrightarrow>
    filter (\<lambda>a. a_client_id a = cid \<and> a_user_id a = uid) (d_assignments d) \<noteq> []"
  by (auto simp: assignment_exists_def assignment_get_def find_by_None_iff a_key_def filter_empty_conv image_iff)

lemma visible_assigned:
  assumes "u_role user \<noteq> Role_admin"
  shows "assigned_clients (u_id user) (visible_to user d) = assigned_clients (u_id user) d"
proof -
  have *: "filter (\<lambda>a. a_client_id a = c_id c \<and> a_user_id a = u_id user)
      (filter (\<lambda>a. a_user_id a = u_id user) (d_assignments d)) =
    filter (\<lambda>a. a_client_id a = c_id c \<and> a_user_id a = u_id user) (d_assignments d)" for c
    by (auto simp: filter_filter intro: filter_cong)
  show ?thesis
    unfolding assigned_clients_def visible_to_def
    by (simp add: * del: filter_filter, rule concat_map_filter)
      (use assms in \<open>simp add: can_access_def assignment_exists_iff\<close>)
qed

text \<open>
  C4. A client a user has no access to leaves no trace: for every database and user, loading a
  client, requiring a capability on it and listing clients (any page, search and status) give
  the same answer on the whole database as on the part of it the user may see, so an existing
  but unassigned client is indistinguishable from one that does not exist.
\<close>

theorem client_scope_no_leak:
  "get_client (visible_to user d) user cid = get_client d user cid \<and>
   require_capability (visible_to user d) user cid cap = require_capability d user cid cap \<and>
   list_clients (visible_to user d) user pg search status = list_clients d user pg search status"
proof (intro conjI)
  show "get_client (visible_to user d) user cid = get_client d user cid"
    by (rule visible_get_client)
  then show "require_capability (visible_to user d) user cid cap = require_capability d user cid cap"
    by (simp add: require_capability_def effective_capabilities_def visible_assignment)
  have "u_role user = Role_admin \<Longrightarrow> d_clients (visible_to user d) = d_clients d"
    by (simp add: visible_to_def can_access_def)
  then show "list_clients (visible_to user d) user pg search status = list_clients d user pg search status"
    by (simp add: list_clients_def list_all_clients_def list_assigned_def visible_assigned)
qed

lemma assign_lookup:
  assumes "apply_assign e cid uid by caps d = Inr (a, d')"
  shows "assignment_get k d' = (if k = (cid, uid) then Some a else assignment_get k d)"
proof -
  note r = apply_assign_Inr [OF assms]
  have base: "assignment_get k (d\<lparr>d_next_id := n\<rparr>) = assignment_get k d" for k n
    by (simp add: assignment_get_def)
  show ?thesis
  proof (cases "k = (cid, uid)")
    case True
    have "assignment_get (a_key a) (assignment_add a (d\<lparr>d_next_id := Suc (d_next_id d)\<rparr>)) = Some a"
      using r(2,7) by (intro assignments.get_add_new) (simp add: base)
    with True r(1,2) show ?thesis by simp
  next
    case False
    then show ?thesis using r(2) by (simp add: r(1) assignments.get_add_other base)
  qed
qed

text \<open>
  Assigning a client grants a plain user exactly the requested capabilities: afterwards a
  capability is required with success precisely when no list was given, the list holds the
  per-client admin capability, or the list holds that capability; a missing one is refused as
  forbidden. Nobody else's rights and no other client's change.
\<close>

theorem assign_grants_exactly:
  assumes ok: "apply_assign e cid uid by caps d = Inr (a, d')"
    and u: "user_get uid d = Some u" and plain: "u_role u = Role_user"
  shows "\<exists>c. client_get cid d' = Some c \<and>
    (\<forall>cap. require_capability d' u cid cap =
      (if case caps of None \<Rightarrow> True | Some cs \<Rightarrow> Cap_admin \<in> set cs \<or> cap \<in> set cs
       then Inr c else Inl (missing_capability cap))) \<and>
    (\<forall>v cid' cap. u_id v \<noteq> uid \<or> cid' \<noteq> cid \<longrightarrow>
      require_capability d' v cid' cap = require_capability d v cid' cap)"
proof -
  note r = apply_assign_Inr [OF ok]
  have uid: "u_id u = uid" using u by (rule user_get_id)
  obtain c where c: "client_get cid d' = Some c"
    using r(5) by (auto simp: r(1) client_get_def)
  have own: "assignment_get (cid, u_id u) d' = Some a"
    by (simp add: assign_lookup [OF ok] uid)
  have eff: "effective_capabilities d' u cid =
      (case caps of None \<Rightarrow> UNIV | Some cs \<Rightarrow> if Cap_admin \<in> set cs then UNIV else set cs)"
    using plain by (simp add: effective_capabilities_def own r(3) capabilities_sorted_caps)
  have get: "get_client d' u cid = Inr c"
    using c own by (simp add: get_client_eq_Inr can_access_def assignment_exists_def)
  have "require_capability d' v cid' cap = require_capability d v cid' cap"
    if "u_id v \<noteq> uid \<or> cid' \<noteq> cid" for v cid' cap
  proof (rule access_cong(3))
    show "assignment_get (cid', u_id v) d' = assignment_get (cid', u_id v) d"
      using that by (auto simp: assign_lookup [OF ok])
    show "d_clients d' = d_clients d" by (simp add: r(1))
  qed
  with c show ?thesis
    by (auto simp: require_capability_def get eff split: option.splits)
qed

text \<open>
  Revocation is immediate and complete: once a client is unassigned from a user who is no
  administrator, that user can neither load the client, hold a capability on it nor find it in
  any listing, while every other user's rights are untouched; and the pair can be assigned again.
\<close>

theorem unassign_revokes:
  assumes ok: "apply_unassign cid uid d = Inr (u0, d')"
    and v: "u_id v = uid" "u_role v \<noteq> Role_admin"
  shows "get_client d' v cid = Inl (not_found ''Client not found.'') \<and>
    effective_capabilities d' v cid = {} \<and>
    (\<forall>c \<in> set (fst (list_clients d' v pg search status)). c_id c \<noteq> cid) \<and>
    \<not> assignment_exists cid uid d' \<and>
    (\<forall>w cid' cap. u_id w \<noteq> uid \<or> cid' \<noteq> cid \<longrightarrow>
      require_capability d' w cid' cap = require_capability d w cid' cap)"
proof -
  note r = apply_unassign_Inr [OF ok]
  have look: "assignment_get k d' = (if k = (cid, uid) then None else assignment_get k d)" for k
    by (simp add: r(1) assignments.get_remove)
  have gone: "\<not> assignment_exists cid uid d'" by (simp add: assignment_exists_def look)
  have other: "require_capability d' w cid' cap = require_capability d w cid' cap"
    if "u_id w \<noteq> uid \<or> cid' \<noteq> cid" for w cid' cap
  proof (rule access_cong(3))
    show "assignment_get (cid', u_id w) d' = assignment_get (cid', u_id w) d"
      using that by (auto simp: look)
    show "d_clients d' = d_clients d" by (simp add: r(1))
  qed
  have "c_id c \<noteq> cid" if "c \<in> set (fst (list_clients d' v pg search status))" for c
  proof -
    have "c \<in> set (assigned_clients uid d')"
      using that v set_page_of
      by (fastforce simp: list_clients_def list_assigned_def paginate_clients_def)
    then show ?thesis using gone by (auto simp: assigned_clients_def assignment_exists_iff filter_empty_conv)
  qed
  moreover have "get_client d' v cid = Inl (not_found ''Client not found.'')"
    using gone v by (simp add: get_client_def can_access_def split: option.split)
  moreover have "effective_capabilities d' v cid = {}"
    using v by (simp add: effective_capabilities_def look)
  ultimately show ?thesis using gone other by blast
qed

text \<open>Under the unique constraint a client appears once in the join.\<close>

lemma assigned_clients_unique:
  assumes "db_constraints d"
  shows "assigned_clients uid d = filter (\<lambda>c. assignment_exists (c_id c) uid d) (d_clients d)"
proof -
  have dist: "distinct (map a_key (d_assignments d))"
    using assms by (simp add: db_constraints_def a_key_def [abs_def])
  have one: "length (filter (\<lambda>a. a_client_id a = cid \<and> a_user_id a = uid) xs) =
      (if \<exists>a \<in> set xs. a_key a = (cid, uid) then 1 else 0)"
    if "distinct (map a_key xs)" for cid and xs :: "assignment list"
    using that by (induction xs) (auto simp: a_key_def filter_empty_conv image_iff)
  have "assignment_exists cid uid d \<longleftrightarrow> (\<exists>a \<in> set (d_assignments d). a_key a = (cid, uid))" for cid
    by (auto simp: assignment_exists_iff filter_empty_conv a_key_def)
  with one [OF dist] have "assigned_clients uid d =
      concat (map (\<lambda>c. if assignment_exists (c_id c) uid d then [c] else []) (d_clients d))"
    by (simp add: assigned_clients_alt if_distrib [of "\<lambda>n. replicate n _"] cong: if_cong)
  also have "\<dots> = filter (\<lambda>c. assignment_exists (c_id c) uid d) (d_clients d)"
    by (rule concat_map_if)
  finally show ?thesis .
qed

text \<open>
  The client listing and the access check agree: reading page after page (with no filter)
  shows each client the user may load exactly once, newest first, and no other client, and the
  reported total is their number.
\<close>

theorem listing_matches_access:
  assumes db: "db_constraints d" and sz: "cnt \<le> n * sz"
    and cnt: "cnt = snd (list_clients d user pg None None)"
  shows "let shown = concat (map (\<lambda>k. fst (list_clients d user
             \<lparr>pg_page = Suc k, pg_page_size = sz\<rparr> None None)) [0..<n])
    in set shown = {c \<in> set (d_clients d). get_client d user (c_id c) = Inr c} \<and> distinct shown \<and>
       length shown = cnt \<and> sorted_wrt (\<lambda>c1 c2. c_created_at c2 \<le> c_created_at c1) shown"
proof -
  define base where "base = filter (\<lambda>c. can_access d user (c_id c)) (d_clients d)"
  have page: "list_clients d user q None None = paginate_clients base (pg_offset q) (pg_page_size q)" for q
  proof (cases "u_role user = Role_admin")
    case True
    then show ?thesis
      by (simp add: list_clients_def list_all_clients_def base_def can_access_def client_filter_def)
  next
    case False
    then show ?thesis
      by (simp add: list_clients_def list_assigned_def base_def can_access_def client_filter_def
          assigned_clients_unique [OF db])
  qed
  have len: "cnt = length base" by (simp add: cnt page paginate_clients_def)
  let ?s = "sort_key (\<lambda>c. - c_created_at c) base"
  have "concat (map (\<lambda>k. fst (list_clients d user \<lparr>pg_page = Suc k, pg_page_size = sz\<rparr> None None)) [0..<n])
      = pages_upto n sz ?s"
    by (simp add: pages_upto_def page paginate_clients_def)
  also have "\<dots> = ?s" using sz len by (simp add: pages_cover)
  finally have shown: "concat (map (\<lambda>k. fst (list_clients d user
      \<lparr>pg_page = Suc k, pg_page_size = sz\<rparr> None None)) [0..<n]) = ?s" .
  have dist: "distinct (map c_id (d_clients d))" using db by (simp add: db_constraints_def)
  have "client_get (c_id c) d = Some c" if "c \<in> set (d_clients d)" for c
    using find_by_unique [OF dist that] by (simp add: client_get_def)
  then have "set base = {c \<in> set (d_clients d). get_client d user (c_id c) = Inr c}"
    by (auto simp: base_def get_client_eq_Inr)
  moreover have "distinct base"
    using dist by (auto simp: base_def distinct_map)
  moreover have "sorted_wrt (\<lambda>c1 c2. c_created_at c2 \<le> c_created_at c1) ?s"
    using sorted_sort_key [of "\<lambda>c. - c_created_at c" base] by (simp add: sorted_map)
  ultimately show ?thesis by (simp only: shown) (simp add: len)
qed

section \<open>Witnesses\<close>

definition access_db :: db where
  "access_db = empty_db\<lparr>d_users := [sample_user 1 Role_admin, sample_user 2 Role_user],
     d_clients := [sample_client 7, (sample_client 8)\<lparr>c_created_at := 5\<rparr>]\<rparr>"

definition assigned_db :: db where
  "assigned_db = access_db\<lparr>d_assignments := [\<lparr>a_id = 50, a_client_id = 7, a_user_id = 2,
     a_assigned_by = Some 1, a_capabilities = Some [''manage_calendar''], a_created_at = 3\<rparr>]\<rparr>"

lemmas access_sample_defs = access_db_def assigned_db_def empty_db_def sample_user_def
  sample_client_def

lemma access_db_ok: "db_constraints access_db" "db_constraints assigned_db"
  by code_simp+

theorem assign_grants_exactly_witness:
  "\<exists>a d' c. apply_assign sample_env 7 2 1 (Some [Cap_manage_calendar]) access_db = Inr (a, d') \<and>
     require_capability d' (sample_user 2 Role_user) 7 Cap_manage_calendar = Inr c \<and>
     require_capability d' (sample_user 2 Role_user) 7 Cap_manage_campaigns =
       Inl (missing_capability Cap_manage_campaigns)"
proof -
  have "isl (apply_assign sample_env 7 2 1 (Some [Cap_manage_calendar]) access_db) = False"
    by code_simp
  then obtain a d' where ok: "apply_assign sample_env 7 2 1 (Some [Cap_manage_calendar]) access_db = Inr (a, d')"
    by (cases "apply_assign sample_env 7 2 1 (Some [Cap_manage_calendar]) access_db") auto
  have u: "user_get 2 access_db = Some (sample_user 2 Role_user)" by code_simp
  have "u_role (sample_user 2 Role_user) = Role_user" by (simp add: sample_user_def)
  from assign_grants_exactly [OF ok u this] ok show ?thesis by auto
qed

theorem unassign_revokes_witness:
  "\<exists>d'. apply_unassign 7 2 assigned_db = Inr ((), d') \<and>
     get_client d' (sample_user 2 Role_user) 7 = Inl (not_found ''Client not found.'')"
proof -
  have "isl (apply_unassign 7 2 assigned_db) = False" by code_simp
  then obtain d' where ok: "apply_unassign 7 2 assigned_db = Inr ((), d')"
    by (cases "apply_unassign 7 2 assigned_db") auto
  have "u_id (sample_user 2 Role_user) = 2" "u_role (sample_user 2 Role_user) \<noteq> Role_admin"
    by (simp_all add: sample_user_def)
  from unassign_revokes [OF ok this, THEN conjunct1] ok show ?thesis by blast
qed

theorem listing_matches_access_witness:
  "set (concat (map (\<lambda>k. fst (list_clients access_db (sample_user 1 Role_admin)
     \<lparr>pg_page = Suc k, pg_page_size = 1\<rparr> None None)) [0..<2])) =
   {c \<in> set (d_clients access_db). get_client access_db (sample_user 1 Role_admin) (c_id c) = Inr c}"
proof -
  have "snd (list_clients access_db (sample_user 1 Role_admin) \<lparr>pg_page = 1, pg_page_size = 1\<rparr> None None) \<le> 2 * 1"
    by (simp add: list_clients_def sample_user_def list_all_clients_def paginate_clients_def
        client_filter_def access_db_def)
  from listing_matches_access [OF access_db_ok(1) this refl] show ?thesis
    by (simp only: Let_def)
qed

end
