(* ===== verification/Auth.thy ===== *)
theory Auth
  imports Access Rate_Limit
begin

text \<open>
  Authentication: login and logout of \<^verbatim>\<open>app/services/auth_service.py\<close>, the session
  repository, the request dependency \<^verbatim>\<open>get_current_user\<close> of
  \<^verbatim>\<open>app/api/deps.py\<close>, and user creation. The state is the tables
  \<^verbatim>\<open>users\<close> and \<^verbatim>\<open>sessions\<close> and the rate-limit store.

  The password hash (bcrypt) and the token codec (PyJWT) are library code: they are the functions of
  the record \<open>auth_lib\<close>, and what the code relies on of the codec is the predicate \<open>jwt_ok\<close>.
\<close>

datatype jwt_error = ExpiredSignatureError | InvalidTokenError

record claims =
  cl_sub :: "uuid option"
  cl_type :: "string option"
  cl_iat :: datetime
  cl_exp :: datetime
  cl_jti :: "uuid option"

record auth_lib =
  al_hash_password :: "string \<Rightarrow> string"
  al_verify_password :: "string \<Rightarrow> string \<Rightarrow> bool"
  al_dummy_hash :: string
  al_token_id_hash :: "uuid \<Rightarrow> string"
  al_encode :: "claims \<Rightarrow> string"
  al_decode :: "bool \<Rightarrow> datetime \<Rightarrow> string \<Rightarrow> jwt_error + claims"
  al_expire_minutes :: int

text \<open>
  A signed token decodes to its claims; with \<^verbatim>\<open>verify_exp\<close> an expired one is refused.
\<close>

definition jwt_ok :: "auth_lib \<Rightarrow> bool" where
  "jwt_ok al \<longleftrightarrow> (\<forall>c now verify. al_decode al verify now (al_encode al c) =
     (if verify \<and> cl_exp c \<le> now then Inl ExpiredSignatureError else Inr c))"

definition TOKEN_TYPE_ACCESS :: string where
  "TOKEN_TYPE_ACCESS = ''access''"

definition minutes :: "int \<Rightarrow> int" where
  "minutes n = n * 60000000"

definition create_access_token :: "auth_lib \<Rightarrow> datetime \<Rightarrow> uuid \<Rightarrow> int option \<Rightarrow> uuid option \<Rightarrow> string" where
  "create_access_token al now subject expires_minutes jti =
     (let m = (case expires_minutes of None \<Rightarrow> al_expire_minutes al
               | Some n \<Rightarrow> if n = 0 then al_expire_minutes al else n) in
      al_encode al \<lparr>cl_sub = Some subject, cl_type = Some TOKEN_TYPE_ACCESS, cl_iat = now,
        cl_exp = now + minutes m, cl_jti = jti\<rparr>)"

section \<open>Repositories\<close>

definition session_get :: "string \<Rightarrow> db \<Rightarrow> user_session option" where
  "session_get h d = find_by s_token_hash h (d_sessions d)"

definition session_add :: "user_session \<Rightarrow> db \<Rightarrow> db" where
  "session_add s d = d\<lparr>d_sessions := d_sessions d @ [s]\<rparr>"

definition session_remove :: "string \<Rightarrow> db \<Rightarrow> db" where
  "session_remove h d = d\<lparr>d_sessions := delete_by s_token_hash h (d_sessions d)\<rparr>"

interpretation sessions: repository s_token_hash session_get session_add session_remove d_sessions
  by unfold_locales (simp_all add: session_get_def session_add_def session_remove_def)

definition delete_by_token_hash :: "string \<Rightarrow> db \<Rightarrow> bool \<times> db" where
  "delete_by_token_hash h d =
     (case session_get h d of None \<Rightarrow> (False, d) | Some s \<Rightarrow> (True, session_remove h d))"

definition delete_for_user :: "uuid \<Rightarrow> db \<Rightarrow> db" where
  "delete_for_user uid d = d\<lparr>d_sessions := filter (\<lambda>s. s_user_id s \<noteq> uid) (d_sessions d)\<rparr>"

definition purge_expired :: "datetime \<Rightarrow> db \<Rightarrow> nat \<times> db" where
  "purge_expired now d =
     (length (filter (\<lambda>s. s_expires_at s < now) (d_sessions d)),
      d\<lparr>d_sessions := filter (\<lambda>s. \<not> s_expires_at s < now) (d_sessions d)\<rparr>)"

definition get_by_email :: "string \<Rightarrow> db \<Rightarrow> user option" where
  "get_by_email email d = find_by u_email (lower email) (d_users d)"

section \<open>Login and logout\<close>

definition ACCOUNT_LOCKOUT_SCOPE :: string where
  "ACCOUNT_LOCKOUT_SCOPE = ''login-account''"

definition ACCOUNT_LOCKOUT_TIMES :: nat where
  "ACCOUNT_LOCKOUT_TIMES = 20"

definition ACCOUNT_LOCKOUT_SECONDS :: int where
  "ACCOUNT_LOCKOUT_SECONDS = 300 * 1000000"

definition auth_error :: "string \<Rightarrow> exn" where
  "auth_error msg = AppError AuthError msg"

definition login_row :: "datetime \<Rightarrow> user \<Rightarrow> user" where
  "login_row now u = u\<lparr>u_last_login_at := Some now, u_updated_at := now\<rparr>"

text \<open>The part of \<^verbatim>\<open>login\<close> past the credentials: mint the token, record its session.\<close>

definition open_session :: "auth_lib \<Rightarrow> env \<Rightarrow> user \<Rightarrow> string option \<Rightarrow> string option \<Rightarrow> (user \<times> string) op" where
  "open_session al e user user_agent ip d =
     bindR (fresh_id d) (\<lambda>(jti, d1). bindR (fresh_id d1) (\<lambda>(sid, d2).
       let s = \<lparr>s_id = sid, s_user_id = u_id user, s_token_hash = al_token_id_hash al jti,
                s_user_agent = user_agent, s_ip_address = ip,
                s_expires_at = e_now e + minutes (al_expire_minutes al), s_created_at = e_now e\<rparr>;
           d3 = session_add s d2;
           d4 = d3\<lparr>d_users := update_by u_id (u_id user) (login_row (e_now e)) (d_users d3)\<rparr>;
           token = create_access_token al (e_now e) (u_id user) None (Some jti) in
       bindR (flush d4) (\<lambda>(_, d5). Inr ((login_row (e_now e) user, token), d5))))"

text \<open>
  \<^verbatim>\<open>login\<close>, over a rate-limit store given by its operations \<open>allow\<close> and \<open>forget\<close>; the
  store is returned in every outcome, the database only when the call commits.
\<close>

definition login :: "auth_lib \<Rightarrow> bool \<Rightarrow> (string \<Rightarrow> string \<Rightarrow> int \<Rightarrow> 's \<Rightarrow> bool \<times> 's) \<Rightarrow>
    (string \<Rightarrow> string \<Rightarrow> 's \<Rightarrow> 's) \<Rightarrow> env \<Rightarrow> int \<Rightarrow> string \<Rightarrow> string \<Rightarrow> string option \<Rightarrow> string option \<Rightarrow> db \<Rightarrow>
    's \<Rightarrow> (exn + (user \<times> string) \<times> db) \<times> 's" where
  "login al enabled allow forget e mtime email password user_agent ip d st =
     (let account_key = lower email in
      case enforce_limit enabled allow ACCOUNT_LOCKOUT_SCOPE account_key mtime st of
        (Inl err, st1) \<Rightarrow> (Inl err, st1)
      | (Inr _, st1) \<Rightarrow>
          (case get_by_email email d of
             None \<Rightarrow>
               (let password_ok = al_verify_password al password (al_dummy_hash al) in
                (Inl (auth_error ''Invalid email or password.''), st1))
           | Some user \<Rightarrow>
               if \<not> al_verify_password al password (u_password_hash user)
               then (Inl (auth_error ''Invalid email or password.''), st1)
               else if \<not> u_is_active user then (Inl (auth_error ''This account is disabled.''), st1)
               else (open_session al e user user_agent ip d,
                     clear_limit enabled forget ACCOUNT_LOCKOUT_SCOPE account_key st1)))"

definition logout :: "auth_lib \<Rightarrow> datetime \<Rightarrow> string \<Rightarrow> db \<Rightarrow> db" where
  "logout al now token d =
     (case al_decode al False now token of
        Inl e \<Rightarrow> d
      | Inr payload \<Rightarrow>
          (case cl_jti payload of
             None \<Rightarrow> d
           | Some jti \<Rightarrow> snd (delete_by_token_hash (al_token_id_hash al jti) d)))"

definition get_current_user :: "auth_lib \<Rightarrow> datetime \<Rightarrow> string option \<Rightarrow> db \<Rightarrow> exn + user" where
  "get_current_user al now credentials d =
     (case credentials of
        None \<Rightarrow> Inl (auth_error ''Authentication required.'')
      | Some token \<Rightarrow>
          (case al_decode al True now token of
             Inl ExpiredSignatureError \<Rightarrow> Inl (auth_error ''Token has expired.'')
           | Inl InvalidTokenError \<Rightarrow> Inl (auth_error ''Invalid authentication token.'')
           | Inr payload \<Rightarrow>
               if cl_type payload \<noteq> Some TOKEN_TYPE_ACCESS then Inl (auth_error ''Invalid token type.'')
               else if (case cl_jti payload of None \<Rightarrow> False
                        | Some jti \<Rightarrow> session_get (al_token_id_hash al jti) d = None)
               then Inl (auth_error ''Session has been revoked.'')
               else
                 (case (case cl_sub payload of None \<Rightarrow> None | Some uid \<Rightarrow> user_get uid d) of
                    None \<Rightarrow> Inl (auth_error ''User no longer exists or is inactive.'')
                  | Some user \<Rightarrow>
                      if \<not> u_is_active user
                      then Inl (auth_error ''User no longer exists or is inactive.'') else Inr user)))"

text \<open>The admin-only dependency: authenticate, then require the role.\<close>

definition admin_user :: "auth_lib \<Rightarrow> datetime \<Rightarrow> string option \<Rightarrow> db \<Rightarrow> exn + user" where
  "admin_user al now credentials d = bindR (get_current_user al now credentials d) get_current_admin"

section \<open>User creation\<close>

record user_create =
  uc_name :: string
  uc_email :: string
  uc_password :: string
  uc_role :: user_role

definition email_exists :: "string \<Rightarrow> db \<Rightarrow> bool" where
  "email_exists email d \<longleftrightarrow> find_by u_email (lower email) (d_users d) \<noteq> None"

definition create_user :: "auth_lib \<Rightarrow> env \<Rightarrow> user_create \<Rightarrow> user op" where
  "create_user al e data d =
     (if email_exists (uc_email data) d
      then Inl (conflict ''A user with this email already exists.'')
      else bindR (fresh_id d) (\<lambda>(uid, d1).
        let user = \<lparr>u_id = uid, u_email = lower (uc_email data), u_name = uc_name data,
              u_password_hash = al_hash_password al (uc_password data), u_role = uc_role data,
              u_avatar_url = None, u_is_active = True, u_last_login_at = None,
              u_created_at = e_now e, u_updated_at = e_now e\<rparr> in
        bindR (flush (d1\<lparr>d_users := d_users d1 @ [user]\<rparr>)) (\<lambda>(_, d2). Inr (user, d2))))"

definition list_users :: "pagination \<Rightarrow> db \<Rightarrow> user list \<times> nat" where
  "list_users pg d = (page_of (pg_offset pg) (pg_page_size pg) (sort_key (\<lambda>u. - u_created_at u) (d_users d)),
     length (d_users d))"

section \<open>Lemmas\<close>

lemma login_cases:
  assumes "login al enabled allow forget e mtime email password ua ip d st = (Inr ((user, token), d'), st')"
  obtains user0 st1 where "enforce_limit enabled allow ACCOUNT_LOCKOUT_SCOPE (lower email) mtime st = (Inr (), st1)"
    "get_by_email email d = Some user0" "al_verify_password al password (u_password_hash user0)"
    "u_is_active user0" "open_session al e user0 ua ip d = Inr ((user, token), d')"
    "st' = clear_limit enabled forget ACCOUNT_LOCKOUT_SCOPE (lower email) st1"
  using assms
  by (auto simp: login_def Let_def split: prod.splits sum.splits option.splits if_splits)

lemma open_session_Inr:
  assumes "open_session al e user0 ua ip d = Inr ((user, token), d')"
  shows "user = login_row (e_now e) user0"
    and "token = al_encode al \<lparr>cl_sub = Some (u_id user0), cl_type = Some TOKEN_TYPE_ACCESS,
      cl_iat = e_now e, cl_exp = e_now e + minutes (al_expire_minutes al), cl_jti = Some (d_next_id d)\<rparr>"
    and "d_users d' = update_by u_id (u_id user0) (login_row (e_now e)) (d_users d)"
    and "d_sessions d' = d_sessions d @ [\<lparr>s_id = Suc (d_next_id d), s_user_id = u_id user0,
      s_token_hash = al_token_id_hash al (d_next_id d), s_user_agent = ua, s_ip_address = ip,
      s_expires_at = e_now e + minutes (al_expire_minutes al), s_created_at = e_now e\<rparr>]"
    and "db_constraints d'"
  using assms
  by (auto simp: open_session_def fresh_id_def Let_def session_add_def create_access_token_def
      result_simps)

lemma login_row_simps [simp]:
  "u_id (login_row now u) = u_id u" "u_is_active (login_row now u) = u_is_active u"
  "u_role (login_row now u) = u_role u" "u_email (login_row now u) = u_email u"
  "u_password_hash (login_row now u) = u_password_hash u"
  by (simp_all add: login_row_def)

lemma get_by_email_Some: "get_by_email email d = Some u \<Longrightarrow> u_email u = lower email \<and> u \<in> set (d_users d)"
  by (auto simp: get_by_email_def dest: find_by_key find_by_in_set)

lemma user_by_id_after_login:
  assumes "db_constraints d" "u \<in> set (d_users d)"
    "d_users d' = update_by u_id (u_id u) (login_row now) (d_users d)"
  shows "user_get (u_id u) d' = Some (login_row now u)"
proof -
  have "distinct (map u_id (d_users d))" using assms(1) by (simp add: db_constraints_def)
  from find_by_unique [OF this assms(2)] show ?thesis
    by (simp add: user_get_def assms(3) find_by_update_by)
qed

lemma session_get_append_new:
  assumes "distinct (map s_token_hash (d_sessions d))" "s \<in> set (d_sessions d)"
  shows "session_get (s_token_hash s) d = Some s"
  using find_by_unique [OF assms] by (simp add: session_get_def)

lemma session_get_logout:
  "session_get h (logout al now token d) =
    (case al_decode al False now token of
       Inl e \<Rightarrow> session_get h d
     | Inr p \<Rightarrow> if \<exists>j. cl_jti p = Some j \<and> al_token_id_hash al j = h then None else session_get h d)"
proof (cases "al_decode al False now token")
  case (Inr p)
  show ?thesis
  proof (cases "cl_jti p")
    case (Some j)
    show ?thesis
    proof (cases "session_get (al_token_id_hash al j) d")
      case None
      with Inr Some show ?thesis by (auto simp: logout_def delete_by_token_hash_def)
    next
      case s: (Some s)
      with Inr Some show ?thesis
        by (simp add: logout_def delete_by_token_hash_def sessions.get_remove)
    qed
  qed (simp add: logout_def Inr)
qed (simp add: logout_def)

lemma logout_users [simp]: "d_users (logout al now token d) = d_users d"
  by (auto simp: logout_def delete_by_token_hash_def session_remove_def split: sum.splits option.splits)

lemma user_get_logout [simp]: "user_get uid (logout al now token d) = user_get uid d"
  by (simp add: user_get_def)

section \<open>Properties\<close>


text \<open>
  C10. Logout revokes the token for good: whatever token carries the same session identifier, at
  whatever time, is refused afterwards, and no other session is touched; a second logout changes
  nothing.
\<close>

theorem logout_revokes:
  assumes out: "al_decode al False now token = Inr p" "cl_jti p = Some jti"
  shows "(\<forall>now' token' u. (\<exists>p'. al_decode al True now' token' = Inr p' \<and> cl_jti p' = Some jti) \<longrightarrow>
      get_current_user al now' (Some token') (logout al now token d) \<noteq> Inr u) \<and>
    (\<forall>now' token' p' jti'. al_decode al True now' token' = Inr p' \<longrightarrow> cl_jti p' = Some jti' \<longrightarrow>
      al_token_id_hash al jti' \<noteq> al_token_id_hash al jti \<longrightarrow>
      get_current_user al now' (Some token') (logout al now token d) = get_current_user al now' (Some token') d) \<and>
    logout al now token (logout al now token d) = logout al now token d"
proof (intro conjI allI impI)
  let ?d = "logout al now token d"
  have s: "session_get h ?d = (if al_token_id_hash al jti = h then None else session_get h d)" for h
    by (simp add: session_get_logout out)
  fix now' token' u
  assume "\<exists>p'. al_decode al True now' token' = Inr p' \<and> cl_jti p' = Some jti"
  then show "get_current_user al now' (Some token') ?d \<noteq> Inr u"
    by (auto simp: get_current_user_def s split: if_splits)
next
  fix now' token' p' jti'
  assume "al_decode al True now' token' = Inr p'" "cl_jti p' = Some jti'"
    "al_token_id_hash al jti' \<noteq> al_token_id_hash al jti"
  then show "get_current_user al now' (Some token') (logout al now token d) = get_current_user al now' (Some token') d"
    by (cases "cl_sub p'") (simp_all add: get_current_user_def session_get_logout out)
next
  show "logout al now token (logout al now token d) = logout al now token d"
    using session_get_logout [of "al_token_id_hash al jti" al now token d]
    by (simp add: out logout_def [of al now token] delete_by_token_hash_def)
qed

text \<open>The outcomes of a sequence of login attempts on one address: when each was made and its result.\<close>

fun login_run :: "auth_lib \<Rightarrow> env \<Rightarrow> string \<Rightarrow> (string \<times> string option \<times> int) list \<Rightarrow> db \<Rightarrow> mem_store \<Rightarrow>
    (int \<times> (exn + (user \<times> string) \<times> db)) list" where
  "login_run al e email [] d st = []"
| "login_run al e email ((password, ip, now) # as) d st =
     (case login al True (mem_allow (\<lambda>_. ACCOUNT_LOCKOUT_TIMES) (\<lambda>_. ACCOUNT_LOCKOUT_SECONDS)) mem_forget
         e now email password None ip d st of
        (r, st') \<Rightarrow> (now, r) # login_run al e email as (case r of Inl _ \<Rightarrow> d | Inr (_, d') \<Rightarrow> d') st')"

lemma login_wrong:
  assumes "\<not> al_verify_password al password (case get_by_email email d of None \<Rightarrow> al_dummy_hash al
      | Some u \<Rightarrow> u_password_hash u)"
  shows "login al True allow forget e mtime email password ua ip d st =
    (case allow ACCOUNT_LOCKOUT_SCOPE (lower email) mtime st of (b, st1) \<Rightarrow>
      (Inl (if b then auth_error ''Invalid email or password.'' else too_many_requests), st1))"
  using assms
  by (auto simp: login_def Let_def enforce_limit_def split: prod.splits option.splits)

abbreviation (input) "lockout_allow \<equiv> mem_allow (\<lambda>_. ACCOUNT_LOCKOUT_TIMES) (\<lambda>_. ACCOUNT_LOCKOUT_SECONDS)"

lemma login_run_replay:
  assumes "\<forall>(pw, ip, now) \<in> set as. \<not> al_verify_password al pw (case get_by_email email d of
      None \<Rightarrow> al_dummy_hash al | Some u \<Rightarrow> u_password_hash u)"
  shows "replay (map (\<lambda>(pw, ip, now). Hit ACCOUNT_LOCKOUT_SCOPE (lower email) now) as)
      (fst (limiter_run lockout_allow mem_forget
        (map (\<lambda>(pw, ip, now). Hit ACCOUNT_LOCKOUT_SCOPE (lower email) now) as) st)) log
      (ACCOUNT_LOCKOUT_SCOPE, lower email) =
    log (ACCOUNT_LOCKOUT_SCOPE, lower email) @
      map fst (filter (\<lambda>(now, r). r \<noteq> Inl too_many_requests) (login_run al e email as d st))"
  using assms
proof (induction as arbitrary: st log)
  case (Cons a as)
  obtain pw ip now where a: "a = (pw, ip, now)" by (cases a) auto
  obtain b st1 where al: "lockout_allow ACCOUNT_LOCKOUT_SCOPE (lower email) now st = (b, st1)"
    by (cases "lockout_allow ACCOUNT_LOCKOUT_SCOPE (lower email) now st")
  obtain bs st2 where rn: "limiter_run lockout_allow mem_forget
      (map (\<lambda>(pw, ip, now). Hit ACCOUNT_LOCKOUT_SCOPE (lower email) now) as) st1 = (bs, st2)"
    by (cases "limiter_run lockout_allow mem_forget
      (map (\<lambda>(pw, ip, now). Hit ACCOUNT_LOCKOUT_SCOPE (lower email) now) as) st1")
  have wrong: "\<not> al_verify_password al pw (case get_by_email email d of
      None \<Rightarrow> al_dummy_hash al | Some u \<Rightarrow> u_password_hash u)"
    using Cons.prems by (simp add: a)
  have "auth_error m \<noteq> too_many_requests" for m by (simp add: auth_error_def too_many_requests_def)
  moreover note Cons.IH [of st1]
  ultimately show ?case
    using Cons.prems by (simp add: a al rn login_wrong [OF wrong])
qed simp


section \<open>Witnesses\<close>

text \<open>A concrete codec: five fields separated by dots, numbers in unary, the token type last.\<close>

definition unary :: "nat \<Rightarrow> string" where
  "unary n = replicate n CHR ''1''"

definition int_code :: "int \<Rightarrow> string" where
  "int_code i = (if i < 0 then CHR ''-'' # unary (nat (- i)) else unary (nat i))"

definition int_decode :: "string \<Rightarrow> int" where
  "int_decode s = (case s of [] \<Rightarrow> 0 | c # xs \<Rightarrow> if c = CHR ''-'' then - int (length xs) else int (length s))"

definition opt_code :: "string option \<Rightarrow> string" where
  "opt_code s = (case s of None \<Rightarrow> [] | Some x \<Rightarrow> CHR ''s'' # x)"

definition opt_decode :: "string \<Rightarrow> string option" where
  "opt_decode s = (case s of [] \<Rightarrow> None | c # xs \<Rightarrow> Some xs)"

definition toy_encode :: "claims \<Rightarrow> string" where
  "toy_encode c = opt_code (map_option unary (cl_sub c)) @ ''.'' @ int_code (cl_iat c) @ ''.'' @
     int_code (cl_exp c) @ ''.'' @ opt_code (map_option unary (cl_jti c)) @ ''.'' @ opt_code (cl_type c)"

definition field_of :: "string \<Rightarrow> string" where
  "field_of s = takeWhile (\<lambda>c. c \<noteq> CHR ''.'') s"

definition after_field :: "string \<Rightarrow> string" where
  "after_field s = drop 1 (dropWhile (\<lambda>c. c \<noteq> CHR ''.'') s)"

definition toy_decode :: "string \<Rightarrow> claims" where
  "toy_decode s =
     (let s1 = after_field s; s2 = after_field s1; s3 = after_field s2; s4 = after_field s3 in
      \<lparr>cl_sub = map_option length (opt_decode (field_of s)), cl_type = opt_decode s4,
       cl_iat = int_decode (field_of s1), cl_exp = int_decode (field_of s2),
       cl_jti = map_option length (opt_decode (field_of s3))\<rparr>)"

lemma fields_simps:
  assumes "CHR ''.'' \<notin> set xs"
  shows "field_of (xs @ CHR ''.'' # ys) = xs" "after_field (xs @ CHR ''.'' # ys) = ys"
  using assms by (induction xs) (auto simp: field_of_def after_field_def)

lemma dot_free: "CHR ''.'' \<notin> set (unary n)" "CHR ''.'' \<notin> set (int_code i)"
  "CHR ''.'' \<notin> set (opt_code (map_option unary x))"
  by (auto simp: unary_def int_code_def opt_code_def split: option.split)

lemma replicate_eqD: "replicate n a = c # xs \<Longrightarrow> c = a \<and> n = Suc (length xs)"
  by (cases n) auto

lemma int_decode_code: "int_decode (int_code i) = i"
proof (cases "i < 0")
  case False
  then obtain n where "i = int n" by (metis nat_0_le not_less)
  then show ?thesis
    by (cases "unary n") (auto simp: int_decode_def int_code_def unary_def dest: replicate_eqD)
qed (simp add: int_decode_def int_code_def unary_def)

lemma opt_decode_code: "opt_decode (opt_code x) = x"
  by (cases x) (simp_all add: opt_decode_def opt_code_def)

lemma toy_decode_encode: "toy_decode (toy_encode c) = c"
proof -
  have "map_option length (map_option unary x) = x" for x
    by (cases x) (simp_all add: unary_def)
  then show ?thesis
    by (simp add: toy_decode_def toy_encode_def Let_def fields_simps dot_free int_decode_code opt_decode_code)
qed

definition toy_lib :: auth_lib where
  "toy_lib = \<lparr>al_hash_password = (\<lambda>p. p), al_verify_password = (\<lambda>p h. p = h),
     al_dummy_hash = [], al_token_id_hash = unary, al_encode = toy_encode,
     al_decode = (\<lambda>verify now tok.
       let c = toy_decode tok in
       if toy_encode c \<noteq> tok then Inl InvalidTokenError
       else if verify \<and> cl_exp c \<le> now then Inl ExpiredSignatureError else Inr c),
     al_expire_minutes = 1\<rparr>"

lemma toy_jwt_ok: "jwt_ok toy_lib"
  by (auto simp: jwt_ok_def toy_lib_def toy_decode_encode)

definition login_db :: db where
  "login_db = empty_db\<lparr>d_users := [(sample_user 2 Role_user)\<lparr>u_password_hash := ''pw''\<rparr>]\<rparr>"

definition open_allow :: "string \<Rightarrow> string \<Rightarrow> int \<Rightarrow> unit \<Rightarrow> bool \<times> unit" where
  "open_allow sc k now st = (True, ())"

definition open_forget :: "string \<Rightarrow> string \<Rightarrow> unit \<Rightarrow> unit" where
  "open_forget sc k st = ()"

definition short_env :: env where
  "short_env = sample_env\<lparr>e_now := 3\<rparr>"

lemma login_db_login: "isl (fst (login (toy_lib\<lparr>al_expire_minutes := 0\<rparr>) True open_allow open_forget short_env 0
    ''AA@x.io'' ''pw'' None None login_db ())) = False"
  by code_simp


definition session_claims :: "uuid \<Rightarrow> claims" where
  "session_claims j = \<lparr>cl_sub = Some 2, cl_type = Some ''access'', cl_iat = 0, cl_exp = 9, cl_jti = Some j\<rparr>"

theorem logout_revokes_witness:
  "\<forall>u d. get_current_user toy_lib 5 (Some (toy_encode (session_claims 7)))
     (logout toy_lib 5 (toy_encode (session_claims 7)) d) \<noteq> Inr u"
proof -
  have dec: "al_decode toy_lib False 5 (toy_encode (session_claims 7)) = Inr (session_claims 7)"
    "al_decode toy_lib True 5 (toy_encode (session_claims 7)) = Inr (session_claims 7)"
    by (simp_all add: toy_lib_def toy_decode_encode session_claims_def)
  have "cl_jti (session_claims 7) = Some 7" by (simp add: session_claims_def)
  with logout_revokes [OF dec(1) this] dec(2) show ?thesis by blast
qed


end
