(* ===== verification/Audit_Trail.thy ===== *)
theory Audit_Trail
  imports Database
begin

text \<open>
  The audit trail of \<^verbatim>\<open>app/services/audit_service.py\<close> and its repository: per-field
  diffs, the entity and action derived from a request path, and the table
  \<^verbatim>\<open>audit_log\<close>. Python dicts are association lists; the order of their keys is not
  observed.
\<close>

section \<open>Diffs\<close>

definition jget :: "jdict \<Rightarrow> string \<Rightarrow> jval" where
  "jget d k = (case map_of d k of None \<Rightarrow> JNull | Some v \<Rightarrow> v)"

definition or_none :: "'a list \<Rightarrow> 'a list option" where
  "or_none xs = (if xs = [] then None else Some xs)"

definition field_changes :: "jdict \<Rightarrow> jdict \<Rightarrow> changes option" where
  "field_changes before after =
     or_none (map (\<lambda>k. (k, jget before k, jget after k))
       (filter (\<lambda>k. jget before k \<noteq> jget after k)
         (map fst before @ filter (\<lambda>k. k \<notin> set (map fst before)) (map fst after))))"

definition created_changes :: "jdict \<Rightarrow> changes option" where
  "created_changes vals = or_none (map (\<lambda>(k, v). (k, JNull, v)) (filter (\<lambda>(k, v). v \<noteq> JNull) vals))"

definition deleted_changes :: "jdict \<Rightarrow> changes option" where
  "deleted_changes vals = or_none (map (\<lambda>(k, v). (k, v, JNull)) (filter (\<lambda>(k, v). v \<noteq> JNull) vals))"

section \<open>What a request touches\<close>

definition upper_char :: "char \<Rightarrow> char" where
  "upper_char c = (if 97 \<le> (of_char c :: nat) \<and> (of_char c :: nat) \<le> 122
     then char_of ((of_char c :: nat) - 32) else c)"

definition upper :: "string \<Rightarrow> string" where
  "upper s = map upper_char s"

definition verb_of :: "string \<Rightarrow> string" where
  "verb_of method =
     (let m = upper method in
      if m = ''GET'' then ''read'' else if m = ''POST'' then ''create''
      else if m = ''PUT'' then ''update'' else if m = ''PATCH'' then ''update''
      else if m = ''DELETE'' then ''delete'' else lower method)"

definition hex_value :: "char \<Rightarrow> nat option" where
  "hex_value c =
     (let n = (of_char c :: nat) in
      if 48 \<le> n \<and> n \<le> 57 then Some (n - 48)
      else if 97 \<le> n \<and> n \<le> 102 then Some (n - 87)
      else if 65 \<le> n \<and> n \<le> 70 then Some (n - 55) else None)"

definition is_hex :: "char \<Rightarrow> bool" where
  "is_hex c \<longleftrightarrow> hex_value c \<noteq> None"

text \<open>
  \<^verbatim>\<open>_UUID_RE.match\<close>: 8-4-4-4-12 hexadecimal digits in either case. The pattern ends in
  \<^verbatim>\<open>$\<close>, which also matches before a final newline.
\<close>

definition is_uuid36 :: "string \<Rightarrow> bool" where
  "is_uuid36 s \<longleftrightarrow> length s = 36 \<and>
     list_all (\<lambda>(i, c). if i = 8 \<or> i = 13 \<or> i = 18 \<or> i = 23 then c = CHR ''-'' else is_hex c)
       (zip [0..<36] s)"

definition uuid_re_match :: "string \<Rightarrow> bool" where
  "uuid_re_match s \<longleftrightarrow> is_uuid36 s \<or> (s \<noteq> [] \<and> last s = CHR 0x0A \<and> is_uuid36 (butlast s))"

text \<open>
  \<^verbatim>\<open>uuid.UUID(seg)\<close> on a segment the pattern matched: 32 digits after dropping dashes, or
  \<^verbatim>\<open>ValueError\<close>.
\<close>

definition parse_uuid :: "string \<Rightarrow> uuid option" where
  "parse_uuid s =
     (let hex = filter (\<lambda>c. c \<noteq> CHR ''-'') s in
      if length hex = 32 \<and> list_all is_hex hex
      then Some (foldl (\<lambda>acc c. 16 * acc + (case hex_value c of None \<Rightarrow> 0 | Some v \<Rightarrow> v)) 0 hex)
      else None)"

fun split_on :: "char \<Rightarrow> string \<Rightarrow> string list" where
  "split_on c [] = [[]]"
| "split_on c (x # xs) =
     (if x = c then [] # split_on c xs
      else case split_on c xs of [] \<Rightarrow> [[x]] | y # ys \<Rightarrow> (x # y) # ys)"

definition strip_char :: "char \<Rightarrow> string \<Rightarrow> string" where
  "strip_char c s = rev (dropWhile (\<lambda>x. x = c) (rev (dropWhile (\<lambda>x. x = c) s)))"

definition starts_with :: "string \<Rightarrow> string \<Rightarrow> bool" where
  "starts_with s prefix \<longleftrightarrow> take (length prefix) s = prefix"

fun join_dots :: "string list \<Rightarrow> string" where
  "join_dots [] = []"
| "join_dots [s] = s"
| "join_dots (s # t # ss) = s @ CHR ''.'' # join_dots (t # ss)"

text \<open>The loop over the segments: the first identifier and the other segments.\<close>

fun scan_segments :: "string list \<Rightarrow> uuid option \<Rightarrow> exn + (uuid option \<times> string list)" where
  "scan_segments [] eid = Inr (eid, [])"
| "scan_segments (seg # rest) eid =
     (if uuid_re_match seg then
        (if eid = None then
           (case parse_uuid seg of
              None \<Rightarrow> Inl (Crash ''ValueError'')
            | Some u \<Rightarrow> scan_segments rest (Some u))
         else scan_segments rest eid)
      else bindR (scan_segments rest eid) (\<lambda>(e, segs). Inr (e, seg # segs)))"

definition derive_audit :: "string \<Rightarrow> string \<Rightarrow> string \<Rightarrow> exn + (string \<times> uuid option \<times> string)" where
  "derive_audit method path prefix =
     (let trimmed = (if starts_with path prefix then drop (length prefix) path else path);
          raw = filter (\<lambda>s. s \<noteq> []) (split_on CHR ''/'' (strip_char CHR ''/'' trimmed)) in
      bindR (scan_segments raw None) (\<lambda>(entity_id, segments).
        Inr (case segments of [] \<Rightarrow> ''root'' | s # _ \<Rightarrow> s, entity_id,
             if segments \<noteq> [] then join_dots (segments @ [verb_of method]) else verb_of method)))"

section \<open>The audit table\<close>

text \<open>
  \<^verbatim>\<open>AuditService.record\<close>: one row and a commit. The columns bound the entity and the
  action; the references to users, clients and proposals must exist.
\<close>

definition audit_row_ok :: "db \<Rightarrow> audit_log \<Rightarrow> bool" where
  "audit_row_ok d a \<longleftrightarrow> length (au_entity a) \<le> 60 \<and> length (au_action a) \<le> 80 \<and>
     fk_ok (u_id ` set (d_users d)) (au_actor_user_id a) \<and>
     fk_ok (c_id ` set (d_clients d)) (au_client_id a) \<and>
     fk_ok (p_id ` set (d_proposals d)) (au_proposal_id a)"

definition audit_record :: "env \<Rightarrow> (uuid \<Rightarrow> audit_log) \<Rightarrow> audit_log op" where
  "audit_record e mk d =
     bindR (fresh_id d) (\<lambda>(i, d1).
       let row = (mk i)\<lparr>au_id := i, au_created_at := e_now e\<rparr> in
       if audit_row_ok d1 row then Inr (row, d1\<lparr>d_audit := d_audit d1 @ [row]\<rparr>)
       else Inl (Crash ''DBAPIError''))"

definition eq_filter :: "'a option \<Rightarrow> 'a option \<Rightarrow> bool" where
  "eq_filter want have' \<longleftrightarrow> (case want of None \<Rightarrow> True | Some w \<Rightarrow> have' = Some w)"

definition audit_list :: "nat \<Rightarrow> nat \<Rightarrow> string option \<Rightarrow> string option \<Rightarrow> uuid option \<Rightarrow> uuid option \<Rightarrow>
    uuid option \<Rightarrow> db \<Rightarrow> audit_log list \<times> nat" where
  "audit_list offset limit action entity actor cid pid d =
     (let base = filter (\<lambda>a.
          (case action of None \<Rightarrow> True | Some s \<Rightarrow> s = [] \<or> ilike (contains_pattern s) (au_action a)) \<and>
          (case entity of None \<Rightarrow> True | Some s \<Rightarrow> s = [] \<or> au_entity a = s) \<and>
          eq_filter actor (au_actor_user_id a) \<and> eq_filter cid (au_client_id a) \<and>
          eq_filter pid (au_proposal_id a)) (d_audit d) in
      (page_of offset limit (sort_key (\<lambda>a. (- au_created_at a, - int (au_id a))) base), length base))"

definition purge_older_than :: "datetime \<Rightarrow> db \<Rightarrow> nat \<times> db" where
  "purge_older_than cutoff d =
     (length (filter (\<lambda>a. au_created_at a < cutoff) (d_audit d)),
      d\<lparr>d_audit := filter (\<lambda>a. \<not> au_created_at a < cutoff) (d_audit d)\<rparr>)"

section \<open>Lemmas\<close>

lemma or_none_None [simp]: "or_none xs = None \<longleftrightarrow> xs = []"
  by (simp add: or_none_def)

lemma or_none_Some [simp]: "or_none xs = Some ys \<longleftrightarrow> xs \<noteq> [] \<and> ys = xs"
  by (auto simp: or_none_def)

lemma jget_notin: "k \<notin> set (map fst d) \<Longrightarrow> jget d k = JNull"
  by (simp add: jget_def map_of_eq_None_iff [THEN iffD2])

text \<open>A diff is exact: it lists the fields that differ, with both values, and no others.\<close>

lemma in_field_changes:
  "(\<exists>ch. field_changes before after = Some ch \<and> (k, b, a) \<in> set ch) \<longleftrightarrow>
    b = jget before k \<and> a = jget after k \<and> a \<noteq> b"
proof -
  let ?ks = "map fst before @ filter (\<lambda>k. k \<notin> set (map fst before)) (map fst after)"
  have mem: "k \<in> set ?ks" if "jget before k \<noteq> jget after k"
    using that jget_notin [of k before] jget_notin [of k after] by (cases "k \<in> set (map fst before)") auto
  have "(\<exists>ch. or_none xs = Some ch \<and> x \<in> set ch) \<longleftrightarrow> x \<in> set xs" for x and xs :: "'z list"
    by (auto simp: or_none_def)
  then have "(\<exists>ch. field_changes before after = Some ch \<and> (k, b, a) \<in> set ch) \<longleftrightarrow>
      (k, b, a) \<in> set (map (\<lambda>k. (k, jget before k, jget after k))
        (filter (\<lambda>k. jget before k \<noteq> jget after k) ?ks))"
    by (simp only: field_changes_def)
  also have "\<dots> \<longleftrightarrow> b = jget before k \<and> a = jget after k \<and> jget before k \<noteq> jget after k \<and> k \<in> set ?ks"
    by (simp only: set_map set_filter) blast
  also have "\<dots> \<longleftrightarrow> b = jget before k \<and> a = jget after k \<and> a \<noteq> b" using mem by metis
  finally show ?thesis .
qed

lemma field_changes_None: "field_changes before after = None \<longleftrightarrow> (\<forall>k. jget before k = jget after k)"
proof
  assume "field_changes before after = None"
  then show "\<forall>k. jget before k = jget after k"
    using in_field_changes [of before after] by (metis option.distinct(1))
next
  assume "\<forall>k. jget before k = jget after k"
  then show "field_changes before after = None" by (simp add: field_changes_def)
qed

lemma field_changes_keys:
  assumes "field_changes before after = Some ch"
  shows "set (map fst ch) = {k. jget before k \<noteq> jget after k}"
proof (intro equalityI subsetI)
  fix k assume "k \<in> set (map fst ch)"
  then obtain b a where "(k, b, a) \<in> set ch" by auto
  with assms in_field_changes [of before after k b a] show "k \<in> {k. jget before k \<noteq> jget after k}" by auto
next
  fix k assume "k \<in> {k. jget before k \<noteq> jget after k}"
  with assms in_field_changes [of before after k "jget before k" "jget after k"]
  have "(k, jget before k, jget after k) \<in> set ch" by auto
  then show "k \<in> set (map fst ch)" by force
qed

text \<open>A created field goes from nothing to its value, a deleted one back, so the two diffs mirror each other.\<close>

lemma deleted_mirrors_created:
  "deleted_changes vals = map_option (map (\<lambda>(k, b, a). (k, a, b))) (created_changes vals)"
  by (auto simp: deleted_changes_def created_changes_def or_none_def split_beta)

section \<open>Splitting a path\<close>

definition words :: "char \<Rightarrow> string \<Rightarrow> string list" where
  "words c s = filter (\<lambda>w. w \<noteq> []) (split_on c s)"

lemma split_on_not_Nil: "split_on c s \<noteq> []"
  by (cases s) (auto split: list.split)

lemma words_Nil [simp]: "words c [] = []"
  by (simp add: words_def)

lemma words_sep [simp]: "words c (c # s) = words c s"
  by (simp add: words_def)

lemma words_snoc [simp]: "words c (s @ [c]) = words c s"
proof -
  have "split_on c (s @ [c]) = split_on c s @ [[]]"
  proof (induction s)
    case (Cons x s)
    then show ?case using split_on_not_Nil [of c s] by (cases "split_on c s") auto
  qed simp
  then show ?thesis by (simp add: words_def)
qed

lemma words_dropWhile: "words c (dropWhile (\<lambda>x. x = c) s) = words c s"
  by (induction s) auto

lemma words_strip: "words c (strip_char c s) = words c s"
proof -
  have "words c (rev (dropWhile (\<lambda>x. x = c) t)) = words c (rev t)" for t
    by (induction t) auto
  then show ?thesis by (simp add: strip_char_def words_dropWhile)
qed

lemma split_on_word: "c \<notin> set w \<Longrightarrow> split_on c (w @ c # s) = w # split_on c s"
  by (induction w) auto

lemma split_on_last: "c \<notin> set w \<Longrightarrow> split_on c w = [w]"
  by (induction w) auto

lemma words_word:
  assumes "c \<notin> set w" "w \<noteq> []" "s = [] \<or> hd s = c"
  shows "words c (w @ s) = w # words c s"
  using assms by (cases s) (auto simp: words_def split_on_last split_on_word)

lemma words_replicate [simp]: "words c (replicate k c) = []"
  by (induction k) simp_all

lemma words_path:
  "\<forall>w \<in> set segs. w \<noteq> [] \<and> c \<notin> set w \<Longrightarrow> words c (concat (map (\<lambda>w. c # w) segs) @ replicate k c) = segs"
proof (induction segs)
  case (Cons w segs)
  have "words c (w @ (concat (map (\<lambda>w. c # w) segs) @ replicate k c)) =
      w # words c (concat (map (\<lambda>w. c # w) segs) @ replicate k c)"
    using Cons.prems by (intro words_word) (cases segs; cases k; auto)+
  with Cons show ?case by simp
qed simp

lemma is_uuid36_parses:
  assumes "is_uuid36 s"
  shows "parse_uuid s \<noteq> None"
proof -
  have len: "length s = 36" and chk: "\<And>i. i < 36 \<Longrightarrow>
      if i = 8 \<or> i = 13 \<or> i = 18 \<or> i = 23 then s ! i = CHR ''-'' else is_hex (s ! i)"
    using assms by (auto simp: is_uuid36_def list_all_length)
  have dash: "\<not> is_hex CHR ''-''" by (simp add: is_hex_def hex_value_def)
  have eq: "s ! i \<noteq> CHR ''-'' \<longleftrightarrow> i \<notin> {8, 13, 18, 23}" if "i < 36" for i
    using chk [OF that] dash by (auto split: if_splits)
  have s: "s = map (\<lambda>i. s ! i) [0..<36]" using map_nth [of s] len by simp
  have "filter (\<lambda>c. c \<noteq> CHR ''-'') s = map (\<lambda>i. s ! i) (filter (\<lambda>i. s ! i \<noteq> CHR ''-'') [0..<36])"
    by (subst s) (simp add: filter_map comp_def)
  also have "filter (\<lambda>i. s ! i \<noteq> CHR ''-'') [0..<36] = filter (\<lambda>i. i \<notin> {8, 13, 18, 23}) [0..<36]"
    using eq by (intro filter_cong) auto
  finally have f: "filter (\<lambda>c. c \<noteq> CHR ''-'') s = map (\<lambda>i. s ! i) (filter (\<lambda>i. i \<notin> {8, 13, 18, 23}) [0..<36])" .
  have "length (filter (\<lambda>i. i \<notin> {8, 13, 18, 23}) [0..<36]) = 32" by code_simp
  moreover have "list_all is_hex (map (\<lambda>i. s ! i) (filter (\<lambda>i. i \<notin> {8, 13, 18, 23}) [0..<36]))"
    using chk by (force simp: list_all_iff)
  ultimately show ?thesis by (simp add: parse_uuid_def Let_def f)
qed

lemma scan_segments_Inr:
  assumes "\<forall>s \<in> set segs. uuid_re_match s \<longrightarrow> is_uuid36 s"
  shows "scan_segments segs eid =
    Inr (case eid of Some u \<Rightarrow> Some u
         | None \<Rightarrow> (case filter uuid_re_match segs of [] \<Rightarrow> None | s # _ \<Rightarrow> parse_uuid s),
         filter (\<lambda>s. \<not> uuid_re_match s) segs)"
  using assms
proof (induction segs arbitrary: eid)
  case (Cons s segs)
  then show ?case
    using is_uuid36_parses [of s] by (cases eid) (auto split: option.splits)
qed (simp split: option.split)

section \<open>Properties\<close>

text \<open>
  The entity, the identifier and the action of an audit row depend only on the path's
  segments: on a path under the API prefix whose segments hold no slash, with any number of
  trailing slashes, the first identifier segment becomes the entity id, no identifier enters the
  dotted action, and the last part of the action is the verb of the method.
\<close>

theorem derive_audit_canonical:
  assumes "\<forall>s \<in> set segs. s \<noteq> [] \<and> CHR ''/'' \<notin> set s \<and> (uuid_re_match s \<longrightarrow> is_uuid36 s)"
  shows "derive_audit method (prefix @ concat (map (\<lambda>s. CHR ''/'' # s) segs) @ replicate k CHR ''/'') prefix =
    Inr (case filter (\<lambda>s. \<not> uuid_re_match s) segs of [] \<Rightarrow> ''root'' | s # _ \<Rightarrow> s,
         case filter uuid_re_match segs of [] \<Rightarrow> None | s # _ \<Rightarrow> parse_uuid s,
         join_dots (filter (\<lambda>s. \<not> uuid_re_match s) segs @ [verb_of method])) \<and>
    (\<forall>s \<in> set (filter uuid_re_match segs). parse_uuid s \<noteq> None)"
proof -
  have "filter (\<lambda>s. s \<noteq> []) (split_on CHR ''/'' (strip_char CHR ''/''
      (concat (map (\<lambda>s. CHR ''/'' # s) segs) @ replicate k CHR ''/''))) = segs"
    using words_path [of segs "CHR ''/''" k] assms words_strip [of "CHR ''/''"]
    by (simp add: words_def)
  then show ?thesis
    using assms scan_segments_Inr [of segs None] is_uuid36_parses
    by (auto simp: derive_audit_def Let_def starts_with_def)
qed

theorem derive_audit_canonical_witness:
  "derive_audit ''GET'' ''/api/v1/clients/00000000-0000-0000-0000-0000000000ff/assignments/'' ''/api/v1'' =
     Inr (''clients'', Some 255, ''clients.assignments.read'')"
proof -
  let ?u = "''00000000-0000-0000-0000-0000000000ff''"
  have u: "is_uuid36 ?u" "uuid_re_match ?u" "\<not> uuid_re_match ''clients''" "\<not> uuid_re_match ''assignments''"
    "parse_uuid ?u = Some 255" "verb_of ''GET'' = ''read''"
    by code_simp+
  have "\<forall>s \<in> set [''clients'', ?u, ''assignments'']. s \<noteq> [] \<and> CHR ''/'' \<notin> set s \<and> (uuid_re_match s \<longrightarrow> is_uuid36 s)"
    using u by simp
  from derive_audit_canonical [OF this, of "''GET''" "''/api/v1''" 1] u show ?thesis by simp
qed

lemma audit_record_Inr:
  assumes "audit_record e mk d = Inr (row, d')"
  shows "d' = d\<lparr>d_next_id := Suc (d_next_id d), d_audit := d_audit d @ [row]\<rparr>"
    "row = (mk (d_next_id d))\<lparr>au_id := d_next_id d, au_created_at := e_now e\<rparr>"
  using assms by (auto simp: audit_record_def fresh_id_def Let_def split: if_splits)

end
