(* ===== verification/Middleware.thy ===== *)
theory Middleware
  imports Auth Audit_Trail
begin

text \<open>
  The ASGI middleware of \<^verbatim>\<open>app/core/middleware.py\<close>: the audit middleware, the body
  buffering it relies on, the fallback diff with its redaction, the body-size guard and the
  security headers. The application behind the middleware is a parameter; the JSON decoder is the
  parameter \<open>loads\<close> (\<^verbatim>\<open>json.loads\<close>, nothing when it raises).
\<close>

section \<open>Messages\<close>

datatype asgi_message = Http_request string bool | Http_disconnect

text \<open>
  The messages \<^verbatim>\<open>receive\<close> will deliver. \<open>buffer_body\<close> is
  \<^verbatim>\<open>_buffer_request_body\<close>: the chunks joined, the messages it consumed and those left;
  nothing when it would wait for ever.
\<close>

fun buffer_loop :: "nat \<Rightarrow> nat \<Rightarrow> asgi_message list \<Rightarrow> (string list \<times> asgi_message list \<times> asgi_message list) option" where
  "buffer_loop cap sz [] = None"
| "buffer_loop cap sz (Http_disconnect # ms) = Some ([], [Http_disconnect], ms)"
| "buffer_loop cap sz (Http_request chunk more_body # ms) =
     (let sz' = sz + length chunk in
      if \<not> more_body \<or> cap < sz' then Some ([chunk], [Http_request chunk more_body], ms)
      else case buffer_loop cap sz' ms of
        None \<Rightarrow> None
      | Some (cs, used, rest) \<Rightarrow> Some (chunk # cs, Http_request chunk more_body # used, rest))"

definition buffer_body :: "nat \<Rightarrow> asgi_message list \<Rightarrow> (string \<times> asgi_message list \<times> asgi_message list) option" where
  "buffer_body cap ms = (case buffer_loop cap 0 ms of
     None \<Rightarrow> None | Some (cs, used, rest) \<Rightarrow> Some (concat cs, used, rest))"

text \<open>The replaying receiver: the next message, with the index into the buffered ones and the live rest.\<close>

fun replay_receive :: "asgi_message list \<Rightarrow> nat \<times> asgi_message list \<Rightarrow>
    (asgi_message \<times> nat \<times> asgi_message list) option" where
  "replay_receive messages (i, rest) =
     (if i < length messages then Some (messages ! i, Suc i, rest)
      else case rest of [] \<Rightarrow> None | m # ms \<Rightarrow> Some (m, i, ms))"

fun receive_all :: "nat \<Rightarrow> asgi_message list \<Rightarrow> nat \<times> asgi_message list \<Rightarrow> asgi_message list" where
  "receive_all 0 messages st = []"
| "receive_all (Suc n) messages st =
     (case replay_receive messages st of None \<Rightarrow> [] | Some (m, st') \<Rightarrow> m # receive_all n messages st')"

section \<open>The fallback diff\<close>

definition MAX_BODY_PEEK :: nat where
  "MAX_BODY_PEEK = 100000"

definition MAX_REQUEST_PEEK :: nat where
  "MAX_REQUEST_PEEK = 64000"

definition REDACT_KEYS :: "string list" where
  "REDACT_KEYS = [''password'', ''current_password'', ''new_password'', ''old_password'', ''token'',
     ''access_token'', ''refresh_token'', ''secret'', ''client_secret'', ''code'', ''authorization'',
     ''api_key'', ''apikey'']"

definition redact :: "jdict \<Rightarrow> jdict" where
  "redact d = map (\<lambda>(k, v). (k, if lower k \<in> set REDACT_KEYS then JStr ''***redacted***'' else v)) d"

definition changes_from_body :: "(string \<Rightarrow> jval option) \<Rightarrow> string \<Rightarrow> changes option" where
  "changes_from_body loads body =
     (if body = [] \<or> MAX_REQUEST_PEEK < length body then None
      else case loads body of
        Some (JObj d) \<Rightarrow> if d = [] then None else created_changes (redact d)
      | _ \<Rightarrow> None)"

text \<open>
  \<^verbatim>\<open>_id_from_body\<close>: the first candidate that is an identifier (the application's
  responses carry identifiers as plain strings; any other value is no identifier).
\<close>

definition nested_id :: "jdict \<Rightarrow> string \<Rightarrow> jval" where
  "nested_id d k = (case jget d k of JObj d' \<Rightarrow> jget d' ''id'' | _ \<Rightarrow> JNull)"

definition value_uuid :: "jval \<Rightarrow> uuid option" where
  "value_uuid v = (case v of JStr s \<Rightarrow> parse_uuid s | JUuid u \<Rightarrow> Some u | _ \<Rightarrow> None)"

fun first_some :: "'a option list \<Rightarrow> 'a option" where
  "first_some [] = None"
| "first_some (x # xs) = (case x of None \<Rightarrow> first_some xs | Some v \<Rightarrow> Some v)"

definition id_from_body :: "(string \<Rightarrow> jval option) \<Rightarrow> string \<Rightarrow> uuid option" where
  "id_from_body loads body =
     (case loads body of
        Some (JObj d) \<Rightarrow>
          first_some (map value_uuid [jget d ''id'', nested_id d ''client'', nested_id d ''user''])
      | _ \<Rightarrow> None)"

section \<open>The audit middleware\<close>

record http_request =
  rq_method :: string
  rq_path :: string
  rq_query :: string
  rq_ip :: "string option"
  rq_user_agent :: "string option"
  rq_authorization :: string
  rq_content_type :: string

text \<open>
  What the application did with the request: the status it started a response with (nothing when it
  raised before), the body chunks it sent, the diff a service attached.
\<close>

record app_result =
  ar_status :: "int option"
  ar_chunks :: "string list"
  ar_changes :: "changes option"

definition SKIP_EXACT :: "string list" where
  "SKIP_EXACT = [''/health'', ''/openapi.json'', ''/favicon.ico'']"

definition audited :: "string \<Rightarrow> http_request \<Rightarrow> bool" where
  "audited prefix rq \<longleftrightarrow>
     rq_method rq \<in> set [''POST'', ''PUT'', ''PATCH'', ''DELETE''] \<and> rq_path rq \<notin> set SKIP_EXACT \<and>
     \<not> starts_with (rq_path rq) ''/docs'' \<and> \<not> starts_with (rq_path rq) ''/redoc'' \<and>
     starts_with (rq_path rq) prefix"

definition writes_body :: "http_request \<Rightarrow> bool" where
  "writes_body rq \<longleftrightarrow> rq_method rq \<in> set [''POST'', ''PUT'', ''PATCH'']"

text \<open>Substring test of the content type.\<close>

fun has_substring :: "string \<Rightarrow> string \<Rightarrow> bool" where
  "has_substring p [] \<longleftrightarrow> p = []"
| "has_substring p (c # s) \<longleftrightarrow> starts_with (c # s) p \<or> has_substring p s"

definition buffers_request :: "http_request \<Rightarrow> bool" where
  "buffers_request rq \<longleftrightarrow> writes_body rq \<and> has_substring ''application/json'' (lower (rq_content_type rq))"

definition collect_chunks :: "string list \<Rightarrow> string list" where
  "collect_chunks chunks =
     foldl (\<lambda>acc c. if c \<noteq> [] \<and> sum_list (map length acc) < MAX_BODY_PEEK then acc @ [c] else acc) [] chunks"

text \<open>\<^verbatim>\<open>_actor\<close>: the user of the bearer token unless it is invalid or revoked.\<close>

definition request_actor :: "auth_lib \<Rightarrow> datetime \<Rightarrow> http_request \<Rightarrow> db \<Rightarrow> uuid option" where
  "request_actor al now rq d =
     (if \<not> starts_with (lower (rq_authorization rq)) ''bearer '' then None
      else case al_decode al True now (drop 7 (rq_authorization rq)) of
        Inl e \<Rightarrow> None
      | Inr payload \<Rightarrow>
          if cl_type payload \<noteq> Some TOKEN_TYPE_ACCESS then None
          else if (case cl_jti payload of None \<Rightarrow> False
                   | Some jti \<Rightarrow> session_get (al_token_id_hash al jti) d = None) then None
          else cl_sub payload)"

definition ok_status :: "int \<Rightarrow> bool" where
  "ok_status s \<longleftrightarrow> 200 \<le> s \<and> s < 300"

definition jstr_or_null :: "string option \<Rightarrow> jval" where
  "jstr_or_null s = jopt JStr s"

definition audit_meta :: "http_request \<Rightarrow> int \<Rightarrow> int \<Rightarrow> jdict" where
  "audit_meta rq status duration_ms =
     [(''method'', JStr (rq_method rq)), (''path'', JStr (rq_path rq)), (''status_code'', JInt status),
      (''duration_ms'', JInt duration_ms),
      (''query'', if rq_query rq = [] then JNull else JStr (rq_query rq)),
      (''ip'', jopt JStr (rq_ip rq)), (''user_agent'', jopt JStr (rq_user_agent rq))]"

definition record_audit :: "auth_lib \<Rightarrow> (string \<Rightarrow> jval option) \<Rightarrow> env \<Rightarrow> string \<Rightarrow> http_request \<Rightarrow> int \<Rightarrow>
    int \<Rightarrow> string list \<Rightarrow> changes option \<Rightarrow> string \<Rightarrow> audit_log op" where
  "record_audit al loads e prefix rq status duration_ms body_chunks changes request_body d =
     bindR (derive_audit (rq_method rq) (rq_path rq) prefix) (\<lambda>(entity, entity_id0, action).
       let client_id0 = (if entity = ''clients'' then entity_id0 else None);
           changes' = (if changes = None \<and> request_body \<noteq> [] \<and> ok_status status
                       then changes_from_body loads request_body else changes);
           found = (if entity_id0 = None \<and> ok_status status \<and> body_chunks \<noteq> []
                    then id_from_body loads (concat body_chunks) else None);
           entity_id = (case found of None \<Rightarrow> entity_id0 | Some u \<Rightarrow> Some u);
           client_id = (case found of None \<Rightarrow> client_id0
                        | Some u \<Rightarrow> if entity = ''clients'' then Some u else client_id0) in
       audit_record e (\<lambda>i. \<lparr>au_id = i, au_actor_user_id = request_actor al (e_now e) rq d,
         au_client_id = client_id, au_proposal_id = None, au_entity = entity, au_entity_id = entity_id,
         au_action = action, au_target_label = Some (rq_method rq @ '' '' @ rq_path rq),
         au_meta = Some (audit_meta rq status duration_ms), au_changes = changes',
         au_created_at = e_now e\<rparr>) d)"

text \<open>
  The whole call: \<open>app\<close> receives the message stream and changes the database; whatever the audit
  raises is swallowed. Nothing when buffering waits for ever.
\<close>

definition audit_middleware :: "auth_lib \<Rightarrow> (string \<Rightarrow> jval option) \<Rightarrow> env \<Rightarrow> int \<Rightarrow> string \<Rightarrow>
    (asgi_message list \<Rightarrow> db \<Rightarrow> app_result \<times> db) \<Rightarrow> http_request \<Rightarrow> asgi_message list \<Rightarrow> db \<Rightarrow>
    (app_result \<times> db) option" where
  "audit_middleware al loads e duration_ms prefix app rq ms d =
     (if \<not> audited prefix rq then Some (app ms d)
      else
        case (if buffers_request rq then buffer_body MAX_REQUEST_PEEK ms else Some ([], [], ms)) of
          None \<Rightarrow> None
        | Some (request_body, used, rest) \<Rightarrow>
            (let (res, d1) = app (used @ rest) d;
                 status = (case ar_status res of None \<Rightarrow> 500 | Some s \<Rightarrow> s);
                 chunks = (if writes_body rq then collect_chunks (ar_chunks res) else []) in
             Some (res, case record_audit al loads e prefix rq status duration_ms chunks (ar_changes res)
                          request_body d1 of
                        Inl err \<Rightarrow> d1 | Inr (row, d2) \<Rightarrow> d2)))"

section \<open>The body-size guard\<close>

text \<open>
  The first layer looks at the declared length (\<open>declared\<close> is \<^verbatim>\<open>int(header)\<close>, nothing
  when it is malformed or absent); the second counts what is streamed: the messages the application
  gets, and whether the guard raised.
\<close>

definition declared_too_large :: "int \<Rightarrow> int option \<Rightarrow> bool" where
  "declared_too_large max_bytes declared \<longleftrightarrow> (case declared of None \<Rightarrow> False | Some n \<Rightarrow> max_bytes < n)"

fun guarded_receive :: "nat \<Rightarrow> nat \<Rightarrow> asgi_message list \<Rightarrow> asgi_message list \<times> bool" where
  "guarded_receive max_bytes seen [] = ([], False)"
| "guarded_receive max_bytes seen (Http_disconnect # ms) =
     (case guarded_receive max_bytes seen ms of (out, b) \<Rightarrow> (Http_disconnect # out, b))"
| "guarded_receive max_bytes seen (Http_request chunk more_body # ms) =
     (if max_bytes < seen + length chunk then ([], True)
      else case guarded_receive max_bytes (seen + length chunk) ms of
        (out, b) \<Rightarrow> (Http_request chunk more_body # out, b))"

section \<open>Security headers\<close>

definition SECURITY_HEADERS :: "(string \<times> string) list" where
  "SECURITY_HEADERS = [(''strict-transport-security'', ''max-age=63072000; includeSubDomains''),
     (''x-content-type-options'', ''nosniff''), (''referrer-policy'', ''no-referrer''),
     (''x-frame-options'', ''DENY'')]"

definition add_security_headers :: "(string \<times> string) list \<Rightarrow> (string \<times> string) list" where
  "add_security_headers headers =
     (let present = map (\<lambda>(name, _). lower name) headers in
      headers @ filter (\<lambda>(n, v). n \<notin> set present) SECURITY_HEADERS)"

section \<open>Lemmas\<close>

lemma buffer_loop_splits:
  "buffer_loop cap sz ms = Some (cs, used, rest) \<Longrightarrow> used @ rest = ms \<and>
    concat cs = concat (map (\<lambda>m. case m of Http_request c more_body \<Rightarrow> c | Http_disconnect \<Rightarrow> []) used)"
  by (induction cap sz ms arbitrary: cs used rest rule: buffer_loop.induct)
    (auto simp: Let_def split: if_splits option.splits)

lemma receive_all_replays: "receive_all n messages (i, rest) = take n (drop i messages @ rest)"
proof (induction n arbitrary: i rest)
  case (Suc n)
  show ?case
  proof (cases "i < length messages")
    case True
    then show ?thesis using Suc by (simp add: Cons_nth_drop_Suc [symmetric])
  next
    case False
    then show ?thesis using Suc by (cases rest) simp_all
  qed
qed simp

lemma record_audit_Inr:
  assumes "record_audit al loads e prefix rq status ms chunks changes body d = Inr (row, d')"
  shows "d' = d\<lparr>d_next_id := Suc (d_next_id d), d_audit := d_audit d @ [row]\<rparr>"
    "au_actor_user_id row = request_actor al (e_now e) rq d"
proof -
  obtain entity eid action mk where r: "audit_record e mk d = Inr (row, d')"
    "\<And>i. au_actor_user_id (mk i) = request_actor al (e_now e) rq d"
    using assms unfolding record_audit_def Let_def bindR_eq_Inr split_beta
    by (metis (no_types, lifting) audit_log.select_convs(2))
  from audit_record_Inr [OF r(1)] r(2)
  show "d' = d\<lparr>d_next_id := Suc (d_next_id d), d_audit := d_audit d @ [row]\<rparr>"
    "au_actor_user_id row = request_actor al (e_now e) rq d" by simp_all
qed

lemma starts_with_bearer: "starts_with (lower (''Bearer '' @ token)) ''bearer ''"
proof -
  have "lower ''Bearer '' = ''bearer ''" by code_simp
  then have "lower (''Bearer '' @ token) = ''bearer '' @ lower token"
    by (simp add: lower_def)
  then show ?thesis by (simp add: starts_with_def)
qed

text \<open>What a call leaves: the application's database, plus at most one attributed row.\<close>

lemma audit_middleware_effect:
  assumes "audit_middleware al loads e dur prefix app rq ms d = Some (res, d')"
  obtains d1 where "app ms d = (res, d1)"
    "d' = d1 \<or> audited prefix rq \<and> (\<exists>row. d' = d1\<lparr>d_next_id := Suc (d_next_id d1), d_audit := d_audit d1 @ [row]\<rparr> \<and>
       au_actor_user_id row = request_actor al (e_now e) rq d1)"
proof (cases "audited prefix rq")
  case False
  with assms that show ?thesis by (simp add: audit_middleware_def)
next
  case True
  obtain body used rest where b: "(if buffers_request rq then buffer_body MAX_REQUEST_PEEK ms else Some ([], [], ms)) =
      Some (body, used, rest)"
    using assms True by (auto simp: audit_middleware_def split: option.splits)
  have ms: "used @ rest = ms"
    using b buffer_loop_splits [of MAX_REQUEST_PEEK 0 ms]
    by (auto simp: buffer_body_def split: if_splits option.splits)
  obtain res1 d1 where a: "app ms d = (res1, d1)" by (cases "app ms d")
  obtain status chunks where r: "res1 = res" "d' = (case record_audit al loads e prefix rq status dur chunks
      (ar_changes res) body d1 of Inl err \<Rightarrow> d1 | Inr (row, d2) \<Rightarrow> d2)"
    using assms True by (simp only: audit_middleware_def b) (auto simp: Let_def ms a)
  show ?thesis
  proof (cases "record_audit al loads e prefix rq status dur chunks (ar_changes res) body d1")
    case (Inl err)
    then show ?thesis using that a r by simp
  next
    case (Inr x)
    then obtain row d2 where "record_audit al loads e prefix rq status dur chunks (ar_changes res) body d1 = Inr (row, d2)"
      by (cases x) auto
    from record_audit_Inr [OF this] this show ?thesis using that a r True by auto
  qed
qed

section \<open>Properties\<close>


text \<open>
  Nobody is on record for logging out: the middleware resolves the actor after the request has
  run, when the session of the presented token is already gone, so the audit row of a logout
  carries no user.
\<close>

theorem logout_audit_has_no_actor:
  assumes token: "rq_authorization rq = ''Bearer '' @ token"
    and live: "al_decode al False now token = Inr p" "cl_jti p = Some jti"
      "\<forall>t p'. al_decode al True t token = Inr p' \<longrightarrow> p' = p"
    and app: "app = (\<lambda>ms d. (res, logout al now token d))"
    and run: "audit_middleware al loads e dur prefix app rq ms d = Some (r, d')"
  shows "\<forall>row \<in> set (d_audit d') - set (d_audit d). au_actor_user_id row = None"
proof -
  have "request_actor al (e_now e) rq (logout al now token d) = None"
    using live starts_with_bearer [of token]
    by (auto simp: request_actor_def token session_get_logout split: sum.splits)
  moreover have "d_audit (logout al now token d) = d_audit d"
    by (auto simp: logout_def delete_by_token_hash_def session_remove_def split: sum.splits option.splits)
  moreover obtain d1 where "app ms d = (r, d1)"
    "d' = d1 \<or> audited prefix rq \<and> (\<exists>row. d' = d1\<lparr>d_next_id := Suc (d_next_id d1), d_audit := d_audit d1 @ [row]\<rparr> \<and>
       au_actor_user_id row = request_actor al (e_now e) rq d1)"
    using run by (rule audit_middleware_effect)
  ultimately show ?thesis using app by auto
qed

text \<open>
  The fallback diff never carries a secret field: whatever JSON object is submitted, every
  field of the resulting diff is new (nothing before), a field whose name is one of the redacted
  ones in any letter case holds the redaction mark, and every other field its submitted value.
\<close>

theorem body_diff_redacts:
  assumes "changes_from_body loads body = Some ch" and "(k, b, a) \<in> set ch"
  shows "b = JNull \<and> (if lower k \<in> set REDACT_KEYS then a = JStr ''***redacted***''
    else \<exists>d. loads body = Some (JObj d) \<and> (k, a) \<in> set d)"
  using assms
  by (auto simp: changes_from_body_def created_changes_def redact_def
      split: if_splits option.splits jval.splits)

definition body_bytes :: "asgi_message list \<Rightarrow> nat" where
  "body_bytes ms = sum_list (map (\<lambda>m. case m of Http_request c b \<Rightarrow> length c | Http_disconnect \<Rightarrow> 0) ms)"

lemma guarded_receive_aux:
  "guarded_receive mx seen ms = (out, raised) \<Longrightarrow> seen \<le> mx \<Longrightarrow>
    seen + body_bytes out \<le> mx \<and> (\<exists>rest. ms = out @ rest) \<and> (raised \<longleftrightarrow> mx < seen + body_bytes ms) \<and>
    (\<not> raised \<longrightarrow> out = ms)"
proof (induction mx seen ms arbitrary: out raised rule: guarded_receive.induct)
  case (3 mx seen chunk more_body ms)
  show ?case
  proof (cases "mx < seen + length chunk")
    case True
    with 3 show ?thesis by (auto simp: body_bytes_def)
  next
    case False
    obtain out1 b where r: "guarded_receive mx (seen + length chunk) ms = (out1, b)"
      by (cases "guarded_receive mx (seen + length chunk) ms")
    from 3(1) [OF False r] False 3(2) r show ?thesis by (auto simp: body_bytes_def)
  qed
qed (auto simp: body_bytes_def split: prod.splits)

text \<open>
  The body-size guard: however the client chunks its body and whatever length it declares, the
  application never gets more than the maximum number of bytes; what it gets is a prefix of what
  was sent, and the whole of it exactly when the guard does not raise, which is when the body fits.
\<close>

theorem body_guard_bounds:
  assumes "guarded_receive mx 0 ms = (out, raised)"
  shows "body_bytes out \<le> mx \<and> (\<exists>rest. ms = out @ rest) \<and> (raised \<longleftrightarrow> mx < body_bytes ms) \<and>
    (\<not> raised \<longrightarrow> out = ms)"
  using guarded_receive_aux [OF assms] by simp

text \<open>
  An attempt to write to a client that does not exist leaves no audit row: the row would
  reference the client of the path, the database refuses the reference, and the middleware drops
  the failure.
\<close>

theorem unknown_client_not_audited:
  assumes path: "derive_audit (rq_method rq) (rq_path rq) prefix = Inr (''clients'', Some cid, action)"
    and absent: "cid \<notin> c_id ` set (d_clients d1)" and app: "app ms d = (res, d1)"
    and run: "audit_middleware al loads e dur prefix app rq ms d = Some (r, d')"
  shows "d' = d1"
proof -
  have none: "record_audit al loads e prefix rq status du chunks ch body d1 = Inl (Crash ''DBAPIError'')"
    for status du chunks ch body
    using absent by (simp add: record_audit_def path Let_def audit_record_def fresh_id_def audit_row_ok_def fk_ok_def)
  define buf where "buf = (if buffers_request rq then buffer_body MAX_REQUEST_PEEK ms else Some ([], [], ms))"
  have "buf \<noteq> None" if "audited prefix rq"
    using run that by (auto simp: audit_middleware_def buf_def split: option.splits)
  then obtain body used rest where b: "\<not> audited prefix rq \<or> (if buffers_request rq then buffer_body MAX_REQUEST_PEEK ms
      else Some ([], [], ms)) = Some (body, used, rest)"
    by (cases buf) (auto simp: buf_def)
  have "used @ rest = ms" if "audited prefix rq"
    using b that buffer_loop_splits [of MAX_REQUEST_PEEK 0 ms]
    by (auto simp: buffer_body_def split: if_splits option.splits)
  with run b app show ?thesis
    by (cases "audited prefix rq") (auto simp: audit_middleware_def Let_def none)
qed

section \<open>Witnesses\<close>

definition logout_request :: http_request where
  "logout_request = \<lparr>rq_method = ''POST'', rq_path = ''/api/v1/auth/logout'', rq_query = [],
     rq_ip = Some ''1.2.3.4'', rq_user_agent = None,
     rq_authorization = ''Bearer '' @ toy_encode (session_claims 7), rq_content_type = []\<rparr>"

definition logout_messages :: "asgi_message list" where
  "logout_messages = [Http_request ''{'' True, Http_request ''}'' False]"

definition ok_result :: app_result where
  "ok_result = \<lparr>ar_status = Some 200, ar_chunks = [], ar_changes = None\<rparr>"

definition session_db :: db where
  "session_db = empty_db\<lparr>d_users := [sample_user 2 Role_user],
     d_sessions := [\<lparr>s_id = 60, s_user_id = 2, s_token_hash = unary 7, s_user_agent = None,
       s_ip_address = None, s_expires_at = 9, s_created_at = 0\<rparr>]\<rparr>"

definition logout_app :: "asgi_message list \<Rightarrow> db \<Rightarrow> app_result \<times> db" where
  "logout_app ms d = (ok_result, logout toy_lib 5 (toy_encode (session_claims 7)) d)"

definition logout_call :: "(app_result \<times> db) option" where
  "logout_call = audit_middleware toy_lib (\<lambda>_. None) short_env 1 ''/api/v1'' logout_app logout_request
     logout_messages session_db"

lemma logout_call_rows: "map_option (\<lambda>(r, d). (map au_action (d_audit d), length (d_sessions d))) logout_call =
    Some ([''auth.logout.create''], 0)"
  by code_simp


theorem logout_audit_has_no_actor_witness:
  "\<exists>res d'. logout_call = Some (res, d') \<and> d_audit d' \<noteq> [] \<and>
     (\<forall>row \<in> set (d_audit d') - set (d_audit session_db). au_actor_user_id row = None)"
proof -
  obtain res d' where c: "logout_call = Some (res, d')" and ne: "d_audit d' \<noteq> []"
    using logout_call_rows by auto
  have tok: "rq_authorization logout_request = ''Bearer '' @ toy_encode (session_claims 7)"
    by (simp add: logout_request_def)
  have dec: "al_decode toy_lib False 5 (toy_encode (session_claims 7)) = Inr (session_claims 7)"
    "cl_jti (session_claims 7) = Some 7"
    "\<forall>t p'. al_decode toy_lib True t (toy_encode (session_claims 7)) = Inr p' \<longrightarrow> p' = session_claims 7"
    by (auto simp: toy_lib_def toy_decode_encode session_claims_def split: if_splits)
  have app: "logout_app = (\<lambda>ms d. (ok_result, logout toy_lib 5 (toy_encode (session_claims 7)) d))"
    by (intro ext) (simp add: logout_app_def)
  from logout_audit_has_no_actor [OF tok dec app c [unfolded logout_call_def]] c ne show ?thesis by blast
qed

definition login_body :: "string \<Rightarrow> jval option" where
  "login_body s = Some (JObj [(''email'', JStr ''a@x.io''), (''Password'', JStr ''hunter2'')])"

theorem body_diff_redacts_witness:
  "\<exists>ch. changes_from_body login_body ''x'' = Some ch \<and> (''Password'', JNull, JStr ''***redacted***'') \<in> set ch"
proof -
  have r: "lower ''email'' \<notin> set REDACT_KEYS" "lower ''Password'' \<in> set REDACT_KEYS" by code_simp+
  then have ch: "changes_from_body login_body ''x'' =
      Some [(''email'', JNull, JStr ''a@x.io''), (''Password'', JNull, JStr ''***redacted***'')]"
    by (simp add: changes_from_body_def login_body_def created_changes_def redact_def MAX_REQUEST_PEEK_def or_none_def)
  with body_diff_redacts [OF ch, of "''Password''" JNull "JStr ''***redacted***''"] show ?thesis by simp
qed

theorem body_guard_bounds_witness:
  "body_bytes (fst (guarded_receive 3 0 [Http_request ''ab'' True, Http_request ''cd'' False])) \<le> 3"
proof -
  have "guarded_receive 3 0 [Http_request ''ab'' True, Http_request ''cd'' False] = ([Http_request ''ab'' True], True)"
    by simp
  from body_guard_bounds [OF this] this show ?thesis by simp
qed

definition ghost_request :: http_request where
  "ghost_request = logout_request\<lparr>rq_method := ''PATCH'',
     rq_path := ''/api/v1/clients/00000000-0000-0000-0000-0000000000ff''\<rparr>"

definition ghost_app :: "asgi_message list \<Rightarrow> db \<Rightarrow> app_result \<times> db" where
  "ghost_app ms d = (ok_result\<lparr>ar_status := Some 404\<rparr>, d)"

theorem unknown_client_not_audited_witness:
  "\<exists>res d'. audit_middleware toy_lib (\<lambda>_. None) short_env 1 ''/api/v1'' ghost_app ghost_request
     logout_messages session_db = Some (res, d') \<and> audited ''/api/v1'' ghost_request \<and> d_audit d' = []"
proof -
  have a: "audited ''/api/v1'' ghost_request" by code_simp
  have p: "derive_audit (rq_method ghost_request) (rq_path ghost_request) ''/api/v1'' =
      Inr (''clients'', Some 255, ''clients.update'')" by code_simp
  have "(case audit_middleware toy_lib (\<lambda>_. None) short_env 1 ''/api/v1'' ghost_app ghost_request
     logout_messages session_db of None \<Rightarrow> False | Some x \<Rightarrow> True) = True" by code_simp
  then obtain res d' where c: "audit_middleware toy_lib (\<lambda>_. None) short_env 1 ''/api/v1'' ghost_app ghost_request
     logout_messages session_db = Some (res, d')" by (auto split: option.splits)
  have absent: "255 \<notin> c_id ` set (d_clients session_db)" by (simp add: session_db_def empty_db_def)
  have app: "ghost_app logout_messages session_db = (ok_result\<lparr>ar_status := Some 404\<rparr>, session_db)"
    by (simp add: ghost_app_def)
  from unknown_client_not_audited [OF p absent app c] c a show ?thesis
    by (auto simp: session_db_def empty_db_def)
qed

end
