(* ===== verification/Plan.thy ===== *)
theory Plan
  imports Access Audit_Trail
begin

text \<open>
  The task board: \<^verbatim>\<open>app/services/plan_service.py\<close> and
  \<^verbatim>\<open>app/repositories/plan_repository.py\<close>. The state is the tables of tasks, supporting
  links and notes. Each \<^verbatim>\<open>_apply_*\<close> method is the operation short of its commit,
  which returns the diff that the service attaches to the request's audit row; the commit is the
  flush that the public method ends with.
\<close>

section \<open>Repository\<close>

definition task_get :: "uuid \<Rightarrow> db \<Rightarrow> plan_task option" where
  "task_get tid d = find_by t_id tid (d_tasks d)"

definition task_add :: "plan_task \<Rightarrow> db \<Rightarrow> db" where
  "task_add t d = d\<lparr>d_tasks := d_tasks d @ [t]\<rparr>"

text \<open>Deleting a task deletes its links and notes (the relationships cascade).\<close>

definition task_remove :: "uuid \<Rightarrow> db \<Rightarrow> db" where
  "task_remove tid d = d\<lparr>d_tasks := delete_by t_id tid (d_tasks d),
     d_assets := filter (\<lambda>a. pa_task_id a \<noteq> tid) (d_assets d),
     d_notes := filter (\<lambda>n. pn_task_id n \<noteq> tid) (d_notes d)\<rparr>"

interpretation tasks: repository t_id task_get task_add task_remove d_tasks
  by unfold_locales (simp_all add: task_get_def task_add_def task_remove_def)

definition get_for_client :: "uuid \<Rightarrow> uuid \<Rightarrow> db \<Rightarrow> plan_task option" where
  "get_for_client cid tid d = find (\<lambda>t. t_id t = tid \<and> t_client_id t = cid) (d_tasks d)"

record task_query =
  tq_status :: "task_status option"
  tq_category :: "task_category option"
  tq_priority :: "task_priority option"
  tq_assignee :: "uuid option"
  tq_start :: "date option"
  tq_end :: "date option"
  tq_include_undated :: bool
  tq_include_archived :: bool

definition coalesce_date :: "date option \<Rightarrow> date option \<Rightarrow> date option" where
  "coalesce_date a b = (case a of Some x \<Rightarrow> Some x | None \<Rightarrow> b)"

definition span_start :: "plan_task \<Rightarrow> date option" where
  "span_start t = coalesce_date (t_start_date t) (t_due_date t)"

definition span_end :: "plan_task \<Rightarrow> date option" where
  "span_end t = coalesce_date (t_due_date t) (t_start_date t)"

text \<open>SQL comparisons: a comparison with NULL is not true.\<close>

definition sql_le :: "date option \<Rightarrow> date option \<Rightarrow> bool" where
  "sql_le a b \<longleftrightarrow> (case (a, b) of (Some x, Some y) \<Rightarrow> x \<le> y | _ \<Rightarrow> False)"

definition in_window :: "date option \<Rightarrow> date option \<Rightarrow> plan_task \<Rightarrow> bool" where
  "in_window start end' t \<longleftrightarrow> (t_start_date t \<noteq> None \<or> t_due_date t \<noteq> None) \<and>
     (end' \<noteq> None \<longrightarrow> sql_le (span_start t) end') \<and> (start \<noteq> None \<longrightarrow> sql_le start (span_end t))"

definition windowed :: "task_query \<Rightarrow> bool" where
  "windowed q \<longleftrightarrow> tq_start q \<noteq> None \<or> tq_end q \<noteq> None"

definition task_matches :: "uuid \<Rightarrow> task_query \<Rightarrow> plan_task \<Rightarrow> bool" where
  "task_matches cid q t \<longleftrightarrow> t_client_id t = cid \<and>
     (\<not> tq_include_archived q \<longrightarrow> t_archived t = Some False) \<and>
     eq_filter (tq_status q) (t_status t) \<and> eq_filter (tq_category q) (t_category t) \<and>
     eq_filter (tq_priority q) (t_priority t) \<and> eq_filter (tq_assignee q) (t_assignee_id t) \<and>
     (windowed q \<longrightarrow> in_window (tq_start q) (tq_end q) t \<or>
        (tq_include_undated q \<and> t_start_date t = None \<and> t_due_date t = None))"

text \<open>\<^verbatim>\<open>ASC\<close> puts NULL last in PostgreSQL.\<close>

definition nulls_last :: "date option \<Rightarrow> nat \<times> int" where
  "nulls_last x = (case x of Some v \<Rightarrow> (0, v) | None \<Rightarrow> (1, 0))"

definition list_tasks_for_client :: "uuid \<Rightarrow> task_query \<Rightarrow> nat \<Rightarrow> nat option \<Rightarrow> db \<Rightarrow> plan_task list \<times> nat" where
  "list_tasks_for_client cid q offset limit d =
     (let rows = filter (task_matches cid q) (d_tasks d);
          ordered = (if windowed q then sort_key (\<lambda>t. (nulls_last (span_start t), t_id t)) rows
                     else sort_key (\<lambda>t. - t_created_at t) rows) in
      (case limit of None \<Rightarrow> drop offset ordered | Some l \<Rightarrow> page_of offset l ordered, length rows))"

definition in_scope :: "uuid list option \<Rightarrow> plan_task \<Rightarrow> bool" where
  "in_scope cids t \<longleftrightarrow> (case cids of None \<Rightarrow> True | Some ids \<Rightarrow> t_client_id t \<in> set ids)"

definition not_done :: "plan_task \<Rightarrow> bool" where
  "not_done t \<longleftrightarrow> (case t_status t of None \<Rightarrow> False | Some s \<Rightarrow> s \<noteq> Task_done)"

definition before_day :: "date \<Rightarrow> date option \<Rightarrow> bool" where
  "before_day day x \<longleftrightarrow> (case x of None \<Rightarrow> False | Some v \<Rightarrow> v < day)"

text \<open>\<^verbatim>\<open>GROUP BY\<close> with a count, as an association list in first-seen order.\<close>

definition group_count :: "('r \<Rightarrow> 'k) \<Rightarrow> 'r list \<Rightarrow> ('k \<times> nat) list" where
  "group_count key rows = map (\<lambda>k. (k, length (filter (\<lambda>r. key r = k) rows))) (remdups (map key rows))"

definition open_counts_for_assignee :: "uuid \<Rightarrow> uuid list option \<Rightarrow> db \<Rightarrow> (uuid \<times> nat) list" where
  "open_counts_for_assignee uid cids d =
     group_count t_client_id
       (filter (\<lambda>t. t_assignee_id t = Some uid \<and> not_done t \<and> in_scope cids t) (d_tasks d))"

record admin_query =
  aq_status :: "task_status option"
  aq_priority :: "task_priority option"
  aq_assignee :: "uuid option"
  aq_client :: "uuid option"
  aq_overdue_only :: bool
  aq_due_within_days :: "int option"
  aq_include_archived :: bool

definition admin_matches :: "date \<Rightarrow> uuid list option \<Rightarrow> admin_query \<Rightarrow> plan_task \<Rightarrow> bool" where
  "admin_matches today cids q t \<longleftrightarrow> in_scope cids t \<and>
     eq_filter (aq_client q) (Some (t_client_id t)) \<and>
     (\<not> aq_include_archived q \<longrightarrow> t_archived t = Some False) \<and>
     eq_filter (aq_status q) (t_status t) \<and> eq_filter (aq_priority q) (t_priority t) \<and>
     eq_filter (aq_assignee q) (t_assignee_id t) \<and>
     (aq_overdue_only q \<longrightarrow> before_day today (t_due_date t) \<and> not_done t) \<and>
     (case aq_due_within_days q of
        None \<Rightarrow> True
      | Some n \<Rightarrow> sql_le (Some today) (t_due_date t) \<and> sql_le (t_due_date t) (Some (today + n)) \<and> not_done t)"

definition list_across_clients ::
    "date \<Rightarrow> uuid list option \<Rightarrow> admin_query \<Rightarrow> nat \<Rightarrow> nat option \<Rightarrow> db \<Rightarrow> plan_task list \<times> nat" where
  "list_across_clients today cids q offset limit d =
     (let rows = filter (admin_matches today cids q) (d_tasks d);
          ordered = sort_key (\<lambda>t. - t_created_at t) rows in
      (case limit of None \<Rightarrow> drop offset ordered | Some l \<Rightarrow> page_of offset l ordered, length rows))"

definition workload_summary :: "date \<Rightarrow> uuid list option \<Rightarrow> db \<Rightarrow> (uuid \<times> nat \<times> nat) list" where
  "workload_summary today cids d =
     (let rows = filter (\<lambda>t. t_assignee_id t \<noteq> None \<and> not_done t \<and> t_archived t = Some False \<and>
            in_scope cids t) (d_tasks d) in
      List.map_filter (\<lambda>a. case a of
          None \<Rightarrow> None
        | Some uid \<Rightarrow> Some (uid, length (filter (\<lambda>t. t_assignee_id t = a) rows),
            length (filter (\<lambda>t. t_assignee_id t = a \<and> before_day today (t_due_date t)) rows)))
        (remdups (map t_assignee_id rows)))"

definition completion_counts :: "uuid \<Rightarrow> db \<Rightarrow> nat \<times> nat" where
  "completion_counts cid d =
     (length (filter (\<lambda>t. t_client_id t = cid \<and> t_status t = Some Task_done) (d_tasks d)),
      length (filter (\<lambda>t. t_client_id t = cid) (d_tasks d)))"

section \<open>Reads\<close>

definition task_not_found :: exn where
  "task_not_found = not_found ''Task not found.''"

definition list_tasks :: "uuid \<Rightarrow> pagination \<Rightarrow> task_query \<Rightarrow> db \<Rightarrow> exn + plan_task list \<times> nat" where
  "list_tasks cid pg q d =
     (if (case (tq_start q, tq_end q) of (Some a, Some b) \<Rightarrow> b < a | _ \<Rightarrow> False)
      then Inl (bad_request ''start must be on or before end'')
      else Inr (list_tasks_for_client cid q (pg_offset pg) (Some (pg_page_size pg)) d))"

definition get_task :: "uuid \<Rightarrow> uuid \<Rightarrow> db \<Rightarrow> exn + plan_task" where
  "get_task cid tid d = some_or task_not_found (get_for_client cid tid d)"

section \<open>Writes\<close>

text \<open>The request schema's range check, which rejects the body before the service runs.\<close>

definition ranges_ok :: "date option \<Rightarrow> date option \<Rightarrow> time option \<Rightarrow> time option \<Rightarrow> bool" where
  "ranges_ok s e t0 t1 \<longleftrightarrow> (case (s, e) of (Some a, Some b) \<Rightarrow> a \<le> b | _ \<Rightarrow> True) \<and>
     (case (t0, t1) of (Some a, Some b) \<Rightarrow> a \<le> b | _ \<Rightarrow> True)"

definition create_valid :: "plan_task_create \<Rightarrow> bool" where
  "create_valid data \<longleftrightarrow> 1 \<le> length (tc_title data) \<and> length (tc_title data) \<le> 200 \<and>
     ranges_ok (tc_start_date data) (tc_due_date data) (tc_start_time data) (tc_end_time data)"

definition new_task :: "env \<Rightarrow> uuid \<Rightarrow> uuid \<Rightarrow> plan_task_create \<Rightarrow> uuid \<Rightarrow> plan_task" where
  "new_task e tid cid data created_by =
     \<lparr>t_id = tid, t_client_id = cid, t_title = Some (tc_title data), t_description = tc_description data,
      t_requirements = tc_requirements data, t_category = Some (tc_category data),
      t_status = Some (tc_status data), t_priority = Some (tc_priority data),
      t_assignee_id = tc_assignee_id data, t_event_id = None, t_start_date = tc_start_date data,
      t_due_date = tc_due_date data, t_start_time = tc_start_time data, t_end_time = tc_end_time data,
      t_created_by = Some created_by, t_archived = Some False, t_created_at = e_now e,
      t_updated_at = e_now e\<rparr>"

definition jcategory :: "task_category option \<Rightarrow> jval" where
  "jcategory = jopt (JStr \<circ> task_category_value)"

definition jstatus :: "task_status option \<Rightarrow> jval" where
  "jstatus = jopt (JStr \<circ> task_status_value)"

definition create_diff :: "plan_task \<Rightarrow> changes option" where
  "create_diff t = created_changes [(''title'', jopt JStr (t_title t)), (''category'', jcategory (t_category t)),
     (''status'', jstatus (t_status t)), (''start_date'', jopt JDate (t_start_date t)),
     (''due_date'', jopt JDate (t_due_date t))]"

definition apply_create_task ::
    "env \<Rightarrow> uuid \<Rightarrow> plan_task_create \<Rightarrow> uuid \<Rightarrow> (plan_task \<times> changes option) op" where
  "apply_create_task e cid data created_by d =
     bindR (fresh_id d) (\<lambda>(tid, d1).
       let task = new_task e tid cid data created_by in
       bindR (flush (task_add task d1)) (\<lambda>(_, d2). Inr ((task, create_diff task), d2)))"

definition MUTABLE :: "task_field list" where
  "MUTABLE = [TF_title, TF_description, TF_requirements, TF_category, TF_status, TF_priority,
     TF_assignee_id, TF_start_date, TF_due_date, TF_start_time, TF_end_time, TF_archived]"

fun task_field_name :: "task_field \<Rightarrow> string" where
  "task_field_name TF_title = ''title''"
| "task_field_name TF_description = ''description''"
| "task_field_name TF_requirements = ''requirements''"
| "task_field_name TF_category = ''category''"
| "task_field_name TF_status = ''status''"
| "task_field_name TF_priority = ''priority''"
| "task_field_name TF_assignee_id = ''assignee_id''"
| "task_field_name TF_start_date = ''start_date''"
| "task_field_name TF_due_date = ''due_date''"
| "task_field_name TF_start_time = ''start_time''"
| "task_field_name TF_end_time = ''end_time''"
| "task_field_name TF_archived = ''archived''"

text \<open>\<^verbatim>\<open>setattr(task, attr, getattr(data, attr))\<close>\<close>

fun set_task_field :: "plan_task_update \<Rightarrow> task_field \<Rightarrow> plan_task \<Rightarrow> plan_task" where
  "set_task_field u TF_title t = t\<lparr>t_title := tu_title u\<rparr>"
| "set_task_field u TF_description t = t\<lparr>t_description := tu_description u\<rparr>"
| "set_task_field u TF_requirements t = t\<lparr>t_requirements := tu_requirements u\<rparr>"
| "set_task_field u TF_category t = t\<lparr>t_category := tu_category u\<rparr>"
| "set_task_field u TF_status t = t\<lparr>t_status := tu_status u\<rparr>"
| "set_task_field u TF_priority t = t\<lparr>t_priority := tu_priority u\<rparr>"
| "set_task_field u TF_assignee_id t = t\<lparr>t_assignee_id := tu_assignee_id u\<rparr>"
| "set_task_field u TF_start_date t = t\<lparr>t_start_date := tu_start_date u\<rparr>"
| "set_task_field u TF_due_date t = t\<lparr>t_due_date := tu_due_date u\<rparr>"
| "set_task_field u TF_start_time t = t\<lparr>t_start_time := tu_start_time u\<rparr>"
| "set_task_field u TF_end_time t = t\<lparr>t_end_time := tu_end_time u\<rparr>"
| "set_task_field u TF_archived t = t\<lparr>t_archived := tu_archived u\<rparr>"

text \<open>\<^verbatim>\<open>_audit_value(getattr(task, attr))\<close>\<close>

fun task_value :: "plan_task \<Rightarrow> task_field \<Rightarrow> jval" where
  "task_value t TF_title = jopt JStr (t_title t)"
| "task_value t TF_description = jopt JStr (t_description t)"
| "task_value t TF_requirements = jopt JStr (t_requirements t)"
| "task_value t TF_category = jcategory (t_category t)"
| "task_value t TF_status = jstatus (t_status t)"
| "task_value t TF_priority = jopt (JStr \<circ> task_priority_value) (t_priority t)"
| "task_value t TF_assignee_id = jopt JUuid (t_assignee_id t)"
| "task_value t TF_start_date = jopt JDate (t_start_date t)"
| "task_value t TF_due_date = jopt JDate (t_due_date t)"
| "task_value t TF_start_time = jopt JTime (t_start_time t)"
| "task_value t TF_end_time = jopt JTime (t_end_time t)"
| "task_value t TF_archived = jopt JBool (t_archived t)"

definition touched_fields :: "plan_task_update \<Rightarrow> task_field list" where
  "touched_fields u = filter (\<lambda>f. f \<in> set (tu_fields u)) MUTABLE"

definition patch_task :: "plan_task_update \<Rightarrow> plan_task \<Rightarrow> plan_task" where
  "patch_task u t = foldl (\<lambda>t f. set_task_field u f t) t (touched_fields u)"

definition task_dict :: "task_field list \<Rightarrow> plan_task \<Rightarrow> jdict" where
  "task_dict fs t = map (\<lambda>f. (task_field_name f, task_value t f)) fs"

definition merged :: "bool \<Rightarrow> 'a option \<Rightarrow> 'a option \<Rightarrow> 'a option" where
  "merged sent new old = (if sent then new else old)"

definition inverted :: "int option \<Rightarrow> int option \<Rightarrow> bool" where
  "inverted a b \<longleftrightarrow> (case (a, b) of (Some x, Some y) \<Rightarrow> y < x | _ \<Rightarrow> False)"

definition apply_update_task ::
    "env \<Rightarrow> uuid \<Rightarrow> uuid \<Rightarrow> plan_task_update \<Rightarrow> (plan_task \<times> changes option) op" where
  "apply_update_task e cid tid u d =
     bindR (get_task cid tid d) (\<lambda>task.
       let sent = (\<lambda>f. f \<in> set (tu_fields u)) in
       if inverted (merged (sent TF_start_date) (tu_start_date u) (t_start_date task))
            (merged (sent TF_due_date) (tu_due_date u) (t_due_date task))
       then Inl (bad_request ''start_date must be on or before due_date'')
       else if inverted (merged (sent TF_start_time) (tu_start_time u) (t_start_time task))
            (merged (sent TF_end_time) (tu_end_time u) (t_end_time task))
       then Inl (bad_request ''start_time must be on or before end_time'')
       else
         let task' = touch_task (e_now e) task (patch_task u task) in
         Inr ((task', field_changes (task_dict (touched_fields u) task) (task_dict (touched_fields u) task')),
              d\<lparr>d_tasks := update_by t_id tid (\<lambda>_. task') (d_tasks d)\<rparr>))"

definition apply_delete_task :: "uuid \<Rightarrow> uuid \<Rightarrow> (plan_task \<times> changes option) op" where
  "apply_delete_task cid tid d =
     bindR (get_task cid tid d) (\<lambda>task.
       let changes = deleted_changes [(''title'', jopt JStr (t_title task)),
             (''category'', jcategory (t_category task)), (''status'', jstatus (t_status task))] in
       bindR (flush (task_remove tid d)) (\<lambda>(_, d1). Inr ((task, changes), d1)))"

definition copy_title :: "string option \<Rightarrow> string" where
  "copy_title title = take 200 ((case title of None \<Rightarrow> ''None'' | Some s \<Rightarrow> s) @ '' (copy)'')"

definition copy_task :: "env \<Rightarrow> uuid \<Rightarrow> uuid \<Rightarrow> uuid \<Rightarrow> plan_task \<Rightarrow> plan_task" where
  "copy_task e tid cid created_by src =
     \<lparr>t_id = tid, t_client_id = cid, t_title = Some (copy_title (t_title src)),
      t_description = t_description src, t_requirements = t_requirements src,
      t_category = t_category src, t_status = Some Task_todo, t_priority = t_priority src,
      t_assignee_id = None, t_event_id = None, t_start_date = t_start_date src,
      t_due_date = t_due_date src, t_start_time = t_start_time src, t_end_time = t_end_time src,
      t_created_by = Some created_by, t_archived = Some False, t_created_at = e_now e,
      t_updated_at = e_now e\<rparr>"

definition apply_duplicate_task :: "env \<Rightarrow> uuid \<Rightarrow> uuid \<Rightarrow> uuid \<Rightarrow> (plan_task \<times> changes option) op" where
  "apply_duplicate_task e cid tid created_by d =
     bindR (get_task cid tid d) (\<lambda>source.
       bindR (fresh_id d) (\<lambda>(nid, d1).
         let copy = copy_task e nid cid created_by source in
         bindR (flush (task_add copy d1)) (\<lambda>(_, d2).
           Inr ((copy, created_changes [(''title'', jopt JStr (t_title copy)),
                  (''category'', jcategory (t_category copy))]), d2))))"

text \<open>The public methods: the operation, then the commit, whose flush may fail.\<close>

definition committed :: "('a \<times> changes option) op \<Rightarrow> ('a \<times> changes option) op" where
  "committed f d = bindR (f d) (\<lambda>(r, d1). bindR (flush d1) (\<lambda>(_, d2). Inr (r, d2)))"

definition create_task where
  "create_task e cid data created_by = committed (apply_create_task e cid data created_by)"

definition update_task where
  "update_task e cid tid u = committed (apply_update_task e cid tid u)"

definition delete_task where
  "delete_task cid tid = committed (apply_delete_task cid tid)"

definition duplicate_task where
  "duplicate_task e cid tid created_by = committed (apply_duplicate_task e cid tid created_by)"

section \<open>Supporting links and notes\<close>

definition MAX_ASSETS_PER_TASK :: nat where
  "MAX_ASSETS_PER_TASK = 20"

definition task_assets :: "uuid \<Rightarrow> db \<Rightarrow> plan_task_asset list" where
  "task_assets tid d = sort_key pa_position (filter (\<lambda>a. pa_task_id a = tid) (d_assets d))"

definition next_asset_position :: "uuid \<Rightarrow> db \<Rightarrow> nat" where
  "next_asset_position tid d = length (filter (\<lambda>a. pa_task_id a = tid) (d_assets d))"

definition add_asset :: "env \<Rightarrow> uuid \<Rightarrow> uuid \<Rightarrow> string \<Rightarrow> string option \<Rightarrow> plan_task_asset op" where
  "add_asset e cid tid url label d =
     bindR (get_task cid tid d) (\<lambda>task.
       if MAX_ASSETS_PER_TASK \<le> length (task_assets tid d)
       then Inl (bad_request ''A task can have at most 20 supporting links.'')
       else bindR (fresh_id d) (\<lambda>(i, d1).
         let asset = \<lparr>pa_id = i, pa_task_id = t_id task, pa_url = url, pa_label = label,
               pa_position = next_asset_position tid d, pa_created_at = e_now e\<rparr> in
         bindR (flush (d1\<lparr>d_assets := d_assets d1 @ [asset]\<rparr>)) (\<lambda>(_, d2). Inr (asset, d2))))"

definition get_asset :: "uuid \<Rightarrow> uuid \<Rightarrow> db \<Rightarrow> plan_task_asset option" where
  "get_asset tid aid d = find (\<lambda>a. pa_id a = aid \<and> pa_task_id a = tid) (d_assets d)"

definition remove_asset :: "uuid \<Rightarrow> uuid \<Rightarrow> uuid \<Rightarrow> unit op" where
  "remove_asset cid tid aid d =
     bindR (get_task cid tid d) (\<lambda>task.
       case get_asset tid aid d of
         None \<Rightarrow> Inl (not_found ''Supporting link not found.'')
       | Some asset \<Rightarrow> flush (d\<lparr>d_assets := delete_by pa_id aid (d_assets d)\<rparr>))"

definition apply_add_note :: "env \<Rightarrow> uuid \<Rightarrow> uuid \<Rightarrow> string \<Rightarrow> uuid \<Rightarrow> (plan_task_note \<times> plan_task) op" where
  "apply_add_note e cid tid body uid d =
     bindR (get_task cid tid d) (\<lambda>task.
       bindR (fresh_id d) (\<lambda>(i, d1).
         let note = \<lparr>pn_id = i, pn_task_id = t_id task, pn_user_id = Some uid, pn_body = body,
               pn_created_at = e_now e\<rparr> in
         bindR (flush (d1\<lparr>d_notes := d_notes d1 @ [note]\<rparr>)) (\<lambda>(_, d2). Inr ((note, task), d2))))"

section \<open>Lemmas: a patch\<close>

lemma set_task_field_id [simp]:
  "t_id (set_task_field u f t) = t_id t" "t_client_id (set_task_field u f t) = t_client_id t"
  by (cases f; simp)+

lemma task_value_set: "task_value (set_task_field u g t) f =
    (if f = g then task_value (set_task_field u f s) f else task_value t f)"
  by (cases f; cases g; simp)

lemma foldl_fields_id [simp]:
  "t_id (foldl (\<lambda>t f. set_task_field u f t) t fs) = t_id t"
  "t_client_id (foldl (\<lambda>t f. set_task_field u f t) t fs) = t_client_id t"
  by (induction fs arbitrary: t) simp_all

lemma task_value_foldl:
  "task_value (foldl (\<lambda>t f. set_task_field u f t) t fs) f =
    (if f \<in> set fs then task_value (set_task_field u f t) f else task_value t f)"
proof (induction fs arbitrary: t)
  case (Cons g fs)
  have "task_value (set_task_field u f (set_task_field u g t)) f = task_value (set_task_field u f t) f"
    using task_value_set [of u f "set_task_field u g t" f t] by simp
  with Cons show ?case using task_value_set [of u g t f t] by (auto simp: task_value_set [of u g t f t])
qed simp

lemma MUTABLE_all [simp]: "set MUTABLE = UNIV"
proof -
  have "f \<in> set MUTABLE" for f by (cases f) (simp_all add: MUTABLE_def)
  then show ?thesis by auto
qed

lemma set_touched [simp]: "set (touched_fields u) = set (tu_fields u)"
  by (auto simp: touched_fields_def)

lemma patch_task_id [simp]: "t_id (patch_task u t) = t_id t" "t_client_id (patch_task u t) = t_client_id t"
  by (simp_all add: patch_task_def)

lemma touch_task_simps [simp]: "t_id new = t_id old \<Longrightarrow> t_id (touch_task now old new) = t_id old"
  "t_client_id new = t_client_id old \<Longrightarrow> t_client_id (touch_task now old new) = t_client_id old"
  "task_value (touch_task now old new) f = task_value new f"
  by (auto simp: touch_task_def) (cases f; simp)

lemma task_value_patch: "task_value (patch_task u t) f =
    (if f \<in> set (tu_fields u) then task_value (set_task_field u f t) f else task_value t f)"
  by (simp add: patch_task_def task_value_foldl)

lemma task_field_name_inj: "task_field_name f = task_field_name g \<longleftrightarrow> f = g"
  by (cases f; cases g; simp)

lemma jget_task_dict: "jget (task_dict fs t) k =
    (if \<exists>f \<in> set fs. task_field_name f = k then task_value t (SOME f. task_field_name f = k) else JNull)"
proof (induction fs)
  case (Cons g fs)
  have "(SOME f. task_field_name f = task_field_name g) = g"
    by (simp add: task_field_name_inj)
  with Cons show ?case by (auto simp: jget_def task_dict_def)
qed (simp add: jget_def task_dict_def)

lemma jget_task_dict_name: "jget (task_dict fs t) (task_field_name f) = (if f \<in> set fs then task_value t f else JNull)"
  by (simp add: jget_task_dict task_field_name_inj)

text \<open>The diff of a patch: exactly the sent fields whose value moved.\<close>

lemma task_diff_exact:
  "(\<exists>ch. field_changes (task_dict fs t) (task_dict fs t') = Some ch \<and> (k, b, a) \<in> set ch) \<longleftrightarrow>
    (\<exists>f \<in> set fs. k = task_field_name f \<and> b = task_value t f \<and> a = task_value t' f \<and> a \<noteq> b)"
proof (cases "\<exists>f \<in> set fs. task_field_name f = k")
  case True
  then obtain f where f: "f \<in> set fs" "k = task_field_name f" by auto
  then show ?thesis
    by (auto simp: in_field_changes jget_task_dict_name task_field_name_inj)
next
  case False
  then show ?thesis by (auto simp: in_field_changes jget_task_dict)
qed

section \<open>Lemmas: what each operation does\<close>

lemma get_for_client_Some:
  "get_for_client cid tid d = Some t \<Longrightarrow> t_id t = tid \<and> t_client_id t = cid \<and> t \<in> set (d_tasks d)"
  by (auto simp: get_for_client_def find_Some_iff)

lemma get_task_Inr: "get_task cid tid d = Inr t \<longleftrightarrow> get_for_client cid tid d = Some t"
  by (simp add: get_task_def some_or_eq_Inr)

lemma get_for_client_unique:
  assumes "distinct (map t_id (d_tasks d))" "t \<in> set (d_tasks d)"
  shows "get_for_client (t_client_id t) (t_id t) d = Some t"
proof -
  have "find (\<lambda>x. t_id x = t_id t \<and> t_client_id x = t_client_id t) xs = Some t"
    if "distinct (map t_id xs)" "t \<in> set xs" for xs
    using that by (induction xs) (auto simp: image_iff)
  with assms show ?thesis by (simp add: get_for_client_def)
qed

lemma apply_create_task_Inr:
  assumes "apply_create_task e cid data by d = Inr (r, d')"
  shows "r = (new_task e (d_next_id d) cid data by, create_diff (new_task e (d_next_id d) cid data by))"
    "d' = task_add (new_task e (d_next_id d) cid data by) (d\<lparr>d_next_id := Suc (d_next_id d)\<rparr>)"
    "db_constraints d'"
  using assms by (auto simp: apply_create_task_def fresh_id_def Let_def result_simps)

lemma apply_update_task_Inr:
  assumes "apply_update_task e cid tid u d = Inr ((t', ch), d')"
  obtains t where "get_for_client cid tid d = Some t"
    "\<not> inverted (merged (TF_start_date \<in> set (tu_fields u)) (tu_start_date u) (t_start_date t))
       (merged (TF_due_date \<in> set (tu_fields u)) (tu_due_date u) (t_due_date t))"
    "\<not> inverted (merged (TF_start_time \<in> set (tu_fields u)) (tu_start_time u) (t_start_time t))
       (merged (TF_end_time \<in> set (tu_fields u)) (tu_end_time u) (t_end_time t))"
    "t' = touch_task (e_now e) t (patch_task u t)"
    "ch = field_changes (task_dict (touched_fields u) t) (task_dict (touched_fields u) t')"
    "d' = d\<lparr>d_tasks := update_by t_id tid (\<lambda>_. t') (d_tasks d)\<rparr>"
  using assms by (auto simp: apply_update_task_def Let_def result_simps get_task_Inr split: if_splits)

lemma apply_delete_task_Inr:
  assumes "apply_delete_task cid tid d = Inr (r, d')"
  obtains t where "get_for_client cid tid d = Some t" "fst r = t" "d' = task_remove tid d" "db_constraints d'"
  using assms by (auto simp: apply_delete_task_def Let_def result_simps get_task_Inr)

lemma apply_duplicate_task_Inr:
  assumes "apply_duplicate_task e cid tid by d = Inr (r, d')"
  obtains t where "get_for_client cid tid d = Some t" "fst r = copy_task e (d_next_id d) cid by t"
    "d' = task_add (copy_task e (d_next_id d) cid by t) (d\<lparr>d_next_id := Suc (d_next_id d)\<rparr>)" "db_constraints d'"
  using assms by (auto simp: apply_duplicate_task_def fresh_id_def Let_def result_simps get_task_Inr)

lemma add_asset_Inr:
  assumes "add_asset e cid tid url label d = Inr (a, d')"
  shows "\<exists>t. get_for_client cid tid d = Some t \<and> pa_task_id a = tid \<and>
    d' = d\<lparr>d_next_id := Suc (d_next_id d), d_assets := d_assets d @ [a]\<rparr> \<and> db_constraints d' \<and>
    length (task_assets tid d) < MAX_ASSETS_PER_TASK \<and> pa_position a = next_asset_position tid d"
  using assms
  by (auto simp: add_asset_def fresh_id_def Let_def result_simps get_task_Inr dest: get_for_client_Some
      split: if_splits)

lemma remove_asset_Inr:
  assumes "remove_asset cid tid aid d = Inr (u, d')"
  shows "\<exists>t a. get_for_client cid tid d = Some t \<and> get_asset tid aid d = Some a \<and>
    d' = d\<lparr>d_assets := delete_by pa_id aid (d_assets d)\<rparr> \<and> db_constraints d'"
  using assms by (auto simp: remove_asset_def result_simps get_task_Inr split: option.splits)

lemma apply_add_note_Inr:
  assumes "apply_add_note e cid tid body uid d = Inr ((n, t), d')"
  shows "get_for_client cid tid d = Some t \<and> pn_task_id n = tid \<and>
    d' = d\<lparr>d_next_id := Suc (d_next_id d), d_notes := d_notes d @ [n]\<rparr> \<and> db_constraints d'"
  using assms
  by (auto simp: apply_add_note_def fresh_id_def Let_def result_simps get_task_Inr dest: get_for_client_Some)

lemma committed_Inr: "committed f d = Inr (r, d') \<longleftrightarrow> f d = Inr (r, d') \<and> db_constraints d'"
  by (cases r) (auto simp: committed_def result_simps)

section \<open>Runs of the board\<close>

datatype plan_op =
    PO_create uuid plan_task_create uuid
  | PO_update uuid uuid plan_task_update
  | PO_delete uuid uuid
  | PO_duplicate uuid uuid uuid
  | PO_add_asset uuid uuid string "string option"
  | PO_remove_asset uuid uuid uuid
  | PO_add_note uuid uuid string uuid

fun plan_op_client :: "plan_op \<Rightarrow> uuid" where
  "plan_op_client (PO_create cid data by) = cid"
| "plan_op_client (PO_update cid tid u) = cid"
| "plan_op_client (PO_delete cid tid) = cid"
| "plan_op_client (PO_duplicate cid tid by) = cid"
| "plan_op_client (PO_add_asset cid tid url label) = cid"
| "plan_op_client (PO_remove_asset cid tid aid) = cid"
| "plan_op_client (PO_add_note cid tid body uid) = cid"

definition drop_result :: "exn + 'a \<times> db \<Rightarrow> exn + db" where
  "drop_result r = (case r of Inl e \<Rightarrow> Inl e | Inr (x, d) \<Rightarrow> Inr d)"

fun plan_exec :: "env \<Rightarrow> plan_op \<Rightarrow> db \<Rightarrow> exn + db" where
  "plan_exec e (PO_create cid data by) d = drop_result (create_task e cid data by d)"
| "plan_exec e (PO_update cid tid u) d = drop_result (update_task e cid tid u d)"
| "plan_exec e (PO_delete cid tid) d = drop_result (delete_task cid tid d)"
| "plan_exec e (PO_duplicate cid tid by) d = drop_result (duplicate_task e cid tid by d)"
| "plan_exec e (PO_add_asset cid tid url label) d = drop_result (add_asset e cid tid url label d)"
| "plan_exec e (PO_remove_asset cid tid aid) d = drop_result (remove_asset cid tid aid d)"
| "plan_exec e (PO_add_note cid tid body uid) d = drop_result (apply_add_note e cid tid body uid d)"

text \<open>A request that raises leaves the database as it was.\<close>

fun plan_run :: "env \<Rightarrow> plan_op list \<Rightarrow> db \<Rightarrow> db" where
  "plan_run e [] d = d"
| "plan_run e (p # ps) d = plan_run e ps (case plan_exec e p d of Inl err \<Rightarrow> d | Inr d' \<Rightarrow> d')"

definition task_ranges_ok :: "plan_task \<Rightarrow> bool" where
  "task_ranges_ok t \<longleftrightarrow> ranges_ok (t_start_date t) (t_due_date t) (t_start_time t) (t_end_time t)"

definition plan_inv :: "db \<Rightarrow> bool" where
  "plan_inv d \<longleftrightarrow> db_constraints d \<and> (\<forall>t \<in> set (d_tasks d). task_ranges_ok t)"

fun plan_op_valid :: "plan_op \<Rightarrow> bool" where
  "plan_op_valid (PO_create cid data by) = create_valid data"
| "plan_op_valid _ = True"

text \<open>What belongs to a client: its tasks, and the links and notes of its tasks.\<close>

definition owned :: "uuid \<Rightarrow> db \<Rightarrow> uuid \<Rightarrow> bool" where
  "owned cid d tid \<longleftrightarrow> (tid, cid) \<in> (\<lambda>t. (t_id t, t_client_id t)) ` set (d_tasks d)"

definition board_of :: "uuid \<Rightarrow> db \<Rightarrow> plan_task list \<times> plan_task_asset list \<times> plan_task_note list" where
  "board_of cid d = (filter (\<lambda>t. t_client_id t = cid) (d_tasks d),
     filter (\<lambda>a. owned cid d (pa_task_id a)) (d_assets d),
     filter (\<lambda>n. owned cid d (pn_task_id n)) (d_notes d))"

lemma drop_result_Inr: "drop_result r = Inr d \<longleftrightarrow> (\<exists>x. r = Inr (x, d))"
  by (auto simp: drop_result_def split: sum.splits)

lemma ranges_ok_inverted: "ranges_ok s e t0 t1 \<longleftrightarrow> \<not> inverted s e \<and> \<not> inverted t0 t1"
  by (auto simp: ranges_ok_def inverted_def split: option.splits)

lemma jopt_inj: "inj f \<Longrightarrow> (\<And>x. f x \<noteq> JNull) \<Longrightarrow> jopt f a = jopt f b \<longleftrightarrow> a = b"
  by (cases a; cases b) (auto simp: inj_eq, metis)

lemma touch_task_dates [simp]:
  "t_start_date (touch_task now old new) = t_start_date new" "t_due_date (touch_task now old new) = t_due_date new"
  "t_start_time (touch_task now old new) = t_start_time new" "t_end_time (touch_task now old new) = t_end_time new"
  by (auto simp: touch_task_def)

lemma patch_dates:
  "t_start_date (patch_task u t) = merged (TF_start_date \<in> set (tu_fields u)) (tu_start_date u) (t_start_date t)"
  "t_due_date (patch_task u t) = merged (TF_due_date \<in> set (tu_fields u)) (tu_due_date u) (t_due_date t)"
  "t_start_time (patch_task u t) = merged (TF_start_time \<in> set (tu_fields u)) (tu_start_time u) (t_start_time t)"
  "t_end_time (patch_task u t) = merged (TF_end_time \<in> set (tu_fields u)) (tu_end_time u) (t_end_time t)"
proof -
  have i: "inj JDate" "inj JTime" by (auto simp: inj_def)
  have d: "jopt JDate a = jopt JDate b \<longleftrightarrow> a = b" "jopt JTime a = jopt JTime b \<longleftrightarrow> a = b" for a b
    by (simp_all add: jopt_inj i)
  show "t_start_date (patch_task u t) = merged (TF_start_date \<in> set (tu_fields u)) (tu_start_date u) (t_start_date t)"
    using task_value_patch [of u t TF_start_date] by (simp add: merged_def d split: if_splits)
  show "t_due_date (patch_task u t) = merged (TF_due_date \<in> set (tu_fields u)) (tu_due_date u) (t_due_date t)"
    using task_value_patch [of u t TF_due_date] by (simp add: merged_def d split: if_splits)
  show "t_start_time (patch_task u t) = merged (TF_start_time \<in> set (tu_fields u)) (tu_start_time u) (t_start_time t)"
    using task_value_patch [of u t TF_start_time] by (simp add: merged_def d split: if_splits)
  show "t_end_time (patch_task u t) = merged (TF_end_time \<in> set (tu_fields u)) (tu_end_time u) (t_end_time t)"
    using task_value_patch [of u t TF_end_time] by (simp add: merged_def d split: if_splits)
qed

lemma tasks_ids_distinct: "db_constraints d \<Longrightarrow> distinct (map t_id (d_tasks d))"
  by (simp add: db_constraints_def)

lemma ranges_update:
  assumes "apply_update_task e cid tid u d = Inr ((t', ch), d')" "\<forall>t \<in> set (d_tasks d). task_ranges_ok t"
  shows "\<forall>t \<in> set (d_tasks d'). task_ranges_ok t"
  using assms(1)
proof (rule apply_update_task_Inr)
  fix t
  assume *: "\<not> inverted (merged (TF_start_date \<in> set (tu_fields u)) (tu_start_date u) (t_start_date t))
       (merged (TF_due_date \<in> set (tu_fields u)) (tu_due_date u) (t_due_date t))"
    "\<not> inverted (merged (TF_start_time \<in> set (tu_fields u)) (tu_start_time u) (t_start_time t))
       (merged (TF_end_time \<in> set (tu_fields u)) (tu_end_time u) (t_end_time t))"
    "t' = touch_task (e_now e) t (patch_task u t)"
    "d' = d\<lparr>d_tasks := update_by t_id tid (\<lambda>_. t') (d_tasks d)\<rparr>"
  then have "task_ranges_ok t'" by (simp add: task_ranges_ok_def ranges_ok_inverted patch_dates)
  with *(4) assms(2) show ?thesis by (auto elim!: in_set_update_byE)
qed

lemma plan_exec_inv:
  assumes inv: "plan_inv d" and ok: "plan_exec e p d = Inr d'" and valid: "plan_op_valid p"
  shows "plan_inv d'"
proof -
  have old: "\<forall>t \<in> set (d_tasks d). task_ranges_ok t" using inv by (simp add: plan_inv_def)
  show ?thesis
  proof (cases p)
    case (PO_create cid data author)
    then obtain r where "apply_create_task e cid data author d = Inr (r, d')"
      using ok by (auto simp: drop_result_Inr create_task_def committed_Inr)
    note c = apply_create_task_Inr [OF this]
    have "task_ranges_ok (new_task e (d_next_id d) cid data author)"
      using valid PO_create by (simp add: task_ranges_ok_def new_task_def create_valid_def)
    with c(2,3) old show ?thesis by (auto simp: plan_inv_def task_add_def)
  next
    case (PO_update cid tid u)
    then obtain t' ch where "apply_update_task e cid tid u d = Inr ((t', ch), d')" "db_constraints d'"
      using ok by (auto simp: drop_result_Inr update_task_def committed_Inr)
    with ranges_update [OF _ old] show ?thesis by (auto simp: plan_inv_def)
  next
    case (PO_delete cid tid)
    then obtain r where "apply_delete_task cid tid d = Inr (r, d')"
      using ok by (auto simp: drop_result_Inr delete_task_def committed_Inr)
    then obtain "d' = task_remove tid d" "db_constraints d'" by (rule apply_delete_task_Inr)
    with old show ?thesis by (auto simp: plan_inv_def task_remove_def set_delete_by)
  next
    case (PO_duplicate cid tid author)
    then obtain r where "apply_duplicate_task e cid tid author d = Inr (r, d')"
      using ok by (auto simp: drop_result_Inr duplicate_task_def committed_Inr)
    then obtain t where t: "get_for_client cid tid d = Some t"
      "d' = task_add (copy_task e (d_next_id d) cid author t) (d\<lparr>d_next_id := Suc (d_next_id d)\<rparr>)" "db_constraints d'"
      by (rule apply_duplicate_task_Inr)
    have "task_ranges_ok (copy_task e (d_next_id d) cid author t)"
      using old get_for_client_Some [OF t(1)] by (simp add: task_ranges_ok_def copy_task_def)
    with t(2,3) old show ?thesis by (auto simp: plan_inv_def task_add_def)
  next
    case (PO_add_asset cid tid url label)
    then obtain a where "add_asset e cid tid url label d = Inr (a, d')"
      using ok by (auto simp: drop_result_Inr)
    from add_asset_Inr [OF this] old show ?thesis by (auto simp: plan_inv_def)
  next
    case (PO_remove_asset cid tid aid)
    then have "remove_asset cid tid aid d = Inr ((), d')"
      using ok by (auto simp: drop_result_Inr)
    from remove_asset_Inr [OF this] old show ?thesis by (auto simp: plan_inv_def)
  next
    case (PO_add_note cid tid body uid)
    then obtain n t where "apply_add_note e cid tid body uid d = Inr ((n, t), d')"
      using ok by (auto simp: drop_result_Inr)
    from apply_add_note_Inr [OF this] old show ?thesis by (auto simp: plan_inv_def)
  qed
qed

text \<open>Isolation of one operation.\<close>

lemma owned_client:
  assumes "db_constraints d" "owned c d tid" "get_for_client cid tid d = Some t"
  shows "c = cid"
proof -
  obtain t0 where "t0 \<in> set (d_tasks d)" "t_id t0 = tid" "t_client_id t0 = c"
    using assms(2) by (auto simp: owned_def)
  moreover have "t \<in> set (d_tasks d)" "t_id t = tid" "t_client_id t = cid"
    using get_for_client_Some [OF assms(3)] by auto
  ultimately show ?thesis
    using tasks_ids_distinct [OF assms(1)] by (auto simp: distinct_map inj_on_def)
qed

lemma board_add_task:
  assumes "t_client_id t \<noteq> c"
  shows "board_of c (task_add t (d\<lparr>d_next_id := n\<rparr>)) = board_of c d"
proof -
  have "owned c (task_add t (d\<lparr>d_next_id := n\<rparr>)) = owned c d"
    using assms by (auto simp: owned_def task_add_def fun_eq_iff)
  with assms show ?thesis by (simp add: board_of_def task_add_def)
qed

lemma board_update_task:
  assumes "db_constraints d" "get_for_client cid tid d = Some t" "t_id t' = tid" "t_client_id t' = cid" "c \<noteq> cid"
  shows "board_of c (d\<lparr>d_tasks := update_by t_id tid (\<lambda>_. t') (d_tasks d)\<rparr>) = board_of c d"
proof -
  have k: "t_client_id x = cid" if "x \<in> set (d_tasks d)" "t_id x = tid" for x
    using that tasks_ids_distinct [OF assms(1)] get_for_client_Some [OF assms(2)]
    by (auto simp: distinct_map inj_on_def)
  have "map (\<lambda>t. (t_id t, t_client_id t)) (update_by t_id tid (\<lambda>_. t') (d_tasks d)) =
      map (\<lambda>t. (t_id t, t_client_id t)) (d_tasks d)"
    using k assms(3,4) by (auto simp: update_by_def)
  then have "owned c (d\<lparr>d_tasks := update_by t_id tid (\<lambda>_. t') (d_tasks d)\<rparr>) = owned c d"
    unfolding owned_def by (metis (no_types, lifting) db.select_convs(5) db.surjective db.update_convs(5) set_map)
  moreover have "filter (\<lambda>t. t_client_id t = c) (update_by t_id tid (\<lambda>_. t') xs) = filter (\<lambda>t. t_client_id t = c) xs"
    if "\<And>x. x \<in> set xs \<Longrightarrow> t_id x = tid \<Longrightarrow> t_client_id x = cid" for xs
    using that assms(4,5) by (induction xs) auto
  ultimately show ?thesis using k by (simp add: board_of_def)
qed

lemma board_remove_task:
  assumes "db_constraints d" "get_for_client cid tid d = Some t" "c \<noteq> cid"
  shows "board_of c (task_remove tid d) = board_of c d"
proof -
  have o: "owned c d i \<Longrightarrow> i \<noteq> tid" for i using owned_client [OF assms(1) _ assms(2)] assms(3) by auto
  have "owned c (task_remove tid d) = owned c d"
    using o by (auto simp: owned_def task_remove_def set_delete_by fun_eq_iff image_iff)
  moreover have "filter (\<lambda>t. t_client_id t = c) (delete_by t_id tid xs) = filter (\<lambda>t. t_client_id t = c) xs"
    if "set xs \<subseteq> set (d_tasks d)" for xs
    using that o by (induction xs) (auto simp: owned_def)
  ultimately show ?thesis
    using o by (auto simp: board_of_def task_remove_def filter_filter intro: filter_cong)
qed

lemma owned_simps [simp]: "owned c (d\<lparr>d_next_id := n\<rparr>) = owned c d"
  "owned c (d\<lparr>d_notes := ns\<rparr>) = owned c d" "owned c (d\<lparr>d_assets := as\<rparr>) = owned c d"
  by (simp_all add: owned_def fun_eq_iff)

lemma plan_exec_isolated:
  assumes db: "db_constraints d" and ok: "plan_exec e p d = Inr d'" and other: "plan_op_client p \<noteq> c"
  shows "board_of c d' = board_of c d"
proof (cases p)
  case (PO_create cid data author)
  then obtain r where "apply_create_task e cid data author d = Inr (r, d')"
    using ok by (auto simp: drop_result_Inr create_task_def committed_Inr)
  from apply_create_task_Inr(2) [OF this] other PO_create show ?thesis
    by (simp add: board_add_task new_task_def)
next
  case (PO_update cid tid u)
  then obtain t' ch where "apply_update_task e cid tid u d = Inr ((t', ch), d')"
    using ok by (auto simp: drop_result_Inr update_task_def committed_Inr)
  then obtain t where t: "get_for_client cid tid d = Some t" "t' = touch_task (e_now e) t (patch_task u t)"
      "d' = d\<lparr>d_tasks := update_by t_id tid (\<lambda>_. t') (d_tasks d)\<rparr>"
    by (rule apply_update_task_Inr)
  with get_for_client_Some [OF t(1)] other PO_update db show ?thesis
    by (simp add: board_update_task)
next
  case (PO_delete cid tid)
  then obtain r where "apply_delete_task cid tid d = Inr (r, d')"
    using ok by (auto simp: drop_result_Inr delete_task_def committed_Inr)
  then obtain t where "get_for_client cid tid d = Some t" "d' = task_remove tid d"
    by (rule apply_delete_task_Inr)
  with other PO_delete db show ?thesis by (simp add: board_remove_task)
next
  case (PO_duplicate cid tid author)
  then obtain r where "apply_duplicate_task e cid tid author d = Inr (r, d')"
    using ok by (auto simp: drop_result_Inr duplicate_task_def committed_Inr)
  then obtain t where
    "d' = task_add (copy_task e (d_next_id d) cid author t) (d\<lparr>d_next_id := Suc (d_next_id d)\<rparr>)"
    by (rule apply_duplicate_task_Inr)
  with other PO_duplicate show ?thesis by (simp add: board_add_task copy_task_def)
next
  case (PO_add_asset cid tid url label)
  then obtain a where "add_asset e cid tid url label d = Inr (a, d')"
    using ok by (auto simp: drop_result_Inr)
  from add_asset_Inr [OF this] owned_client [OF db, of c tid cid] other PO_add_asset show ?thesis
    by (auto simp: board_of_def)
next
  case (PO_remove_asset cid tid aid)
  then have "remove_asset cid tid aid d = Inr ((), d')"
    using ok by (auto simp: drop_result_Inr)
  from remove_asset_Inr [OF this] obtain t a where r: "get_for_client cid tid d = Some t"
    "get_asset tid aid d = Some a" "d' = d\<lparr>d_assets := delete_by pa_id aid (d_assets d)\<rparr>" by auto
  have a: "a \<in> set (d_assets d)" "pa_id a = aid" "pa_task_id a = tid"
    using r(2) by (auto simp: get_asset_def find_Some_iff)
  have "distinct (map pa_id (d_assets d))" using db by (simp add: db_constraints_def)
  then have "x = a" if "x \<in> set (d_assets d)" "pa_id x = aid" for x
    using that a by (auto simp: distinct_map inj_on_def)
  then have "\<not> owned c d (pa_task_id x)" if "x \<in> set (d_assets d)" "pa_id x = aid" for x
    using that a(3) owned_client [OF db _ r(1)] other PO_remove_asset by auto
  then have "filter (\<lambda>a. owned c d (pa_task_id a)) (delete_by pa_id aid (d_assets d)) =
      filter (\<lambda>a. owned c d (pa_task_id a)) (d_assets d)"
    by (auto simp: delete_by_def filter_filter intro: filter_cong)
  with r(3) show ?thesis by (simp add: board_of_def)
next
  case (PO_add_note cid tid body uid)
  then obtain n t where "apply_add_note e cid tid body uid d = Inr ((n, t), d')"
    using ok by (auto simp: drop_result_Inr)
  from apply_add_note_Inr [OF this] owned_client [OF db, of c tid cid] other PO_add_note show ?thesis
    by (auto simp: board_of_def)
qed

lemma plan_run_inv: "plan_inv d \<Longrightarrow> \<forall>p \<in> set ps. plan_op_valid p \<Longrightarrow> plan_inv (plan_run e ps d)"
  by (induction ps arbitrary: d) (auto split: sum.split dest: plan_exec_inv)

section \<open>Properties\<close>

text \<open>
  C12. The board is safe under any sequence of requests: starting from a database whose tasks have
  no inverted date or time range, whatever tasks are created (with a schema-valid body), patched,
  deleted, duplicated, annotated or linked, and whichever requests fail, the constraints hold, no
  task ever has a start after its end, and the tasks, links and notes of a client no request names
  are exactly what they were.
\<close>

theorem board_run_safe:
  assumes "plan_inv d" and "\<forall>p \<in> set ps. plan_op_valid p"
  shows "db_constraints (plan_run e ps d) \<and>
    (\<forall>t \<in> set (d_tasks (plan_run e ps d)).
       \<not> inverted (t_start_date t) (t_due_date t) \<and> \<not> inverted (t_start_time t) (t_end_time t)) \<and>
    (\<forall>c. c \<notin> plan_op_client ` set ps \<longrightarrow> board_of c (plan_run e ps d) = board_of c d)"
proof -
  have "board_of c (plan_run e ps d) = board_of c d" if "c \<notin> plan_op_client ` set ps" for c
    using assms that
  proof (induction ps arbitrary: d)
    case (Cons p ps)
    show ?case
    proof (cases "plan_exec e p d")
      case (Inl err)
      with Cons show ?thesis by simp
    next
      case (Inr d1)
      have "plan_inv d1" using plan_exec_inv [OF Cons.prems(1) Inr] Cons.prems(2) by simp
      moreover have "board_of c d1 = board_of c d"
        using plan_exec_isolated [OF _ Inr] Cons.prems(1,3) by (auto simp: plan_inv_def)
      ultimately show ?thesis using Cons Inr by simp
    qed
  qed simp
  moreover have "plan_inv (plan_run e ps d)" using assms by (rule plan_run_inv)
  ultimately show ?thesis by (auto simp: plan_inv_def task_ranges_ok_def ranges_ok_inverted)
qed

text \<open>
  A patch moves exactly what it names: after a successful update every field present in the
  body has the value the body gives it and every other field its old value, the attached diff lists
  exactly the sent fields whose value moved (with both values), and no other task changes.
\<close>

theorem update_task_exact:
  assumes ok: "update_task e cid tid u d = Inr ((t', ch), d')" and t: "get_for_client cid tid d = Some t"
    and ids: "distinct (map t_id (d_tasks d))"
  shows "get_for_client cid tid d' = Some t' \<and>
    (\<forall>f. task_value t' f = (if f \<in> set (tu_fields u) then task_value (set_task_field u f t) f else task_value t f)) \<and>
    (\<forall>k b a. (\<exists>c. ch = Some c \<and> (k, b, a) \<in> set c) \<longleftrightarrow>
      (\<exists>f \<in> set (tu_fields u). k = task_field_name f \<and> b = task_value t f \<and> a = task_value t' f \<and> a \<noteq> b)) \<and>
    (\<forall>i. i \<noteq> tid \<longrightarrow> task_get i d' = task_get i d)"
proof -
  have "apply_update_task e cid tid u d = Inr ((t', ch), d')"
    using ok by (simp add: update_task_def committed_Inr)
  then obtain t0 where r: "get_for_client cid tid d = Some t0"
    "t' = touch_task (e_now e) t0 (patch_task u t0)"
    "ch = field_changes (task_dict (touched_fields u) t0) (task_dict (touched_fields u) t')"
    "d' = d\<lparr>d_tasks := update_by t_id tid (\<lambda>_. t') (d_tasks d)\<rparr>"
    by (rule apply_update_task_Inr)
  have t0: "t0 = t" using r(1) t by simp
  note tin = get_for_client_Some [OF t]
  have t': "t_id t' = tid" "t_client_id t' = cid" using tin by (simp_all add: r(2) t0)
  have "t' \<in> set (d_tasks d')" using tin by (auto simp: r(4) set_update_by)
  moreover have "map t_id (d_tasks d') = map t_id (d_tasks d)"
    using t'(1) by (auto simp: r(4) update_by_def)
  ultimately have "get_for_client cid tid d' = Some t'"
    using get_for_client_unique [of d' t'] ids t' by (simp add: distinct_map)
  moreover have "task_get i d' = task_get i d" if "i \<noteq> tid" for i
  proof -
    have "find_by t_id i (update_by t_id tid (\<lambda>_. t') xs) = find_by t_id i xs" for xs
      using t'(1) that by (induction xs) auto
    then show ?thesis by (simp add: task_get_def r(4))
  qed
  moreover have "task_value t' f = (if f \<in> set (tu_fields u) then task_value (set_task_field u f t) f else task_value t f)" for f
    by (simp add: r(2) t0 task_value_patch)
  moreover have "(\<exists>c. ch = Some c \<and> (k, b, a) \<in> set c) \<longleftrightarrow>
      (\<exists>f \<in> set (tu_fields u). k = task_field_name f \<and> b = task_value t f \<and> a = task_value t' f \<and> a \<noteq> b)" for k b a
    using task_diff_exact [of "touched_fields u" t t' k b a] by (simp add: r(3) t0)
  ultimately show ?thesis by blast
qed

text \<open>
  The calendar window shows what overlaps it: with both edges given (and not inverted) and no
  other filter, a live task of the client is listed exactly when it covers some day of the window,
  where a task with only one date is a single-day task and a task without dates is listed only
  when undated tasks are asked for.
\<close>

theorem calendar_window_exact:
  assumes q: "tq_start q = Some a" "tq_end q = Some b" "a \<le> b"
    "tq_status q = None" "tq_category q = None" "tq_priority q = None" "tq_assignee q = None"
    and t: "t \<in> set (d_tasks d)" "t_client_id t = cid" "t_archived t = Some False" "task_ranges_ok t"
  shows "t \<in> set (fst (list_tasks_for_client cid q 0 None d)) \<longleftrightarrow>
    (case (span_start t, span_end t) of
       (Some s, Some e) \<Rightarrow> \<exists>day. a \<le> day \<and> day \<le> b \<and> s \<le> day \<and> day \<le> e
     | _ \<Rightarrow> tq_include_undated q)"
proof -
  have "t \<in> set (fst (list_tasks_for_client cid q 0 None d)) \<longleftrightarrow> task_matches cid q t"
    using t(1) by (simp add: list_tasks_for_client_def Let_def)
  also have "\<dots> \<longleftrightarrow> in_window (Some a) (Some b) t \<or>
      (tq_include_undated q \<and> t_start_date t = None \<and> t_due_date t = None)"
    using q t by (simp add: task_matches_def windowed_def eq_filter_def)
  also have "\<dots> \<longleftrightarrow> (case (span_start t, span_end t) of
       (Some s, Some e) \<Rightarrow> \<exists>day. a \<le> day \<and> day \<le> b \<and> s \<le> day \<and> day \<le> e
     | _ \<Rightarrow> tq_include_undated q)"
  proof (cases "t_start_date t"; cases "t_due_date t")
    fix s e
    assume d: "t_start_date t = Some s" "t_due_date t = Some e"
    with t(4) have "s \<le> e" by (simp add: task_ranges_ok_def ranges_ok_def)
    then have "(s \<le> b \<and> a \<le> e) \<longleftrightarrow> (\<exists>day. a \<le> day \<and> day \<le> b \<and> s \<le> day \<and> day \<le> e)"
      using q(3) by (auto intro: exI [of _ "max a s"])
    with d show ?thesis
      by (simp add: in_window_def sql_le_def span_start_def span_end_def coalesce_date_def)
  qed (auto simp: in_window_def sql_le_def span_start_def span_end_def coalesce_date_def)
  finally show ?thesis .
qed

section \<open>Witnesses\<close>

definition board_db :: db where
  "board_db = empty_db\<lparr>d_users := [sample_user 1 Role_admin],
     d_clients := [sample_client 7, (sample_client 8)],
     d_tasks := [sample_task 20 7, sample_task 21 8]\<rparr>"

definition sample_create :: plan_task_create where
  "sample_create = \<lparr>tc_title = ''New'', tc_description = None, tc_requirements = None,
     tc_category = Cat_ads, tc_status = Task_todo, tc_priority = Priority_low, tc_assignee_id = None,
     tc_start_date = Some 3, tc_due_date = Some 5, tc_start_time = None, tc_end_time = None\<rparr>"

definition status_patch :: plan_task_update where
  "status_patch = \<lparr>tu_fields = [TF_status, TF_due_date], tu_title = None, tu_description = None,
     tu_requirements = None, tu_category = None, tu_status = Some Task_done, tu_priority = None,
     tu_assignee_id = None, tu_start_date = None, tu_due_date = Some 15, tu_start_time = None,
     tu_end_time = None, tu_archived = None\<rparr>"

lemma board_db_inv: "plan_inv board_db"
proof -
  have "db_constraints board_db" by code_simp
  moreover have "\<forall>t \<in> set (d_tasks board_db). task_ranges_ok t" by code_simp
  ultimately show ?thesis by (simp add: plan_inv_def)
qed

theorem board_run_safe_witness:
  "board_of 8 (plan_run sample_env [PO_create 7 sample_create 1, PO_update 7 20 status_patch, PO_delete 7 99]
     board_db) = board_of 8 board_db"
proof -
  have "\<forall>p \<in> set [PO_create 7 sample_create 1, PO_update 7 20 status_patch, PO_delete 7 99]. plan_op_valid p"
    by (simp add: create_valid_def sample_create_def ranges_ok_def)
  from board_run_safe [OF board_db_inv this, of sample_env] show ?thesis by simp
qed

theorem update_task_exact_witness:
  "\<exists>t' ch d'. update_task sample_env 7 20 status_patch board_db = Inr ((t', ch), d') \<and>
     task_value t' TF_status = JStr ''done'' \<and> task_value t' TF_title = JStr ''Post''"
proof -
  have "isl (update_task sample_env 7 20 status_patch board_db) = False" by code_simp
  then obtain t' ch d' where ok: "update_task sample_env 7 20 status_patch board_db = Inr ((t', ch), d')"
    by (cases "update_task sample_env 7 20 status_patch board_db") auto
  have t: "get_for_client 7 20 board_db = Some (sample_task 20 7)" by code_simp
  have "distinct (map t_id (d_tasks board_db))" by code_simp
  note r = update_task_exact [OF ok t this, THEN conjunct2, THEN conjunct1, rule_format]
  have "task_value (set_task_field status_patch TF_status (sample_task 20 7)) TF_status = JStr ''done''"
    "task_value (sample_task 20 7) TF_title = JStr ''Post''"
    "TF_status \<in> set (tu_fields status_patch)" "TF_title \<notin> set (tu_fields status_patch)"
    by (simp_all add: status_patch_def sample_task_def jstatus_def)
  with r [of TF_status] r [of TF_title] ok show ?thesis by metis
qed

definition week_query :: task_query where
  "week_query = \<lparr>tq_status = None, tq_category = None, tq_priority = None, tq_assignee = None,
     tq_start = Some 11, tq_end = Some 17, tq_include_undated = False, tq_include_archived = False\<rparr>"

theorem calendar_window_exact_witness:
  "sample_task 20 7 \<in> set (fst (list_tasks_for_client 7 week_query 0 None board_db))"
proof -
  have m: "sample_task 20 7 \<in> set (d_tasks board_db)" by (simp add: board_db_def)
  have "t_client_id (sample_task 20 7) = 7" "t_archived (sample_task 20 7) = Some False"
    "task_ranges_ok (sample_task 20 7)" "span_start (sample_task 20 7) = Some 10"
    "span_end (sample_task 20 7) = Some 12"
    by (simp_all add: sample_task_def task_ranges_ok_def ranges_ok_def span_start_def span_end_def coalesce_date_def)
  with calendar_window_exact [OF _ _ _ _ _ _ _ m, of week_query 11 17 7] show ?thesis
    by (auto simp: week_query_def intro: exI [of _ 11])
qed

text \<open>
  The position of a new link is the number of links, so after a removal two links share one.
\<close>

definition asset_run :: "db \<Rightarrow> db" where
  "asset_run = plan_run sample_env [PO_add_asset 7 20 ''a'' None, PO_add_asset 7 20 ''b'' None,
     PO_remove_asset 7 20 100, PO_add_asset 7 20 ''c'' None]"

theorem asset_positions_collide:
  "map (\<lambda>a. (pa_url a, pa_position a)) (task_assets 20 (asset_run board_db)) = [(''b'', 1), (''c'', 1)]"
  by code_simp

end
