(* ===== verification/Client_Updates.thy ===== *)
theory Client_Updates
  imports Access Audit_Trail Job_Queue
begin

text \<open>
  Edits of a client's profile (\<^verbatim>\<open>ClientService._apply_update_client\<close>), of its brand
  (\<^verbatim>\<open>OnboardingService._apply_update_brand\<close>) and of a user
  (\<^verbatim>\<open>UserService._apply_update_user\<close>), with the diff each attaches and the rebuild
  job the first two enqueue in the same transaction.
\<close>

section \<open>The client profile\<close>

definition UPDATE_FIELDS :: "client_field list" where
  "UPDATE_FIELDS = [CF_name, CF_business_type, CF_industry, CF_website, CF_location, CF_language,
     CF_timezone, CF_markets, CF_status]"

fun client_field_name :: "client_field \<Rightarrow> string" where
  "client_field_name CF_name = ''name''"
| "client_field_name CF_business_type = ''business_type''"
| "client_field_name CF_industry = ''industry''"
| "client_field_name CF_website = ''website''"
| "client_field_name CF_location = ''location''"
| "client_field_name CF_language = ''language''"
| "client_field_name CF_timezone = ''timezone''"
| "client_field_name CF_markets = ''markets''"
| "client_field_name CF_status = ''status''"

fun set_client_field :: "client_update \<Rightarrow> client_field \<Rightarrow> client \<Rightarrow> client" where
  "set_client_field u CF_name c = c\<lparr>c_name := cu_name u\<rparr>"
| "set_client_field u CF_business_type c = c\<lparr>c_business_type := cu_business_type u\<rparr>"
| "set_client_field u CF_industry c = c\<lparr>c_industry := cu_industry u\<rparr>"
| "set_client_field u CF_website c = c\<lparr>c_website := cu_website u\<rparr>"
| "set_client_field u CF_location c = c\<lparr>c_location := cu_location u\<rparr>"
| "set_client_field u CF_language c = c\<lparr>c_language := cu_language u\<rparr>"
| "set_client_field u CF_timezone c = c\<lparr>c_timezone := cu_timezone u\<rparr>"
| "set_client_field u CF_markets c = c\<lparr>c_markets := cu_markets u\<rparr>"
| "set_client_field u CF_status c = c\<lparr>c_status := cu_status u\<rparr>"

fun client_value :: "client \<Rightarrow> client_field \<Rightarrow> jval" where
  "client_value c CF_name = jopt JStr (c_name c)"
| "client_value c CF_business_type = jopt JStr (c_business_type c)"
| "client_value c CF_industry = jopt JStr (c_industry c)"
| "client_value c CF_website = jopt JStr (c_website c)"
| "client_value c CF_location = jopt JStr (c_location c)"
| "client_value c CF_language = jopt JStr (c_language c)"
| "client_value c CF_timezone = jopt JStr (c_timezone c)"
| "client_value c CF_markets = jopt JStr (c_markets c)"
| "client_value c CF_status = jopt (JStr \<circ> client_status_value) (c_status c)"

definition client_dict :: "client \<Rightarrow> jdict" where
  "client_dict c = map (\<lambda>f. (client_field_name f, client_value c f)) UPDATE_FIELDS"

definition patch_client :: "client_update \<Rightarrow> client \<Rightarrow> client" where
  "patch_client u c = foldl (\<lambda>c f. if f \<in> set (cu_fields u) then set_client_field u f c else c) c UPDATE_FIELDS"

definition store_client :: "client \<Rightarrow> db \<Rightarrow> db" where
  "store_client c d = d\<lparr>d_clients := update_by c_id (c_id c) (\<lambda>_. c) (d_clients d)\<rparr>"

text \<open>The keys of a diff, sorted; the enqueue runs only when something changed.\<close>

definition apply_update_client :: "env \<Rightarrow> uuid \<Rightarrow> client_update \<Rightarrow> (client \<times> changes option) op" where
  "apply_update_client e cid u d =
     (case client_get cid d of
        None \<Rightarrow> Inl (not_found ''Client not found.'')
      | Some c \<Rightarrow>
          let c' = touch_client (e_now e) c (patch_client u c);
              changes = field_changes (client_dict c) (client_dict c');
              d1 = store_client c' d in
          (case changes of
             None \<Rightarrow> Inr ((c', changes), d1)
           | Some ch \<Rightarrow> bindR (enqueue e cid Job_incremental (Some (sort (map fst ch))) 5 d1)
               (\<lambda>(_, d2). Inr ((c', changes), d2))))"

definition update_client :: "env \<Rightarrow> uuid \<Rightarrow> client_update \<Rightarrow> (client \<times> changes option) op" where
  "update_client e cid u d =
     bindR (apply_update_client e cid u d) (\<lambda>(r, d1). bindR (flush d1) (\<lambda>(_, d2). Inr (r, d2)))"

section \<open>The brand\<close>

definition BRAND_SCALARS :: "brand_field list" where
  "BRAND_SCALARS = [BF_about_brand, BF_brand_voice, BF_brand_extracted, BF_color_guidelines, BF_logo_url]"

fun set_brand_scalar :: "brand_update \<Rightarrow> brand_field \<Rightarrow> client \<Rightarrow> client" where
  "set_brand_scalar u BF_about_brand c = c\<lparr>c_about_brand := bu_about_brand u\<rparr>"
| "set_brand_scalar u BF_brand_voice c = c\<lparr>c_brand_voice := bu_brand_voice u\<rparr>"
| "set_brand_scalar u BF_brand_extracted c = c\<lparr>c_brand_extracted := bu_brand_extracted u\<rparr>"
| "set_brand_scalar u BF_color_guidelines c = c\<lparr>c_color_guidelines := bu_color_guidelines u\<rparr>"
| "set_brand_scalar u BF_logo_url c = c\<lparr>c_logo_url := bu_logo_url u\<rparr>"
| "set_brand_scalar u BF_colors c = c"
| "set_brand_scalar u BF_fonts c = c"

definition enumerate_colors :: "(string \<times> string option) list \<Rightarrow> (string \<times> string option \<times> int) list" where
  "enumerate_colors cs = map (\<lambda>(i, hex, label). (hex, label, int i)) (List.enumerate 0 cs)"

definition apply_brand :: "brand_update \<Rightarrow> client \<Rightarrow> client" where
  "apply_brand u c =
     (let c1 = foldl (\<lambda>c f. if f \<in> set (bu_fields u) then set_brand_scalar u f c else c) c BRAND_SCALARS;
          c2 = (if BF_colors \<in> set (bu_fields u)
                then (case bu_colors u of None \<Rightarrow> c1 | Some cs \<Rightarrow> c1\<lparr>c_colors := enumerate_colors cs\<rparr>) else c1) in
      if BF_fonts \<in> set (bu_fields u)
      then (case bu_fonts u of None \<Rightarrow> c2 | Some fs \<Rightarrow> c2\<lparr>c_fonts := filter (\<lambda>f. strip f \<noteq> []) fs\<rparr>) else c2)"

definition brand_snapshot :: "client \<Rightarrow> jdict" where
  "brand_snapshot c =
     [(''about_brand'', jopt JStr (c_about_brand c)), (''brand_voice'', jopt JStr (c_brand_voice c)),
      (''color_guidelines'', jopt JStr (c_color_guidelines c)), (''logo_url'', jopt JStr (c_logo_url c)),
      (''colors'', JList (map (\<lambda>(hex, label, pos). JStr hex) (c_colors c))),
      (''fonts'', JList (map JStr (c_fonts c)))]"

text \<open>\<open>c\<close> is the loaded client.\<close>

definition apply_update_brand :: "env \<Rightarrow> client \<Rightarrow> brand_update \<Rightarrow> changes option op" where
  "apply_update_brand e c u d =
     (let c' = touch_client (e_now e) c (apply_brand u c);
          changes = field_changes (brand_snapshot c) (brand_snapshot c') in
      bindR (enqueue e (c_id c) Job_incremental (Some [''brand'']) 5 (store_client c' d))
        (\<lambda>(_, d2). Inr (changes, d2)))"

section \<open>Users\<close>

definition user_dict :: "user \<Rightarrow> jdict" where
  "user_dict u = [(''name'', JStr (u_name u)), (''role'', JStr (role_value (u_role u))),
     (''is_active'', JBool (u_is_active u))]"

definition patch_user :: "user_update \<Rightarrow> user \<Rightarrow> user" where
  "patch_user p u =
     (let u1 = (case uu_name p of None \<Rightarrow> u | Some n \<Rightarrow> u\<lparr>u_name := n\<rparr>);
          u2 = (case uu_role p of None \<Rightarrow> u1 | Some r \<Rightarrow> u1\<lparr>u_role := r\<rparr>) in
      (case uu_is_active p of None \<Rightarrow> u2 | Some a \<Rightarrow> u2\<lparr>u_is_active := a\<rparr>))"

definition apply_update_user :: "env \<Rightarrow> uuid \<Rightarrow> user_update \<Rightarrow> (user \<times> changes option) op" where
  "apply_update_user e uid p d =
     (case user_get uid d of
        None \<Rightarrow> Inl (not_found ''User not found.'')
      | Some u \<Rightarrow>
          let u' = touch_user (e_now e) u (patch_user p u) in
          Inr ((u', field_changes (user_dict u) (user_dict u')),
               d\<lparr>d_users := update_by u_id uid (\<lambda>_. u') (d_users d)\<rparr>))"

definition update_user :: "env \<Rightarrow> uuid \<Rightarrow> user_update \<Rightarrow> user op" where
  "update_user e uid p d =
     bindR (apply_update_user e uid p d) (\<lambda>((u, _), d1). bindR (flush d1) (\<lambda>(_, d2). Inr (u, d2)))"

section \<open>Lemmas\<close>

lemma enqueue_frame:
  assumes "enqueue e cid jt keys n d = Inr (r, d')"
  shows "d_proposals d' = d_proposals d" "d_audit d' = d_audit d" "d_users d' = d_users d"
    "d_clients d' = d_clients d" "d_tasks d' = d_tasks d" "d_assignments d' = d_assignments d"
    "d_next_id d \<le> d_next_id d'"
  using assms by (cases rule: enqueue_cases; simp)+

lemma enqueue_leaves_queued:
  assumes on: "e_intel_enabled e" and enq: "enqueue e cid jt (Some ks) n d = Inr (r, d')"
  shows "\<exists>j \<in> set (d_jobs d'). j_client_id j = cid \<and> j_status j = Job_queued \<and>
    set ks \<subseteq> set (keys_or_empty (j_changed_keys j))"
  using enq
proof (cases rule: enqueue_cases)
  case off
  with on enq show ?thesis by (auto simp: enqueue_def fresh_id_def Let_def split: option.splits)
next
  case (coalesced j)
  let ?j = "coalesce jt (Some ks) (debounce (e_now e) n) j"
  have "?j \<in> set (d_jobs d')"
    using pending_for_client_Some [OF coalesced(1)] by (auto simp: coalesced(3) set_update_by)
  moreover have "set ks \<subseteq> set (keys_or_empty (j_changed_keys ?j))"
    by (auto simp: coalesce_def Let_def keys_or_empty_def sorted_set_def)
  ultimately show ?thesis
    using pending_for_client_Some [OF coalesced(1)] by (intro bexI [of _ ?j]) simp_all
next
  case created
  then show ?thesis by (auto simp: new_job_def keys_or_empty_def sorted_set_def)
qed

lemma client_value_set: "client_value (set_client_field u g c) f =
    (if f = g then client_value (set_client_field u f s) f else client_value c f)"
  by (cases f; cases g; simp)

lemma set_client_field_id [simp]: "c_id (set_client_field u f c) = c_id c"
  by (cases f) simp_all

lemma client_foldl_id [simp]:
  "c_id (foldl (\<lambda>c f. if f \<in> S then set_client_field u f c else c) c fs) = c_id c"
  by (induction fs arbitrary: c) simp_all

lemma patch_client_id [simp]: "c_id (patch_client u c) = c_id c"
  by (simp add: patch_client_def)

lemma touch_client_simps [simp]: "c_id new = c_id old \<Longrightarrow> c_id (touch_client now old new) = c_id old"
  "client_value (touch_client now old new) f = client_value new f"
  "brand_snapshot (touch_client now old new) = brand_snapshot new"
  by (auto simp: touch_client_def brand_snapshot_def) (cases f; simp)

lemma client_value_foldl:
  "client_value (foldl (\<lambda>c f. if f \<in> S then set_client_field u f c else c) c fs) f =
    (if f \<in> set fs \<and> f \<in> S then client_value (set_client_field u f c) f else client_value c f)"
proof (induction fs arbitrary: c)
  case (Cons g fs)
  have "client_value (set_client_field u f (set_client_field u g c)) f = client_value (set_client_field u f c) f"
    using client_value_set [of u f "set_client_field u g c" f c] by simp
  with Cons show ?case by (auto simp: client_value_set [of u g c f c])
qed simp

lemma UPDATE_FIELDS_all [simp]: "set UPDATE_FIELDS = UNIV"
proof -
  have "f \<in> set UPDATE_FIELDS" for f by (cases f) (simp_all add: UPDATE_FIELDS_def)
  then show ?thesis by auto
qed

lemma client_value_patch: "client_value (patch_client u c) f =
    (if f \<in> set (cu_fields u) then client_value (set_client_field u f c) f else client_value c f)"
  by (simp add: patch_client_def client_value_foldl)

lemma client_field_name_inj: "client_field_name f = client_field_name g \<longleftrightarrow> f = g"
  by (cases f; cases g; simp)

lemma jget_client_dict: "jget (client_dict c) (client_field_name f) = client_value c f"
proof -
  have "jget (map (\<lambda>f. (client_field_name f, client_value c f)) fs) (client_field_name f) = client_value c f"
    if "f \<in> set fs" for fs
    using that by (induction fs) (auto simp: jget_def client_field_name_inj)
  then show ?thesis by (simp add: client_dict_def)
qed

lemma apply_update_client_Inr:
  assumes "apply_update_client e cid u d = Inr ((c', ch), d')"
  obtains c where "client_get cid d = Some c" "c' = touch_client (e_now e) c (patch_client u c)"
    "ch = field_changes (client_dict c) (client_dict c')"
    "ch = None \<longrightarrow> d' = store_client c' d"
    "\<forall>x. ch = Some x \<longrightarrow> (\<exists>r. enqueue e cid Job_incremental (Some (sort (map fst x))) 5 (store_client c' d) = Inr (r, d'))"
proof (cases "client_get cid d")
  case None
  with assms show thesis by (simp add: apply_update_client_def)
next
  case (Some c)
  let ?c' = "touch_client (e_now e) c (patch_client u c)"
  let ?ch = "field_changes (client_dict c) (client_dict ?c')"
  show thesis
  proof (cases ?ch)
    case None
    with assms Some have "c' = ?c'" "ch = None" "d' = store_client c' d"
      by (auto simp: apply_update_client_def Let_def)
    with None Some that show thesis by simp
  next
    case x: (Some x)
    with assms Some obtain r where "c' = ?c'" "ch = Some x"
      "enqueue e cid Job_incremental (Some (sort (map fst x))) 5 (store_client c' d) = Inr (r, d')"
      by (auto simp: apply_update_client_def Let_def bindR_eq_Inr)
    with x Some that show thesis by simp
  qed
qed

lemma store_client_frame [simp]:
  "d_proposals (store_client c d) = d_proposals d" "d_audit (store_client c d) = d_audit d"
  "d_next_id (store_client c d) = d_next_id d" "d_jobs (store_client c d) = d_jobs d"
  "d_users (store_client c d) = d_users d" "d_tasks (store_client c d) = d_tasks d"
  by (simp_all add: store_client_def)

text \<open>None of the edits touches proposals or the audit trail.\<close>

lemma apply_update_client_frame:
  assumes "apply_update_client e cid u d = Inr (r, d')"
  shows "d_proposals d' = d_proposals d \<and> d_audit d' = d_audit d \<and> d_next_id d \<le> d_next_id d'"
proof -
  obtain c' ch where "apply_update_client e cid u d = Inr ((c', ch), d')" using assms by (cases r) auto
  then show ?thesis
  proof (rule apply_update_client_Inr)
    fix c
    assume n: "ch = None \<longrightarrow> d' = store_client c' d"
      and s: "\<forall>x. ch = Some x \<longrightarrow> (\<exists>r. enqueue e cid Job_incremental (Some (sort (map fst x))) 5 (store_client c' d) = Inr (r, d'))"
    show ?thesis
    proof (cases ch)
      case None with n show ?thesis by simp
    next
      case (Some x)
      then obtain r where "enqueue e cid Job_incremental (Some (sort (map fst x))) 5 (store_client c' d) = Inr (r, d')"
        using s by blast
      from enqueue_frame [OF this] show ?thesis by simp
    qed
  qed
qed

lemma apply_update_brand_frame:
  assumes "apply_update_brand e c u d = Inr (r, d')"
  shows "d_proposals d' = d_proposals d \<and> d_audit d' = d_audit d \<and> d_next_id d \<le> d_next_id d'"
  using assms by (auto simp: apply_update_brand_def Let_def result_simps dest: enqueue_frame)

lemma apply_update_user_frame:
  assumes "apply_update_user e uid p d = Inr (r, d')"
  shows "d_proposals d' = d_proposals d \<and> d_audit d' = d_audit d \<and> d_next_id d \<le> d_next_id d'"
  using assms by (auto simp: apply_update_user_def Let_def split: option.splits)

section \<open>Properties\<close>

text \<open>
  Every profile edit that changes something is followed by a rebuild: after a successful
  update each field of the body has its new value and the others their old one; if any tracked
  value moved, the transaction also leaves a queued job of that client whose changed keys include
  every moved field (when the pipeline is on), and if none moved the queue is untouched.
\<close>

theorem profile_edit_schedules_rebuild:
  assumes ok: "update_client e cid u d = Inr ((c', ch), d')" and c: "client_get cid d = Some c"
    and on: "e_intel_enabled e"
  shows "(\<forall>f. client_value c' f = (if f \<in> set (cu_fields u) then client_value (set_client_field u f c) f
      else client_value c f)) \<and>
    (if \<exists>f. client_value c' f \<noteq> client_value c f
     then \<exists>j \<in> set (d_jobs d'). j_client_id j = cid \<and> j_status j = Job_queued \<and>
       (\<forall>f. client_value c' f \<noteq> client_value c f \<longrightarrow> client_field_name f \<in> set (keys_or_empty (j_changed_keys j)))
     else ch = None \<and> d_jobs d' = d_jobs d)"
proof -
  have "apply_update_client e cid u d = Inr ((c', ch), d')"
    using ok by (auto simp: update_client_def result_simps)
  then obtain c0 where r: "client_get cid d = Some c0" "c' = touch_client (e_now e) c0 (patch_client u c0)"
    "ch = field_changes (client_dict c0) (client_dict c')" "ch = None \<longrightarrow> d' = store_client c' d"
    "\<forall>x. ch = Some x \<longrightarrow> (\<exists>r. enqueue e cid Job_incremental (Some (sort (map fst x))) 5 (store_client c' d) = Inr (r, d'))"
    by (rule apply_update_client_Inr)
  have c0: "c0 = c" using r(1) c by simp
  have vals: "\<forall>f. client_value c' f = (if f \<in> set (cu_fields u) then client_value (set_client_field u f c) f
      else client_value c f)" by (simp add: r(2) c0 client_value_patch)
  show ?thesis
  proof (cases ch)
    case None
    have "client_value c f = client_value c' f" for f
      using None r(3) jget_client_dict [of _ f] by (metis c0 field_changes_None)
    then have same: "\<not> (\<exists>f. client_value c' f \<noteq> client_value c f)" by simp
    have "d_jobs d' = d_jobs d" using r(4) None by simp
    with None vals same show ?thesis by presburger
  next
    case (Some x)
    have keys: "client_field_name f \<in> set (map fst x)" if "client_value c' f \<noteq> client_value c f" for f
      using that field_changes_keys [of "client_dict c0" "client_dict c'" x] r(3) Some
      by (simp add: c0 jget_client_dict)
    have moved: "\<exists>f. client_value c' f \<noteq> client_value c f"
    proof (rule ccontr)
      assume no: "\<not> ?thesis"
      have "jget (client_dict c) k = jget (client_dict c') k" for k
      proof -
        have "jget (map (\<lambda>f. (client_field_name f, client_value c f)) fs) k =
            jget (map (\<lambda>f. (client_field_name f, client_value c' f)) fs) k" for fs
          using no by (induction fs) (auto simp: jget_def)
        then show ?thesis by (simp add: client_dict_def)
      qed
      then have "ch = None" using r(3) by (simp add: c0 field_changes_None)
      with Some show False by simp
    qed
    obtain rr where enq: "enqueue e cid Job_incremental (Some (sort (map fst x))) 5 (store_client c' d) = Inr (rr, d')"
      using r(5) Some by blast
    have "\<exists>j \<in> set (d_jobs d'). j_client_id j = cid \<and> j_status j = Job_queued \<and>
        set (map fst x) \<subseteq> set (keys_or_empty (j_changed_keys j))"
      using enqueue_leaves_queued [OF on enq] by simp
    then obtain j where j: "j \<in> set (d_jobs d')" "j_client_id j = cid" "j_status j = Job_queued"
      "set (map fst x) \<subseteq> set (keys_or_empty (j_changed_keys j))" by blast
    have "\<forall>f. client_value c' f \<noteq> client_value c f \<longrightarrow>
        client_field_name f \<in> set (keys_or_empty (j_changed_keys j))"
      using keys j(4) by blast
    with vals moved j(1-3) show ?thesis by auto
  qed
qed

section \<open>Witness\<close>

definition profile_db :: db where
  "profile_db = empty_db\<lparr>d_clients := [sample_client 7]\<rparr>"

definition rename_update :: client_update where
  "rename_update = \<lparr>cu_fields = [CF_name, CF_website], cu_name = Some ''Acme Co'', cu_business_type = None,
     cu_industry = None, cu_website = None, cu_location = None, cu_language = None, cu_timezone = None,
     cu_markets = None, cu_status = None\<rparr>"

theorem profile_edit_schedules_rebuild_witness:
  "\<exists>c' ch d'. update_client sample_env 7 rename_update profile_db = Inr ((c', ch), d') \<and>
     (\<exists>j \<in> set (d_jobs d'). j_client_id j = 7 \<and> ''name'' \<in> set (keys_or_empty (j_changed_keys j)))"
proof -
  have "isl (update_client sample_env 7 rename_update profile_db) = False" by code_simp
  then obtain c' ch d' where ok: "update_client sample_env 7 rename_update profile_db = Inr ((c', ch), d')"
    by (cases "update_client sample_env 7 rename_update profile_db") auto
  have c: "client_get 7 profile_db = Some (sample_client 7)"
    by (simp add: client_get_def profile_db_def sample_client_def)
  have on: "e_intel_enabled sample_env" by (simp add: sample_env_def)
  note r = profile_edit_schedules_rebuild [OF ok c on]
  have v: "client_value c' CF_name = JStr ''Acme Co''"
    using r [THEN conjunct1, rule_format, of CF_name] by (simp add: rename_update_def)
  have old: "client_value (sample_client 7) CF_name = JStr ''Acme''" by (simp add: sample_client_def)
  have moved: "client_value c' CF_name \<noteq> client_value (sample_client 7) CF_name" using v old by simp
  then have "\<exists>f. client_value c' f \<noteq> client_value (sample_client 7) f" by blast
  with r [THEN conjunct2] obtain j where "j \<in> set (d_jobs d')" "j_client_id j = 7"
    "\<forall>f. client_value c' f \<noteq> client_value (sample_client 7) f \<longrightarrow>
       client_field_name f \<in> set (keys_or_empty (j_changed_keys j))"
    by (auto simp del: client_value.simps)
  moreover from this(3) moved have "''name'' \<in> set (keys_or_empty (j_changed_keys j))"
    by (metis client_field_name.simps(1))
  ultimately show ?thesis using ok by blast
qed

end
