(* ===== verification/Proposals.thy ===== *)
theory Proposals
  imports Plan Client_Updates
begin

text \<open>
  The change-proposal engine: \<^verbatim>\<open>app/services/proposal_service.py\<close> and
  \<^verbatim>\<open>app/repositories/proposal_repository.py\<close>. Staging runs the real operation inside a
  savepoint that is rolled back, so a \<open>stage_*\<close> function reads the database and returns the staged
  operation. Approval claims the proposal in one transaction, then checks and replays its operations
  in a second one, and records a failure in a third; its result carries the committed database.
\<close>

section \<open>Repository\<close>

definition proposal_get :: "uuid \<Rightarrow> db \<Rightarrow> change_proposal option" where
  "proposal_get pid d = find_by p_id pid (d_proposals d)"

definition proposal_add :: "change_proposal \<Rightarrow> db \<Rightarrow> db" where
  "proposal_add p d = d\<lparr>d_proposals := d_proposals d @ [p]\<rparr>"

definition proposal_remove :: "uuid \<Rightarrow> db \<Rightarrow> db" where
  "proposal_remove pid d = d\<lparr>d_proposals := delete_by p_id pid (d_proposals d)\<rparr>"

interpretation proposals: repository p_id proposal_get proposal_add proposal_remove d_proposals
  by unfold_locales (simp_all add: proposal_get_def proposal_add_def proposal_remove_def)

definition proposal_for_client :: "uuid \<Rightarrow> uuid \<Rightarrow> db \<Rightarrow> change_proposal option" where
  "proposal_for_client cid pid d = find (\<lambda>p. p_id p = pid \<and> p_client_id p = cid) (d_proposals d)"

definition put_proposal :: "uuid \<Rightarrow> (change_proposal \<Rightarrow> change_proposal) \<Rightarrow> db \<Rightarrow> db" where
  "put_proposal pid f d = d\<lparr>d_proposals := update_by p_id pid f (d_proposals d)\<rparr>"

text \<open>
  \<^verbatim>\<open>UPDATE ... SET status = executing WHERE id = pid AND status = pending_approval\<close>: the
  number of rows it changed.
\<close>

definition claim_for_execution :: "uuid \<Rightarrow> db \<Rightarrow> nat \<times> db" where
  "claim_for_execution pid d =
     (length (filter (\<lambda>p. p_id p = pid \<and> p_status p = Prop_pending_approval) (d_proposals d)),
      put_proposal pid (\<lambda>p. if p_status p = Prop_pending_approval then p\<lparr>p_status := Prop_executing\<rparr> else p) d)"

section \<open>Staging\<close>

record staged_operation =
  so_operation_type :: operation_type
  so_entity_type :: string
  so_entity_id :: "uuid option"
  so_entity_label :: "string option"
  so_field_changes :: "changes option"
  so_payload :: payload
  so_base_snapshot :: "datetime option"
  so_required_capability :: "capability option"
  so_requires_admin :: bool

text \<open>A savepoint that is rolled back keeps the value and drops the writes.\<close>

definition dry_run :: "'a op \<Rightarrow> db \<Rightarrow> exn + 'a" where
  "dry_run f d = (case f d of Inl e \<Rightarrow> Inl e | Inr (x, d') \<Rightarrow> Inr x)"

definition stage_plan_task_create :: "env \<Rightarrow> uuid \<Rightarrow> user \<Rightarrow> plan_task_create \<Rightarrow> db \<Rightarrow> exn + staged_operation" where
  "stage_plan_task_create e cid user data d =
     bindR (get_client d user cid) (\<lambda>_.
     bindR (dry_run (apply_create_task e cid data (u_id user)) d) (\<lambda>(task, ch).
       Inr \<lparr>so_operation_type = Op_create, so_entity_type = ''plan_task'', so_entity_id = None,
         so_entity_label = t_title task, so_field_changes = ch,
         so_payload = empty_payload\<lparr>pl_data := Some (Data_task_create data), pl_created_by := Some (u_id user)\<rparr>,
         so_base_snapshot = None, so_required_capability = None, so_requires_admin = False\<rparr>))"

definition stage_plan_task_update ::
    "env \<Rightarrow> uuid \<Rightarrow> user \<Rightarrow> uuid \<Rightarrow> plan_task_update \<Rightarrow> db \<Rightarrow> exn + staged_operation" where
  "stage_plan_task_update e cid user tid u d =
     bindR (get_client d user cid) (\<lambda>_.
     bindR (get_task cid tid d) (\<lambda>existing.
     bindR (dry_run (apply_update_task e cid tid u) d) (\<lambda>(_, ch).
       Inr \<lparr>so_operation_type = Op_update, so_entity_type = ''plan_task'', so_entity_id = Some tid,
         so_entity_label = t_title existing, so_field_changes = ch,
         so_payload = empty_payload\<lparr>pl_data := Some (Data_task_update u)\<rparr>,
         so_base_snapshot = Some (t_updated_at existing), so_required_capability = None,
         so_requires_admin = False\<rparr>)))"

definition stage_plan_task_delete :: "uuid \<Rightarrow> user \<Rightarrow> uuid \<Rightarrow> db \<Rightarrow> exn + staged_operation" where
  "stage_plan_task_delete cid user tid d =
     bindR (get_client d user cid) (\<lambda>_.
     bindR (get_task cid tid d) (\<lambda>existing.
     bindR (dry_run (apply_delete_task cid tid) d) (\<lambda>(_, ch).
       Inr \<lparr>so_operation_type = Op_delete, so_entity_type = ''plan_task'', so_entity_id = Some tid,
         so_entity_label = t_title existing, so_field_changes = ch, so_payload = empty_payload,
         so_base_snapshot = Some (t_updated_at existing), so_required_capability = None,
         so_requires_admin = False\<rparr>)))"

definition stage_plan_task_duplicate :: "env \<Rightarrow> uuid \<Rightarrow> user \<Rightarrow> uuid \<Rightarrow> db \<Rightarrow> exn + staged_operation" where
  "stage_plan_task_duplicate e cid user tid d =
     bindR (get_client d user cid) (\<lambda>_.
     bindR (dry_run (apply_duplicate_task e cid tid (u_id user)) d) (\<lambda>(copy, ch).
       Inr \<lparr>so_operation_type = Op_create, so_entity_type = ''plan_task'', so_entity_id = None,
         so_entity_label = t_title copy, so_field_changes = ch,
         so_payload = empty_payload\<lparr>pl_source_task_id := Some tid, pl_created_by := Some (u_id user)\<rparr>,
         so_base_snapshot = None, so_required_capability = None, so_requires_admin = False\<rparr>))"

definition stage_plan_task_add_note ::
    "env \<Rightarrow> uuid \<Rightarrow> user \<Rightarrow> uuid \<Rightarrow> string \<Rightarrow> db \<Rightarrow> exn + staged_operation" where
  "stage_plan_task_add_note e cid user tid body d =
     bindR (get_client d user cid) (\<lambda>_.
     bindR (dry_run (apply_add_note e cid tid body (u_id user)) d) (\<lambda>(note, task).
       Inr \<lparr>so_operation_type = Op_create, so_entity_type = ''plan_task_note'', so_entity_id = None,
         so_entity_label = t_title task, so_field_changes = created_changes [(''body'', JStr (pn_body note))],
         so_payload = empty_payload\<lparr>pl_task_id := Some tid, pl_data := Some (Data_note_create body),
           pl_user_id := Some (u_id user)\<rparr>,
         so_base_snapshot = None, so_required_capability = None, so_requires_admin = False\<rparr>))"

definition admin_required :: "string \<Rightarrow> exn" where
  "admin_required what = forbidden (''Administrator privileges are required to '' @ what @ ''.'')"

definition caps_or_none :: "capability list option \<Rightarrow> string list option" where
  "caps_or_none caps = (case caps of None \<Rightarrow> None | Some cs \<Rightarrow> if cs = [] then None else Some (map cap_value cs))"

definition stage_assignment_assign ::
    "env \<Rightarrow> uuid \<Rightarrow> user \<Rightarrow> uuid \<Rightarrow> capability list option \<Rightarrow> db \<Rightarrow> exn + staged_operation" where
  "stage_assignment_assign e cid user target caps d =
     bindR (get_client d user cid) (\<lambda>_.
       if u_role user \<noteq> Role_admin then Inl (admin_required ''manage assignments'')
       else case user_get target d of
         None \<Rightarrow> Inl (not_found ''User not found.'')
       | Some t \<Rightarrow>
           bindR (dry_run (apply_assign e cid target (u_id user) caps) d) (\<lambda>_.
             Inr \<lparr>so_operation_type = Op_assign, so_entity_type = ''client_assignment'', so_entity_id = None,
               so_entity_label = Some (u_email t),
               so_field_changes = created_changes [(''user_email'', JStr (u_email t)),
                 (''capabilities'', case caps_or_none caps of None \<Rightarrow> JStr ''full access''
                    | Some vs \<Rightarrow> JList (map JStr vs))],
               so_payload = empty_payload\<lparr>pl_user_id := Some target, pl_capabilities := caps_or_none caps,
                 pl_assigned_by := Some (u_id user)\<rparr>,
               so_base_snapshot = None, so_required_capability = None, so_requires_admin = True\<rparr>))"

definition stage_assignment_set_capabilities ::
    "uuid \<Rightarrow> user \<Rightarrow> uuid \<Rightarrow> capability list \<Rightarrow> db \<Rightarrow> exn + staged_operation" where
  "stage_assignment_set_capabilities cid user target caps d =
     bindR (get_client d user cid) (\<lambda>_.
       if u_role user \<noteq> Role_admin then Inl (admin_required ''manage assignments'')
       else case assignment_get (cid, target) d of
         None \<Rightarrow> Inl (not_found ''Assignment not found.'')
       | Some existing \<Rightarrow>
           bindR (dry_run (apply_set_capabilities cid target caps) d) (\<lambda>_.
             Inr \<lparr>so_operation_type = Op_update, so_entity_type = ''client_assignment'',
               so_entity_id = Some (a_id existing),
               so_entity_label = map_option u_email (user_get target d),
               so_field_changes = field_changes
                 [(''capabilities'', JList (map (JStr \<circ> cap_value) (effective_caps (a_capabilities existing))))]
                 [(''capabilities'', JList (map (JStr \<circ> cap_value) caps))],
               so_payload = empty_payload\<lparr>pl_user_id := Some target, pl_capabilities := Some (map cap_value caps)\<rparr>,
               so_base_snapshot = None, so_required_capability = None, so_requires_admin = True\<rparr>))"

definition stage_assignment_unassign :: "uuid \<Rightarrow> user \<Rightarrow> uuid \<Rightarrow> db \<Rightarrow> exn + staged_operation" where
  "stage_assignment_unassign cid user target d =
     bindR (get_client d user cid) (\<lambda>_.
       if u_role user \<noteq> Role_admin then Inl (admin_required ''manage assignments'')
       else case assignment_get (cid, target) d of
         None \<Rightarrow> Inl (not_found ''Assignment not found.'')
       | Some existing \<Rightarrow>
           bindR (dry_run (apply_unassign cid target) d) (\<lambda>_.
             Inr \<lparr>so_operation_type = Op_unassign, so_entity_type = ''client_assignment'',
               so_entity_id = Some (a_id existing),
               so_entity_label = map_option u_email (user_get target d),
               so_field_changes = deleted_changes
                 [(''user_email'', jopt JStr (map_option u_email (user_get target d)))],
               so_payload = empty_payload\<lparr>pl_user_id := Some target\<rparr>,
               so_base_snapshot = None, so_required_capability = None, so_requires_admin = True\<rparr>))"

definition stage_update_client :: "env \<Rightarrow> uuid \<Rightarrow> user \<Rightarrow> client_update \<Rightarrow> db \<Rightarrow> exn + staged_operation" where
  "stage_update_client e cid user u d =
     bindR (get_client d user cid) (\<lambda>existing.
       if u_role user \<noteq> Role_admin then Inl (admin_required ''edit a client'')
       else bindR (dry_run (apply_update_client e cid u) d) (\<lambda>(_, ch).
         Inr \<lparr>so_operation_type = Op_update, so_entity_type = ''client'', so_entity_id = Some cid,
           so_entity_label = c_name existing, so_field_changes = ch,
           so_payload = empty_payload\<lparr>pl_data := Some (Data_client_update u)\<rparr>,
           so_base_snapshot = Some (c_updated_at existing), so_required_capability = None,
           so_requires_admin = True\<rparr>))"

definition stage_update_brand :: "env \<Rightarrow> uuid \<Rightarrow> user \<Rightarrow> brand_update \<Rightarrow> db \<Rightarrow> exn + staged_operation" where
  "stage_update_brand e cid user u d =
     bindR (get_client d user cid) (\<lambda>existing.
       if u_role user \<noteq> Role_admin then Inl (admin_required ''edit brand settings'')
       else bindR (dry_run (apply_update_brand e existing u) d) (\<lambda>ch.
         Inr \<lparr>so_operation_type = Op_update, so_entity_type = ''client_brand'', so_entity_id = Some cid,
           so_entity_label = c_name existing, so_field_changes = ch,
           so_payload = empty_payload\<lparr>pl_data := Some (Data_brand_update u)\<rparr>,
           so_base_snapshot = Some (c_updated_at existing), so_required_capability = None,
           so_requires_admin = True\<rparr>))"

definition stage_update_user :: "env \<Rightarrow> uuid \<Rightarrow> user \<Rightarrow> uuid \<Rightarrow> user_update \<Rightarrow> db \<Rightarrow> exn + staged_operation" where
  "stage_update_user e cid user target u d =
     bindR (get_client d user cid) (\<lambda>_.
       if u_role user \<noteq> Role_admin then Inl (admin_required ''manage users'')
       else case user_get target d of
         None \<Rightarrow> Inl (not_found ''User not found.'')
       | Some t \<Rightarrow>
           bindR (dry_run (apply_update_user e target u) d) (\<lambda>(_, ch).
             Inr \<lparr>so_operation_type = Op_update, so_entity_type = ''user'', so_entity_id = Some target,
               so_entity_label = Some (u_email t), so_field_changes = ch,
               so_payload = empty_payload\<lparr>pl_data := Some (Data_user_update u)\<rparr>,
               so_base_snapshot = Some (u_updated_at t), so_required_capability = None,
               so_requires_admin = True\<rparr>))"

section \<open>Creating, reading and rejecting a proposal\<close>

definition MAX_TEXT :: nat where
  "MAX_TEXT = 100000"

definition DEFAULT_TTL_MINUTES :: int where
  "DEFAULT_TTL_MINUTES = 45"

definition staged_row :: "nat \<Rightarrow> staged_operation \<Rightarrow> proposed_operation" where
  "staged_row seq s = \<lparr>o_seq = seq, o_operation_type = so_operation_type s, o_entity_type = so_entity_type s,
     o_entity_id = so_entity_id s, o_entity_label = so_entity_label s, o_field_changes = so_field_changes s,
     o_payload = so_payload s, o_base_snapshot = so_base_snapshot s,
     o_required_capability = map_option cap_value (so_required_capability s),
     o_requires_admin = so_requires_admin s, o_status = Op_pending, o_error = None\<rparr>"

definition create_proposal :: "env \<Rightarrow> uuid \<Rightarrow> uuid option \<Rightarrow> uuid option \<Rightarrow> uuid \<Rightarrow> string \<Rightarrow> string \<Rightarrow>
    staged_operation list \<Rightarrow> int \<Rightarrow> change_proposal op" where
  "create_proposal e cid chat_id message_id created_by raw_request summary operations ttl_minutes d =
     (if operations = [] then Inl (bad_request ''A proposal must contain at least one operation.'')
      else bindR (fresh_id d) (\<lambda>(pid, d1).
        let p = \<lparr>p_id = pid, p_client_id = cid, p_chat_id = chat_id, p_message_id = message_id,
              p_created_by_user_id = Some created_by, p_status = Prop_pending_approval,
              p_raw_request = Some (take MAX_TEXT raw_request),
              p_summary = (if summary \<noteq> [] then Some (take MAX_TEXT summary) else None), p_error = None,
              p_created_at = e_now e, p_expires_at = Some (e_now e + ttl_minutes * 60000000),
              p_approved_by_user_id = None, p_approved_at = None, p_executed_at = None,
              p_operations = map (\<lambda>(seq, s). staged_row seq s) (List.enumerate 0 operations)\<rparr> in
        bindR (flush (proposal_add p d1)) (\<lambda>(_, d2). Inr (p, d2))))"

definition get_proposal :: "uuid \<Rightarrow> uuid \<Rightarrow> db \<Rightarrow> exn + change_proposal" where
  "get_proposal cid pid d = some_or (not_found ''Proposal not found.'') (proposal_for_client cid pid d)"

definition reject :: "uuid \<Rightarrow> uuid \<Rightarrow> user \<Rightarrow> string option \<Rightarrow> change_proposal op" where
  "reject cid pid user reason d =
     bindR (get_client d user cid) (\<lambda>_.
       if u_role user = Role_user
       then Inl (forbidden ''Your account has read-only access and cannot reject changes.'')
       else bindR (get_proposal cid pid d) (\<lambda>p.
         if p_status p \<noteq> Prop_pending_approval
         then Inl (conflict ''This proposal is no longer pending approval.'')
         else
           let f = (\<lambda>p. p\<lparr>p_status := Prop_cancelled,
                 p_error := (case reason of None \<Rightarrow> p_error p
                             | Some r \<Rightarrow> if r \<noteq> [] then Some (take MAX_TEXT r) else p_error p)\<rparr>) in
           Inr (f p, put_proposal pid f d)))"

section \<open>Executing one operation\<close>

text \<open>
  The result of \<^verbatim>\<open>_execute_operation\<close>: the entity id and label it returns, and the diff it
  leaves on the operation. A missing payload key is a \<^verbatim>\<open>KeyError\<close>, data of another schema
  a \<^verbatim>\<open>ValidationError\<close>.
\<close>

type_synonym exec_result = "uuid option \<times> string option \<times> changes option"

definition need :: "'a option \<Rightarrow> exn + 'a" where
  "need x = some_or (Crash ''KeyError'') x"

definition execute_plan_task :: "env \<Rightarrow> uuid \<Rightarrow> proposed_operation \<Rightarrow> exec_result op" where
  "execute_plan_task e cid op d =
     (let pl = o_payload op in
      case o_operation_type op of
        Op_create \<Rightarrow>
          (case pl_source_task_id pl of
             Some src \<Rightarrow>
               bindR (need (pl_created_by pl)) (\<lambda>author.
               bindR (apply_duplicate_task e cid src author d) (\<lambda>((task, ch), d1).
                 Inr ((Some (t_id task), t_title task, ch), d1)))
           | None \<Rightarrow>
               bindR (need (pl_data pl)) (\<lambda>data.
                 case data of
                   Data_task_create tc \<Rightarrow>
                     bindR (need (pl_created_by pl)) (\<lambda>author.
                     bindR (apply_create_task e cid tc author d) (\<lambda>((task, ch), d1).
                       Inr ((Some (t_id task), t_title task, ch), d1)))
                 | _ \<Rightarrow> Inl (Crash ''ValidationError'')))
      | Op_update \<Rightarrow>
          bindR (need (pl_data pl)) (\<lambda>data.
            case data of
              Data_task_update u \<Rightarrow>
                (case o_entity_id op of
                   None \<Rightarrow> Inl task_not_found
                 | Some tid \<Rightarrow>
                     bindR (apply_update_task e cid tid u d) (\<lambda>((task, ch), d1).
                       Inr ((Some (t_id task), t_title task, ch), d1)))
            | _ \<Rightarrow> Inl (Crash ''ValidationError''))
      | Op_delete \<Rightarrow>
          (case o_entity_id op of
             None \<Rightarrow> Inl task_not_found
           | Some tid \<Rightarrow>
               bindR (apply_delete_task cid tid d) (\<lambda>((task, ch), d1).
                 Inr ((Some tid, t_title task, ch), d1)))
      | t \<Rightarrow> Inl (bad_request (''Unsupported plan_task operation: '' @ operation_type_value t)))"

text \<open>\<^verbatim>\<open>[ClientCapability(c) for c in values]\<close> raises on an unknown value.\<close>

fun parse_caps :: "string list \<Rightarrow> exn + capability list" where
  "parse_caps [] = Inr []"
| "parse_caps (v # vs) =
     (case parse_cap v of
        None \<Rightarrow> Inl (Crash ''ValueError'')
      | Some c \<Rightarrow> bindR (parse_caps vs) (\<lambda>cs. Inr (c # cs)))"

definition execute_assignment :: "env \<Rightarrow> uuid \<Rightarrow> proposed_operation \<Rightarrow> exec_result op" where
  "execute_assignment e cid op d =
     (let pl = o_payload op in
      bindR (need (pl_user_id pl)) (\<lambda>target.
        case o_operation_type op of
          Op_assign \<Rightarrow>
            bindR (case pl_capabilities pl of
                None \<Rightarrow> Inr None
              | Some vs \<Rightarrow> if vs = [] then Inr None else bindR (parse_caps vs) (\<lambda>cs. Inr (Some cs))) (\<lambda>caps.
            bindR (need (pl_assigned_by pl)) (\<lambda>assigned_by.
            bindR (apply_assign e cid target assigned_by caps d) (\<lambda>(a, d1).
              Inr ((Some (a_id a), None, o_field_changes op), d1))))
        | Op_update \<Rightarrow>
            bindR (need (pl_capabilities pl)) (\<lambda>vs.
            bindR (parse_caps vs) (\<lambda>caps.
            bindR (apply_set_capabilities cid target caps d) (\<lambda>(a, d1).
              Inr ((Some (a_id a), None, o_field_changes op), d1))))
        | Op_unassign \<Rightarrow>
            bindR (apply_unassign cid target d) (\<lambda>(_, d1).
              Inr ((o_entity_id op, None, o_field_changes op), d1))
        | t \<Rightarrow> Inl (bad_request (''Unsupported client_assignment operation: '' @ operation_type_value t))))"

definition execute_operation :: "env \<Rightarrow> uuid \<Rightarrow> proposed_operation \<Rightarrow> exec_result op" where
  "execute_operation e cid op d =
     (let pl = o_payload op; et = o_entity_type op in
      if et = ''plan_task'' then execute_plan_task e cid op d
      else if et = ''plan_task_note'' then
        bindR (need (pl_task_id pl)) (\<lambda>tid.
        bindR (need (pl_data pl)) (\<lambda>data.
          case data of
            Data_note_create body \<Rightarrow>
              bindR (need (pl_user_id pl)) (\<lambda>uid.
              bindR (apply_add_note e cid tid body uid d) (\<lambda>((note, task), d1).
                Inr ((Some (pn_id note), t_title task, o_field_changes op), d1)))
          | _ \<Rightarrow> Inl (Crash ''ValidationError'')))
      else if et = ''client_assignment'' then execute_assignment e cid op d
      else if et = ''client'' then
        bindR (need (pl_data pl)) (\<lambda>data.
          case data of
            Data_client_update u \<Rightarrow>
              bindR (apply_update_client e cid u d) (\<lambda>((c, ch), d1). Inr ((Some (c_id c), c_name c, ch), d1))
          | _ \<Rightarrow> Inl (Crash ''ValidationError''))
      else if et = ''client_brand'' then
        (case client_get cid d of
           None \<Rightarrow> Inl (not_found ''Client not found.'')
         | Some c \<Rightarrow>
             bindR (need (pl_data pl)) (\<lambda>data.
               case data of
                 Data_brand_update u \<Rightarrow>
                   bindR (apply_update_brand e c u d) (\<lambda>(ch, d1). Inr ((Some (c_id c), c_name c, ch), d1))
               | _ \<Rightarrow> Inl (Crash ''ValidationError'')))
      else if et = ''user'' then
        bindR (need (pl_data pl)) (\<lambda>data.
          case data of
            Data_user_update u \<Rightarrow>
              (case o_entity_id op of
                 None \<Rightarrow> Inl (not_found ''User not found.'')
               | Some uid \<Rightarrow>
                   bindR (apply_update_user e uid u d) (\<lambda>((t, ch), d1).
                     Inr ((Some (u_id t), Some (u_email t), ch), d1)))
          | _ \<Rightarrow> Inl (Crash ''ValidationError''))
      else Inl (bad_request (''Unknown proposal entity type: '' @ et)))"

section \<open>Approval\<close>

text \<open>\<^verbatim>\<open>_matches_live_snapshot\<close>\<close>

definition matches_live_snapshot :: "db \<Rightarrow> uuid \<Rightarrow> proposed_operation \<Rightarrow> bool" where
  "matches_live_snapshot d cid op =
     (case (o_base_snapshot op, o_entity_id op) of
        (Some snap, Some eid) \<Rightarrow>
          (if o_entity_type op = ''plan_task''
           then (case get_for_client cid eid d of None \<Rightarrow> False | Some t \<Rightarrow> t_updated_at t = snap)
           else if o_entity_type op = ''client'' \<or> o_entity_type op = ''client_brand''
           then (case client_get eid d of None \<Rightarrow> False | Some c \<Rightarrow> c_updated_at c = snap)
           else if o_entity_type op = ''user''
           then (case user_get eid d of None \<Rightarrow> False | Some u \<Rightarrow> u_updated_at u = snap)
           else True)
      | _ \<Rightarrow> True)"

text \<open>The loop over the frozen authorization requirements: the first reason to refuse.\<close>

fun authorization_failure :: "capability set \<Rightarrow> user \<Rightarrow> proposed_operation list \<Rightarrow> exn + string option" where
  "authorization_failure caps user [] = Inr None"
| "authorization_failure caps user (op # ops) =
     (let admin_check = (if o_requires_admin op \<and> u_role user \<noteq> Role_admin
            then Inr (Some ''Administrator privileges are required.'')
            else authorization_failure caps user ops) in
      case o_required_capability op of
        Some rc \<Rightarrow>
          if rc = [] then admin_check
          else (case parse_cap rc of
                  None \<Rightarrow> Inl (Crash ''ValueError'')
                | Some c \<Rightarrow> if c \<notin> caps
                    then Inr (Some (''You no longer have the '' @ CHR 0x27 # rc @ CHR 0x27 #
                           '' capability required for this change.''))
                    else admin_check)
      | None \<Rightarrow> admin_check)"

definition executed_row :: "exec_result \<Rightarrow> proposed_operation \<Rightarrow> proposed_operation" where
  "executed_row r op = (case r of (eid, label, ch) \<Rightarrow>
     op\<lparr>o_status := Op_executed, o_entity_id := (case eid of None \<Rightarrow> o_entity_id op | Some i \<Rightarrow> Some i),
        o_entity_label := (case label of None \<Rightarrow> o_entity_label op | Some l \<Rightarrow> Some l),
        o_field_changes := ch\<rparr>)"

definition audit_of :: "env \<Rightarrow> uuid \<Rightarrow> uuid \<Rightarrow> user \<Rightarrow> uuid \<Rightarrow> proposed_operation \<Rightarrow> audit_log" where
  "audit_of e cid pid user i op =
     \<lparr>au_id = i, au_actor_user_id = Some (u_id user), au_client_id = Some cid, au_proposal_id = Some pid,
      au_entity = o_entity_type op, au_entity_id = o_entity_id op,
      au_action = o_entity_type op @ ''.'' @ operation_type_value (o_operation_type op) @ ''.ai_approved'',
      au_target_label = o_entity_label op, au_meta = None, au_changes = o_field_changes op,
      au_created_at = e_now e\<rparr>"

definition put_operation :: "uuid \<Rightarrow> proposed_operation \<Rightarrow> db \<Rightarrow> db" where
  "put_operation pid op d =
     put_proposal pid (\<lambda>p. p\<lparr>p_operations := update_by o_seq (o_seq op) (\<lambda>_. op) (p_operations p)\<rparr>) d"

text \<open>
  The replay. \<open>Inr (Some (seq, message), d)\<close>: an operation raised an \<^verbatim>\<open>AppError\<close> (the
  session is still dirty); \<open>Inl\<close>: another exception propagates.
\<close>

fun replay_operations :: "(proposed_operation \<Rightarrow> exec_result op) \<Rightarrow> env \<Rightarrow> uuid \<Rightarrow> uuid \<Rightarrow> user \<Rightarrow>
    proposed_operation list \<Rightarrow> db \<Rightarrow> exn + (nat \<times> string) option \<times> db" where
  "replay_operations exec e cid pid user [] d = Inr (None, d)"
| "replay_operations exec e cid pid user (op # ops) d =
     (case exec op d of
        Inl (AppError c msg) \<Rightarrow> Inr (Some (o_seq op, msg), d)
      | Inl (Crash msg) \<Rightarrow> Inl (Crash msg)
      | Inr (r, d1) \<Rightarrow>
          let op' = executed_row r op;
              d2 = put_operation pid op' d1;
              row = audit_of e cid pid user (d_next_id d2) op';
              d3 = d2\<lparr>d_next_id := Suc (d_next_id d2), d_audit := d_audit d2 @ [row]\<rparr> in
          bindR (flush d3) (\<lambda>(_, d4).
            if audit_row_ok d4 row then replay_operations exec e cid pid user ops d4
            else Inl (Crash ''DBAPIError'')))"

definition fail_preflight :: "uuid \<Rightarrow> string \<Rightarrow> db \<Rightarrow> db" where
  "fail_preflight pid reason d = put_proposal pid (\<lambda>p. p\<lparr>p_status := Prop_failed, p_error := Some reason\<rparr>) d"

definition failed_row :: "nat \<Rightarrow> string \<Rightarrow> proposed_operation \<Rightarrow> proposed_operation" where
  "failed_row seq msg op =
     (if o_seq op = seq then op\<lparr>o_status := Op_failed, o_error := Some msg\<rparr>
      else if o_status op = Op_pending then op\<lparr>o_status := Op_skipped\<rparr> else op)"

definition record_failure :: "uuid \<Rightarrow> nat \<Rightarrow> string \<Rightarrow> db \<Rightarrow> db" where
  "record_failure pid seq msg d = put_proposal pid (\<lambda>p. p\<lparr>p_status := Prop_failed,
     p_error := Some (''Operation '' @ digits seq @ '' failed: '' @ msg),
     p_operations := map (failed_row seq msg) (p_operations p)\<rparr>) d"

definition complete_proposal :: "env \<Rightarrow> uuid \<Rightarrow> user \<Rightarrow> db \<Rightarrow> db" where
  "complete_proposal e pid user d = put_proposal pid (\<lambda>p. p\<lparr>p_status := Prop_completed,
     p_approved_by_user_id := Some (u_id user), p_approved_at := Some (e_now e),
     p_executed_at := Some (e_now e)\<rparr>) d"

text \<open>
  \<^verbatim>\<open>_validate_and_execute\<close> on the claimed proposal \<open>p\<close>; \<open>d\<close> is the committed database, to
  which a rollback returns. \<open>Inl\<close>: the exception leaves the call and the session is discarded.
\<close>

definition expired :: "datetime \<Rightarrow> change_proposal \<Rightarrow> bool" where
  "expired now p \<longleftrightarrow> (case p_expires_at p of None \<Rightarrow> False | Some x \<Rightarrow> x < now)"

definition validate_and_execute :: "env \<Rightarrow> user \<Rightarrow> change_proposal \<Rightarrow> db \<Rightarrow> exn + db" where
  "validate_and_execute e user p d =
     (let cid = p_client_id p; pid = p_id p; ops = p_operations p in
      if expired (e_now e) p then Inr (fail_preflight pid ''This proposal has expired.'' d)
      else
        bindR (authorization_failure (effective_capabilities d user cid) user ops) (\<lambda>refusal.
          case refusal of
            Some reason \<Rightarrow> Inr (fail_preflight pid reason d)
          | None \<Rightarrow>
              if \<not> list_all (matches_live_snapshot d cid) ops
              then Inr (fail_preflight pid
                ''This has changed since the proposal was created. Please review the updated values.'' d)
              else
                bindR (replay_operations (execute_operation e cid) e cid pid user ops d) (\<lambda>(failure, d1).
                  case failure of
                    Some (seq, msg) \<Rightarrow> Inr (record_failure pid seq msg d)
                  | None \<Rightarrow> bindR (flush (complete_proposal e pid user d1)) (\<lambda>(_, d2). Inr d2))))"

text \<open>
  \<^verbatim>\<open>approve\<close>: what the call returns or raises, and the committed database it leaves.
\<close>

definition approve :: "env \<Rightarrow> uuid \<Rightarrow> uuid \<Rightarrow> user \<Rightarrow> db \<Rightarrow> (exn + change_proposal option) \<times> db" where
  "approve e cid pid user d =
     (case get_client d user cid of
        Inl err \<Rightarrow> (Inl err, d)
      | Inr _ \<Rightarrow>
          if u_role user = Role_user
          then (Inl (forbidden ''Your account has read-only access and cannot approve changes.''), d)
          else case get_proposal cid pid d of
            Inl err \<Rightarrow> (Inl err, d)
          | Inr proposal \<Rightarrow>
              (case claim_for_execution pid d of (claimed, d1) \<Rightarrow>
                 if claimed = 0 then (Inr (proposal_get pid d1), d1)
                 else case proposal_get pid d1 of
                   None \<Rightarrow> (Inr None, d1)
                 | Some p \<Rightarrow>
                     (case validate_and_execute e user p d1 of
                        Inl err \<Rightarrow> (Inl err, d1)
                      | Inr d2 \<Rightarrow> (Inr (proposal_get pid d2), d2))))"

section \<open>The contract of an operation's replay\<close>

text \<open>
  What the engine relies on: an operation leaves the proposals and the audit trail alone. The loop's
  effect on both then follows for any such operation.
\<close>

locale replayable =
  fixes exec :: "proposed_operation \<Rightarrow> exec_result op"
  assumes frame: "exec op d = Inr (r, d') \<Longrightarrow> d_proposals d' = d_proposals d \<and> d_audit d' = d_audit d"
begin

text \<open>A replay that ends without failure leaves one audit row per operation, in order.\<close>

lemma replay_rows:
  "replay_operations exec e cid pid user ops d = Inr (None, d') \<Longrightarrow>
    \<exists>rows. d_audit d' = d_audit d @ rows \<and> length rows = length ops \<and>
      list_all2 (\<lambda>op row. au_proposal_id row = Some pid \<and> au_actor_user_id row = Some (u_id user) \<and>
        au_client_id row = Some cid \<and> au_entity row = o_entity_type op) ops rows"
proof (induction ops arbitrary: d)
  case (Cons op ops)
  obtain r d1 where ex: "exec op d = Inr (r, d1)"
    using Cons.prems by (auto split: sum.splits exn.splits)
  let ?op' = "executed_row r op"
  let ?d2 = "put_operation pid ?op' d1"
  let ?row = "audit_of e cid pid user (d_next_id ?d2) ?op'"
  let ?d3 = "?d2\<lparr>d_next_id := Suc (d_next_id ?d2), d_audit := d_audit ?d2 @ [?row]\<rparr>"
  have rest: "replay_operations exec e cid pid user ops ?d3 = Inr (None, d')"
    using Cons.prems ex by (auto simp: Let_def result_simps split: if_splits)
  from Cons.IH [OF this] obtain rows where rows: "d_audit d' = d_audit ?d3 @ rows" "length rows = length ops"
    "list_all2 (\<lambda>op row. au_proposal_id row = Some pid \<and> au_actor_user_id row = Some (u_id user) \<and>
        au_client_id row = Some cid \<and> au_entity row = o_entity_type op) ops rows" by blast
  have "d_audit ?d3 = d_audit d @ [?row]"
    using frame [OF ex] by (simp add: put_operation_def put_proposal_def)
  moreover have "au_entity ?row = o_entity_type op"
    by (simp add: audit_of_def executed_row_def split: prod.split)
  ultimately show ?case
    using rows by (intro exI [of _ "?row # rows"]) (simp add: audit_of_def)
qed simp

text \<open>Whatever the replay does, the other proposals stay, and this one keeps its identity and status.\<close>

lemma replay_proposals:
  "replay_operations exec e cid pid user ops d = Inr (f, d') \<Longrightarrow>
    (\<forall>q. q \<noteq> pid \<longrightarrow> proposal_get q d' = proposal_get q d) \<and>
    map (\<lambda>p. (p_id p, p_client_id p, p_status p, length (p_operations p))) (d_proposals d') =
    map (\<lambda>p. (p_id p, p_client_id p, p_status p, length (p_operations p))) (d_proposals d)"
proof (induction ops arbitrary: d)
  case (Cons op ops)
  show ?case
  proof (cases "exec op d")
    case (Inl err)
    with Cons.prems show ?thesis by (cases err) auto
  next
    case (Inr x)
    then obtain r d1 where ex: "exec op d = Inr (r, d1)" by (cases x) auto
    let ?op' = "executed_row r op"
    let ?d2 = "put_operation pid ?op' d1"
    let ?row = "audit_of e cid pid user (d_next_id ?d2) ?op'"
    let ?d3 = "?d2\<lparr>d_next_id := Suc (d_next_id ?d2), d_audit := d_audit ?d2 @ [?row]\<rparr>"
    have rest: "replay_operations exec e cid pid user ops ?d3 = Inr (f, d')"
      using Cons.prems ex by (auto simp: Let_def result_simps split: if_splits)
    have p: "d_proposals ?d3 = update_by p_id pid (\<lambda>p. p\<lparr>p_operations :=
        update_by o_seq (o_seq ?op') (\<lambda>_. ?op') (p_operations p)\<rparr>) (d_proposals d)"
      using frame [OF ex] by (simp add: put_operation_def put_proposal_def)
    have "proposal_get q ?d3 = proposal_get q d" if "q \<noteq> pid" for q
      using that by (simp add: proposal_get_def p find_by_update_by)
    moreover have "map (\<lambda>p. (p_id p, p_client_id p, p_status p, length (p_operations p))) (d_proposals ?d3) =
        map (\<lambda>p. (p_id p, p_client_id p, p_status p, length (p_operations p))) (d_proposals d)"
      by (auto simp: p update_by_def)
    ultimately show ?thesis using Cons.IH [OF rest] by simp
  qed
qed simp

end

section \<open>The operations satisfy the contract\<close>

definition keeps :: "db \<Rightarrow> exn + 'a \<times> db \<Rightarrow> bool" where
  "keeps d m \<longleftrightarrow> (\<forall>x d'. m = Inr (x, d') \<longrightarrow> d_proposals d' = d_proposals d \<and> d_audit d' = d_audit d)"

named_theorems keeps_intros "how sequencing keeps the proposals and the audit trail"

lemma keeps_Inl [keeps_intros]: "keeps d (Inl e)"
  by (simp add: keeps_def)

lemma keeps_need [keeps_intros]: "(\<And>v. keeps d (f v)) \<Longrightarrow> keeps d (bindR (need x) f)"
  by (auto simp: keeps_def need_def bindR_eq_Inr)

lemma keeps_pure [keeps_intros]: "(\<And>v. keeps d (f v)) \<Longrightarrow> keeps d (bindR (parse_caps vs) f)"
  by (auto simp: keeps_def bindR_eq_Inr)

lemma keeps_result:
  "keeps d m \<Longrightarrow> (\<And>x d1. m = Inr (x, d1) \<Longrightarrow> \<exists>y. f (x, d1) = Inr (y, d1)) \<Longrightarrow> keeps d (bindR m f)"
  by (fastforce simp: keeps_def bindR_eq_Inr)

lemma keeps_create: "keeps d (apply_create_task e cid tc a d)"
  by (auto simp: keeps_def task_add_def dest: apply_create_task_Inr(2))

lemma keeps_duplicate: "keeps d (apply_duplicate_task e cid tid a d)"
  by (auto simp: keeps_def task_add_def elim: apply_duplicate_task_Inr)

lemma keeps_update_task: "keeps d (apply_update_task e cid tid u d)"
  by (auto simp: keeps_def elim: apply_update_task_Inr)

lemma keeps_delete: "keeps d (apply_delete_task cid tid d)"
  by (auto simp: keeps_def task_remove_def elim: apply_delete_task_Inr)

lemma keeps_note: "keeps d (apply_add_note e cid tid body uid d)"
  by (auto simp: keeps_def dest: apply_add_note_Inr)

lemma keeps_assign: "keeps d (apply_assign e cid uid b caps d)"
  by (auto simp: keeps_def assignment_add_def dest!: apply_assign_Inr(1))

lemma keeps_set_caps: "keeps d (apply_set_capabilities cid uid caps d)"
  by (auto simp: keeps_def elim: apply_set_capabilities_Inr)

lemma keeps_unassign: "keeps d (apply_unassign cid uid d)"
  by (auto simp: keeps_def assignment_delete_def dest!: apply_unassign_Inr(1))

lemma keeps_client: "keeps d (apply_update_client e cid u d)"
  by (auto simp: keeps_def dest: apply_update_client_frame)

lemma keeps_brand: "keeps d (apply_update_brand e c u d)"
  by (auto simp: keeps_def dest: apply_update_brand_frame)

lemma keeps_user: "keeps d (apply_update_user e uid u d)"
  by (auto simp: keeps_def dest: apply_update_user_frame)

lemmas keeps_ops = keeps_create keeps_duplicate keeps_update_task keeps_delete keeps_note keeps_assign
  keeps_set_caps keeps_unassign keeps_client keeps_brand keeps_user

lemma keeps_execute_plan_task: "keeps d (execute_plan_task e cid op d)"
  unfolding execute_plan_task_def Let_def
  by (auto split: operation_type.split option.split op_data.split
      intro!: keeps_intros keeps_result keeps_ops)

lemma keeps_execute_assignment: "keeps d (execute_assignment e cid op d)"
proof -
  have caps: "keeps d (bindR (case c of None \<Rightarrow> Inr None
      | Some vs \<Rightarrow> if vs = [] then Inr None else bindR (parse_caps vs) (\<lambda>cs. Inr (Some cs))) f)"
    if "\<And>v. keeps d (f v)" for c and f :: "capability list option \<Rightarrow> exn + exec_result \<times> db"
    using that by (auto simp: keeps_def bindR_eq_Inr split: option.splits if_splits)
  show ?thesis
    unfolding execute_assignment_def Let_def
    by (auto split: operation_type.split intro!: keeps_intros caps keeps_result keeps_ops)
qed

lemma keeps_execute: "keeps d (execute_operation e cid op d)"
  unfolding execute_operation_def Let_def
  by (auto split: option.split op_data.split
      intro!: keeps_intros keeps_result keeps_ops keeps_execute_plan_task keeps_execute_assignment)

interpretation engine: replayable "execute_operation e cid" for e cid
  by unfold_locales (use keeps_execute in \<open>auto simp: keeps_def\<close>)

section \<open>Lemmas: the claim\<close>

lemma proposal_for_client_get:
  assumes "distinct (map p_id (d_proposals d))" "proposal_for_client cid pid d = Some p"
  shows "proposal_get pid d = Some p" "p_id p = pid" "p_client_id p = cid"
proof -
  have p: "p \<in> set (d_proposals d)" "p_id p = pid" "p_client_id p = cid"
    using assms(2) by (auto simp: proposal_for_client_def find_Some_iff)
  then show "p_id p = pid" "p_client_id p = cid" by simp_all
  show "proposal_get pid d = Some p"
    using find_by_unique [OF assms(1) p(1)] p(2) by (simp add: proposal_get_def)
qed

lemma put_proposal_get: "(\<And>p. p_id (f p) = p_id p) \<Longrightarrow>
    proposal_get q (put_proposal pid f d) = (if q = pid then map_option f (proposal_get q d) else proposal_get q d)"
  by (simp add: proposal_get_def put_proposal_def find_by_update_by)

lemma put_proposal_ids: "(\<And>p. p_id (f p) = p_id p) \<Longrightarrow> map p_id (d_proposals (put_proposal pid f d)) = map p_id (d_proposals d)"
  by (simp add: put_proposal_def keys_update_by)

lemma put_proposal_frame: "(put_proposal pid f d)\<lparr>d_proposals := ps\<rparr> = d\<lparr>d_proposals := ps\<rparr>"
  "d_audit (put_proposal pid f d) = d_audit d"
  by (simp_all add: put_proposal_def)

definition claimed :: "uuid \<Rightarrow> db \<Rightarrow> db" where
  "claimed pid d = put_proposal pid (\<lambda>p. if p_status p = Prop_pending_approval then p\<lparr>p_status := Prop_executing\<rparr> else p) d"

lemma claim_pending:
  assumes "distinct (map p_id (d_proposals d))" "proposal_get pid d = Some p"
  shows "claim_for_execution pid d =
    (if p_status p = Prop_pending_approval then (1, claimed pid d) else (0, d))"
proof -
  have p: "p \<in> set (d_proposals d)" "p_id p = pid"
    using assms(2) by (auto simp: proposal_get_def dest: find_by_key find_by_in_set)
  have one: "length (filter (\<lambda>x. p_id x = pid \<and> p_status x = Prop_pending_approval) xs) =
      (if p \<in> set xs \<and> p_status p = Prop_pending_approval then 1 else 0)"
    if "distinct (map p_id xs)" "set xs \<subseteq> set (d_proposals d)" for xs
  proof -
    have only: "x = p" if "x \<in> set (d_proposals d)" "p_id x = pid" for x
      using that p assms(1) by (auto simp: distinct_map inj_on_def)
    show ?thesis
      using \<open>distinct (map p_id xs)\<close> \<open>set xs \<subseteq> _\<close>
    proof (induction xs)
      case (Cons x xs)
      then show ?case using only [of x] p(2) by (auto simp: image_iff)
    qed simp
  qed
  have same: "put_proposal pid (\<lambda>p. if p_status p = Prop_pending_approval then p\<lparr>p_status := Prop_executing\<rparr> else p) d = d"
    if "p_status p \<noteq> Prop_pending_approval"
  proof -
    have "x = p" if "x \<in> set (d_proposals d)" "p_id x = pid" for x
      using that p assms(1) by (auto simp: distinct_map inj_on_def)
    with that have "update_by p_id pid (\<lambda>p. if p_status p = Prop_pending_approval then p\<lparr>p_status := Prop_executing\<rparr> else p)
        (d_proposals d) = d_proposals d"
      by (intro update_by_same) auto
    then show ?thesis by (simp add: put_proposal_def)
  qed
  show ?thesis
    using one [of "d_proposals d"] assms(1) p(1) same
    by (simp add: claim_for_execution_def claimed_def)
qed

lemma claimed_get: "proposal_get pid d = Some p \<Longrightarrow> p_status p = Prop_pending_approval \<Longrightarrow>
    proposal_get pid (claimed pid d) = Some (p\<lparr>p_status := Prop_executing\<rparr>)"
  by (simp add: claimed_def put_proposal_get)

lemma claimed_other: "q \<noteq> pid \<Longrightarrow> proposal_get q (claimed pid d) = proposal_get q d"
  by (simp add: claimed_def put_proposal_get)

lemma claimed_frame: "(claimed pid d)\<lparr>d_proposals := ps\<rparr> = d\<lparr>d_proposals := ps\<rparr>"
  "d_audit (claimed pid d) = d_audit d" "d_tasks (claimed pid d) = d_tasks d"
  "d_clients (claimed pid d) = d_clients d" "d_users (claimed pid d) = d_users d"
  "d_assignments (claimed pid d) = d_assignments d"
  by (simp_all add: claimed_def put_proposal_def)

lemma claimed_ids: "map p_id (d_proposals (claimed pid d)) = map p_id (d_proposals d)"
  by (simp add: claimed_def put_proposal_ids)

lemma snapshot_cong: "d_tasks d = d_tasks d' \<Longrightarrow> d_clients d = d_clients d' \<Longrightarrow> d_users d = d_users d' \<Longrightarrow>
    matches_live_snapshot d cid op = matches_live_snapshot d' cid op"
  by (simp add: matches_live_snapshot_def get_for_client_def client_get_def user_get_def cong: option.case_cong)

lemma caps_cong: "d_assignments d = d_assignments d' \<Longrightarrow> effective_capabilities d user cid = effective_capabilities d' user cid"
  by (simp add: effective_capabilities_def assignment_get_def cong: option.case_cong)

lemma authorization_None:
  "authorization_failure caps user ops = Inr None \<Longrightarrow> op \<in> set ops \<Longrightarrow>
    (o_requires_admin op \<longrightarrow> u_role user = Role_admin) \<and>
    (\<forall>rc. o_required_capability op = Some rc \<longrightarrow> rc \<noteq> [] \<longrightarrow> (\<exists>c. parse_cap rc = Some c \<and> c \<in> caps))"
  by (induction ops) (auto simp: Let_def split: option.splits if_splits)

section \<open>Lemmas: the outcomes of an approval\<close>

lemma authorization_Inl: "authorization_failure caps user ops = Inl err \<Longrightarrow> \<exists>m. err = Crash m"
  by (induction ops) (auto simp: Let_def split: option.splits if_splits)

lemma replay_Inl: "replay_operations exec e cid pid user ops d = Inl err \<Longrightarrow> \<exists>m. err = Crash m"
proof (induction ops arbitrary: d)
  case (Cons op ops)
  show ?case
  proof (cases "exec op d")
    case (Inl x)
    with Cons.prems show ?thesis by (cases x) auto
  next
    case (Inr x)
    with Cons show ?thesis
      by (cases x) (auto simp: Let_def bindR_eq_Inl flush_eq_Inl flush_eq_Inr split: if_splits)
  qed
qed simp

definition failing :: "(change_proposal \<Rightarrow> change_proposal) \<Rightarrow> bool" where
  "failing f \<longleftrightarrow> (\<forall>p. p_id (f p) = p_id p \<and> p_client_id (f p) = p_client_id p \<and> p_status (f p) = Prop_failed \<and>
     length (p_operations (f p)) = length (p_operations p))"

lemma validate_cases:
  assumes "validate_and_execute e user p d = res"
  obtains (failed) f where "res = Inr (put_proposal (p_id p) f d)" "failing f"
  | (completed) d1 where "\<not> expired (e_now e) p"
      "authorization_failure (effective_capabilities d user (p_client_id p)) user (p_operations p) = Inr None"
      "list_all (matches_live_snapshot d (p_client_id p)) (p_operations p)"
      "replay_operations (execute_operation e (p_client_id p)) e (p_client_id p) (p_id p) user (p_operations p) d = Inr (None, d1)"
      "res = Inr (complete_proposal e (p_id p) user d1)" "db_constraints (complete_proposal e (p_id p) user d1)"
  | (crashed) m where "res = Inl (Crash m)"
proof -
  have pre: "\<exists>f. fail_preflight (p_id p) reason d = put_proposal (p_id p) f d \<and> failing f" for reason
    unfolding fail_preflight_def by (rule exI, rule conjI, rule refl) (simp add: failing_def)
  have rec: "\<exists>f. record_failure (p_id p) seq msg d = put_proposal (p_id p) f d \<and> failing f" for seq msg
    unfolding record_failure_def by (rule exI, rule conjI, rule refl) (simp add: failing_def)
  note v = assms [unfolded validate_and_execute_def Let_def]
  show thesis
  proof (cases "expired (e_now e) p")
    case True
    with v have "res = Inr (fail_preflight (p_id p) ''This proposal has expired.'' d)" by simp
    with pre failed show thesis by metis
  next
    case ne: False
    show thesis
    proof (cases "authorization_failure (effective_capabilities d user (p_client_id p)) user (p_operations p)")
      case (Inl err)
      with authorization_Inl obtain m where "err = Crash m" by blast
      with v ne Inl have "res = Inl (Crash m)" by simp
      then show thesis by (rule crashed)
    next
      case au: (Inr refusal)
      show thesis
      proof (cases refusal)
        case (Some reason)
        with v ne au have "res = Inr (fail_preflight (p_id p) reason d)" by simp
        with pre failed show thesis by metis
      next
        case rn: None
        show thesis
        proof (cases "list_all (matches_live_snapshot d (p_client_id p)) (p_operations p)")
          case False
          with v ne au rn have "res = Inr (fail_preflight (p_id p)
              ''This has changed since the proposal was created. Please review the updated values.'' d)" by simp
          with pre failed show thesis by metis
        next
          case sn: True
          show thesis
          proof (cases "replay_operations (execute_operation e (p_client_id p)) e (p_client_id p) (p_id p) user (p_operations p) d")
            case (Inl err)
            with replay_Inl obtain m where "err = Crash m" by blast
            with v ne au rn sn Inl have "res = Inl (Crash m)" by simp
            then show thesis by (rule crashed)
          next
            case (Inr x)
            obtain f d1 where x: "x = (f, d1)" by (cases x)
            show thesis
            proof (cases f)
              case None
              show thesis
              proof (cases "db_constraints (complete_proposal e (p_id p) user d1)")
                case True
                with v ne au rn sn Inr x None have "res = Inr (complete_proposal e (p_id p) user d1)"
                  by (simp add: flush_def)
                with True ne au rn sn Inr x None show thesis by (intro completed) simp_all
              next
                case False
                with v ne au rn sn Inr x None have "res = Inl (Crash ''DBAPIError'')" by (simp add: flush_def)
                then show thesis by (rule crashed)
              qed
            next
              case (Some sm)
              obtain seq msg where sm: "sm = (seq, msg)" by (cases sm)
              from v ne au rn sn Inr x Some sm have "res = Inr (record_failure (p_id p) seq msg d)" by simp
              with rec failed show thesis by metis
            qed
          qed
        qed
      qed
    qed
  qed
qed

lemma approve_cases:
  assumes dist: "distinct (map p_id (d_proposals d))" and app: "approve e cid pid user d = (r, d')"
  obtains (noop) "d' = d"
  | (failed) p f where "proposal_for_client cid pid d = Some p" "p_status p = Prop_pending_approval"
      "u_role user \<noteq> Role_user" "can_access d user cid" "d' = put_proposal pid f (claimed pid d)" "failing f"
  | (completed) p d1 where "proposal_for_client cid pid d = Some p" "p_status p = Prop_pending_approval"
      "u_role user \<noteq> Role_user" "can_access d user cid" "\<not> expired (e_now e) p"
      "authorization_failure (effective_capabilities d user cid) user (p_operations p) = Inr None"
      "list_all (matches_live_snapshot d cid) (p_operations p)"
      "replay_operations (execute_operation e cid) e cid pid user (p_operations p) (claimed pid d) = Inr (None, d1)"
      "d' = complete_proposal e pid user d1" "db_constraints d'"
  | (crashed) p m where "proposal_for_client cid pid d = Some p" "p_status p = Prop_pending_approval"
      "u_role user \<noteq> Role_user" "can_access d user cid" "d' = claimed pid d" "r = Inl (Crash m)"
proof -
  show thesis
  proof (cases "get_client d user cid")
    case (Inl err)
    with app noop show thesis by (simp add: approve_def)
  next
    case c: (Inr c)
    then have acc: "can_access d user cid" by (simp add: get_client_eq_Inr)
    show thesis
    proof (cases "u_role user = Role_user")
      case True
      with app c noop show thesis by (simp add: approve_def)
    next
      case role: False
      show thesis
      proof (cases "proposal_for_client cid pid d")
        case None
        with app c role noop show thesis by (simp add: approve_def get_proposal_def)
      next
        case (Some p)
        note g = proposal_for_client_get [OF dist Some]
        show thesis
        proof (cases "p_status p = Prop_pending_approval")
          case False
          with app c role Some claim_pending [OF dist g(1)] noop show thesis
            by (simp add: approve_def get_proposal_def)
        next
          case pend: True
          let ?p = "p\<lparr>p_status := Prop_executing\<rparr>"
          let ?v = "validate_and_execute e user ?p (claimed pid d)"
          have res: "(r, d') = (case ?v of Inl err \<Rightarrow> (Inl err, claimed pid d)
              | Inr d2 \<Rightarrow> (Inr (proposal_get pid d2), d2))"
            using app c role Some claim_pending [OF dist g(1)] pend claimed_get [OF g(1) pend]
            by (simp add: approve_def get_proposal_def)
          have sn: "matches_live_snapshot (claimed pid d) cid = matches_live_snapshot d cid"
            by (intro ext snapshot_cong) (simp_all add: claimed_frame)
          have cp: "effective_capabilities (claimed pid d) user cid = effective_capabilities d user cid"
            by (rule caps_cong) (simp add: claimed_frame)
          have ex: "expired (e_now e) ?p = expired (e_now e) p" by (simp add: expired_def)
          show thesis
            using refl [of ?v]
          proof (cases rule: validate_cases)
            case (failed f)
            from that(2) [OF Some pend role acc _ failed(2)] res failed(1) g show thesis by simp
          next
            case (completed d1)
            from that(3) [OF Some pend role acc] res completed g sn cp ex show thesis by simp
          next
            case (crashed m)
            from that(4) [OF Some pend role acc] res crashed show thesis by simp
          qed
        qed
      qed
    qed
  qed
qed

lemma complete_proposal_get: "proposal_get pid d1 = Some p \<Longrightarrow>
    \<exists>p'. proposal_get pid (complete_proposal e pid user d1) = Some p' \<and> p_status p' = Prop_completed \<and>
      p_approved_by_user_id p' = Some (u_id user) \<and> length (p_operations p') = length (p_operations p)"
  by (simp add: complete_proposal_def put_proposal_get)

lemma complete_proposal_frame: "d_audit (complete_proposal e pid user d1) = d_audit d1"
  "q \<noteq> pid \<Longrightarrow> proposal_get q (complete_proposal e pid user d1) = proposal_get q d1"
  "map p_id (d_proposals (complete_proposal e pid user d1)) = map p_id (d_proposals d1)"
  by (simp_all add: complete_proposal_def put_proposal_get put_proposal_frame put_proposal_ids)

lemma proposal_get_summary:
  assumes "map (\<lambda>p. (p_id p, p_client_id p, p_status p, length (p_operations p))) (d_proposals d') =
      map (\<lambda>p. (p_id p, p_client_id p, p_status p, length (p_operations p))) (d_proposals d)"
    and "proposal_get pid d = Some p"
  shows "\<exists>p'. proposal_get pid d' = Some p' \<and> p_status p' = p_status p \<and> p_client_id p' = p_client_id p \<and>
    length (p_operations p') = length (p_operations p)"
proof -
  have "\<exists>p'. find_by p_id pid xs = Some p' \<and> p_status p' = p_status p \<and> p_client_id p' = p_client_id p \<and>
      length (p_operations p') = length (p_operations p)"
    if "map (\<lambda>p. (p_id p, p_client_id p, p_status p, length (p_operations p))) xs =
      map (\<lambda>p. (p_id p, p_client_id p, p_status p, length (p_operations p))) ys" "find_by p_id pid ys = Some p" for xs ys
    using that
  proof (induction ys arbitrary: xs)
    case (Cons y ys)
    then show ?case by (cases xs) (auto split: if_splits)
  qed simp
  with assms show ?thesis by (simp add: proposal_get_def)
qed

lemma summary_ids:
  assumes "map (\<lambda>p. (p_id p, p_client_id p, p_status p, length (p_operations p))) ps =
      map (\<lambda>p. (p_id p, p_client_id p, p_status p, length (p_operations p))) qs"
  shows "map p_id ps = map p_id qs"
  using arg_cong [OF assms, of "map fst"] by (simp add: comp_def)

end
