(* ===== verification/Approval.thy ===== *)
theory Approval
  imports Proposals
begin

text \<open>
  What the proposal engine promises: an approval commits all of a proposal or none of it, only for
  someone who may, at most once, and a proposal that has ended never changes again.
\<close>

section \<open>Outcomes of one approval\<close>

definition row_of_operation :: "uuid \<Rightarrow> uuid \<Rightarrow> user \<Rightarrow> proposed_operation \<Rightarrow> audit_log \<Rightarrow> bool" where
  "row_of_operation pid cid user op row \<longleftrightarrow> au_proposal_id row = Some pid \<and> au_actor_user_id row = Some (u_id user) \<and>
     au_client_id row = Some cid \<and> au_entity row = o_entity_type op"

lemma replay_audit_rows:
  assumes "replay_operations (execute_operation e cid) e cid pid user ops d = Inr (None, d')"
  shows "\<exists>rows. d_audit d' = d_audit d @ rows \<and> list_all2 (row_of_operation pid cid user) ops rows"
  using engine.replay_rows [OF assms] by (auto simp: row_of_operation_def [abs_def])

lemma replay_get:
  assumes "replay_operations (execute_operation e cid) e cid pid user ops d = Inr (f, d')"
    and "proposal_get pid d = Some p"
  shows "\<exists>p'. proposal_get pid d' = Some p' \<and> p_status p' = p_status p \<and> p_client_id p' = p_client_id p \<and>
    length (p_operations p') = length (p_operations p)"
  using proposal_get_summary [OF conjunct2 [OF engine.replay_proposals [OF assms(1)]] assms(2)] .

lemma failing_get:
  assumes "failing f" "proposal_get pid d = Some p"
  shows "proposal_get pid (put_proposal pid f d) = Some (f p)"
  using assms by (subst put_proposal_get) (auto simp: failing_def)

lemma completed_get:
  assumes "replay_operations (execute_operation e cid) e cid pid user ops (claimed pid d) = Inr (None, d1)"
    and "proposal_get pid d = Some p" "p_status p = Prop_pending_approval"
  shows "\<exists>p'. proposal_get pid (complete_proposal e pid user d1) = Some p' \<and> p_status p' = Prop_completed \<and>
    p_approved_by_user_id p' = Some (u_id user) \<and> length (p_operations p') = length (p_operations p)"
proof -
  from replay_get [OF assms(1) claimed_get [OF assms(2,3)]] obtain p1
    where "proposal_get pid d1 = Some p1" "length (p_operations p1) = length (p_operations p)" by auto
  with complete_proposal_get [of pid d1 p1] show ?thesis by fastforce
qed

lemma put_claimed_frame: "(put_proposal pid f (claimed pid d))\<lparr>d_proposals := d_proposals d\<rparr> = d"
  "(claimed pid d)\<lparr>d_proposals := d_proposals d\<rparr> = d"
  by (simp_all add: claimed_def put_proposal_def)

text \<open>
  C1. Approval is all or nothing. It leaves the database as it was; or it fails the proposal and no
  other table moves; or it completes it, and every operation of the proposal has exactly one audit
  row, in the order of the operations, naming the proposal, the client and the approver; or an
  unexpected exception leaves the call with the proposal claimed and no other table moved.
\<close>

theorem approve_all_or_nothing:
  assumes dist: "distinct (map p_id (d_proposals d))" and get: "proposal_for_client cid pid d = Some p"
    and app: "approve e cid pid user d = (r, d')"
  shows "d' = d \<or>
    (d'\<lparr>d_proposals := d_proposals d\<rparr> = d \<and> (\<exists>p'. proposal_get pid d' = Some p' \<and> p_status p' = Prop_failed)) \<or>
    (\<exists>p' rows. proposal_get pid d' = Some p' \<and> p_status p' = Prop_completed \<and>
       p_approved_by_user_id p' = Some (u_id user) \<and> d_audit d' = d_audit d @ rows \<and>
       list_all2 (row_of_operation pid cid user) (p_operations p) rows) \<or>
    (d'\<lparr>d_proposals := d_proposals d\<rparr> = d \<and> proposal_get pid d' = Some (p\<lparr>p_status := Prop_executing\<rparr>) \<and>
       (\<exists>m. r = Inl (Crash m)))"
proof -
  note g = proposal_for_client_get [OF dist get]
  show ?thesis
    using dist app
  proof (cases rule: approve_cases)
    case noop
    then show ?thesis by simp
  next
    case (failed p1 f)
    then have "proposal_get pid d' = Some (f (p\<lparr>p_status := Prop_executing\<rparr>))"
      using get failing_get [OF failed(6) claimed_get [OF g(1)]] by simp
    moreover have "p_status (f (p\<lparr>p_status := Prop_executing\<rparr>)) = Prop_failed" using failed(6) by (simp add: failing_def)
    ultimately show ?thesis using failed(5) by (auto simp: put_claimed_frame)
  next
    case (completed p1 d1)
    then have p1: "p1 = p" using get by simp
    from replay_audit_rows [OF completed(8)] obtain rows where
      "d_audit d1 = d_audit d @ rows" "list_all2 (row_of_operation pid cid user) (p_operations p) rows"
      by (auto simp: claimed_frame p1)
    moreover from completed_get [OF completed(8) g(1)] completed(2) p1 obtain p' where
      "proposal_get pid d' = Some p'" "p_status p' = Prop_completed" "p_approved_by_user_id p' = Some (u_id user)"
      by (auto simp: completed(9))
    ultimately show ?thesis by (auto simp: completed(9) complete_proposal_frame)
  next
    case (crashed p1 m)
    then have "proposal_get pid d' = Some (p\<lparr>p_status := Prop_executing\<rparr>)"
      using get claimed_get [OF g(1)] by simp
    with crashed show ?thesis by (auto simp: put_claimed_frame)
  qed
qed

text \<open>
  C7. A proposal that an approval completes was pending, had not expired and had every staged
  snapshot equal to the live row; the approver may reach the client, is not a read-only user, is an
  administrator where an operation demands one and holds every capability the operations name.
\<close>

theorem completion_is_authorized:
  assumes "distinct (map p_id (d_proposals d))" "proposal_for_client cid pid d = Some p" "approve e cid pid user d = (r, d')"
    and "p_status p \<noteq> Prop_completed" "proposal_get pid d' = Some p'" "p_status p' = Prop_completed"
  shows "p_status p = Prop_pending_approval \<and> \<not> expired (e_now e) p \<and> can_access d user cid \<and> u_role user \<noteq> Role_user \<and>
    (\<forall>op \<in> set (p_operations p). matches_live_snapshot d cid op \<and>
      (o_requires_admin op \<longrightarrow> u_role user = Role_admin) \<and>
      (\<forall>rc. o_required_capability op = Some rc \<longrightarrow> rc \<noteq> [] \<longrightarrow>
        (\<exists>c \<in> effective_capabilities d user cid. cap_value c = rc)))"
proof -
  note g = proposal_for_client_get [OF assms(1,2)]
  show ?thesis
    using assms(1,3)
  proof (cases rule: approve_cases)
    case noop
    with assms(4-6) g(1) show ?thesis by simp
  next
    case (failed p1 f)
    with assms(2) have "proposal_get pid d' = Some (f (p\<lparr>p_status := Prop_executing\<rparr>))"
      using failing_get [OF failed(6) claimed_get [OF g(1)]] by simp
    moreover have "p_status (f (p\<lparr>p_status := Prop_executing\<rparr>)) = Prop_failed" using failed(6) by (simp add: failing_def)
    ultimately show ?thesis using assms(5,6) by simp
  next
    case (completed p1 d1)
    then have p1: "p1 = p" using assms(2) by simp
    have "\<exists>c \<in> effective_capabilities d user cid. cap_value c = rc"
      if "op \<in> set (p_operations p)" "o_required_capability op = Some rc" "rc \<noteq> []" for op rc
      using authorization_None [OF completed(6)] that p1 by (auto simp: cap_enum.parse_eq_Some parse_cap_def)
    with completed authorization_None [OF completed(6)] p1 show ?thesis by (auto simp: list_all_iff)
  next
    case (crashed p1 m)
    with assms(2,5,6) claimed_get [OF g(1)] show ?thesis by simp
  qed
qed

text \<open>
  A read-only user decides nothing: approving and rejecting raise, whatever the proposal, and
  the database stays as it is.
\<close>

theorem read_only_user_decides_nothing:
  assumes "u_role user = Role_user"
  shows "snd (approve e cid pid user d) = d \<and> (\<exists>err. fst (approve e cid pid user d) = Inl err) \<and>
    (\<exists>err. reject cid pid user reason d = Inl err)"
  using assms by (auto simp: approve_def reject_def bindR_eq_Inl split: sum.splits)

section \<open>Runs\<close>

text \<open>
  A step of the system as the proposals see it: a call of the engine that commits, or a commit of
  any other service, which writes no proposal and no audit row of a proposal.
\<close>

definition proposal_rows :: "uuid \<Rightarrow> db \<Rightarrow> audit_log list" where
  "proposal_rows pid d = filter (\<lambda>a. au_proposal_id a = Some pid) (d_audit d)"

inductive proposal_step :: "db \<Rightarrow> db \<Rightarrow> bool" where
  step_create: "create_proposal e cid chat msg author request summary ops ttl d = Inr (p, d') \<Longrightarrow> proposal_step d d'"
| step_reject: "reject cid pid user reason d = Inr (p, d') \<Longrightarrow> proposal_step d d'"
| step_approve: "approve e cid pid user d = (r, d') \<Longrightarrow> proposal_step d d'"
| step_other: "d_proposals d' = d_proposals d \<Longrightarrow> (\<And>pid. proposal_rows pid d' = proposal_rows pid d) \<Longrightarrow> proposal_step d d'"

inductive_cases proposal_stepE: "proposal_step d d'"

text \<open>Each completed proposal has the audit rows of its operations, every other one none.\<close>

definition audited_once :: "db \<Rightarrow> bool" where
  "audited_once d \<longleftrightarrow> distinct (map p_id (d_proposals d)) \<and>
     (\<forall>pid. length (proposal_rows pid d) = (case proposal_get pid d of
        Some p \<Rightarrow> if p_status p = Prop_completed then length (p_operations p) else 0 | None \<Rightarrow> 0))"

definition ended :: "proposal_status \<Rightarrow> bool" where
  "ended s \<longleftrightarrow> s \<in> {Prop_completed, Prop_failed, Prop_cancelled}"

lemma create_proposal_Inr:
  assumes "create_proposal e cid chat msg author request summary ops ttl d = Inr (p, d')"
  shows "d_proposals d' = d_proposals d @ [p]" "d_audit d' = d_audit d" "p_status p = Prop_pending_approval"
    "p_id p = d_next_id d" "db_constraints d'" "p_client_id p = cid"
    "p_operations p = map (\<lambda>(seq, s). staged_row seq s) (List.enumerate 0 ops)"
    "p_expires_at p = Some (e_now e + ttl * 60000000)"
  using assms by (auto simp: create_proposal_def fresh_id_def proposal_add_def Let_def result_simps split: if_splits)

lemma reject_Inr:
  assumes "reject cid pid user reason d = Inr (p, d')" "distinct (map p_id (d_proposals d))"
  obtains q f where "proposal_get pid d = Some q" "p_status q = Prop_pending_approval" "d' = put_proposal pid f d"
    "\<And>p. p_id (f p) = p_id p" "\<And>p. p_status (f p) = Prop_cancelled"
proof -
  from assms(1) obtain q where q: "proposal_for_client cid pid d = Some q" "p_status q = Prop_pending_approval"
    and d': "\<exists>f. d' = put_proposal pid f d \<and> (\<forall>p. p_id (f p) = p_id p \<and> p_status (f p) = Prop_cancelled)"
    by (fastforce simp: reject_def get_proposal_def Let_def result_simps split: if_splits)
  from that proposal_for_client_get(1) [OF assms(2) q(1)] q(2) d' show thesis by blast
qed

lemma proposal_rows_cong: "d_audit d = d_audit d' \<Longrightarrow> proposal_rows pid d = proposal_rows pid d'"
  by (simp add: proposal_rows_def)

lemma proposal_rows_append:
  assumes "d_audit d' = d_audit d @ rows" "list_all2 (row_of_operation pid cid user) ops rows"
  shows "length (proposal_rows q d') = length (proposal_rows q d) + (if q = pid then length ops else 0)"
proof -
  have "length (filter (\<lambda>a. au_proposal_id a = Some q) rows) = (if q = pid then length ops else 0)"
    using assms(2) by (induction rule: list_all2_induct) (auto simp: row_of_operation_def)
  with assms(1) show ?thesis by (simp add: proposal_rows_def)
qed

text \<open>What one approval does to the proposals and to their audit rows.\<close>

lemma approve_effect:
  assumes dist: "distinct (map p_id (d_proposals d))" and app: "approve e cid pid user d = (r, d')"
  obtains (same) "d' = d"
  | (moved) p p' where "proposal_get pid d = Some p" "p_status p = Prop_pending_approval"
      "proposal_get pid d' = Some p'" "map p_id (d_proposals d') = map p_id (d_proposals d)"
      "\<And>q. q \<noteq> pid \<Longrightarrow> proposal_get q d' = proposal_get q d"
      "\<And>q. length (proposal_rows q d') = length (proposal_rows q d) +
        (if q = pid \<and> p_status p' = Prop_completed then length (p_operations p') else 0)"
  using dist app
proof (cases rule: approve_cases)
  case noop
  with same show thesis by simp
next
  case (failed p f)
  note g = proposal_for_client_get(1) [OF dist failed(1)]
  have f: "\<And>p. p_id (f p) = p_id p" using failed(6) by (simp add: failing_def)
  have "proposal_get pid d' = Some (f (p\<lparr>p_status := Prop_executing\<rparr>))"
    using failed(5) failing_get [OF failed(6) claimed_get [OF g failed(2)]] by simp
  moreover have "p_status (f (p\<lparr>p_status := Prop_executing\<rparr>)) = Prop_failed" using failed(6) by (simp add: failing_def)
  ultimately show thesis
    using failed(5) by (intro moved [OF g failed(2)])
      (auto simp: put_proposal_ids f claimed_ids put_proposal_get claimed_other proposal_rows_def put_proposal_frame claimed_frame)
next
  case (completed p d1)
  note g = proposal_for_client_get(1) [OF dist completed(1)]
  from replay_audit_rows [OF completed(8)] obtain rows where rows: "d_audit d1 = d_audit d @ rows"
      "list_all2 (row_of_operation pid cid user) (p_operations p) rows"
    by (auto simp: claimed_frame)
  from completed_get [OF completed(8) g completed(2)] obtain p' where
    p': "proposal_get pid d' = Some p'" "p_status p' = Prop_completed" "length (p_operations p') = length (p_operations p)"
    by (auto simp: completed(9))
  note rp = engine.replay_proposals [OF completed(8)]
  have au: "d_audit d' = d_audit d @ rows" by (simp add: completed(9) complete_proposal_frame rows(1))
  show thesis
  proof (rule moved [OF g completed(2) p'(1)])
    show "map p_id (d_proposals d') = map p_id (d_proposals d)"
      using summary_ids [OF conjunct2 [OF rp]] by (simp add: completed(9) complete_proposal_frame claimed_ids)
    show "proposal_get q d' = proposal_get q d" if "q \<noteq> pid" for q
      using that rp by (simp add: completed(9) complete_proposal_frame claimed_other)
    show "length (proposal_rows q d') = length (proposal_rows q d) +
        (if q = pid \<and> p_status p' = Prop_completed then length (p_operations p') else 0)" for q
      using proposal_rows_append [OF au rows(2), of q] p' by simp
  qed
next
  case (crashed p m)
  note g = proposal_for_client_get(1) [OF dist crashed(1)]
  show thesis
    using crashed(5) claimed_get [OF g crashed(2)]
    by (intro moved [OF g crashed(2)]) (auto simp: claimed_ids claimed_other proposal_rows_def claimed_frame)
qed

lemma audited_once_step:
  assumes "proposal_step d d'" "audited_once d"
  shows "audited_once d'"
proof -
  have dist: "distinct (map p_id (d_proposals d))" and once: "\<And>pid. length (proposal_rows pid d) =
      (case proposal_get pid d of Some p \<Rightarrow> if p_status p = Prop_completed then length (p_operations p) else 0 | None \<Rightarrow> 0)"
    using assms(2) by (simp_all add: audited_once_def)
  show ?thesis
    using assms(1)
  proof (cases rule: proposal_step.cases)
    case (step_create e cid chat msg author request summary ops ttl p)
    note c = create_proposal_Inr [OF step_create]
    have new: "p_id p \<notin> p_id ` set (d_proposals d)" and dist': "distinct (map p_id (d_proposals d'))"
      using c(5) by (auto simp: db_constraints_def c(1))
    have "length (proposal_rows pid d') = (case proposal_get pid d' of
        Some p \<Rightarrow> if p_status p = Prop_completed then length (p_operations p) else 0 | None \<Rightarrow> 0)" for pid
      using once [of pid] new c(3) proposal_rows_cong [OF c(2), of pid]
      by (cases "find_by p_id pid (d_proposals d)") (auto simp: proposal_get_def c(1) find_by_append)
    with dist' show ?thesis by (simp add: audited_once_def)
  next
    case (step_reject cid pid user reason p)
    from reject_Inr [OF this dist] obtain q f where r: "proposal_get pid d = Some q" "p_status q = Prop_pending_approval"
      "d' = put_proposal pid f d" and f: "\<And>p. p_id (f p) = p_id p" "\<And>p. p_status (f p) = Prop_cancelled" by metis
    with once dist show ?thesis
      by (auto simp: audited_once_def put_proposal_ids put_proposal_get proposal_rows_def put_proposal_frame)
  next
    case (step_approve e cid pid user r)
    from dist this show ?thesis
    proof (cases rule: approve_effect)
      case same
      with assms(2) show ?thesis by simp
    next
      case (moved p p')
      have "length (proposal_rows q d') = (case proposal_get q d' of
          Some p \<Rightarrow> if p_status p = Prop_completed then length (p_operations p) else 0 | None \<Rightarrow> 0)" for q
        using moved(6) [of q] once [of q] moved(1,2,3,5) by (cases "q = pid") auto
      with moved(4) dist show ?thesis by (simp add: audited_once_def)
    qed
  next
    case step_other
    with assms(2) show ?thesis by (simp add: audited_once_def proposal_get_def)
  qed
qed

lemma ended_step:
  assumes "proposal_step d d'" "distinct (map p_id (d_proposals d))" "proposal_get pid d = Some p" "ended (p_status p)"
  shows "proposal_get pid d' = Some p"
  using assms(1)
proof (cases rule: proposal_step.cases)
  case (step_create e cid chat msg author request summary ops ttl q)
  with assms(3) show ?thesis by (auto simp: proposal_get_def create_proposal_Inr(1) find_by_append split: option.splits)
next
  case (step_reject cid pid' user reason q)
  from reject_Inr [OF this assms(2)] show ?thesis
    using assms(3,4) by (metis (no_types, lifting) ended_def insert_iff option.inject proposal_status.distinct put_proposal_get singletonD)
next
  case (step_approve e cid pid' user r)
  from assms(2) this show ?thesis
  proof (cases rule: approve_effect)
    case (moved q p')
    with assms(3,4) show ?thesis by (cases "pid = pid'") (auto simp: ended_def)
  qed (use assms(3) in simp)
next
  case step_other
  with assms(3) show ?thesis by (simp add: proposal_get_def)
qed


text \<open>
  A completed, failed or cancelled proposal is final: no later run of the engine and of the other
  services changes its row.
\<close>

theorem ended_proposal_is_final:
  assumes "proposal_step\<^sup>*\<^sup>* d d'" "audited_once d" "proposal_get pid d = Some p" "ended (p_status p)"
  shows "proposal_get pid d' = Some p"
proof -
  have "audited_once d' \<and> proposal_get pid d' = Some p"
    using assms(1)
  proof (induction rule: rtranclp_induct)
    case base
    with assms(2,3) show ?case by simp
  next
    case (step d1 d2)
    with ended_step [OF step(2) _ _ assms(4)] audited_once_step [OF step(2)] show ?case by (simp add: audited_once_def)
  qed
  then show ?thesis by simp
qed

section \<open>A staged update is the update\<close>

lemma approve_pending:
  assumes dist: "distinct (map p_id (d_proposals d))" and acc: "get_client d user cid = Inr c" "u_role user \<noteq> Role_user"
    and p: "proposal_for_client cid pid d = Some p" "p_status p = Prop_pending_approval"
  shows "approve e cid pid user d = (case validate_and_execute e user (p\<lparr>p_status := Prop_executing\<rparr>) (claimed pid d) of
      Inl err \<Rightarrow> (Inl err, claimed pid d) | Inr d2 \<Rightarrow> (Inr (proposal_get pid d2), d2))"
  using acc p claim_pending [OF dist proposal_for_client_get(1) [OF dist p(1)]]
    claimed_get [OF proposal_for_client_get(1) [OF dist p(1)] p(2)]
  by (simp add: approve_def get_proposal_def)

lemma task_dict_touch [simp]: "task_dict fs (touch_task now t new) = task_dict fs new"
  by (simp add: task_dict_def)

text \<open>The same update in another state of the proposals and at another time gives the same diff.\<close>

lemma apply_update_task_again:
  assumes "apply_update_task e cid tid u d = Inr ((t', ch), d')" "d_tasks d2 = d_tasks d"
  obtains t where "get_for_client cid tid d = Some t" "apply_update_task e' cid tid u d2 =
    Inr ((touch_task (e_now e') t (patch_task u t), ch),
      d2\<lparr>d_tasks := update_by t_id tid (\<lambda>_. touch_task (e_now e') t (patch_task u t)) (d_tasks d)\<rparr>)"
  using assms(1)
proof (rule apply_update_task_Inr)
  fix t
  assume t: "get_for_client cid tid d = Some t"
    "\<not> inverted (merged (TF_start_date \<in> set (tu_fields u)) (tu_start_date u) (t_start_date t))
       (merged (TF_due_date \<in> set (tu_fields u)) (tu_due_date u) (t_due_date t))"
    "\<not> inverted (merged (TF_start_time \<in> set (tu_fields u)) (tu_start_time u) (t_start_time t))
       (merged (TF_end_time \<in> set (tu_fields u)) (tu_end_time u) (t_end_time t))"
    "t' = touch_task (e_now e) t (patch_task u t)"
    "ch = field_changes (task_dict (touched_fields u) t) (task_dict (touched_fields u) t')"
  have "get_for_client cid tid d2 = Some t" using t(1) assms(2) by (simp add: get_for_client_def)
  with t(2-5) assms(2) that [OF t(1)] show thesis by (simp add: apply_update_task_def get_task_def Let_def)
qed

text \<open>The staged operation, the proposal that holds it, and its replay.\<close>

definition staged_update :: "uuid \<Rightarrow> plan_task_update \<Rightarrow> plan_task \<Rightarrow> changes option \<Rightarrow> staged_operation" where
  "staged_update tid u t ch = \<lparr>so_operation_type = Op_update, so_entity_type = ''plan_task'', so_entity_id = Some tid,
     so_entity_label = t_title t, so_field_changes = ch,
     so_payload = empty_payload\<lparr>pl_data := Some (Data_task_update u)\<rparr>,
     so_base_snapshot = Some (t_updated_at t), so_required_capability = None, so_requires_admin = False\<rparr>"

lemma stage_plan_task_update_Inr:
  assumes "stage_plan_task_update e cid user tid u d = Inr s"
  obtains t t' ch d' where "get_for_client cid tid d = Some t" "apply_update_task e cid tid u d = Inr ((t', ch), d')"
    "s = staged_update tid u t ch" "client_get cid d \<noteq> None"
  using assms by (auto simp: stage_plan_task_update_def dry_run_def get_client_eq_Inr staged_update_def result_simps get_task_Inr
      split: sum.splits)

lemma get_for_client_update:
  assumes "get_for_client cid tid d = Some t" "t_id t' = t_id t" "t_client_id t' = t_client_id t"
    and "d_tasks d2 = update_by t_id tid (\<lambda>_. t') (d_tasks d)"
  shows "get_for_client cid tid d2 = Some t'"
proof -
  have t': "t_id t' = tid" "t_client_id t' = cid" using get_for_client_Some [OF assms(1)] assms(2,3) by simp_all
  have "find (\<lambda>t. t_id t = tid \<and> t_client_id t = cid) (update_by t_id tid (\<lambda>_. t') ts) = Some t'"
    if "find (\<lambda>t. t_id t = tid \<and> t_client_id t = cid) ts = Some t" for ts
    using that t' by (induction ts) (auto split: if_splits)
  with assms(1,4) show ?thesis by (simp add: get_for_client_def)
qed

lemma find_snoc: "find P (xs @ [x]) = (case find P xs of None \<Rightarrow> if P x then Some x else None | Some y \<Rightarrow> Some y)"
  by (induction xs) auto

lemma staged_update_passes:
  assumes "get_for_client cid tid d = Some t"
  shows "matches_live_snapshot d cid (staged_row n (staged_update tid u t ch))"
    "authorization_failure caps user [staged_row n (staged_update tid u t ch)] = Inr None"
  using assms by (simp_all add: matches_live_snapshot_def staged_row_def staged_update_def)

lemma execute_staged_update:
  "execute_operation e cid (staged_row n (staged_update tid u t ch)) d =
    bindR (apply_update_task e cid tid u d) (\<lambda>((task, ch'), d1). Inr ((Some (t_id task), t_title task, ch'), d1))"
  by (simp add: execute_operation_def execute_plan_task_def staged_row_def staged_update_def need_def)

text \<open>The whole of phase two for that proposal: it completes, or the database refuses the writes.\<close>

lemma validate_staged_update:
  assumes op: "p_operations p = [staged_row 0 (staged_update tid u t ch)]" and live: "\<not> expired (e_now e) p"
    and t: "get_for_client (p_client_id p) tid d = Some t" and get: "proposal_get (p_id p) d = Some p"
    and upd: "apply_update_task e (p_client_id p) tid u d = Inr ((t', ch), d\<lparr>d_tasks := ts\<rparr>)"
  shows "(\<exists>m. validate_and_execute e user p d = Inl (Crash m)) \<or>
    (\<exists>d2 p'. validate_and_execute e user p d = Inr d2 \<and> d_tasks d2 = ts \<and> proposal_get (p_id p) d2 = Some p' \<and>
      p_status p' = Prop_completed \<and> map o_field_changes (p_operations p') = [ch])"
proof -
  let ?op = "staged_row 0 (staged_update tid u t ch)"
  let ?op' = "executed_row (Some (t_id t'), t_title t', ch) ?op"
  let ?d2 = "put_operation (p_id p) ?op' (d\<lparr>d_tasks := ts\<rparr>)"
  let ?row = "audit_of e (p_client_id p) (p_id p) user (d_next_id ?d2) ?op'"
  let ?d3 = "?d2\<lparr>d_next_id := Suc (d_next_id ?d2), d_audit := d_audit ?d2 @ [?row]\<rparr>"
  let ?out = "complete_proposal e (p_id p) user ?d3"
  have ops: "o_seq ?op' = 0" "o_field_changes ?op' = ch"
    by (simp_all add: executed_row_def staged_row_def)
  have "o_seq ?op = 0" by (simp add: staged_row_def)
  then have up: "update_by o_seq 0 (\<lambda>_. ?op') [?op] = [?op']" by (simp add: update_by_def)
  have get2: "proposal_get (p_id p) ?d3 = Some (p\<lparr>p_operations := [?op']\<rparr>)"
    using get up by (simp add: proposal_get_def put_operation_def put_proposal_def find_by_update_by op ops)
  have run: "replay_operations (execute_operation e (p_client_id p)) e (p_client_id p) (p_id p) user (p_operations p) d =
      bindR (flush ?d3) (\<lambda>(_, d4). if audit_row_ok d4 ?row then Inr (None, d4) else Inl (Crash ''DBAPIError''))"
    by (cases "db_constraints ?d3") (simp_all add: op execute_staged_update upd Let_def flush_def)
  have val: "validate_and_execute e user p d =
      bindR (replay_operations (execute_operation e (p_client_id p)) e (p_client_id p) (p_id p) user (p_operations p) d)
        (\<lambda>(failure, d1). case failure of Some (seq, msg) \<Rightarrow> Inr (record_failure (p_id p) seq msg d)
          | None \<Rightarrow> bindR (flush (complete_proposal e (p_id p) user d1)) (\<lambda>(_, d2). Inr d2))"
    using live staged_update_passes [OF t] by (simp add: validate_and_execute_def Let_def op)
  have ts: "d_tasks ?out = ts" by (simp add: complete_proposal_def put_operation_def put_proposal_def)
  have fin: "\<exists>p'. proposal_get (p_id p) ?out = Some p' \<and> p_status p' = Prop_completed \<and> map o_field_changes (p_operations p') = [ch]"
    by (simp only: complete_proposal_def) (simp add: put_proposal_get get2 ops)
  show ?thesis
  proof (cases "db_constraints ?d3 \<and> audit_row_ok ?d3 ?row \<and> db_constraints ?out")
    case True
    then have ve: "validate_and_execute e user p d = Inr ?out"
      by (simp add: val run flush_def)
    have gen: ?thesis if "validate_and_execute e user p d = Inr d2" "d_tasks d2 = ts"
      "\<exists>p'. proposal_get (p_id p) d2 = Some p' \<and> p_status p' = Prop_completed \<and> map o_field_changes (p_operations p') = [ch]" for d2
      using that by simp
    show ?thesis by (rule gen [OF ve ts fin])
  next
    case False
    then have "\<exists>m. validate_and_execute e user p d = Inl (Crash m)"
      by (cases "db_constraints ?d3"; cases "audit_row_ok ?d3 ?row") (auto simp: val run flush_def)
    then show ?thesis by blast
  qed
qed


section \<open>Witnesses\<close>

abbreviation boss :: user where
  "boss \<equiv> sample_user 1 Role_admin"

definition plain_row :: "env \<Rightarrow> uuid \<Rightarrow> uuid \<Rightarrow> uuid \<Rightarrow> staged_operation list \<Rightarrow> int \<Rightarrow> change_proposal" where
  "plain_row e pid cid author ops ttl = \<lparr>p_id = pid, p_client_id = cid, p_chat_id = None, p_message_id = None,
     p_created_by_user_id = Some author, p_status = Prop_pending_approval, p_raw_request = Some [],
     p_summary = None, p_error = None, p_created_at = e_now e, p_expires_at = Some (e_now e + ttl * 60000000),
     p_approved_by_user_id = None, p_approved_at = None, p_executed_at = None,
     p_operations = map (\<lambda>(seq, s). staged_row seq s) (List.enumerate 0 ops)\<rparr>"

lemma create_plain: "create_proposal e cid None None author [] [] (s # ops) ttl d =
    (let p = plain_row e (d_next_id d) cid author (s # ops) ttl in
     bindR (flush (proposal_add p (d\<lparr>d_next_id := Suc (d_next_id d)\<rparr>))) (\<lambda>(_, d2). Inr (p, d2)))"
  by (simp add: create_proposal_def plain_row_def fresh_id_def Let_def)

definition demo_op :: staged_operation where
  "demo_op = projr (stage_plan_task_update sample_env 7 boss 20 status_patch board_db)"

definition status_proposal :: change_proposal where
  "status_proposal = plain_row sample_env 100 7 1 [demo_op] 45"

definition proposal_db :: db where
  "proposal_db = board_db\<lparr>d_next_id := 101, d_proposals := [status_proposal]\<rparr>"

lemma demo_staged: "stage_plan_task_update sample_env 7 boss 20 status_patch board_db = Inr demo_op"
  by code_simp

lemma demo_created:
  "create_proposal sample_env 7 None None (u_id boss) [] [] [demo_op] 45 board_db = Inr (status_proposal, proposal_db)"
proof -
  have "db_constraints proposal_db" by code_simp
  moreover have "proposal_add status_proposal (board_db\<lparr>d_next_id := Suc 100\<rparr>) = proposal_db"
    by (simp add: proposal_add_def proposal_db_def board_db_def empty_db_def)
  moreover have "d_next_id board_db = 100" "u_id boss = 1" by (simp_all add: board_db_def empty_db_def sample_user_def)
  ultimately show ?thesis unfolding create_plain Let_def by (simp add: flush_def status_proposal_def)
qed

abbreviation approved_db :: db where
  "approved_db \<equiv> snd (approve sample_env 7 100 boss proposal_db)"

lemma proposal_db_facts: "distinct (map p_id (d_proposals proposal_db))"
  "proposal_for_client 7 100 proposal_db = Some status_proposal" "proposal_get 100 proposal_db = Some status_proposal"
  by code_simp+

lemma approved_db_facts: "map p_status (d_proposals approved_db) = [Prop_completed]"
  "map t_status (d_tasks approved_db) = [Some Task_done, Some Task_in_progress]" "length (d_audit approved_db) = 1"
  "map p_id (d_proposals approved_db) = [100]"
  by code_simp+

lemma approved_db_get: "\<exists>p'. proposal_get 100 approved_db = Some p' \<and> p_status p' = Prop_completed"
proof -
  obtain p' where "d_proposals approved_db = [p']" using approved_db_facts(1) by (auto simp: map_eq_Cons_conv)
  with approved_db_facts(1,4) show ?thesis by (simp add: proposal_get_def)
qed

theorem approve_all_or_nothing_witness:
  "\<exists>p' rows. proposal_get 100 approved_db = Some p' \<and> p_status p' = Prop_completed \<and>
    d_audit approved_db = d_audit proposal_db @ rows \<and> list_all2 (row_of_operation 100 7 boss) (p_operations status_proposal) rows"
  using approve_all_or_nothing [OF proposal_db_facts(1,2) prod.collapse [symmetric], of sample_env boss]
    approved_db_get proposal_db_facts(3)
  by (auto simp: status_proposal_def plain_row_def)

theorem completion_is_authorized_witness:
  "can_access proposal_db boss 7 \<and> list_all (matches_live_snapshot proposal_db 7) (p_operations status_proposal)"
proof -
  obtain p' where "proposal_get 100 approved_db = Some p'" "p_status p' = Prop_completed" using approved_db_get by auto
  moreover have "p_status status_proposal \<noteq> Prop_completed" by (simp add: status_proposal_def plain_row_def)
  ultimately show ?thesis
    using completion_is_authorized [OF proposal_db_facts(1,2) prod.collapse [symmetric], of sample_env boss p']
    by (simp add: list_all_iff)
qed

theorem read_only_user_decides_nothing_witness:
  "snd (approve sample_env 7 100 (sample_user 2 Role_user) proposal_db) = proposal_db"
  using read_only_user_decides_nothing [of "sample_user 2 Role_user" sample_env 7 100 proposal_db None]
  by (simp add: sample_user_def)

text \<open>Staged, approved, and approved again.\<close>

lemma demo_run: "proposal_step\<^sup>*\<^sup>* board_db approved_db" "proposal_step\<^sup>*\<^sup>* approved_db (snd (approve sample_env 7 100 boss approved_db))"
proof -
  have step: "proposal_step d (snd (approve e cid pid user d))" for e cid pid user d
    by (rule step_approve [of e cid pid user d "fst (approve e cid pid user d)"]) simp
  have created: "proposal_step board_db proposal_db" by (rule step_create [OF demo_created])
  have approved: "proposal_step proposal_db approved_db" by (rule step)
  show "proposal_step\<^sup>*\<^sup>* board_db approved_db"
    by (rule rtranclp.rtrancl_into_rtrancl [where b = proposal_db, OF r_into_rtranclp, OF created approved])
  show "proposal_step\<^sup>*\<^sup>* approved_db (snd (approve sample_env 7 100 boss approved_db))"
    using step by (rule r_into_rtranclp)
qed

lemma board_db_blank: "d_proposals board_db = []" "\<forall>row \<in> set (d_audit board_db). au_proposal_id row = None"
  by (simp_all add: board_db_def empty_db_def)


theorem ended_proposal_is_final_witness:
  "proposal_get 100 (snd (approve sample_env 7 100 boss approved_db)) = proposal_get 100 approved_db"
proof -
  have "audited_once board_db" by (simp add: audited_once_def proposal_rows_def proposal_get_def board_db_def empty_db_def)
  with demo_run(1) have "audited_once approved_db" by (induction rule: rtranclp_induct) (auto intro: audited_once_step)
  moreover obtain p where "proposal_get 100 approved_db = Some p" "ended (p_status p)"
    using approved_db_get by (auto simp: ended_def)
  ultimately show ?thesis using ended_proposal_is_final [OF demo_run(2)] by simp
qed


section \<open>A proposal left executing\<close>

text \<open>
  The \<^verbatim>\<open>PATCH\<close> schema accepts an explicit null title and staging never flushes, so the
  staged update is accepted; at approval the database refuses the null, the exception leaves the call
  after the claim was committed, and the proposal stays \<^verbatim>\<open>executing\<close>: no later approval
  can claim it and no rejection is allowed.
\<close>

definition null_title :: plan_task_update where
  "null_title = status_patch\<lparr>tu_fields := [TF_title]\<rparr>"

definition stuck_db :: db where
  "stuck_db = board_db\<lparr>d_next_id := 101, d_proposals := [plain_row sample_env 100 7 1
     [projr (stage_plan_task_update sample_env 7 boss 20 null_title board_db)] 45]\<rparr>"

definition stuck_after :: db where
  "stuck_after = snd (approve sample_env 7 100 boss stuck_db)"

lemma null_title_staged: "isl (stage_plan_task_update sample_env 7 boss 20 null_title board_db) = False"
  by code_simp

lemma null_title_stored: "db_constraints stuck_db"
  by code_simp

lemma null_title_crashes: "isl (fst (approve sample_env 7 100 boss stuck_db))"
  by code_simp

lemma null_title_status: "map p_status (d_proposals stuck_after) = [Prop_executing]"
  by code_simp

lemma null_title_again: "snd (approve sample_env 7 100 boss stuck_after) = stuck_after"
  by code_simp

lemma null_title_reject: "isl (reject 7 100 boss None stuck_after)"
  by code_simp


end
