(* ===== verification/Chunking.thy ===== *)
theory Chunking
  imports Prelude
begin

text \<open>
  The chunker of the knowledge index, \<^verbatim>\<open>app/services/intelligence/chunking_service.py\<close>:
  overlapping character windows that prefer to end on a paragraph, line, sentence or word boundary.
\<close>

section \<open>The code\<close>

record chunk =
  ch_ordinal :: nat
  ch_text :: string

text \<open>\<^verbatim>\<open>str.rfind\<close>: the last position at which the separator occurs.\<close>

definition rfind :: "string \<Rightarrow> string \<Rightarrow> nat option" where
  "rfind window sep = find (\<lambda>i. take (length sep) (drop i window) = sep) (rev [0..<Suc (length window)])"

definition SEPARATORS :: "string list" where
  "SEPARATORS = [[CHR 0x0A, CHR 0x0A], [CHR 0x0A], ''. '', '' '']"

fun first_break :: "nat \<Rightarrow> string \<Rightarrow> string list \<Rightarrow> nat option" where
  "first_break sz window [] = None"
| "first_break sz window (sep # seps) =
     (case rfind window sep of
        Some idx \<Rightarrow> if sz div 2 < idx then Some (idx + length sep) else first_break sz window seps
      | None \<Rightarrow> first_break sz window seps)"

definition slice :: "string \<Rightarrow> nat \<Rightarrow> nat \<Rightarrow> string" where
  "slice body a b = take (b - a) (drop a body)"

definition soft_break :: "nat \<Rightarrow> string \<Rightarrow> nat \<Rightarrow> nat \<Rightarrow> nat" where
  "soft_break sz body start stop =
     (case first_break sz (slice body start stop) SEPARATORS of
        Some k \<Rightarrow> start + k
      | None \<Rightarrow> stop)"

definition window_end :: "nat \<Rightarrow> string \<Rightarrow> nat \<Rightarrow> nat" where
  "window_end sz body start =
     (let stop = min (start + sz) (length body) in
      if stop < length body then soft_break sz body start stop else stop)"

text \<open>
  The loop. \<^verbatim>\<open>max(end - overlap, start + 1)\<close> is positive, so the subtraction that
  saturates at zero gives the same value.
\<close>

function chunk_loop :: "nat \<Rightarrow> nat \<Rightarrow> string \<Rightarrow> nat \<Rightarrow> nat \<Rightarrow> chunk list" where
  "chunk_loop sz overlap body start ordinal =
     (if start < length body then
        let stop = window_end sz body start;
            piece = strip (slice body start stop);
            rest = (\<lambda>ord. if length body \<le> stop then []
                     else chunk_loop sz overlap body (max (stop - overlap) (start + 1)) ord) in
        if piece \<noteq> [] then \<lparr>ch_ordinal = ordinal, ch_text = piece\<rparr> # rest (Suc ordinal)
        else rest ordinal
      else [])"
  by pat_completeness auto
termination
  by (relation "measure (\<lambda>(sz, overlap, body, start, ordinal). length body - start)") auto

declare chunk_loop.simps [simp del]

definition chunk_text :: "nat \<Rightarrow> nat \<Rightarrow> string \<Rightarrow> chunk list" where
  "chunk_text sz overlap raw =
     (let body = strip raw in
      if body = [] then []
      else if length body \<le> sz then [\<lparr>ch_ordinal = 0, ch_text = body\<rparr>]
      else chunk_loop sz overlap body 0 0)"

section \<open>Lemmas\<close>

lemma strip_splits: "\<exists>a b. s = a @ strip s @ b \<and> (\<forall>c \<in> set a. is_space c) \<and> (\<forall>c \<in> set b. is_space c)"
proof -
  let ?t = "dropWhile is_space s"
  have "?t = rev (dropWhile is_space (rev ?t)) @ rev (takeWhile is_space (rev ?t))"
    by (metis rev_append rev_rev_ident takeWhile_dropWhile_id)
  moreover have "s = takeWhile is_space s @ ?t" by simp
  ultimately have "s = takeWhile is_space s @ strip s @ rev (takeWhile is_space (rev ?t))"
    by (metis strip_def)
  then show ?thesis by (metis set_takeWhileD set_rev)
qed

lemma strip_length: "length (strip s) \<le> length s"
  using strip_splits [of s] by (metis length_append le_add1 le_add2 order_trans)

lemma find_holds: "find P xs = Some x \<Longrightarrow> P x \<and> x \<in> set xs"
  by (induction xs) (auto split: if_splits)

lemma rfind_Some: "rfind window sep = Some i \<Longrightarrow> i + length sep \<le> length window"
proof -
  assume "rfind window sep = Some i"
  from find_holds [OF this [unfolded rfind_def]]
  have at: "take (length sep) (drop i window) = sep" and "i \<le> length window" by auto
  from at have "length (take (length sep) (drop i window)) = length sep" by simp
  with \<open>i \<le> length window\<close> show ?thesis by (auto simp: min_def split: if_splits)
qed

lemma first_break_Some: "first_break sz window seps = Some k \<Longrightarrow> 0 < k \<and> k \<le> length window"
  by (induction seps) (auto split: option.splits if_splits dest: rfind_Some)

text \<open>Every window moves on, stays within the text and is no longer than the chunk size.\<close>

lemma window_end_bounds:
  assumes "start < length body" "0 < sz"
  shows "start < window_end sz body start" "window_end sz body start \<le> length body"
    "window_end sz body start \<le> start + sz"
proof -
  let ?stop = "min (start + sz) (length body)"
  have len: "length (slice body start ?stop) \<le> ?stop - start" by (simp add: slice_def)
  have "start < window_end sz body start \<and> window_end sz body start \<le> ?stop"
    using assms first_break_Some [of sz "slice body start ?stop" SEPARATORS] len
    by (auto simp: window_end_def Let_def soft_break_def split: option.splits)
  then show "start < window_end sz body start" "window_end sz body start \<le> length body"
    "window_end sz body start \<le> start + sz" by simp_all
qed

text \<open>The pieces are numbered in order.\<close>

lemma chunk_loop_unfold:
  assumes "start < length body"
  shows "chunk_loop sz overlap body start k =
    (let stop = window_end sz body start; piece = strip (slice body start stop) in
     (if piece \<noteq> [] then [\<lparr>ch_ordinal = k, ch_text = piece\<rparr>] else []) @
     (if length body \<le> stop then []
      else chunk_loop sz overlap body (max (stop - overlap) (start + 1)) (if piece \<noteq> [] then Suc k else k)))"
  using assms by (subst chunk_loop.simps) (simp add: Let_def)

lemma chunk_loop_end: "length body \<le> start \<Longrightarrow> chunk_loop sz overlap body start k = []"
  by (subst chunk_loop.simps) simp

lemma upt_head: "[k..<Suc (k + n)] = k # [Suc k..<Suc (k + n)]"
  by (simp add: upt_conv_Cons del: upt_Suc)

lemma upt_single: "[k..<Suc k] = [k]"
  by simp

lemma chunk_loop_ordinals: "map ch_ordinal (chunk_loop sz overlap body start k) =
    [k..<k + length (chunk_loop sz overlap body start k)]"
proof (induction "length body - start" arbitrary: start k rule: less_induct)
  case less
  show ?case
  proof (cases "start < length body")
    case True
    let ?next = "max (window_end sz body start - overlap) (start + 1)"
    have "map ch_ordinal (chunk_loop sz overlap body ?next m) = [m..<m + length (chunk_loop sz overlap body ?next m)]" for m
      using True by (intro less) auto
    then show ?thesis using True
      by (auto simp: chunk_loop_unfold Let_def upt_head upt_single simp del: upt_Suc)
  qed (simp add: chunk_loop_end)
qed

definition part_of :: "nat \<Rightarrow> string \<Rightarrow> string \<Rightarrow> bool" where
  "part_of a piece body \<longleftrightarrow> (\<exists>u v. body = u @ piece @ v \<and> length u = a)"

lemma piece_of_slice:
  assumes "a \<le> b" "b \<le> length body"
  shows "\<exists>p. part_of p (strip (slice body a b)) body \<and> a \<le> p \<and>
    (\<forall>i. a \<le> i \<longrightarrow> i < b \<longrightarrow> \<not> is_space (body ! i) \<longrightarrow> p \<le> i \<and> i < p + length (strip (slice body a b)))"
proof -
  obtain u v where s: "slice body a b = u @ strip (slice body a b) @ v"
    and sp: "\<forall>c \<in> set u. is_space c" "\<forall>c \<in> set v. is_space c" using strip_splits by blast
  have body: "body = take a body @ slice body a b @ drop b body"
    using assms by (metis append_take_drop_id drop_drop le_add_diff_inverse2 slice_def)
  have len: "length (slice body a b) = b - a" using assms by (simp add: slice_def)
  let ?t = "strip (slice body a b)"
  have "body = (take a body @ u) @ ?t @ (v @ drop b body)" using body s by (metis append.assoc)
  moreover have "length (take a body @ u) = a + length u" using assms by simp
  ultimately have "part_of (a + length u) ?t body" unfolding part_of_def by (intro exI conjI)
  moreover have "a + length u \<le> i \<and> i < a + length u + length ?t"
    if i: "a \<le> i" "i < b" "\<not> is_space (body ! i)" for i
  proof -
    have nth: "body ! i = (u @ ?t @ v) ! (i - a)"
      using i assms len s by (metis slice_def nth_take nth_drop diff_less_mono le_add_diff_inverse order_trans)
    have "i - a < length (u @ ?t @ v)" using i len s by simp
    moreover have "\<not> i - a < length u"
    proof
      assume "i - a < length u"
      then have "body ! i \<in> set u" using nth by (simp add: nth_append)
      with sp(1) i(3) show False by blast
    qed
    moreover have "i - a < length u + length ?t"
    proof (rule ccontr)
      assume *: "\<not> i - a < length u + length ?t"
      have "body ! i = ((u @ ?t) @ v) ! (i - a)" using nth by simp
      also have "\<dots> = v ! (i - a - length (u @ ?t))" using * by (subst nth_append) simp
      also have "\<dots> \<in> set v" using * \<open>i - a < length (u @ ?t @ v)\<close> by (intro nth_mem) simp
      finally have "body ! i \<in> set v" .
      with sp(2) i(3) show False by blast
    qed
    ultimately show ?thesis using i(1) by linarith
  qed
  ultimately show ?thesis by (intro exI [of _ "a + length u"]) auto
qed

text \<open>The loop from any start: the pieces are parts of the text, bounded, and no visible character is lost.\<close>

definition chunk_ok :: "nat \<Rightarrow> string \<Rightarrow> chunk \<Rightarrow> bool" where
  "chunk_ok sz body c \<longleftrightarrow> ch_text c \<noteq> [] \<and> length (ch_text c) \<le> sz \<and> (\<exists>p. part_of p (ch_text c) body)"

definition covered_by :: "string \<Rightarrow> chunk list \<Rightarrow> nat \<Rightarrow> bool" where
  "covered_by body cs i \<longleftrightarrow> (\<exists>c \<in> set cs. \<exists>p. part_of p (ch_text c) body \<and> p \<le> i \<and> i < p + length (ch_text c))"

lemma chunk_loop_sound:
  assumes "0 < sz"
  shows "(\<forall>c \<in> set (chunk_loop sz overlap body start k). chunk_ok sz body c) \<and>
    (\<forall>i. start \<le> i \<longrightarrow> i < length body \<longrightarrow> \<not> is_space (body ! i) \<longrightarrow>
      covered_by body (chunk_loop sz overlap body start k) i)"
proof (induction "length body - start" arbitrary: start k rule: less_induct)
  case less
  show ?case
  proof (cases "start < length body")
    case True
    let ?stop = "window_end sz body start"
    let ?next = "max (?stop - overlap) (start + 1)" and ?piece = "strip (slice body start ?stop)"
    note b = window_end_bounds [OF True assms]
    have IH: "(\<forall>c \<in> set (chunk_loop sz overlap body ?next m). chunk_ok sz body c) \<and>
      (\<forall>i. ?next \<le> i \<longrightarrow> i < length body \<longrightarrow> \<not> is_space (body ! i) \<longrightarrow>
        covered_by body (chunk_loop sz overlap body ?next m) i)" for m
      using True by (intro less) auto
    obtain p where p: "part_of p ?piece body" and cov: "\<And>i. start \<le> i \<Longrightarrow> i < ?stop \<Longrightarrow> \<not> is_space (body ! i) \<Longrightarrow>
        p \<le> i \<and> i < p + length ?piece"
      using piece_of_slice [of start ?stop body] b by auto
    have len: "length ?piece \<le> sz"
      using order_trans [OF strip_length [of "slice body start ?stop"]] b(3) by (simp add: slice_def)
    have here: "covered_by body (chunk_loop sz overlap body start k) i"
      if "start \<le> i" "i < ?stop" "\<not> is_space (body ! i)" for i
    proof -
      have "?piece \<noteq> []" using cov [OF that] by auto
      with cov [OF that] p show ?thesis
        unfolding covered_by_def by (intro bexI [of _ "\<lparr>ch_ordinal = k, ch_text = ?piece\<rparr>"] exI [of _ p])
          (simp_all add: chunk_loop_unfold [OF True] Let_def)
    qed
    have later: "covered_by body (chunk_loop sz overlap body start k) i"
      if "?stop \<le> i" "i < length body" "\<not> is_space (body ! i)" for i
    proof -
      have "?next \<le> i" using that(1) b(1) by simp
      with IH that have "covered_by body (chunk_loop sz overlap body ?next m) i" for m by blast
      then show ?thesis using that by (fastforce simp: covered_by_def chunk_loop_unfold [OF True] Let_def)
    qed
    have "\<forall>c \<in> set (chunk_loop sz overlap body start k). chunk_ok sz body c"
      using IH p len by (auto simp: chunk_loop_unfold [OF True] Let_def chunk_ok_def)
    with here later show ?thesis by (meson not_le)
  qed (simp add: chunk_loop_end)
qed

section \<open>What the chunker promises\<close>

text \<open>
  C20. Chunking loses nothing: for any positive chunk size and any overlap, the chunks are numbered
  from zero, each is a non-empty contiguous part of the stripped text and no longer than the chunk
  size, and every character of the text that is not white space lies in some chunk.
\<close>

theorem chunks_cover_text:
  assumes "0 < sz"
  shows "map ch_ordinal (chunk_text sz overlap raw) = [0..<length (chunk_text sz overlap raw)] \<and>
    (\<forall>c \<in> set (chunk_text sz overlap raw). chunk_ok sz (strip raw) c) \<and>
    (\<forall>i < length (strip raw). \<not> is_space (strip raw ! i) \<longrightarrow> covered_by (strip raw) (chunk_text sz overlap raw) i)"
proof -
  have whole: "part_of 0 s s" for s unfolding part_of_def by (intro exI [of _ "[]"]) simp
  show ?thesis
    using chunk_loop_ordinals [of sz overlap "strip raw" 0 0] chunk_loop_sound [OF assms, of overlap "strip raw" 0 0] whole
    by (auto simp: chunk_text_def Let_def chunk_ok_def covered_by_def)
qed

theorem chunks_cover_text_witness:
  "map ch_text (chunk_text 12 4 '' one two three four'') = [''one two'', ''two three'', ''ree four''] \<and>
    covered_by ''one two three four'' (chunk_text 12 4 '' one two three four'') 5"
proof -
  have s: "strip '' one two three four'' = ''one two three four''" by code_simp
  have "map ch_text (chunk_text 12 4 '' one two three four'') = [''one two'', ''two three'', ''ree four'']" by code_simp
  then show ?thesis using chunks_cover_text [of 12 4 "'' one two three four''", unfolded s]
    by (simp add: is_space_def)
qed

end
