(* ===== verification/Knowledge.thy ===== *)
theory Knowledge
  imports Complex_Main Database Chunking "HOL-Library.AList"
begin

text \<open>
  The knowledge sources of a client: \<^verbatim>\<open>app/services/intelligence/ingestion_service.py\<close> and
  \<^verbatim>\<open>app/repositories/knowledge_repository.py\<close>. Every input of a client (field groups of the
  profile, documents, promoted emails) is one source row with the hash of what it was built from.
\<close>

section \<open>What a source is made from\<close>

datatype compliance_kind = Kind_brand_voice | Kind_banned | Kind_required | Kind_rule | Kind_note

fun compliance_kind_value :: "compliance_kind \<Rightarrow> string" where
  "compliance_kind_value Kind_brand_voice = ''brand_voice''"
| "compliance_kind_value Kind_banned = ''banned''"
| "compliance_kind_value Kind_required = ''required''"
| "compliance_kind_value Kind_rule = ''rule''"
| "compliance_kind_value Kind_note = ''note''"

record compliance_entry =
  ce_id :: uuid
  ce_kind :: compliance_kind
  ce_text :: string
  ce_author_id :: "uuid option"
  ce_is_active :: bool

datatype contact_side = Side_client | Side_inwork

fun contact_side_value :: "contact_side \<Rightarrow> string" where
  "contact_side_value Side_client = ''client''"
| "contact_side_value Side_inwork = ''inwork''"

record contact =
  co_name :: string
  co_role :: "string option"
  co_department :: "string option"
  co_email :: "string option"
  co_side :: contact_side

record document =
  doc_id :: uuid
  doc_name :: string
  doc_mime_type :: "string option"
  doc_storage_url :: string

record message =
  msg_id :: uuid
  msg_sender_email :: "string option"
  msg_body :: string
  msg_added_to_source_at :: "datetime option"

text \<open>The client row with what hangs off it and the pipeline reads.\<close>

record client_file =
  cf_row :: client
  cf_goals :: "string option"
  cf_compliance :: "compliance_entry list"
  cf_contacts :: "contact list"
  cf_documents :: "document list"
  cf_messages :: "message list"
  cf_current_version :: "nat option"

datatype source_status = Src_pending | Src_extracted | Src_embedded | Src_failed | Src_unsupported

record source =
  ks_id :: uuid
  ks_client_id :: uuid
  ks_source_type :: string
  ks_ref_kind :: "string option"
  ks_ref_id :: "uuid option"
  ks_ref_key :: "string option"
  ks_label :: string
  ks_content_hash :: "string option"
  ks_extracted_text :: "string option"
  ks_char_count :: nat
  ks_status :: source_status

type_synonym embedding = "rat list"

record knowledge_chunk =
  kc_client_id :: uuid
  kc_source_id :: uuid
  kc_ordinal :: nat
  kc_text :: string
  kc_char_count :: nat
  kc_token_estimate :: nat
  kc_embedding :: "embedding option"
  kc_weight :: rat
  kc_label :: string

section \<open>The field groups\<close>

abbreviation newline :: char where
  "newline \<equiv> CHR 0x0A"

definition join :: "string \<Rightarrow> string list \<Rightarrow> string" where
  "join sep parts = concat (map (\<lambda>(i, p). if i = 0 then p else sep @ p) (List.enumerate 0 parts))"

definition or_empty :: "string option \<Rightarrow> string" where
  "or_empty s = (case s of None \<Rightarrow> [] | Some x \<Rightarrow> x)"

text \<open>\<^verbatim>\<open>_lines\<close>: the pairs whose value is not blank.\<close>

definition lines_of :: "(string \<times> string option) list \<Rightarrow> string" where
  "lines_of pairs = join [newline] (map (\<lambda>(label, value). label @ '': '' @ or_empty value)
     (filter (\<lambda>(label, value). strip (or_empty value) \<noteq> []) pairs))"

definition color_text :: "string \<times> string option \<times> int \<Rightarrow> string" where
  "color_text c = (case c of (hex, label, pos) \<Rightarrow>
     hex @ (if or_empty label \<noteq> [] then '' ('' @ or_empty label @ '')'' else []))"

definition or_default :: "string \<Rightarrow> string option \<Rightarrow> string" where
  "or_default d s = (if or_empty s \<noteq> [] then or_empty s else d)"

definition contact_line :: "contact \<Rightarrow> string" where
  "contact_line c = ''- '' @ or_default ''?'' (Some (co_name c)) @ '' ('' @ or_default ''contact'' (co_role c) @ '', '' @
     or_default ''-'' (co_department c) @ '') '' @ or_empty (co_email c) @ '' ['' @ contact_side_value (co_side c) @ '']''"

definition compliance_line :: "compliance_entry \<Rightarrow> string" where
  "compliance_line e = ''- ['' @ compliance_kind_value (ce_kind e) @ ''] '' @ ce_text e"

definition brand_group :: "client \<Rightarrow> string" where
  "brand_group c =
     (let parts = lines_of [(''About the brand'', c_about_brand c), (''Brand voice'', c_brand_voice c),
            (''Extracted brand theme'', c_brand_extracted c), (''Color guidelines'', c_color_guidelines c)];
          colors = join '', '' (map color_text (c_colors c));
          fonts = join '', '' (c_fonts c) in
      parts @ (if colors \<noteq> [] then newline # ''Brand colors: '' @ colors else []) @
        (if fonts \<noteq> [] then newline # ''Brand fonts: '' @ fonts else []))"

definition field_groups :: "client_file \<Rightarrow> (string \<times> string) list" where
  "field_groups f =
     (let c = cf_row f;
          basics = lines_of [(''Name'', c_name c), (''Business type'', c_business_type c), (''Industry'', c_industry c),
            (''Website'', c_website c), (''Language'', c_language c), (''Location'', c_location c)];
          markets = strip (or_empty (c_markets c));
          brand = strip (brand_group c);
          goals = strip (or_empty (cf_goals f));
          compliance = join [newline] (map compliance_line (cf_compliance f));
          contacts = join [newline] (map contact_line (cf_contacts f)) in
      (if basics \<noteq> [] then [(''basics'', basics)] else []) @
      (if markets \<noteq> [] then [(''markets'', ''Operating markets:'' @ newline # markets)] else []) @
      (if brand \<noteq> [] then [(''brand'', brand)] else []) @
      (if goals \<noteq> [] then [(''goals'', ''Client goals:'' @ newline # goals)] else []) @
      (if strip compliance \<noteq> [] then [(''compliance'', ''Compliance & rules:'' @ newline # compliance)] else []) @
      (if strip contacts \<noteq> [] then [(''contacts'', ''Points of contact:'' @ newline # contacts)] else []))"

section \<open>The desired sources\<close>

text \<open>
  The settings and the parts the code gets from elsewhere: the digest, the object store (absent in a
  process that has none) and the text extractor.
\<close>

record pipeline =
  pl_sha :: "string \<Rightarrow> string"
  pl_storage :: "(string \<Rightarrow> exn + string) option"
  pl_extract :: "string \<Rightarrow> string option \<Rightarrow> string \<Rightarrow> string \<times> source_status"
  pl_embed :: "string list \<Rightarrow> exn + embedding list"
  pl_max_document_chars :: nat
  pl_max_corpus_chars :: nat
  pl_chunk_chars :: nat
  pl_chunk_overlap_chars :: nat

type_synonym loaded = "exn + string \<times> source_status"

record desired =
  de_identity :: string
  de_source_type :: string
  de_label :: string
  de_hash_basis :: string
  de_load :: loaded
  de_ref_kind :: "string option"
  de_ref_id :: "uuid option"
  de_ref_key :: "string option"

definition load_document :: "pipeline \<Rightarrow> document \<Rightarrow> loaded" where
  "load_document pl d =
     (case pl_storage pl of
        None \<Rightarrow> Inr ([], Src_failed)
      | Some download \<Rightarrow>
          (case download (doc_storage_url d) of
             Inl (AppError _ _) \<Rightarrow> Inr ([], Src_failed)
           | Inl (Crash m) \<Rightarrow> Inl (Crash m)
           | Inr data \<Rightarrow> Inr (pl_extract pl data (doc_mime_type d) (doc_name d))))"

definition desired_field :: "string \<times> string \<Rightarrow> desired" where
  "desired_field g = (case g of (key, body) \<Rightarrow>
     \<lparr>de_identity = ''field:'' @ key, de_source_type = ''onboarding_field'', de_label = ''Onboarding: '' @ key,
      de_hash_basis = body, de_load = Inr (body, Src_extracted), de_ref_kind = Some ''field'',
      de_ref_id = None, de_ref_key = Some key\<rparr>)"

definition desired_document :: "pipeline \<Rightarrow> document \<Rightarrow> desired" where
  "desired_document pl d =
     \<lparr>de_identity = ''document:'' @ uuid_str (doc_id d), de_source_type = ''document'', de_label = doc_name d,
      de_hash_basis = (if doc_storage_url d \<noteq> [] then doc_storage_url d else uuid_str (doc_id d)),
      de_load = load_document pl d, de_ref_kind = Some ''document'', de_ref_id = Some (doc_id d), de_ref_key = None\<rparr>"

definition desired_message :: "message \<Rightarrow> desired" where
  "desired_message m =
     \<lparr>de_identity = ''message:'' @ uuid_str (msg_id m), de_source_type = ''note'',
      de_label = ''Email: '' @ or_default ''message'' (msg_sender_email m), de_hash_basis = msg_body m,
      de_load = Inr (msg_body m, Src_extracted), de_ref_kind = Some ''message'', de_ref_id = Some (msg_id m),
      de_ref_key = Some (''message:'' @ uuid_str (msg_id m))\<rparr>"

definition promoted_messages :: "client_file \<Rightarrow> message list" where
  "promoted_messages f = filter (\<lambda>m. msg_added_to_source_at m \<noteq> None) (cf_messages f)"

definition desired_sources :: "pipeline \<Rightarrow> client_file \<Rightarrow> desired list" where
  "desired_sources pl f = map desired_field (field_groups f) @ map (desired_document pl) (cf_documents f) @
     map desired_message (promoted_messages f)"

section \<open>The tables of the pipeline\<close>

datatype profile_status = Profile_building | Profile_ready | Profile_failed | Profile_superseded

datatype directive_type = DT_must | DT_must_not | DT_prefer | DT_avoid | DT_constraint
datatype directive_tier = Tier_mandatory | Tier_required | Tier_preference | Tier_inferred
datatype directive_status = DS_active | DS_superseded | DS_conflicted | DS_pending_review

record client_profile =
  pf_id :: uuid
  pf_client_id :: uuid
  pf_version :: nat
  pf_status :: profile_status
  pf_summary_md :: string
  pf_capability_flags :: jdict
  pf_source_hashes :: "(string \<times> string option) list"
  pf_created_at :: datetime

record client_directive =
  cd_id :: uuid
  cd_profile_id :: uuid
  cd_client_id :: uuid
  cd_type :: directive_type
  cd_category :: string
  cd_text :: string
  cd_tier :: directive_tier
  cd_rank :: nat
  cd_confidence :: rat
  cd_status :: directive_status
  cd_capability_flags :: jdict
  cd_source_id :: "uuid option"
  cd_conflicts_with_id :: "uuid option"
  cd_created_at :: datetime

record store =
  st_sources :: "source list"
  st_chunks :: "knowledge_chunk list"
  st_profiles :: "client_profile list"
  st_directives :: "client_directive list"
  st_next_id :: uuid

section \<open>Synchronising the sources\<close>

definition identity_of :: "string option \<Rightarrow> uuid option \<Rightarrow> string option \<Rightarrow> string" where
  "identity_of kind ref_id key =
     (if kind = Some ''document'' \<and> ref_id \<noteq> None then ''document:'' @ uuid_str (the ref_id)
      else if kind = Some ''message'' \<and> ref_id \<noteq> None then ''message:'' @ uuid_str (the ref_id)
      else ''field:'' @ (case key of None \<Rightarrow> ''None'' | Some k \<Rightarrow> k))"

definition source_identity :: "source \<Rightarrow> string" where
  "source_identity s = identity_of (ks_ref_kind s) (ks_ref_id s) (ks_ref_key s)"

definition sources_for_client :: "uuid \<Rightarrow> store \<Rightarrow> source list" where
  "sources_for_client cid st = filter (\<lambda>s. ks_client_id s = cid) (st_sources st)"

text \<open>\<^verbatim>\<open>{identity(s): s for s in rows}\<close>: the last row of an identity wins.\<close>

definition by_identity :: "source list \<Rightarrow> (string \<times> source) list" where
  "by_identity rows = foldl (\<lambda>m s. AList.update (source_identity s) s m) [] rows"

record synced =
  sy_source_id :: uuid
  sy_needs_rechunk :: bool

definition new_source :: "uuid \<Rightarrow> uuid \<Rightarrow> desired \<Rightarrow> source" where
  "new_source i cid d = \<lparr>ks_id = i, ks_client_id = cid, ks_source_type = de_source_type d,
     ks_ref_kind = de_ref_kind d, ks_ref_id = de_ref_id d, ks_ref_key = de_ref_key d, ks_label = de_label d,
     ks_content_hash = None, ks_extracted_text = None, ks_char_count = 0, ks_status = Src_pending\<rparr>"

definition fill_source :: "string \<Rightarrow> string \<Rightarrow> source_status \<Rightarrow> source \<Rightarrow> source" where
  "fill_source h body status s = s\<lparr>ks_content_hash := Some h, ks_extracted_text := Some body,
     ks_char_count := length body, ks_status := status\<rparr>"

text \<open>One desired source: reuse the row, or load, fill the row (a new one when there is none) and flag it.\<close>

definition sync_one :: "pipeline \<Rightarrow> bool \<Rightarrow> uuid \<Rightarrow> (string \<times> source) list \<Rightarrow> desired \<Rightarrow> store \<Rightarrow>
    exn + synced \<times> store" where
  "sync_one pl full cid existing d st =
     (let new_hash = pl_sha pl (de_hash_basis d) in
      case map_of existing (de_identity d) of
        Some src \<Rightarrow>
          if ks_content_hash src = Some new_hash \<and> \<not> full
          then Inr (\<lparr>sy_source_id = ks_id src, sy_needs_rechunk = False\<rparr>, st)
          else bindR (de_load d) (\<lambda>(body, status).
            Inr (\<lparr>sy_source_id = ks_id src, sy_needs_rechunk = True\<rparr>,
              st\<lparr>st_sources := update_by ks_id (ks_id src)
                (fill_source new_hash (take (pl_max_document_chars pl) body) status) (st_sources st)\<rparr>))
      | None \<Rightarrow> bindR (de_load d) (\<lambda>(body, status).
          let i = st_next_id st in
          Inr (\<lparr>sy_source_id = i, sy_needs_rechunk = True\<rparr>,
            st\<lparr>st_next_id := Suc i, st_sources := st_sources st @
              [fill_source new_hash (take (pl_max_document_chars pl) body) status (new_source i cid d)]\<rparr>)))"

fun sync_loop :: "pipeline \<Rightarrow> bool \<Rightarrow> uuid \<Rightarrow> (string \<times> source) list \<Rightarrow> desired list \<Rightarrow> store \<Rightarrow>
    exn + synced list \<times> store" where
  "sync_loop pl full cid existing [] st = Inr ([], st)"
| "sync_loop pl full cid existing (d # ds) st =
     bindR (sync_one pl full cid existing d st) (\<lambda>(x, st1).
     bindR (sync_loop pl full cid existing ds st1) (\<lambda>(xs, st2). Inr (x # xs, st2)))"

text \<open>A deleted source takes its chunks with it, and a directive forgets it (the foreign keys' rules).\<close>

definition drop_sources :: "uuid list \<Rightarrow> store \<Rightarrow> store" where
  "drop_sources ids st = st\<lparr>st_sources := filter (\<lambda>s. ks_id s \<notin> set ids) (st_sources st),
     st_chunks := filter (\<lambda>c. kc_source_id c \<notin> set ids) (st_chunks st),
     st_directives := map (\<lambda>r. case cd_source_id r of
         Some i \<Rightarrow> if i \<in> set ids then r\<lparr>cd_source_id := None\<rparr> else r | None \<Rightarrow> r) (st_directives st)\<rparr>"

definition sync :: "pipeline \<Rightarrow> bool \<Rightarrow> client_file \<Rightarrow> store \<Rightarrow> exn + synced list \<times> store" where
  "sync pl full f st =
     (let cid = c_id (cf_row f); wanted = desired_sources pl f;
          existing = by_identity (sources_for_client cid st) in
      bindR (sync_loop pl full cid existing wanted st) (\<lambda>(result, st1).
        Inr (result, drop_sources
          (map (ks_id \<circ> snd) (filter (\<lambda>(identity, s). identity \<notin> set (map de_identity wanted)) existing)) st1)))"

section \<open>Lemmas: identities\<close>

definition wf_desired :: "desired \<Rightarrow> bool" where
  "wf_desired d \<longleftrightarrow> identity_of (de_ref_kind d) (de_ref_id d) (de_ref_key d) = de_identity d"

lemma fill_source_simps [simp]: "ks_id (fill_source h b s r) = ks_id r" "ks_client_id (fill_source h b s r) = ks_client_id r"
  "source_identity (fill_source h b s r) = source_identity r" "ks_content_hash (fill_source h b s r) = Some h"
  "ks_extracted_text (fill_source h b s r) = Some b" "ks_status (fill_source h b s r) = s"
  by (simp_all add: fill_source_def source_identity_def)

lemma new_source_simps [simp]: "ks_id (new_source i cid d) = i" "ks_client_id (new_source i cid d) = cid"
  by (simp_all add: new_source_def)

lemma wf_desired_sources: "d \<in> set (desired_sources pl f) \<Longrightarrow> wf_desired d"
  by (auto simp: desired_sources_def wf_desired_def identity_of_def desired_field_def desired_document_def desired_message_def)

lemma wf_identity: "wf_desired d \<Longrightarrow> source_identity (new_source i cid d) = de_identity d"
  by (simp add: wf_desired_def source_identity_def new_source_def)

lemma field_groups_distinct: "distinct (map fst (field_groups f))"
proof -
  have step: "distinct (map fst ((if c then [(k, v)] else []) @ ys)) \<longleftrightarrow> \<not> (c \<and> k \<in> fst ` set ys) \<and> distinct (map fst ys)"
    for c k and v :: string and ys :: "(string \<times> string) list" by auto
  have step1: "distinct (map fst (if c then [(k, v)] else []))" for c k and v :: string by simp
  have absent: "k \<in> fst ` set ((if c then [(k', v)] else []) @ ys) \<longleftrightarrow> (c \<and> k = k') \<or> k \<in> fst ` set ys"
    "k \<in> fst ` set (if c then [(k', v)] else []) \<longleftrightarrow> c \<and> k = k'"
    for c k k' and v :: string and ys :: "(string \<times> string) list" by auto
  show ?thesis unfolding field_groups_def Let_def step absent using step1 by simp
qed

definition file_ok :: "client_file \<Rightarrow> bool" where
  "file_ok f \<longleftrightarrow> distinct (map doc_id (cf_documents f)) \<and> distinct (map msg_id (cf_messages f))"

lemma desired_distinct:
  assumes "file_ok f"
  shows "distinct (map de_identity (desired_sources pl f))"
proof -
  have d1: "map de_identity (map desired_field gs) = map (\<lambda>k. ''field:'' @ k) (map fst gs)" for gs
    by (simp add: desired_field_def comp_def split: prod.split)
  have d2: "map de_identity (map (desired_document pl) ds) = map (\<lambda>i. ''document:'' @ uuid_str i) (map doc_id ds)" for ds
    by (simp add: desired_document_def)
  have d3: "map de_identity (map desired_message ms) = map (\<lambda>i. ''message:'' @ uuid_str i) (map msg_id ms)" for ms
    by (simp add: desired_message_def)
  have "distinct (map msg_id (promoted_messages f))"
    using assms by (simp add: file_ok_def promoted_messages_def distinct_map_filter)
  then show ?thesis
    using assms field_groups_distinct [of f]
    by (auto simp: desired_sources_def d1 d2 d3 map_append distinct_append file_ok_def distinct_map inj_on_def
        simp del: map_map)
qed

text \<open>With distinct identities the dict of the rows is the lookup of the row by identity.\<close>

lemma by_identity_other: "\<forall>s \<in> set rows. source_identity s \<noteq> k \<Longrightarrow>
    map_of (foldl (\<lambda>m s. AList.update (source_identity s) s m) acc rows) k = map_of acc k"
  by (induction rows arbitrary: acc) (auto simp: update_conv')

lemma by_identity_this: "distinct (map source_identity rows) \<Longrightarrow> s \<in> set rows \<Longrightarrow>
    map_of (foldl (\<lambda>m s. AList.update (source_identity s) s m) acc rows) (source_identity s) = Some s"
proof (induction rows arbitrary: acc)
  case (Cons r rows)
  show ?case
  proof (cases "s = r")
    case True
    have "\<forall>x \<in> set rows. source_identity x \<noteq> source_identity r" using Cons.prems(1) by (simp, metis image_eqI)
    with True show ?thesis by (simp add: by_identity_other update_conv')
  next
    case False
    with Cons show ?thesis by simp
  qed
qed simp

lemma by_identity_Some:
  assumes "distinct (map source_identity rows)"
  shows "map_of (by_identity rows) k = Some s \<longleftrightarrow> s \<in> set rows \<and> source_identity s = k"
proof (cases "\<exists>r \<in> set rows. source_identity r = k")
  case True
  then obtain r where r: "r \<in> set rows" "source_identity r = k" by blast
  have "s = r" if "s \<in> set rows" "source_identity s = k"
    using that r assms by (auto simp: distinct_map inj_on_def)
  with by_identity_this [OF assms r(1), of "[]"] r show ?thesis by (auto simp: by_identity_def)
next
  case False
  with by_identity_other [of rows k "[]"] show ?thesis by (auto simp: by_identity_def)
qed

lemma by_identity_None:
  "distinct (map source_identity rows) \<Longrightarrow> map_of (by_identity rows) k = None \<longleftrightarrow> (\<forall>s \<in> set rows. source_identity s \<noteq> k)"
  using by_identity_Some by (metis not_Some_eq)

lemma by_identity_items:
  assumes "distinct (map source_identity rows)"
  shows "set (by_identity rows) = (\<lambda>s. (source_identity s, s)) ` set rows"
proof -
  have "distinct (map fst (foldl (\<lambda>m s. AList.update (source_identity s) s m) acc rows))"
    if "distinct (map fst acc)" for acc :: "(string \<times> source) list" and rows
    using that by (induction rows arbitrary: acc) (auto simp: distinct_update)
  then have "distinct (map fst (by_identity rows))" by (simp add: by_identity_def)
  then show ?thesis
    using by_identity_Some [OF assms] by (force simp: map_of_eq_Some_iff)
qed

section \<open>Lemmas: one desired source after the other\<close>

definition sources_inv :: "store \<Rightarrow> bool" where
  "sources_inv st \<longleftrightarrow> distinct (map ks_id (st_sources st)) \<and> (\<forall>s \<in> set (st_sources st). ks_id s < st_next_id st) \<and>
     distinct (map (\<lambda>s. (ks_client_id s, source_identity s)) (st_sources st))"

text \<open>What a synchronised source is: current for its origin, and only loaded when flagged.\<close>

definition synced_ok :: "pipeline \<Rightarrow> uuid \<Rightarrow> store \<Rightarrow> store \<Rightarrow> desired \<Rightarrow> synced \<Rightarrow> bool" where
  "synced_ok pl cid before now d x \<longleftrightarrow> (\<exists>s \<in> set (st_sources now). ks_id s = sy_source_id x \<and> ks_client_id s = cid \<and>
     source_identity s = de_identity d \<and> ks_content_hash s = Some (pl_sha pl (de_hash_basis d)) \<and>
     (if sy_needs_rechunk x
      then \<exists>body status. de_load d = Inr (body, status) \<and> ks_status s = status \<and>
        ks_extracted_text s = Some (take (pl_max_document_chars pl) body)
      else s \<in> set (st_sources before)))"

definition knows :: "(string \<times> source) list \<Rightarrow> uuid \<Rightarrow> store \<Rightarrow> desired \<Rightarrow> bool" where
  "knows existing cid st d \<longleftrightarrow> (case map_of existing (de_identity d) of
     Some s \<Rightarrow> s \<in> set (st_sources st) \<and> ks_client_id s = cid \<and> source_identity s = de_identity d
   | None \<Rightarrow> \<forall>s \<in> set (st_sources st). ks_client_id s = cid \<longrightarrow> source_identity s \<noteq> de_identity d)"

definition touches_only :: "uuid \<Rightarrow> string set \<Rightarrow> store \<Rightarrow> store \<Rightarrow> bool" where
  "touches_only cid ids st st' \<longleftrightarrow> (\<forall>s. ks_client_id s \<noteq> cid \<or> source_identity s \<notin> ids \<longrightarrow>
       (s \<in> set (st_sources st') \<longleftrightarrow> s \<in> set (st_sources st))) \<and>
     st_chunks st' = st_chunks st \<and> st_profiles st' = st_profiles st \<and> st_directives st' = st_directives st \<and>
     st_next_id st \<le> st_next_id st'"

lemma update_by_unique:
  assumes "distinct (map key rows)" "r \<in> set rows"
  shows "x \<in> set (update_by key (key r) f rows) \<longleftrightarrow> x = f r \<or> (x \<in> set rows \<and> x \<noteq> r)"
proof -
  have only: "\<forall>y \<in> set rows. key y = key r \<longleftrightarrow> y = r"
    using assms by (auto simp: distinct_map inj_on_def)
  have "update_by key (key r) f rows = map (\<lambda>y. if y = r then f r else y) rows"
    using only by (auto simp: update_by_def)
  with assms(2) show ?thesis by (auto simp: image_iff)
qed

lemma sync_one_result:
  assumes inv: "sources_inv st" and wf: "wf_desired d" and known: "knows existing cid st d"
    and run: "sync_one pl full cid existing d st = Inr (x, st')"
  shows "sources_inv st' \<and> synced_ok pl cid st st' d x \<and> touches_only cid {de_identity d} st st'"
proof (cases "map_of existing (de_identity d)")
  case None
  from run None obtain body status where load: "de_load d = Inr (body, status)"
    and x: "x = \<lparr>sy_source_id = st_next_id st, sy_needs_rechunk = True\<rparr>"
    and st': "st' = st\<lparr>st_next_id := Suc (st_next_id st), st_sources := st_sources st @
        [fill_source (pl_sha pl (de_hash_basis d)) (take (pl_max_document_chars pl) body) status (new_source (st_next_id st) cid d)]\<rparr>"
    by (auto simp: sync_one_def Let_def bindR_eq_Inr)
  have "sources_inv st'"
    using inv known None wf_identity [OF wf] by (auto simp: sources_inv_def st' knows_def less_Suc_eq)
  moreover have "synced_ok pl cid st st' d x"
    using load wf_identity [OF wf] by (auto simp: synced_ok_def x st')
  moreover have "touches_only cid {de_identity d} st st'"
    using wf_identity [OF wf] by (auto simp: touches_only_def st')
  ultimately show ?thesis by blast
next
  case (Some src)
  then have src: "src \<in> set (st_sources st)" "ks_client_id src = cid" "source_identity src = de_identity d"
    using known by (auto simp: knows_def)
  show ?thesis
  proof (cases "ks_content_hash src = Some (pl_sha pl (de_hash_basis d)) \<and> \<not> full")
    case True
    with run Some have "x = \<lparr>sy_source_id = ks_id src, sy_needs_rechunk = False\<rparr>" "st' = st"
      by (auto simp: sync_one_def Let_def)
    with True src inv show ?thesis by (auto simp: synced_ok_def touches_only_def)
  next
    case False
    with run Some obtain body status where load: "de_load d = Inr (body, status)"
      and x: "x = \<lparr>sy_source_id = ks_id src, sy_needs_rechunk = True\<rparr>"
      and st': "st' = st\<lparr>st_sources := update_by ks_id (ks_id src)
          (fill_source (pl_sha pl (de_hash_basis d)) (take (pl_max_document_chars pl) body) status) (st_sources st)\<rparr>"
      by (auto simp: sync_one_def Let_def bindR_eq_Inr split: if_splits)
    let ?f = "fill_source (pl_sha pl (de_hash_basis d)) (take (pl_max_document_chars pl) body) status"
    have dist: "distinct (map ks_id (st_sources st))" using inv by (simp add: sources_inv_def)
    have rows: "s \<in> set (st_sources st') \<longleftrightarrow> s = ?f src \<or> (s \<in> set (st_sources st) \<and> s \<noteq> src)" for s
      using update_by_unique [OF dist src(1), of s ?f] by (simp add: st')
    have keys: "map ks_id (st_sources st') = map ks_id (st_sources st)"
      "map (\<lambda>s. (ks_client_id s, source_identity s)) (st_sources st') = map (\<lambda>s. (ks_client_id s, source_identity s)) (st_sources st)"
      by (simp_all add: st' update_by_def)
    have "sources_inv st'"
      using inv keys rows src(1) by (auto simp: sources_inv_def st')
    moreover have "synced_ok pl cid st st' d x"
      using rows [of "?f src"] load src by (auto simp: synced_ok_def x intro!: bexI [of _ "?f src"])
    moreover have "touches_only cid {de_identity d} st st'"
      using rows src by (auto simp: touches_only_def) (simp_all add: st')
    ultimately show ?thesis by blast
  qed
qed

lemma touches_only_mono: "touches_only cid A st st1 \<Longrightarrow> touches_only cid B st1 st2 \<Longrightarrow> touches_only cid (A \<union> B) st st2"
  by (auto simp: touches_only_def)

lemma knows_frame:
  assumes "knows existing cid st d" "touches_only cid ids st st'" "de_identity d \<notin> ids"
  shows "knows existing cid st' d"
  using assms by (auto simp: knows_def touches_only_def split: option.splits)

lemma synced_ok_frame:
  assumes "synced_ok pl cid b st d x" "touches_only cid ids st st'" "de_identity d \<notin> ids"
  shows "synced_ok pl cid b st' d x"
  using assms unfolding synced_ok_def touches_only_def by metis

lemma synced_ok_before:
  assumes "synced_ok pl cid st1 st' d x" "touches_only cid ids st st1" "de_identity d \<notin> ids"
  shows "synced_ok pl cid st st' d x"
  using assms unfolding synced_ok_def touches_only_def by metis

lemma sync_loop_result:
  assumes "sources_inv st" "\<forall>d \<in> set ds. wf_desired d \<and> knows existing cid st d" "distinct (map de_identity ds)"
    and "sync_loop pl full cid existing ds st = Inr (xs, st')"
  shows "sources_inv st' \<and> list_all2 (synced_ok pl cid st st') ds xs \<and> touches_only cid (de_identity ` set ds) st st'"
  using assms
proof (induction ds arbitrary: st xs)
  case Nil
  then show ?case by (simp add: touches_only_def)
next
  case (Cons d ds)
  from Cons.prems(4) obtain x st1 ys where one: "sync_one pl full cid existing d st = Inr (x, st1)"
    and rest: "sync_loop pl full cid existing ds st1 = Inr (ys, st')" and xs: "xs = x # ys"
    by (auto simp: bindR_eq_Inr)
  have 1: "sources_inv st1" "synced_ok pl cid st st1 d x" "touches_only cid {de_identity d} st st1"
    using sync_one_result [OF Cons.prems(1) _ _ one] Cons.prems(2) by auto
  have fresh: "de_identity d \<notin> de_identity ` set ds" and other: "\<forall>d' \<in> set ds. de_identity d' \<notin> {de_identity d}"
    using Cons.prems(3) by (auto simp: image_iff)
  have "\<forall>d' \<in> set ds. wf_desired d' \<and> knows existing cid st1 d'"
    using Cons.prems(2) knows_frame [OF _ 1(3)] other by simp
  with Cons.IH [OF 1(1) _ _ rest] Cons.prems(3) have
    IH: "sources_inv st'" "list_all2 (synced_ok pl cid st1 st') ds ys" "touches_only cid (de_identity ` set ds) st1 st'"
    by auto
  have "synced_ok pl cid st st' d x" using synced_ok_frame [OF 1(2) IH(3) fresh] .
  moreover have "list_all2 (synced_ok pl cid st st') ds ys"
    using IH(2) other by (auto simp: list_all2_conv_all_nth intro: synced_ok_before [OF _ 1(3)])
  moreover have "touches_only cid (de_identity ` set (d # ds)) st st'"
    using touches_only_mono [OF 1(3) IH(3)] by simp
  ultimately show ?case using IH(1) xs by simp
qed

text \<open>The rows whose origin is gone, and what dropping them leaves.\<close>

lemma drop_sources_simps [simp]:
  "st_sources (drop_sources ids st) = filter (\<lambda>s. ks_id s \<notin> set ids) (st_sources st)"
  "st_chunks (drop_sources ids st) = filter (\<lambda>c. kc_source_id c \<notin> set ids) (st_chunks st)"
  "st_profiles (drop_sources ids st) = st_profiles st" "st_next_id (drop_sources ids st) = st_next_id st"
  by (simp_all add: drop_sources_def)

lemma sources_inv_drop: "sources_inv st \<Longrightarrow> sources_inv (drop_sources ids st)"
  by (auto simp: sources_inv_def distinct_map_filter)

text \<open>What a synchronisation leaves of the stale sources: nothing.\<close>

lemma sync_result:
  assumes inv: "sources_inv st" and ok: "file_ok f" and run: "sync pl full f st = Inr (xs, st')"
  defines "cid \<equiv> c_id (cf_row f)" and "wanted \<equiv> desired_sources pl f"
  obtains st1 where "sources_inv st1" "list_all2 (synced_ok pl cid st st1) wanted xs"
    "touches_only cid (de_identity ` set wanted) st st1" "sources_inv st'"
    "\<And>s. s \<in> set (st_sources st') \<longleftrightarrow> s \<in> set (st_sources st1) \<and>
      (ks_client_id s = cid \<longrightarrow> source_identity s \<in> de_identity ` set wanted)"
    "st_chunks st' = filter (\<lambda>c. \<forall>s \<in> set (st_sources st). ks_client_id s = cid \<longrightarrow>
      source_identity s \<notin> de_identity ` set wanted \<longrightarrow> kc_source_id c \<noteq> ks_id s) (st_chunks st)"
    "st_profiles st' = st_profiles st"
proof -
  let ?mine = "sources_for_client cid st"
  let ?gone = "map (ks_id \<circ> snd) (filter (\<lambda>(identity, s). identity \<notin> set (map de_identity wanted)) (by_identity ?mine))"
  from run obtain st1 where loop: "sync_loop pl full cid (by_identity ?mine) wanted st = Inr (xs, st1)"
    and st': "st' = drop_sources ?gone st1"
    by (auto simp: sync_def Let_def bindR_eq_Inr cid_def wanted_def)
  have "distinct (map source_identity ?mine)"
  proof -
    have "distinct (map (\<lambda>s. (cid, source_identity s)) ?mine)"
      using inv by (auto simp: sources_inv_def sources_for_client_def distinct_map inj_on_def)
    then show ?thesis by (auto simp: distinct_map inj_on_def)
  qed
  note look = by_identity_Some [OF this] by_identity_None [OF this] by_identity_items [OF this]
  have known: "knows (by_identity ?mine) cid st d" for d
    using look(1,2) by (auto simp: knows_def sources_for_client_def split: option.split)
  have L: "sources_inv st1" "list_all2 (synced_ok pl cid st st1) wanted xs" "touches_only cid (de_identity ` set wanted) st st1"
    using sync_loop_result [OF inv _ _ loop] known wf_desired_sources desired_distinct [OF ok]
    by (auto simp: wanted_def)
  have gone: "i \<in> set ?gone \<longleftrightarrow> (\<exists>s \<in> set (st_sources st). ks_client_id s = cid \<and> ks_id s = i \<and>
      source_identity s \<notin> de_identity ` set wanted)" for i
    using look(3) by (auto simp: sources_for_client_def image_iff)
  have same: "s \<in> set (st_sources st1) \<longleftrightarrow> s \<in> set (st_sources st)"
    if "ks_client_id s \<noteq> cid \<or> source_identity s \<notin> de_identity ` set wanted" for s
    using L(3) that by (simp add: touches_only_def)
  have id1: "r = s" if "r \<in> set (st_sources st1)" "s \<in> set (st_sources st1)" "ks_id r = ks_id s" for r s
    using L(1) that by (auto simp: sources_inv_def distinct_map inj_on_def)
  have kept: "s \<in> set (st_sources st') \<longleftrightarrow> s \<in> set (st_sources st1) \<and>
      (ks_client_id s = cid \<longrightarrow> source_identity s \<in> de_identity ` set wanted)" for s
  proof -
    have "ks_id s \<in> set ?gone \<longleftrightarrow> ks_client_id s = cid \<and> source_identity s \<notin> de_identity ` set wanted"
      if "s \<in> set (st_sources st1)" for s
      unfolding gone using that same id1 by metis
    then show ?thesis by (auto simp: st' simp del: set_map)
  qed
  have chunks: "st_chunks st' = filter (\<lambda>c. \<forall>s \<in> set (st_sources st). ks_client_id s = cid \<longrightarrow>
      source_identity s \<notin> de_identity ` set wanted \<longrightarrow> kc_source_id c \<noteq> ks_id s) (st_chunks st)"
  proof -
    have "st_chunks st' = filter (\<lambda>c. kc_source_id c \<notin> set ?gone) (st_chunks st)"
      using L(3) by (simp add: st' touches_only_def del: set_map)
    then show ?thesis unfolding gone by (simp add: disj_not1) (metis (no_types, lifting))
  qed
  show thesis
    by (rule that [OF L _ kept chunks]) (use L(1,3) sources_inv_drop in \<open>auto simp: st' touches_only_def\<close>)
qed

end
