(* ===== verification/Directives.thy ===== *)
theory Directives
  imports Knowledge
begin

text \<open>
  From the corpus to rules: the deterministic parts of \<^verbatim>\<open>app/ai/directives.py\<close> (normalising,
  the fallback, the capability net), \<^verbatim>\<open>app/services/intelligence/reconcile.py\<close> and the review
  gate of \<^verbatim>\<open>orchestrator.py\<close>. The language model is a parameter: the list of items its
  answer parses to.
\<close>

section \<open>Enumerations\<close>

fun directive_type_value :: "directive_type \<Rightarrow> string" where
  "directive_type_value DT_must = ''must''"
| "directive_type_value DT_must_not = ''must_not''"
| "directive_type_value DT_prefer = ''prefer''"
| "directive_type_value DT_avoid = ''avoid''"
| "directive_type_value DT_constraint = ''constraint''"

definition all_directive_types :: "directive_type list" where
  "all_directive_types = [DT_must, DT_must_not, DT_prefer, DT_avoid, DT_constraint]"

interpretation directive_enum: str_enum directive_type_value all_directive_types
proof
  fix x y :: directive_type
  show "directive_type_value x = directive_type_value y \<Longrightarrow> x = y" by (cases x; cases y) simp_all
  show "x \<in> set all_directive_types" by (cases x) (simp_all add: all_directive_types_def)
qed (simp add: all_directive_types_def)

definition parse_directive_type :: "string \<Rightarrow> directive_type option" where
  "parse_directive_type s = enum_parse directive_type_value all_directive_types s"

section \<open>Normalised directives\<close>

record directive =
  d_type :: directive_type
  d_category :: string
  d_text :: string
  d_tier :: directive_tier
  d_rank :: nat
  d_confidence :: rat
  d_flags :: jdict
  d_source_key :: "string option"

text \<open>\<^verbatim>\<open>_TIER_BY_TYPE\<close>\<close>

fun tier_by_type :: "directive_type \<Rightarrow> directive_tier \<times> nat" where
  "tier_by_type DT_must_not = (Tier_mandatory, 0)"
| "tier_by_type DT_must = (Tier_required, 10)"
| "tier_by_type DT_constraint = (Tier_required, 20)"
| "tier_by_type DT_avoid = (Tier_preference, 30)"
| "tier_by_type DT_prefer = (Tier_preference, 40)"

text \<open>\<^verbatim>\<open>round(x, 3)\<close>, half to even, on the exact value of the number.\<close>

definition round3 :: "rat \<Rightarrow> rat" where
  "round3 q = (let m = q * 1000; k = \<lfloor>m\<rfloor>; r = m - of_int k in
     of_int (if r < 1 / 2 \<or> (r = 1 / 2 \<and> even k) then k else k + 1) / 1000)"

definition normalize_directive :: "string \<Rightarrow> string \<Rightarrow> string \<Rightarrow> rat \<Rightarrow> string option \<Rightarrow> directive option" where
  "normalize_directive dtype category body confidence source_key =
     (if body = [] then None
      else
        let t = (case parse_directive_type dtype of Some t \<Rightarrow> t | None \<Rightarrow> DT_prefer);
            (tier, rank) = tier_by_type t;
            (tier, rank) = (if confidence < 1 / 2 \<and> tier = Tier_preference then (Tier_inferred, 50) else (tier, rank)) in
        Some \<lparr>d_type = t, d_category = (if category \<noteq> [] then category else ''general''),
          d_text = take 2000 body, d_tier = tier, d_rank = rank, d_confidence = round3 confidence,
          d_flags = [], d_source_key = source_key\<rparr>)"

section \<open>Patterns\<close>

text \<open>
  The regular expressions of the net, case-insensitive on ASCII: a matcher that returns every
  remainder of the input after a match, each with the character before it. Whether a search finds a
  match does not depend on the order in which alternatives are tried.
\<close>

datatype pattern =
    Empty
  | Lit char
  | OneOf "char list"
  | NoneOf "char list"
  | Space
  | Boundary
  | Seq pattern pattern
  | Alt pattern pattern
  | UpTo nat pattern
  | Many pattern

type_synonym place = "char option \<times> string"

definition is_word_char :: "char \<Rightarrow> bool" where
  "is_word_char c \<longleftrightarrow> (let n = (of_char c :: nat) in
     (48 \<le> n \<and> n \<le> 57) \<or> (65 \<le> n \<and> n \<le> 90) \<or> (97 \<le> n \<and> n \<le> 122) \<or> n = 95)"

definition one_char :: "(char \<Rightarrow> bool) \<Rightarrow> place \<Rightarrow> place list" where
  "one_char ok p = (case snd p of [] \<Rightarrow> [] | c # rest \<Rightarrow> if ok c then [(Some c, rest)] else [])"

fun repeat_upto :: "nat \<Rightarrow> (place \<Rightarrow> place list) \<Rightarrow> place \<Rightarrow> place list" where
  "repeat_upto 0 f p = [p]"
| "repeat_upto (Suc n) f p = p # concat (map (repeat_upto n f) (f p))"

fun matches :: "pattern \<Rightarrow> place \<Rightarrow> place list" where
  "matches Empty p = [p]"
| "matches (Lit c) p = one_char (\<lambda>x. lower_char x = c) p"
| "matches (OneOf cs) p = one_char (\<lambda>x. lower_char x \<in> set cs) p"
| "matches (NoneOf cs) p = one_char (\<lambda>x. x \<notin> set cs) p"
| "matches Space p = one_char is_space p"
| "matches Boundary p =
     (if (case fst p of None \<Rightarrow> False | Some c \<Rightarrow> is_word_char c) \<noteq>
        (case snd p of [] \<Rightarrow> False | c # rest \<Rightarrow> is_word_char c) then [p] else [])"
| "matches (Seq a b) p = concat (map (matches b) (matches a p))"
| "matches (Alt a b) p = matches a p @ matches b p"
| "matches (UpTo n a) p = repeat_upto n (matches a) p"
| "matches (Many a) p = repeat_upto (length (snd p)) (matches a) p"

fun search_from :: "pattern \<Rightarrow> char option \<Rightarrow> string \<Rightarrow> bool" where
  "search_from r prev [] = (matches r (prev, []) \<noteq> [])"
| "search_from r prev (c # rest) = (matches r (prev, c # rest) \<noteq> [] \<or> search_from r (Some c) rest)"

definition search :: "pattern \<Rightarrow> string \<Rightarrow> bool" where
  "search r s = search_from r None s"

definition word :: "string \<Rightarrow> pattern" where
  "word s = foldr (\<lambda>c r. Seq (Lit c) r) s Empty"

definition any_of :: "pattern list \<Rightarrow> pattern" where
  "any_of ps = foldr Alt (butlast ps) (last ps)"

definition seqs :: "pattern list \<Rightarrow> pattern" where
  "seqs ps = foldr Seq ps Empty"

abbreviation dash_or_blank :: pattern where
  "dash_or_blank \<equiv> OneOf [CHR ''-'', CHR '' '']"

abbreviation not_stop :: pattern where
  "not_stop \<equiv> NoneOf [CHR ''.'', CHR 0x0A]"

definition no_ai_pattern :: pattern where
  "no_ai_pattern = any_of [
     seqs [any_of [word ''no'', word ''not'', word ''never'', word ''without'',
         seqs [word ''don'', UpTo 1 (Lit CHR 0x27), word ''t''],
         seqs [word ''do'', Many Space, word ''n'', UpTo 1 (OneOf [CHR ''o'', CHR 0x27]), word ''t''],
         word ''do not'', word ''avoid''],
       Boundary, UpTo 30 not_stop, word ''ai'', UpTo 1 dash_or_blank, word ''generated''],
     seqs [word ''no ai'', Boundary, UpTo 20 not_stop, any_of [word ''text'', word ''content'', word ''copy'']],
     seqs [word ''human'', dash_or_blank, word ''written only'']]"

definition no_stock_pattern :: pattern where
  "no_stock_pattern = seqs [word ''no stock '', any_of [word ''photos'', word ''images'', word ''imagery'']]"

definition no_emoji_pattern :: pattern where
  "no_emoji_pattern = any_of [word ''no emoji'', word ''without emoji'']"

record capability_rule =
  cr_pattern :: pattern
  cr_flag :: string
  cr_value :: jval
  cr_text :: string
  cr_category :: string

definition CAPABILITY_RULES :: "capability_rule list" where
  "CAPABILITY_RULES =
     [\<lparr>cr_pattern = no_ai_pattern, cr_flag = ''ai_text_generation'', cr_value = JBool False,
       cr_text = ''Never use AI-generated text in deliverables'', cr_category = ''content''\<rparr>,
      \<lparr>cr_pattern = no_stock_pattern, cr_flag = ''stock_imagery'', cr_value = JBool False,
       cr_text = ''Do not use stock photos or imagery'', cr_category = ''design''\<rparr>,
      \<lparr>cr_pattern = no_emoji_pattern, cr_flag = ''emoji'', cr_value = JBool False,
       cr_text = ''Do not use emoji'', cr_category = ''content''\<rparr>]"

section \<open>Extraction\<close>

definition net_haystack :: "string \<Rightarrow> client_file \<Rightarrow> string" where
  "net_haystack corpus f = join [newline] (filter (\<lambda>s. s \<noteq> [])
     (corpus # or_empty (c_brand_voice (cf_row f)) # or_empty (c_color_guidelines (cf_row f)) #
      map ce_text (cf_compliance f)))"

definition net_directive :: "capability_rule \<Rightarrow> directive option" where
  "net_directive r = map_option (\<lambda>d. d\<lparr>d_flags := [(cr_flag r, cr_value r)]\<rparr>)
     (normalize_directive (directive_type_value DT_must_not) (cr_category r) (cr_text r) 1 None)"

definition capability_net :: "string \<Rightarrow> client_file \<Rightarrow> directive list" where
  "capability_net corpus f =
     List.map_filter (\<lambda>r. if search (cr_pattern r) (net_haystack corpus f) then net_directive r else None) CAPABILITY_RULES"

definition kind_map :: "string \<Rightarrow> (directive_type \<times> string) option" where
  "kind_map kind = map_of [(''banned'', (DT_must_not, ''content'')), (''required'', (DT_must, ''content'')),
     (''rule'', (DT_constraint, ''process'')), (''brand-voice'', (DT_prefer, ''brand'')),
     (''note'', (DT_constraint, ''general''))] kind"

definition fallback_entry :: "compliance_entry \<Rightarrow> directive option" where
  "fallback_entry e =
     (let (t, category) = (case kind_map (compliance_kind_value (ce_kind e)) of
            Some x \<Rightarrow> x | None \<Rightarrow> (DT_constraint, ''general'')) in
      normalize_directive (directive_type_value t) category (strip (ce_text e)) (9 / 10) (Some ''field:compliance''))"

definition fallback :: "client_file \<Rightarrow> directive list" where
  "fallback f =
     (let voice = strip (or_empty (c_brand_voice (cf_row f))) in
      List.map_filter fallback_entry (cf_compliance f) @
      (if voice \<noteq> []
       then List.map_filter id [normalize_directive (directive_type_value DT_prefer) ''brand''
         (''Match the brand voice: '' @ voice) (9 / 10) (Some ''field:brand'')]
       else []))"

record raw_item =
  ri_type :: string
  ri_category :: string
  ri_text :: string
  ri_confidence :: rat

text \<open>
  The answer of the model: \<open>None\<close> when it is not configured, the call fails or the answer holds no
  list of directives.
\<close>

type_synonym directives_model = "client_file \<Rightarrow> string \<Rightarrow> raw_item list option"

definition extract_directives :: "directives_model \<Rightarrow> client_file \<Rightarrow> string \<Rightarrow> directive list" where
  "extract_directives ask f corpus =
     (let answer = (if strip corpus = [] then None else ask f corpus);
          out = (case answer of
             None \<Rightarrow> []
           | Some items \<Rightarrow> List.map_filter
               (\<lambda>i. normalize_directive (ri_type i) (ri_category i) (strip (ri_text i)) (ri_confidence i) None) items) in
      (if out \<noteq> [] then out else fallback f) @ capability_net corpus f)"

section \<open>Reconciliation\<close>

record reconciled =
  rc_directive :: directive
  rc_status :: directive_status
  rc_conflict :: "nat option"

definition rule_key :: "directive_type \<Rightarrow> string \<Rightarrow> directive_type \<times> string" where
  "rule_key t body = (t, lower (strip body))"

definition d_key :: "directive \<Rightarrow> directive_type \<times> string" where
  "d_key d = rule_key (d_type d) (d_text d)"

fun dedupe :: "(directive_type \<times> string) list \<Rightarrow> directive list \<Rightarrow> directive list" where
  "dedupe seen [] = []"
| "dedupe seen (d # ds) = (if d_key d \<in> set seen then dedupe seen ds else d # dedupe (d_key d # seen) ds)"

definition token_char :: "char \<Rightarrow> bool" where
  "token_char c \<longleftrightarrow> (let n = (of_char c :: nat) in (48 \<le> n \<and> n \<le> 57) \<or> (97 \<le> n \<and> n \<le> 122))"

fun find_tokens :: "string \<Rightarrow> string \<Rightarrow> string list" where
  "find_tokens acc [] = (if acc = [] then [] else [rev acc])"
| "find_tokens acc (c # cs) =
     (if token_char c then find_tokens (c # acc) cs
      else (if acc = [] then [] else [rev acc]) @ find_tokens [] cs)"

definition tokens :: "string \<Rightarrow> string set" where
  "tokens s = set (find_tokens [] (lower s))"

text \<open>\<^verbatim>\<open>_jaccard(a, b) >= 0.5\<close>: the quotient of the two sizes is at least one half.\<close>

definition overlapping :: "string set \<Rightarrow> string set \<Rightarrow> bool" where
  "overlapping a b \<longleftrightarrow> a \<noteq> {} \<and> b \<noteq> {} \<and> card (a \<union> b) \<le> 2 * card (a \<inter> b)"

definition opposes :: "directive \<Rightarrow> directive \<Rightarrow> bool" where
  "opposes a b \<longleftrightarrow> d_type a = DT_must_not \<and> d_category b = d_category a \<and> d_type b \<in> {DT_must, DT_prefer} \<and>
     overlapping (tokens (d_text a)) (tokens (d_text b))"

fun conflict_inner :: "directive list \<Rightarrow> nat \<Rightarrow> nat list \<Rightarrow> reconciled list \<Rightarrow> reconciled list" where
  "conflict_inner us i [] result = result"
| "conflict_inner us i (j # js) result =
     conflict_inner us i js
       (if rc_status (result ! j) = DS_active \<and> opposes (us ! i) (us ! j)
        then result[j := (result ! j)\<lparr>rc_status := DS_conflicted, rc_conflict := Some i\<rparr>]
        else result)"

fun conflict_outer :: "directive list \<Rightarrow> nat list \<Rightarrow> reconciled list \<Rightarrow> reconciled list" where
  "conflict_outer us [] result = result"
| "conflict_outer us (i # order) result =
     conflict_outer us order
       (if d_type (us ! i) \<noteq> DT_must_not then result else conflict_inner us i order result)"

definition reconcile :: "directive list \<Rightarrow> reconciled list" where
  "reconcile ds =
     (let us = dedupe [] ds;
          order = sort_key (\<lambda>i. d_rank (us ! i)) [0..<length us] in
      conflict_outer us order (map (\<lambda>d. \<lparr>rc_directive = d, rc_status = DS_active, rc_conflict = None\<rparr>) us))"

fun merge_value :: "jval option \<Rightarrow> jval \<Rightarrow> jval" where
  "merge_value (Some (JBool a)) (JBool b) = JBool (a \<and> b)"
| "merge_value old v = v"

fun merge_items :: "jdict \<Rightarrow> jdict \<Rightarrow> jdict" where
  "merge_items flags [] = flags"
| "merge_items flags ((key, v) # items) = merge_items (AList.update key (merge_value (map_of flags key) v) flags) items"

definition merge_capability_flags :: "reconciled list \<Rightarrow> jdict" where
  "merge_capability_flags rs =
     foldl (\<lambda>flags r. if rc_status r \<noteq> DS_active then flags else merge_items flags (d_flags (rc_directive r))) [] rs"

definition needs_review :: "directive \<Rightarrow> bool" where
  "needs_review d \<longleftrightarrow> d_type d \<in> {DT_must, DT_must_not} \<or> d_flags d \<noteq> []"

definition gate_new_restrictions :: "(directive_type \<times> string) set \<Rightarrow> reconciled list \<Rightarrow> reconciled list" where
  "gate_new_restrictions approved rs = map (\<lambda>r.
     if rc_status r = DS_active \<and> needs_review (rc_directive r) \<and> d_key (rc_directive r) \<notin> approved
     then r\<lparr>rc_status := DS_pending_review\<rparr> else r) rs"

section \<open>Lemmas: reconciliation\<close>

lemma dedupe_keys: "distinct (map d_key (dedupe seen ds)) \<and> d_key ` set (dedupe seen ds) = d_key ` set ds - set seen \<and>
    set (dedupe seen ds) \<subseteq> set ds"
  by (induction ds arbitrary: seen) auto

lemma conflict_inner_nth:
  assumes "distinct js" "\<forall>j \<in> set js. j < length result"
  shows "length (conflict_inner us i js result) = length result \<and>
    (\<forall>k < length result. conflict_inner us i js result ! k =
      (if k \<in> set js \<and> rc_status (result ! k) = DS_active \<and> opposes (us ! i) (us ! k)
       then (result ! k)\<lparr>rc_status := DS_conflicted, rc_conflict := Some i\<rparr> else result ! k))"
  using assms
proof (induction js arbitrary: result)
  case (Cons j js)
  let ?r = "if rc_status (result ! j) = DS_active \<and> opposes (us ! i) (us ! j)
      then result[j := (result ! j)\<lparr>rc_status := DS_conflicted, rc_conflict := Some i\<rparr>] else result"
  have r: "length ?r = length result" "\<And>k. k < length result \<Longrightarrow> ?r ! k =
      (if k = j \<and> rc_status (result ! j) = DS_active \<and> opposes (us ! i) (us ! j)
       then (result ! j)\<lparr>rc_status := DS_conflicted, rc_conflict := Some i\<rparr> else result ! k)"
    by (simp_all add: nth_list_update)
  have "\<forall>k \<in> set js. k < length ?r" "distinct js" using Cons.prems r(1) by simp_all
  from Cons.IH [OF this(2,1)] have IH: "length (conflict_inner us i (j # js) result) = length result"
    "\<And>k. k < length result \<Longrightarrow> conflict_inner us i (j # js) result ! k =
      (if k \<in> set js \<and> rc_status (?r ! k) = DS_active \<and> opposes (us ! i) (us ! k)
       then (?r ! k)\<lparr>rc_status := DS_conflicted, rc_conflict := Some i\<rparr> else ?r ! k)"
    by (simp_all only: conflict_inner.simps r(1))
  have "conflict_inner us i (j # js) result ! k = (if k \<in> set (j # js) \<and> rc_status (result ! k) = DS_active \<and> opposes (us ! i) (us ! k)
       then (result ! k)\<lparr>rc_status := DS_conflicted, rc_conflict := Some i\<rparr> else result ! k)"
    if k: "k < length result" for k
    unfolding IH(2) [OF k] r(2) [OF k] using Cons.prems(1) by (cases "k = j") auto
  with IH(1) show ?case by blast
qed simp

text \<open>A row is left alone or put in conflict with an earlier restriction; one that stays active met none.\<close>

definition settled :: "directive list \<Rightarrow> nat list \<Rightarrow> nat \<Rightarrow> reconciled \<Rightarrow> reconciled \<Rightarrow> bool" where
  "settled us order k old new \<longleftrightarrow> rc_directive new = rc_directive old \<and>
     (new = old \<or> (rc_status old = DS_active \<and> rc_status new = DS_conflicted \<and>
        (\<exists>i \<in> set order. rc_conflict new = Some i \<and> opposes (us ! i) (us ! k)))) \<and>
     (rc_status new = DS_active \<longrightarrow> (\<forall>xs i ys. order = xs @ i # ys \<longrightarrow> k \<in> set ys \<longrightarrow> \<not> opposes (us ! i) (us ! k)))"

lemma conflict_outer_nth:
  assumes "distinct order" "\<forall>j \<in> set order. j < length result"
  shows "length (conflict_outer us order result) = length result \<and>
    (\<forall>k < length result. settled us order k (result ! k) (conflict_outer us order result ! k))"
  using assms
proof (induction order arbitrary: result)
  case Nil
  then show ?case by (simp add: settled_def)
next
  case (Cons i order)
  let ?mid = "if d_type (us ! i) \<noteq> DT_must_not then result else conflict_inner us i order result"
  have mid: "length ?mid = length result" "\<And>k. k < length result \<Longrightarrow> ?mid ! k =
      (if k \<in> set order \<and> rc_status (result ! k) = DS_active \<and> opposes (us ! i) (us ! k)
       then (result ! k)\<lparr>rc_status := DS_conflicted, rc_conflict := Some i\<rparr> else result ! k)"
    using conflict_inner_nth [of order result us i] Cons.prems by (auto simp: opposes_def)
  have IH: "length (conflict_outer us order ?mid) = length result"
    "\<And>k. k < length result \<Longrightarrow> settled us order k (?mid ! k) (conflict_outer us order ?mid ! k)"
    using Cons.IH [of ?mid] Cons.prems mid(1) by auto
  have "settled us (i # order) k (result ! k) (conflict_outer us order ?mid ! k)" if k: "k < length result" for k
  proof (cases "k \<in> set order \<and> rc_status (result ! k) = DS_active \<and> opposes (us ! i) (us ! k)")
    case True
    with IH(2) [OF k] mid(2) [OF k] show ?thesis by (auto simp: settled_def)
  next
    case False
    then have eq: "?mid ! k = result ! k" by (rule trans [OF mid(2) [OF k] if_not_P])
    have "\<not> opposes (us ! j) (us ! k)"
      if "rc_status (conflict_outer us order ?mid ! k) = DS_active" "i # order = xs @ j # ys" "k \<in> set ys" for xs j ys
    proof (cases xs)
      case Nil
      have "rc_status (result ! k) = DS_active" using IH(2) [OF k] that(1) by (auto simp: settled_def eq)
      with Nil that False show ?thesis by auto
    next
      case (Cons x xs')
      with IH(2) [OF k] that show ?thesis by (auto simp: settled_def eq)
    qed
    with IH(2) [OF k] show ?thesis unfolding settled_def eq by (metis list.set_intros(2))
  qed
  with IH(1) show ?case by simp
qed

text \<open>A directive whose rank is the one of its type, as the normaliser leaves it.\<close>

definition ranked :: "directive \<Rightarrow> bool" where
  "ranked d \<longleftrightarrow> (d_type d = DT_must_not \<longrightarrow> d_rank d = 0) \<and> (d_type d \<in> {DT_must, DT_prefer} \<longrightarrow> 0 < d_rank d)"

lemma normalize_Some:
  assumes "normalize_directive s c b conf k = Some d"
  shows "ranked d" "d_flags d = []" "d_text d = take 2000 b"
proof -
  define t where "t = (case parse_directive_type s of Some t \<Rightarrow> t | None \<Rightarrow> DT_prefer)"
  obtain tier rank where tr: "tier_by_type t = (tier, rank)" by (cases "tier_by_type t")
  have b: "b \<noteq> []" using assms by (auto simp: normalize_directive_def split: if_splits)
  have d: "d_type d = t" "d_rank d = (if conf < 1 / 2 \<and> tier = Tier_preference then 50 else rank)"
    "d_flags d = []" "d_text d = take 2000 b"
    using assms b by (auto simp: normalize_directive_def Let_def t_def [symmetric] tr split: if_splits)
  then show "d_flags d = []" "d_text d = take 2000 b" by simp_all
  show "ranked d" using d tr by (cases t) (auto simp: ranked_def)
qed

definition flags_off :: "directive \<Rightarrow> bool" where
  "flags_off d \<longleftrightarrow> (\<forall>(k, v) \<in> set (d_flags d). v = JBool False)"

lemma map_filter_in: "x \<in> set (List.map_filter f xs) \<longleftrightarrow> (\<exists>y \<in> set xs. f y = Some x)"
  by (induction xs) (auto simp: List.map_filter_simps split: option.splits)

lemma normalize_normal: "normalize_directive s c b conf k = Some d \<Longrightarrow> ranked d \<and> flags_off d"
  using normalize_Some [of s c b conf k d] by (simp add: flags_off_def)

lemma fallback_entry_normal: "fallback_entry e = Some d \<Longrightarrow> ranked d \<and> flags_off d"
  by (cases "case kind_map (compliance_kind_value (ce_kind e)) of Some x \<Rightarrow> x | None \<Rightarrow> (DT_constraint, ''general'')")
    (auto simp: fallback_entry_def dest!: normalize_normal)

lemma fallback_normal: "d \<in> set (fallback f) \<Longrightarrow> ranked d \<and> flags_off d"
  by (auto simp: fallback_def Let_def map_filter_in List.map_filter_simps
      dest!: fallback_entry_normal normalize_normal split: if_splits option.splits)

lemma net_normal:
  assumes "d \<in> set (capability_net corpus f)"
  shows "ranked d \<and> flags_off d"
proof -
  from assms obtain r d0 where r: "r \<in> set CAPABILITY_RULES" and d: "d = d0\<lparr>d_flags := [(cr_flag r, cr_value r)]\<rparr>"
    and n: "normalize_directive (directive_type_value DT_must_not) (cr_category r) (cr_text r) 1 None = Some d0"
    by (auto simp: capability_net_def map_filter_in net_directive_def split: if_splits)
  have "cr_value r = JBool False" using r by (auto simp: CAPABILITY_RULES_def)
  with normalize_Some [OF n] d show ?thesis by (simp add: ranked_def flags_off_def)
qed

text \<open>Whatever the model answers, every extracted directive has its type's rank and only flags that switch off.\<close>

lemma extract_normal: "d \<in> set (extract_directives ask f corpus) \<Longrightarrow> ranked d \<and> flags_off d"
  using fallback_normal net_normal
  by (auto simp: extract_directives_def Let_def map_filter_in dest!: normalize_normal split: option.splits if_splits)

text \<open>Only the net attaches flags, and its rules are prohibitions.\<close>

definition flags_restrict :: "directive \<Rightarrow> bool" where
  "flags_restrict d \<longleftrightarrow> (d_flags d \<noteq> [] \<longrightarrow> d_type d = DT_must_not)"

lemma normalize_restrict: "normalize_directive s c b conf k = Some d \<Longrightarrow> flags_restrict d"
  using normalize_Some(2) by (simp add: flags_restrict_def)

lemma fallback_restrict: "d \<in> set (fallback f) \<Longrightarrow> flags_restrict d"
  by (auto simp: fallback_def Let_def map_filter_in List.map_filter_simps fallback_entry_def
      dest!: normalize_restrict split: if_splits option.splits prod.splits)

lemma net_restrict: "d \<in> set (capability_net corpus f) \<Longrightarrow> flags_restrict d"
proof -
  have parse: "parse_directive_type (directive_type_value DT_must_not) = Some DT_must_not"
    unfolding parse_directive_type_def by (rule directive_enum.parse_val)
  have "d_type d = DT_must_not" if "normalize_directive (directive_type_value DT_must_not) c b conf k = Some d" for c b conf k d
    using that by (auto simp: normalize_directive_def parse split: if_splits simp del: directive_type_value.simps)
  then show "d \<in> set (capability_net corpus f) \<Longrightarrow> flags_restrict d"
    by (auto simp: capability_net_def map_filter_in net_directive_def flags_restrict_def split: if_splits
        simp del: directive_type_value.simps)
qed

lemma extract_restrict: "d \<in> set (extract_directives ask f corpus) \<Longrightarrow> flags_restrict d"
  using fallback_restrict net_restrict
  by (auto simp: extract_directives_def Let_def map_filter_in dest!: normalize_restrict split: option.splits if_splits)

lemma rank_order:
  assumes "i < length us" "j < length us" "d_rank (us ! i) < d_rank (us ! j)"
  shows "\<exists>xs ys. sort_key (\<lambda>i. d_rank (us ! i)) [0..<length us] = xs @ i # ys \<and> j \<in> set ys"
proof -
  let ?order = "sort_key (\<lambda>i. d_rank (us ! i)) [0..<length us]"
  have "i \<in> set ?order" using assms(1) by simp
  then obtain xs ys where split: "?order = xs @ i # ys" by (metis split_list)
  have sorted: "sorted (map (\<lambda>i. d_rank (us ! i)) ?order)" by simp
  have "j \<notin> set xs" using sorted assms(3) unfolding split by (auto simp: sorted_append)
  moreover have "j \<in> set ?order" "j \<noteq> i" using assms by auto
  ultimately show ?thesis using split by auto
qed

lemma reconcile_settled:
  assumes us: "us = dedupe [] ds" and ranked: "\<forall>d \<in> set ds. ranked d" and rs: "rs = reconcile ds"
  shows "length rs = length us" "\<And>k. k < length us \<Longrightarrow> rc_directive (rs ! k) = us ! k"
    "\<And>k. k < length us \<Longrightarrow> rc_status (rs ! k) = DS_active \<or> rc_status (rs ! k) = DS_conflicted \<and>
      (\<exists>i < length us. rc_conflict (rs ! k) = Some i \<and> rc_status (rs ! i) = DS_active \<and> opposes (us ! i) (us ! k))"
    "\<And>i k. i < length us \<Longrightarrow> k < length us \<Longrightarrow> rc_status (rs ! k) = DS_active \<Longrightarrow> \<not> opposes (us ! i) (us ! k)"
proof -
  let ?order = "sort_key (\<lambda>i. d_rank (us ! i)) [0..<length us]"
  let ?start = "map (\<lambda>d. \<lparr>rc_directive = d, rc_status = DS_active, rc_conflict = None\<rparr>) us"
  have rs': "rs = conflict_outer us ?order ?start" by (simp add: rs reconcile_def Let_def us)
  have run: "length rs = length us" "\<And>k. k < length us \<Longrightarrow> settled us ?order k (?start ! k) (rs ! k)"
    using conflict_outer_nth [of ?order ?start us] by (auto simp: rs')
  then show len: "length rs = length us" and "\<And>k. k < length us \<Longrightarrow> rc_directive (rs ! k) = us ! k"
    by (auto simp: settled_def)
  have rk: "ranked (us ! k)" if "k < length us" for k
    using dedupe_keys [of "[]" ds] ranked that us nth_mem by blast
  show none: "\<not> opposes (us ! i) (us ! k)" if "i < length us" "k < length us" "rc_status (rs ! k) = DS_active" for i k
  proof
    assume op: "opposes (us ! i) (us ! k)"
    then have "d_rank (us ! i) < d_rank (us ! k)" using rk [OF that(1)] rk [OF that(2)] by (auto simp: opposes_def ranked_def)
    from rank_order [OF that(1,2) this] run(2) [OF that(2)] that(3) op show False by (auto simp: settled_def)
  qed
  have restrict: "rc_status (rs ! i) = DS_active" if "i < length us" "d_type (us ! i) = DT_must_not" for i
    using run(2) [OF that(1)] that by (auto simp: settled_def opposes_def)
  show "rc_status (rs ! k) = DS_active \<or> rc_status (rs ! k) = DS_conflicted \<and>
      (\<exists>i < length us. rc_conflict (rs ! k) = Some i \<and> rc_status (rs ! i) = DS_active \<and> opposes (us ! i) (us ! k))"
    if "k < length us" for k
    using run(2) [OF that] that restrict by (auto simp: settled_def opposes_def)
qed

lemma reconcile_from:
  assumes r: "r \<in> set (reconcile ds)" and ranked: "\<forall>d \<in> set ds. ranked d"
  shows "rc_directive r \<in> set ds"
proof -
  note settled = reconcile_settled [OF refl ranked refl]
  from r obtain k where k: "k < length (reconcile ds)" "r = reconcile ds ! k" by (metis in_set_conv_nth)
  have "rc_directive r = dedupe [] ds ! k" "k < length (dedupe [] ds)" using settled(1,2) k by simp_all
  then have "rc_directive r \<in> set (dedupe [] ds)" by simp
  then show ?thesis using dedupe_keys [of "[]" ds] by blast
qed

text \<open>What the gate lets through of the extracted rules.\<close>

lemma gated_rules:
  assumes "r \<in> set (gate_new_restrictions approved (reconcile (extract_directives ask f corpus)))"
  shows "flags_off (rc_directive r) \<and> flags_restrict (rc_directive r) \<and>
    (rc_status r = DS_active \<longrightarrow> needs_review (rc_directive r) \<longrightarrow> d_key (rc_directive r) \<in> approved)"
proof -
  from assms obtain r0 where r0: "r0 \<in> set (reconcile (extract_directives ask f corpus))"
    and r: "rc_directive r = rc_directive r0" "rc_status r = DS_active \<Longrightarrow> needs_review (rc_directive r0) \<Longrightarrow> d_key (rc_directive r0) \<in> approved"
    by (auto simp: gate_new_restrictions_def split: if_splits)
  have "rc_directive r0 \<in> set (extract_directives ask f corpus)"
    using reconcile_from [OF r0] extract_normal by blast
  with extract_normal [OF this] extract_restrict [OF this] r show ?thesis by simp
qed

section \<open>Lemmas: the compiled flags\<close>

text \<open>Flags that only switch off: a key is off as soon as one active directive names it.\<close>

definition all_off :: "jdict \<Rightarrow> bool" where
  "all_off flags \<longleftrightarrow> (\<forall>k v. map_of flags k = Some v \<longrightarrow> v = JBool False)"

lemma merge_items_off:
  assumes "all_off flags" "\<forall>(k, v) \<in> set items. v = JBool False"
  shows "all_off (merge_items flags items) \<and>
    (\<forall>k. map_of (merge_items flags items) k = None \<longleftrightarrow> map_of flags k = None \<and> k \<notin> fst ` set items)"
  using assms
proof (induction flags items rule: merge_items.induct)
  case (2 flags key v items)
  let ?flags = "AList.update key (merge_value (map_of flags key) v) flags"
  have v: "v = JBool False" using "2.prems"(2) by simp
  have "map_of flags key = None \<or> map_of flags key = Some (JBool False)"
    using "2.prems"(1) by (cases "map_of flags key") (auto simp: all_off_def)
  then have val: "merge_value (map_of flags key) v = JBool False"
    by (auto simp: v)
  have off: "all_off ?flags" using "2.prems"(1) unfolding val by (auto simp: all_off_def update_conv' split: if_splits)
  have "\<forall>(k, v) \<in> set items. v = JBool False" using "2.prems"(2) by simp
  from "2.IH" [OF off this] show ?case
    unfolding merge_items.simps val by (auto simp: update_conv')
qed simp

lemma flags_fold:
  assumes "\<forall>r \<in> set rs. \<forall>(k, v) \<in> set (fl r). v = JBool False"
  shows "map_of (foldl (\<lambda>flags r. if \<not> act r then flags else merge_items flags (fl r)) [] rs) k =
    (if \<exists>r \<in> set rs. act r \<and> k \<in> fst ` set (fl r) then Some (JBool False) else None)"
proof -
  let ?step = "\<lambda>flags r. if \<not> act r then flags else merge_items flags (fl r)"
  let ?names = "\<lambda>r k. act r \<and> k \<in> fst ` set (fl r)"
  have fold: "all_off (foldl ?step flags rs) \<and> (\<forall>k. map_of (foldl ?step flags rs) k = None \<longleftrightarrow> map_of flags k = None \<and>
      \<not> (\<exists>r \<in> set rs. ?names r k))"
    if "all_off flags" for flags
    using that assms
  proof (induction rs arbitrary: flags)
    case (Cons r rs)
    define mid where "mid = ?step flags r"
    have mid: "all_off mid" "\<And>k. map_of mid k = None \<longleftrightarrow> map_of flags k = None \<and> \<not> ?names r k"
      using merge_items_off [OF Cons.prems(1), of "fl r"] Cons.prems by (simp_all add: mid_def)
    have IH: "all_off (foldl ?step mid rs)"
      "\<And>k. map_of (foldl ?step mid rs) k = None \<longleftrightarrow> map_of mid k = None \<and> \<not> (\<exists>r \<in> set rs. ?names r k)"
      using Cons.IH [OF mid(1)] Cons.prems(2) by simp_all
    have "foldl ?step flags (r # rs) = foldl ?step mid rs" by (simp add: mid_def)
    then show ?case unfolding list.set bex_simps using IH mid(2) by (simp only:) blast
  qed simp
  have empty: "all_off []" by (simp add: all_off_def)
  have off: "all_off (foldl ?step [] rs)" using fold [OF empty] by blast
  have none: "map_of (foldl ?step [] rs) k = None \<longleftrightarrow> \<not> (\<exists>r \<in> set rs. ?names r k)"
    using fold [OF empty] by (simp only: map_of.simps) simp
  show ?thesis
  proof (cases "\<exists>r \<in> set rs. ?names r k")
    case True
    with none obtain v where v: "map_of (foldl ?step [] rs) k = Some v" by auto
    with off have "v = JBool False" by (simp add: all_off_def)
    with v True show ?thesis by simp
  next
    case False
    with none show ?thesis by simp
  qed
qed

lemma merge_flags_off:
  assumes "\<forall>r \<in> set rs. flags_off (rc_directive r)"
  shows "map_of (merge_capability_flags rs) k =
    (if \<exists>r \<in> set rs. rc_status r = DS_active \<and> k \<in> fst ` set (d_flags (rc_directive r)) then Some (JBool False) else None)"
  using flags_fold [of rs "\<lambda>r. d_flags (rc_directive r)" "\<lambda>r. rc_status r = DS_active"] assms
  by (simp add: merge_capability_flags_def flags_off_def)

section \<open>What reconciliation promises\<close>

text \<open>
  C19. Restrictions win, whatever the language model answers: after reconciling the extracted rules no
  two rules share type and normalised text and none was lost; no active requirement or preference
  lexically opposes a prohibition of its category; and a rule that is not active is in conflict with
  an active prohibition of its category that it opposes, which the row names.
\<close>

theorem restrictions_win:
  fixes ask f corpus
  defines "ds \<equiv> extract_directives ask f corpus" and "rs \<equiv> reconcile (extract_directives ask f corpus)"
  shows "distinct (map (d_key \<circ> rc_directive) rs) \<and> d_key ` rc_directive ` set rs = d_key ` set ds \<and>
    (\<forall>r \<in> set rs. \<forall>s \<in> set rs. rc_status s = DS_active \<longrightarrow> \<not> opposes (rc_directive r) (rc_directive s)) \<and>
    (\<forall>s \<in> set rs. rc_status s \<noteq> DS_active \<longrightarrow> rc_status s = DS_conflicted \<and>
      (\<exists>i < length rs. rc_conflict s = Some i \<and> rc_status (rs ! i) = DS_active \<and>
        opposes (rc_directive (rs ! i)) (rc_directive s)))"
proof -
  define us where "us = dedupe [] ds"
  have ranked: "\<forall>d \<in> set ds. ranked d" using extract_normal by (auto simp: ds_def)
  note r = reconcile_settled [OF us_def ranked, of rs]
  have rs: "rs = reconcile ds" by (simp add: rs_def ds_def)
  note r = r [OF rs]
  have dirs: "map rc_directive rs = us" using r(1,2) by (simp add: list_eq_iff_nth_eq)
  have keys: "map (d_key \<circ> rc_directive) rs = map d_key us" by (metis dirs map_map)
  have all: "rc_directive ` set rs = set us" by (metis dirs set_map)
  have opp: "\<not> opposes (rc_directive a) (rc_directive b)" if "a \<in> set rs" "b \<in> set rs" "rc_status b = DS_active" for a b
    using that r(1,2) r(4) by (metis in_set_conv_nth)
  have "rc_status b = DS_conflicted \<and> (\<exists>i < length rs. rc_conflict b = Some i \<and> rc_status (rs ! i) = DS_active \<and>
      opposes (rc_directive (rs ! i)) (rc_directive b))" if "b \<in> set rs" "rc_status b \<noteq> DS_active" for b
    using that r(1,2) r(3) by (metis in_set_conv_nth)
  with keys all opp show ?thesis using dedupe_keys [of "[]" ds] unfolding us_def [symmetric] by simp
qed

section \<open>Where the net has a hole\<close>

text \<open>
  The net is meant to hold whatever the model does. But deduplication keeps the first rule of a key,
  and the model's rules come first: a model that answers with the net's own sentence leaves the
  prohibition without the flag that enforces it.
\<close>

definition plain_file :: "compliance_entry list \<Rightarrow> client_file" where
  "plain_file entries = \<lparr>cf_row = sample_client 7, cf_goals = None, cf_compliance = entries, cf_contacts = [],
     cf_documents = [], cf_messages = [], cf_current_version = None\<rparr>"

definition no_ai_entry :: "bool \<Rightarrow> compliance_entry" where
  "no_ai_entry active = \<lparr>ce_id = 1, ce_kind = Kind_banned, ce_text = ''No AI text'', ce_author_id = None,
     ce_is_active = active\<rparr>"

definition ai_rule :: directive where
  "ai_rule = \<lparr>d_type = DT_must_not, d_category = ''content'', d_text = ''Never use AI-generated text in deliverables'',
     d_tier = Tier_mandatory, d_rank = 0, d_confidence = 1, d_flags = [], d_source_key = None\<rparr>"

definition entry_rule :: directive where
  "entry_rule = \<lparr>d_type = DT_must_not, d_category = ''content'', d_text = ''No AI text'',
     d_tier = Tier_mandatory, d_rank = 0, d_confidence = 9 / 10, d_flags = [], d_source_key = Some ''field:compliance''\<rparr>"

lemma parse_must_not: "parse_directive_type ''must_not'' = Some DT_must_not"
  using directive_enum.parse_val [of DT_must_not] by (simp add: parse_directive_type_def)

lemma net_haystack_plain: "net_haystack ''No AI text'' (plain_file [no_ai_entry b]) = ''No AI text'' @ newline # ''No AI text''"
  by (simp add: net_haystack_def plain_file_def no_ai_entry_def sample_client_def or_empty_def join_def)

lemma net_plain: "capability_net ''No AI text'' (plain_file [no_ai_entry b]) =
    [ai_rule\<lparr>d_flags := [(''ai_text_generation'', JBool False)]\<rparr>]"
proof -
  have "search no_ai_pattern (''No AI text'' @ newline # ''No AI text'')" by code_simp
  moreover have "\<not> search no_stock_pattern (''No AI text'' @ newline # ''No AI text'')" by code_simp
  moreover have "\<not> search no_emoji_pattern (''No AI text'' @ newline # ''No AI text'')" by code_simp
  moreover have "net_haystack ''No AI text'' (plain_file [no_ai_entry b]) = ''No AI text'' @ newline # ''No AI text''"
    by (rule net_haystack_plain)
  ultimately show ?thesis
    unfolding capability_net_def
    by (simp add: CAPABILITY_RULES_def List.map_filter_simps net_directive_def normalize_directive_def parse_must_not
        round3_def ai_rule_def)
qed

lemma fallback_plain: "fallback (plain_file [no_ai_entry b]) = [entry_rule]"
proof -
  have "strip ''No AI text'' = ''No AI text''" by code_simp
  moreover have "strip [] = []" by code_simp
  ultimately show ?thesis
  by (simp add: fallback_def fallback_entry_def plain_file_def no_ai_entry_def sample_client_def or_empty_def
     List.map_filter_simps kind_map_def normalize_directive_def parse_must_not round3_def entry_rule_def)
qed

definition net_flags :: "directives_model \<Rightarrow> bool \<Rightarrow> string list" where
  "net_flags ask active = map fst (merge_capability_flags
     (reconcile (extract_directives ask (plain_file [no_ai_entry active]) ''No AI text'')))"

definition parrot :: directives_model where
  "parrot f corpus = Some [\<lparr>ri_type = ''must_not'', ri_category = ''content'',
     ri_text = ''Never use AI-generated text in deliverables'', ri_confidence = 1\<rparr>]"

definition silent :: directives_model where
  "silent f corpus = None"

lemma extract_plain:
  "extract_directives silent (plain_file [no_ai_entry b]) ''No AI text'' =
    [entry_rule, ai_rule\<lparr>d_flags := [(''ai_text_generation'', JBool False)]\<rparr>]"
  "extract_directives parrot (plain_file [no_ai_entry b]) ''No AI text'' =
    [ai_rule, ai_rule\<lparr>d_flags := [(''ai_text_generation'', JBool False)]\<rparr>]"
proof -
  have "strip ''No AI text'' = ''No AI text''"
    "strip ''Never use AI-generated text in deliverables'' = ''Never use AI-generated text in deliverables''" by code_simp+
  then show "extract_directives silent (plain_file [no_ai_entry b]) ''No AI text'' =
      [entry_rule, ai_rule\<lparr>d_flags := [(''ai_text_generation'', JBool False)]\<rparr>]"
    "extract_directives parrot (plain_file [no_ai_entry b]) ''No AI text'' =
      [ai_rule, ai_rule\<lparr>d_flags := [(''ai_text_generation'', JBool False)]\<rparr>]"
    by (simp_all add: extract_directives_def net_plain fallback_plain silent_def parrot_def List.map_filter_simps
        normalize_directive_def parse_must_not round3_def ai_rule_def)
qed

lemma plain_keys: "d_key entry_rule \<noteq> d_key ai_rule"
proof -
  have "lower (strip ''No AI text'') \<noteq> lower (strip ''Never use AI-generated text in deliverables'')" by code_simp
  then show ?thesis by (simp add: d_key_def rule_key_def entry_rule_def ai_rule_def)
qed

theorem net_shadowed_by_model:
  "net_flags silent True = [''ai_text_generation''] \<and> net_flags parrot True = []"
proof
  let ?net = "ai_rule\<lparr>d_flags := [(''ai_text_generation'', JBool False)]\<rparr>"
  have key: "d_key ?net = d_key ai_rule" by (simp add: d_key_def)
  have types: "d_type entry_rule = DT_must_not" "d_type ai_rule = DT_must_not" "d_rank entry_rule = 0" "d_rank ai_rule = 0"
    by (simp_all add: entry_rule_def ai_rule_def)
  have "reconcile [entry_rule, ?net] = map (\<lambda>d. \<lparr>rc_directive = d, rc_status = DS_active, rc_conflict = None\<rparr>) [entry_rule, ?net]"
    using plain_keys plain_keys [symmetric] by (simp add: reconcile_def key opposes_def types Let_def)
  then show "net_flags silent True = [''ai_text_generation'']"
    by (simp add: net_flags_def extract_plain merge_capability_flags_def entry_rule_def)
  have "reconcile [ai_rule, ?net] = [\<lparr>rc_directive = ai_rule, rc_status = DS_active, rc_conflict = None\<rparr>]"
    by (simp add: reconcile_def key Let_def types)
  then show "net_flags parrot True = []"
    by (simp add: net_flags_def extract_plain merge_capability_flags_def ai_rule_def)
qed

text \<open>An entry of the register that was deactivated yields the same rules as an active one.\<close>

theorem deactivated_entry_still_enforced: "fallback (plain_file [no_ai_entry False]) = [entry_rule] \<and>
    capability_net ''No AI text'' (plain_file [no_ai_entry False]) = [ai_rule\<lparr>d_flags := [(''ai_text_generation'', JBool False)]\<rparr>]"
  by (simp add: fallback_plain net_plain)

text \<open>A brand-voice entry is looked up under a name its kind does not have, and becomes a general constraint.\<close>

lemma brand_voice_entry_misfiled:
  "kind_map (compliance_kind_value Kind_brand_voice) = None"
  by (simp add: kind_map_def)

definition torn :: directives_model where
  "torn f corpus = Some [
     \<lparr>ri_type = ''must_not'', ri_category = ''design'', ri_text = ''Use stock photos'', ri_confidence = 1\<rparr>,
     \<lparr>ri_type = ''prefer'', ri_category = ''design'', ri_text = ''use stock photos!'', ri_confidence = 1\<rparr>]"

lemma torn_rules: "map (\<lambda>r. (d_type (rc_directive r), rc_status r, rc_conflict r)) (reconcile (extract_directives torn (plain_file []) ''x'')) =
    [(DT_must_not, DS_active, None), (DT_prefer, DS_conflicted, Some 0)]"
  by code_simp

theorem restrictions_win_witness:
  "let rs = reconcile (extract_directives torn (plain_file []) ''x'') in
     rc_status (rs ! 1) = DS_conflicted \<and> opposes (rc_directive (rs ! 0)) (rc_directive (rs ! 1))"
proof -
  define rs where "rs = reconcile (extract_directives torn (plain_file []) ''x'')"
  have rs: "length rs = 2" "rc_status (rs ! 1) = DS_conflicted" "rc_conflict (rs ! 1) = Some 0"
    using torn_rules by (auto simp: rs_def [symmetric] map_eq_Cons_conv)
  have "rs ! 1 \<in> set rs" using rs(1) by simp
  moreover have "\<forall>s \<in> set rs. rc_status s \<noteq> DS_active \<longrightarrow> rc_status s = DS_conflicted \<and>
      (\<exists>i < length rs. rc_conflict s = Some i \<and> rc_status (rs ! i) = DS_active \<and> opposes (rc_directive (rs ! i)) (rc_directive s))"
    unfolding rs_def using restrictions_win [of torn "plain_file []" "''x''"] by blast
  ultimately have "opposes (rc_directive (rs ! 0)) (rc_directive (rs ! 1))" using rs by fastforce
  with rs(2) show ?thesis by (simp add: rs_def Let_def)
qed

end
