(* ===== verification/Text_Extraction.thy ===== *)
theory Text_Extraction
  imports Knowledge
begin

text \<open>
  The text of an uploaded file (\<^verbatim>\<open>app/integrations/documents/extractor.py\<close>): the
  dispatch on the media type and the extension, the zip guard and the capped joiner. The libraries
  that open a PDF or an office file are parameters: each answers with the texts it iterates over, in
  order, or with the exception it raises. A byte string is the list of its bytes; decoding UTF-8 is
  the identity on the ASCII part, where the model lives.
\<close>

section \<open>The capped joiner\<close>

record joiner =
  jn_max_chars :: nat
  jn_sep :: string
  jn_parts :: "string list"
  jn_total :: nat

definition new_joiner :: "nat \<Rightarrow> string \<Rightarrow> joiner" where
  "new_joiner max_chars sep = \<lparr>jn_max_chars = max_chars, jn_sep = sep, jn_parts = [], jn_total = 0\<rparr>"

definition jn_done :: "joiner \<Rightarrow> bool" where
  "jn_done j \<longleftrightarrow> jn_max_chars j \<le> jn_total j"

definition jn_add :: "string \<Rightarrow> joiner \<Rightarrow> joiner" where
  "jn_add part j =
     (if part = [] \<or> jn_done j then j
      else let piece = take (jn_max_chars j - jn_total j) part in
        j\<lparr>jn_parts := jn_parts j @ [piece], jn_total := jn_total j + length piece\<rparr>)"

definition jn_result :: "joiner \<Rightarrow> string" where
  "jn_result j = join (jn_sep j) (jn_parts j)"

text \<open>\<^verbatim>\<open>for x in xs: if joiner.done: break; joiner.add(x)\<close>\<close>

fun add_all :: "string list \<Rightarrow> joiner \<Rightarrow> joiner" where
  "add_all [] j = j"
| "add_all (x # xs) j = (if jn_done j then j else add_all xs (jn_add x j))"

section \<open>The zip guard\<close>

definition MAX_UNCOMPRESSED_BYTES :: nat where
  "MAX_UNCOMPRESSED_BYTES = 512 * 1024 * 1024"

definition MAX_COMPRESSION_RATIO :: nat where
  "MAX_COMPRESSION_RATIO = 200"

text \<open>
  The declared sizes of the archive's entries, \<open>None\<close> for a malformed archive. The quotient is
  compared exactly: \<^verbatim>\<open>total / len(data) > 200\<close>.
\<close>

definition guard_zip_bomb :: "nat list option \<Rightarrow> string \<Rightarrow> exn + unit" where
  "guard_zip_bomb sizes data =
     (case sizes of
        None \<Rightarrow> Inr ()
      | Some infos \<Rightarrow>
          let total = sum_list infos in
          if MAX_UNCOMPRESSED_BYTES < total then Inl (Crash ''archive expands over the extraction limit'')
          else if data \<noteq> [] \<and> MAX_COMPRESSION_RATIO * max (length data) 1 < total
            then Inl (Crash ''archive compression ratio looks like a zip bomb'')
          else Inr ())"

section \<open>The formats\<close>

text \<open>
  What opening a file gives: the library is not installed, it raises, or it iterates. A presentation
  iterates over slides of shapes, a workbook over sheets (a title and the rows of cells).
\<close>

datatype 'a opened = MissingDep | Raises string | Opened 'a

record parsers =
  pr_pdf :: "string \<Rightarrow> string list opened"
  pr_docx :: "string \<Rightarrow> string list opened"
  pr_pptx :: "string \<Rightarrow> string list list opened"
  pr_xlsx :: "string \<Rightarrow> (string \<times> string list list) list opened"
  pr_csv :: "string \<Rightarrow> string list list opened"
  pr_zip_sizes :: "string \<Rightarrow> nat list option"

datatype extraction_error = Ext_missing | Ext_other

definition run_opened :: "'a opened \<Rightarrow> ('a \<Rightarrow> string) \<Rightarrow> extraction_error + string" where
  "run_opened x f = (case x of MissingDep \<Rightarrow> Inl Ext_missing | Raises m \<Rightarrow> Inl Ext_other | Opened a \<Rightarrow> Inr (f a))"

text \<open>The office formats: the import first, then the guard, then the library.\<close>

definition guarded :: "parsers \<Rightarrow> string \<Rightarrow> 'a opened \<Rightarrow> ('a \<Rightarrow> string) \<Rightarrow> extraction_error + string" where
  "guarded pr data x f =
     (case x of
        MissingDep \<Rightarrow> Inl Ext_missing
      | _ \<Rightarrow> (case guard_zip_bomb (pr_zip_sizes pr data) data of Inl e \<Rightarrow> Inl Ext_other | Inr u \<Rightarrow> run_opened x f))"

definition pdf_text :: "parsers \<Rightarrow> string \<Rightarrow> nat \<Rightarrow> extraction_error + string" where
  "pdf_text pr data max_chars =
     run_opened (pr_pdf pr data) (\<lambda>pages. jn_result (add_all pages (new_joiner max_chars [newline, newline])))"

definition docx_text :: "parsers \<Rightarrow> string \<Rightarrow> nat \<Rightarrow> extraction_error + string" where
  "docx_text pr data max_chars =
     guarded pr data (pr_docx pr data) (\<lambda>paragraphs. jn_result (add_all paragraphs (new_joiner max_chars [newline])))"

definition pptx_text :: "parsers \<Rightarrow> string \<Rightarrow> nat \<Rightarrow> extraction_error + string" where
  "pptx_text pr data max_chars =
     guarded pr data (pr_pptx pr data) (\<lambda>slides.
       jn_result (foldl (\<lambda>j shapes. if jn_done j then j else add_all shapes j) (new_joiner max_chars [newline]) slides))"

definition sheet_rows :: "string list list \<Rightarrow> string list" where
  "sheet_rows rows = map (join '', '') (filter (\<lambda>cells. cells \<noteq> []) rows)"

definition xlsx_text :: "parsers \<Rightarrow> string \<Rightarrow> nat \<Rightarrow> extraction_error + string" where
  "xlsx_text pr data max_chars =
     guarded pr data (pr_xlsx pr data) (\<lambda>sheets.
       jn_result (foldl (\<lambda>j (title, rows). if jn_done j then j
           else add_all (sheet_rows rows) (jn_add (''# '' @ title) j)) (new_joiner max_chars [newline]) sheets))"

definition csv_text :: "parsers \<Rightarrow> string \<Rightarrow> extraction_error + string" where
  "csv_text pr data = run_opened (pr_csv pr data) (\<lambda>rows. join [newline] (map (join '', '') rows))"

section \<open>The dispatch\<close>

definition TEXT_TYPES :: "string list" where
  "TEXT_TYPES = [''text/plain'', ''text/markdown'', ''text/csv'', ''text/tab-separated-values'', ''application/json'',
     ''application/xml'', ''text/xml'', ''text/html'']"

definition occurs_in :: "string \<Rightarrow> string \<Rightarrow> bool" where
  "occurs_in needle s \<longleftrightarrow> rfind s needle \<noteq> None"

definition mime_of :: "string option \<Rightarrow> string" where
  "mime_of m = lower (strip (takeWhile (\<lambda>c. c \<noteq> CHR '';'') (or_empty m)))"

definition extension_of :: "string \<Rightarrow> string" where
  "extension_of name = (if CHR ''.'' \<in> set name then lower (rev (takeWhile (\<lambda>c. c \<noteq> CHR ''.'') (rev name))) else [])"

definition extracted :: "string \<Rightarrow> string \<times> source_status" where
  "extracted s = (strip s, Src_extracted)"

definition from_parser :: "extraction_error + string \<Rightarrow> string \<times> source_status" where
  "from_parser r = (case r of Inl Ext_missing \<Rightarrow> ([], Src_unsupported) | Inl Ext_other \<Rightarrow> ([], Src_failed) | Inr s \<Rightarrow> extracted s)"

definition extract_text :: "parsers \<Rightarrow> nat \<Rightarrow> string \<Rightarrow> string option \<Rightarrow> string \<Rightarrow> string \<times> source_status" where
  "extract_text pr max_chars data mime_type filename =
     (let mime = mime_of mime_type; ext = extension_of filename in
      if mime \<in> set TEXT_TYPES \<or> ext \<in> {''txt'', ''md'', ''markdown'', ''json'', ''xml'', ''html'', ''htm''} then extracted data
      else if mime = ''text/csv'' \<or> ext \<in> {''csv'', ''tsv''} then from_parser (csv_text pr data)
      else if mime = ''application/pdf'' \<or> ext = ''pdf'' then from_parser (pdf_text pr data max_chars)
      else if ext = ''docx'' \<or> occurs_in ''wordprocessingml'' mime then from_parser (docx_text pr data max_chars)
      else if ext = ''pptx'' \<or> occurs_in ''presentationml'' mime then from_parser (pptx_text pr data max_chars)
      else if ext \<in> {''xlsx'', ''xlsm''} \<or> occurs_in ''spreadsheetml'' mime then from_parser (xlsx_text pr data max_chars)
      else if take 6 mime = ''image/'' then ([], Src_unsupported)
      else if strip data \<noteq> [] then extracted data
      else ([], Src_unsupported))"

section \<open>Lemmas: the cap\<close>

text \<open>The parts are never empty and their lengths add up to the total, which stays within the cap.\<close>

definition joiner_ok :: "joiner \<Rightarrow> bool" where
  "joiner_ok j \<longleftrightarrow> jn_total j = sum_list (map length (jn_parts j)) \<and> jn_total j \<le> jn_max_chars j \<and> [] \<notin> set (jn_parts j)"

lemma new_joiner_ok [intro]: "joiner_ok (new_joiner n sep)"
  by (simp add: joiner_ok_def new_joiner_def)

lemma jn_add_ok [intro]: "joiner_ok j \<Longrightarrow> joiner_ok (jn_add part j)"
  by (auto simp: joiner_ok_def jn_add_def jn_done_def Let_def)

lemma jn_add_limits [simp]: "jn_max_chars (jn_add part j) = jn_max_chars j" "jn_sep (jn_add part j) = jn_sep j"
  by (simp_all add: jn_add_def Let_def)

lemma add_all_ok [intro]: "joiner_ok j \<Longrightarrow> joiner_ok (add_all xs j)"
  by (induction xs arbitrary: j) auto

lemma add_all_limits [simp]: "jn_max_chars (add_all xs j) = jn_max_chars j" "jn_sep (add_all xs j) = jn_sep j"
  by (induction xs arbitrary: j) auto

lemma foldl_ok:
  assumes "\<And>j x. joiner_ok j \<Longrightarrow> joiner_ok (f j x)" "\<And>j x. jn_max_chars (f j x) = jn_max_chars j \<and> jn_sep (f j x) = jn_sep j"
  shows "joiner_ok j \<Longrightarrow> joiner_ok (foldl f j xs)" "jn_max_chars (foldl f j xs) = jn_max_chars j" "jn_sep (foldl f j xs) = jn_sep j"
  using assms by (induction xs arbitrary: j) auto

lemma join_length: "length (join sep parts) = sum_list (map length parts) + (length parts - 1) * length sep"
proof -
  have rest: "length (concat (map (\<lambda>(i, p). if i = 0 then p else sep @ p) (List.enumerate (Suc n) ps))) =
      sum_list (map length ps) + length ps * length sep" for n ps
    by (induction ps arbitrary: n) auto
  show ?thesis by (cases parts) (simp_all add: join_def rest)
qed

lemma nonempty_parts: "[] \<notin> set parts \<Longrightarrow> length parts \<le> sum_list (map length parts)"
proof (induction parts)
  case (Cons a parts)
  then show ?case by (cases a) auto
qed simp

text \<open>The text of a joiner: the cap bounds the parts, and there is at most a separator per part.\<close>

lemma jn_result_bound:
  assumes "joiner_ok j"
  shows "length (jn_result j) \<le> jn_max_chars j + (jn_max_chars j - 1) * length (jn_sep j)"
proof -
  have parts: "sum_list (map length (jn_parts j)) \<le> jn_max_chars j" using assms by (simp add: joiner_ok_def)
  moreover have "length (jn_parts j) \<le> jn_max_chars j" using assms nonempty_parts [of "jn_parts j"] parts by (simp add: joiner_ok_def)
  ultimately show ?thesis unfolding jn_result_def join_length
    by (intro add_mono mult_right_mono) (simp_all add: diff_le_mono)
qed

lemma pptx_fold_ok:
  "joiner_ok j \<Longrightarrow> joiner_ok (foldl (\<lambda>j shapes. if jn_done j then j else add_all shapes j) j slides)"
  "jn_max_chars (foldl (\<lambda>j shapes. if jn_done j then j else add_all shapes j) j slides) = jn_max_chars j"
  "jn_sep (foldl (\<lambda>j shapes. if jn_done j then j else add_all shapes j) j slides) = jn_sep j"
  by (rule foldl_ok; auto)+

lemma xlsx_fold_ok:
  fixes sheets :: "(string \<times> string list list) list"
  defines "step \<equiv> \<lambda>j (title, rows). if jn_done j then j else add_all (sheet_rows rows) (jn_add (''# '' @ title) j)"
  shows "joiner_ok j \<Longrightarrow> joiner_ok (foldl step j sheets)" "jn_max_chars (foldl step j sheets) = jn_max_chars j"
    "jn_sep (foldl step j sheets) = jn_sep j"
  unfolding step_def by (rule foldl_ok; auto split: prod.split)+

lemma run_opened_bound:
  assumes "run_opened x f = Inr s" "\<And>a. length (f a) \<le> n"
  shows "length s \<le> n"
  using assms by (auto simp: run_opened_def split: opened.splits)

lemma guarded_bound:
  assumes "guarded pr data x f = Inr s" "\<And>a. length (f a) \<le> n"
  shows "length s \<le> n"
  using assms by (auto simp: guarded_def run_opened_def split: opened.splits sum.splits)

lemma parser_bound:
  "pdf_text pr data m = Inr s \<Longrightarrow> length s \<le> m + (m - 1) * 2"
  "docx_text pr data m = Inr s \<Longrightarrow> length s \<le> m + (m - 1)"
  "pptx_text pr data m = Inr s \<Longrightarrow> length s \<le> m + (m - 1)"
  "xlsx_text pr data m = Inr s \<Longrightarrow> length s \<le> m + (m - 1)"
proof -
  have bound: "length (jn_result j) \<le> m + (m - 1) * n" if "joiner_ok j" "jn_max_chars j = m" "length (jn_sep j) = n" for j n
    using jn_result_bound [OF that(1)] that(2,3) by simp
  have bound1: "length (jn_result j) \<le> m + (m - 1)" if "joiner_ok j" "jn_max_chars j = m" "jn_sep j = [newline]" for j
    using bound [of j 1] that by simp
  have new: "jn_max_chars (new_joiner m sep) = m" "jn_sep (new_joiner m sep) = sep" for sep by (simp_all add: new_joiner_def)
  show "pdf_text pr data m = Inr s \<Longrightarrow> length s \<le> m + (m - 1) * 2" unfolding pdf_text_def
    by (rule run_opened_bound, assumption, rule bound) (auto simp: new)
  show "docx_text pr data m = Inr s \<Longrightarrow> length s \<le> m + (m - 1)" unfolding docx_text_def
    by (rule guarded_bound, assumption, rule bound1) (auto simp: new)
  show "pptx_text pr data m = Inr s \<Longrightarrow> length s \<le> m + (m - 1)" unfolding pptx_text_def
    by (rule guarded_bound, assumption, rule bound1) (auto simp: new pptx_fold_ok(2,3) intro!: pptx_fold_ok(1))
  show "xlsx_text pr data m = Inr s \<Longrightarrow> length s \<le> m + (m - 1)" unfolding xlsx_text_def
    by (rule guarded_bound, assumption, rule bound1) (auto simp: new xlsx_fold_ok(2,3) intro!: xlsx_fold_ok(1))
qed

text \<open>The separators are not counted: three pages of one character each pass a cap of three as seven.\<close>

lemma cap_exceeded_by_separators:
  "length (jn_result (add_all [''a'', ''b'', ''c''] (new_joiner 3 [newline, newline]))) = 7"
  by code_simp

text \<open>Extraction answers one of three statuses, and a text only when it extracted one.\<close>

lemma extract_status:
  "extract_text pr m data mime name = (body, status) \<Longrightarrow> status \<in> {Src_extracted, Src_unsupported, Src_failed} \<and>
    (status \<noteq> Src_extracted \<longrightarrow> body = [])"
  by (auto simp: extract_text_def Let_def extracted_def from_parser_def split: if_splits sum.splits extraction_error.splits)

text \<open>A file that calls itself text/csv never reaches the csv reader: the type is listed as plain text first.\<close>

lemma text_csv_is_plain: "extract_text pr m data (Some ''text/csv'') name = extracted data"
proof -
  have "mime_of (Some ''text/csv'') = ''text/csv''" by code_simp
  then show ?thesis by (simp add: extract_text_def TEXT_TYPES_def)
qed

end
