(* ===== verification/Rag_Index.thy ===== *)
theory Rag_Index
  imports Intelligence Text_Extraction
begin

text \<open>
  What a build leaves in the index: one source per origin of the client's file, current, and for each
  source exactly the chunks of its text with their vectors.
\<close>

section \<open>An exact index\<close>

definition chunks_of :: "uuid \<Rightarrow> store \<Rightarrow> knowledge_chunk list" where
  "chunks_of i st = filter (\<lambda>c. kc_source_id c = i) (st_chunks st)"

definition pieces_of :: "pipeline \<Rightarrow> source \<Rightarrow> chunk list" where
  "pieces_of pl s = chunk_text (pl_chunk_chars pl) (pl_chunk_overlap_chars pl) (or_empty (ks_extracted_text s))"

definition embedded_rows :: "pipeline \<Rightarrow> source \<Rightarrow> knowledge_chunk list" where
  "embedded_rows pl s = (case pl_embed pl (map ch_text (pieces_of pl s)) of
     Inl e \<Rightarrow> [] | Inr vectors \<Rightarrow> map (chunk_row (ks_client_id s) s) (zip (pieces_of pl s) vectors))"

text \<open>An embedded source has exactly its rows, any other none; and an extracted one has no text to embed.\<close>

definition indexed :: "pipeline \<Rightarrow> store \<Rightarrow> source \<Rightarrow> bool" where
  "indexed pl st s \<longleftrightarrow> chunks_of (ks_id s) st = (if ks_status s = Src_embedded then embedded_rows pl s else []) \<and>
     (ks_status s = Src_extracted \<longrightarrow> pieces_of pl s = [])"

definition extractor_ok :: "pipeline \<Rightarrow> bool" where
  "extractor_ok pl \<longleftrightarrow> (\<forall>data mime name. snd (pl_extract pl data mime name) \<noteq> Src_embedded)"

lemma extract_text_ok:
  assumes "pl_extract pl = extract_text pr m"
  shows "extractor_ok pl"
  unfolding extractor_ok_def
proof (intro allI)
  fix data mime name
  obtain body status where e: "extract_text pr m data mime name = (body, status)" by (cases "extract_text pr m data mime name")
  with extract_status [OF e] show "snd (pl_extract pl data mime name) \<noteq> Src_embedded" by (auto simp: assms)
qed

lemma desired_status:
  assumes "extractor_ok pl" "d \<in> set (desired_sources pl f)" "de_load d = Inr (body, status)"
  shows "status \<noteq> Src_embedded"
  using assms
  by (auto simp: desired_sources_def desired_field_def desired_document_def desired_message_def load_document_def
      extractor_ok_def split: prod.splits option.splits sum.splits exn.splits)
     (metis snd_conv)

section \<open>Lemmas: one source\<close>

lemma chunks_of_delete [simp]: "chunks_of i (delete_for_source j st) = (if i = j then [] else chunks_of i st)"
  by (auto simp: chunks_of_def delete_for_source_def filter_empty_conv intro!: filter_cong)

lemma delete_for_source_frame [simp]: "st_sources (delete_for_source i st) = st_sources st"
  by (simp add: delete_for_source_def)

lemma chunk_row_source [simp]: "kc_source_id (chunk_row cid s pv) = ks_id s"
  by (simp add: chunk_row_def split: prod.split)

text \<open>The row of a source after its turn: itself or marked embedded.\<close>

definition marked :: "source \<Rightarrow> source \<Rightarrow> bool" where
  "marked s s' \<longleftrightarrow> s' = s \<or> s' = s\<lparr>ks_status := Src_embedded\<rparr>"

lemma embedded_rows_marked: "marked s s' \<Longrightarrow> embedded_rows pl s' = embedded_rows pl s \<and> pieces_of pl s' = pieces_of pl s"
  by (auto simp: marked_def embedded_rows_def pieces_of_def chunk_row_def source_weight_def split: sum.split)

lemma mark_row:
  "find_by ks_id i (update_by ks_id j (\<lambda>s. s\<lparr>ks_status := Src_embedded\<rparr>) ss) =
    (if i = j then map_option (\<lambda>s. s\<lparr>ks_status := Src_embedded\<rparr>) (find_by ks_id i ss) else find_by ks_id i ss)"
  "map ks_id (update_by ks_id j (\<lambda>s. s\<lparr>ks_status := Src_embedded\<rparr>) ss) = map ks_id ss"
  by (rule find_by_update_by, simp) (rule keys_update_by, simp)

lemma embed_source_cases:
  assumes "embed_source pl cid s st = Inr st'"
  shows "pieces_of pl s = [] \<and> st' = st \<or> (\<exists>vectors. pl_embed pl (map ch_text (pieces_of pl s)) = Inr vectors \<and>
    st' = st\<lparr>st_chunks := st_chunks st @ map (chunk_row cid s) (zip (pieces_of pl s) vectors),
      st_sources := update_by ks_id (ks_id s) (\<lambda>s. s\<lparr>ks_status := Src_embedded\<rparr>) (st_sources st)\<rparr>)"
  using assms by (auto simp: embed_source_def Let_def pieces_of_def bindR_eq_Inr split: if_splits)

lemma chunks_of_append: "st_chunks st' = st_chunks st @ map (chunk_row cid s) pvs \<Longrightarrow>
    chunks_of i st' = chunks_of i st @ (if i = ks_id s then map (chunk_row cid s) pvs else [])"
  by (auto simp: chunks_of_def filter_map comp_def)

lemma rechunk_one_ids: "rechunk_one pl cid x st = Inr st' \<Longrightarrow> map ks_id (st_sources st') = map ks_id (st_sources st)"
  by (auto simp: rechunk_one_def Let_def mark_row(2) split: if_splits option.splits dest!: embed_source_cases)

lemma rechunk_one_other:
  assumes run: "rechunk_one pl cid x st = Inr st'" and "\<not> sy_needs_rechunk x \<or> sy_source_id x \<noteq> i"
  shows "chunks_of i st' = chunks_of i st \<and> find_by ks_id i (st_sources st') = find_by ks_id i (st_sources st)"
proof (cases "sy_needs_rechunk x")
  case False
  with run show ?thesis by (simp add: rechunk_one_def)
next
  case True
  let ?st1 = "delete_for_source (sy_source_id x) st"
  have i: "i \<noteq> sy_source_id x" using assms(2) True by auto
  show ?thesis
  proof (cases "st' = ?st1")
    case True
    with i show ?thesis by simp
  next
    case False
    with run True obtain s where s: "source_get (sy_source_id x) st = Some s" "embed_source pl cid s ?st1 = Inr st'"
      by (auto simp: rechunk_one_def Let_def split: if_splits option.splits)
    have id: "ks_id s = sy_source_id x" using s(1) by (auto simp: source_get_def dest: find_by_key)
    from embed_source_cases [OF s(2)] False obtain vectors where st': "st' = ?st1\<lparr>st_chunks := st_chunks ?st1 @
        map (chunk_row cid s) (zip (pieces_of pl s) vectors),
        st_sources := update_by ks_id (ks_id s) (\<lambda>s. s\<lparr>ks_status := Src_embedded\<rparr>) (st_sources ?st1)\<rparr>" by blast
    then have "chunks_of i st' = chunks_of i ?st1" using chunks_of_append [of st' ?st1 cid s _ i] i id by simp
    then show ?thesis using i id by (simp add: st' mark_row(1))
  qed
qed

lemma pieces_of_blank: "strip (or_empty (ks_extracted_text s)) = [] \<Longrightarrow> pieces_of pl s = []"
  by (simp add: pieces_of_def chunk_text_def)

lemma rechunk_one_this:
  assumes run: "rechunk_one pl cid x st = Inr st'" and "sy_needs_rechunk x"
    and s: "find_by ks_id (sy_source_id x) (st_sources st) = Some s" "ks_client_id s = cid" "ks_status s \<noteq> Src_embedded"
  shows "\<exists>s'. find_by ks_id (sy_source_id x) (st_sources st') = Some s' \<and> marked s s' \<and> indexed pl st' s'"
proof -
  let ?st1 = "delete_for_source (sy_source_id x) st"
  have id: "ks_id s = sy_source_id x" using s(1) by (rule find_by_key)
  have plain: "indexed pl ?st1 s" if "ks_status s = Src_extracted \<longrightarrow> pieces_of pl s = []"
    using s(3) that id by (simp add: indexed_def)
  have alone: "\<exists>s'. find_by ks_id (sy_source_id x) (st_sources st') = Some s' \<and> marked s s' \<and> indexed pl st' s'"
    if "st' = ?st1" "ks_status s = Src_extracted \<longrightarrow> pieces_of pl s = []"
    using plain [OF that(2)] s(1) that(1) by (simp add: marked_def)
  show ?thesis
  proof (cases "ks_status s = Src_extracted \<and> strip (or_empty (ks_extracted_text s)) \<noteq> []")
    case False
    then have "st' = ?st1" using run assms(2) s(1) by (auto simp: rechunk_one_def source_get_def)
    moreover have "ks_status s = Src_extracted \<longrightarrow> pieces_of pl s = []" using False pieces_of_blank by blast
    ultimately show ?thesis by (rule alone)
  next
    case True
    then have "embed_source pl cid s ?st1 = Inr st'" using run assms(2) s(1) by (simp add: rechunk_one_def source_get_def)
    then show ?thesis
    proof (rule disjE [OF embed_source_cases])
      assume "pieces_of pl s = [] \<and> st' = ?st1"
      then show ?thesis using alone by blast
    next
      assume "\<exists>vectors. pl_embed pl (map ch_text (pieces_of pl s)) = Inr vectors \<and> st' = ?st1\<lparr>st_chunks := st_chunks ?st1 @
        map (chunk_row cid s) (zip (pieces_of pl s) vectors),
        st_sources := update_by ks_id (ks_id s) (\<lambda>s. s\<lparr>ks_status := Src_embedded\<rparr>) (st_sources ?st1)\<rparr>"
      then obtain vectors where v: "pl_embed pl (map ch_text (pieces_of pl s)) = Inr vectors"
        and st': "st' = ?st1\<lparr>st_chunks := st_chunks ?st1 @ map (chunk_row cid s) (zip (pieces_of pl s) vectors),
          st_sources := update_by ks_id (ks_id s) (\<lambda>s. s\<lparr>ks_status := Src_embedded\<rparr>) (st_sources ?st1)\<rparr>" by blast
      let ?s' = "s\<lparr>ks_status := Src_embedded\<rparr>"
      have "chunks_of (ks_id s) st' = embedded_rows pl s"
        using chunks_of_append [of st' ?st1 cid s "zip (pieces_of pl s) vectors" "ks_id s"] id v s(2)
        by (simp add: st' embedded_rows_def)
      then have "indexed pl st' ?s'" using embedded_rows_marked [of s ?s' pl] by (simp add: indexed_def marked_def)
      moreover have "find_by ks_id (sy_source_id x) (st_sources st') = Some ?s'" using s(1) id by (simp add: st' mark_row(1))
      ultimately show ?thesis by (auto simp: marked_def)
    qed
  qed
qed

section \<open>Lemmas: all the sources\<close>

lemma indexed_frame: "chunks_of (ks_id s) st' = chunks_of (ks_id s) st \<Longrightarrow> indexed pl st' s = indexed pl st s"
  by (simp add: indexed_def)

lemma rechunk_result:
  assumes "rechunk pl cid xs st = Inr st'" "distinct (map sy_source_id xs)"
  shows "map ks_id (st_sources st') = map ks_id (st_sources st) \<and>
    (\<forall>i. (\<forall>x \<in> set xs. sy_needs_rechunk x \<longrightarrow> sy_source_id x \<noteq> i) \<longrightarrow>
      chunks_of i st' = chunks_of i st \<and> find_by ks_id i (st_sources st') = find_by ks_id i (st_sources st)) \<and>
    (\<forall>x \<in> set xs. sy_needs_rechunk x \<longrightarrow> (\<forall>s. find_by ks_id (sy_source_id x) (st_sources st) = Some s \<longrightarrow> ks_client_id s = cid \<longrightarrow>
      ks_status s \<noteq> Src_embedded \<longrightarrow>
      (\<exists>s'. find_by ks_id (sy_source_id x) (st_sources st') = Some s' \<and> marked s s' \<and> indexed pl st' s')))"
  using assms
proof (induction xs arbitrary: st)
  case (Cons x xs)
  from Cons.prems(1) obtain st1 where one: "rechunk_one pl cid x st = Inr st1" and rest: "rechunk pl cid xs st1 = Inr st'"
    by (auto simp: bindR_eq_Inr)
  have fresh: "\<forall>y \<in> set xs. sy_source_id y \<noteq> sy_source_id x" using Cons.prems(2) by (auto simp: image_iff)
  have IH: "map ks_id (st_sources st') = map ks_id (st_sources st1)"
    "\<And>i. \<forall>x \<in> set xs. sy_needs_rechunk x \<longrightarrow> sy_source_id x \<noteq> i \<Longrightarrow>
      chunks_of i st' = chunks_of i st1 \<and> find_by ks_id i (st_sources st') = find_by ks_id i (st_sources st1)"
    "\<And>y s. y \<in> set xs \<Longrightarrow> sy_needs_rechunk y \<Longrightarrow> find_by ks_id (sy_source_id y) (st_sources st1) = Some s \<Longrightarrow> ks_client_id s = cid \<Longrightarrow>
      ks_status s \<noteq> Src_embedded \<Longrightarrow>
      \<exists>s'. find_by ks_id (sy_source_id y) (st_sources st') = Some s' \<and> marked s s' \<and> indexed pl st' s'"
    using Cons.IH [OF rest] Cons.prems(2) by auto
  have "chunks_of i st' = chunks_of i st \<and> find_by ks_id i (st_sources st') = find_by ks_id i (st_sources st)"
    if "\<forall>y \<in> set (x # xs). sy_needs_rechunk y \<longrightarrow> sy_source_id y \<noteq> i" for i
    using IH(2) [of i] rechunk_one_other [OF one, of i] that by auto
  moreover have "\<exists>s'. find_by ks_id (sy_source_id y) (st_sources st') = Some s' \<and> marked s s' \<and> indexed pl st' s'"
    if y: "y \<in> set (x # xs)" "sy_needs_rechunk y" "find_by ks_id (sy_source_id y) (st_sources st) = Some s" "ks_client_id s = cid"
      "ks_status s \<noteq> Src_embedded" for y s
  proof (cases "y = x")
    case True
    from rechunk_one_this [OF one] y True obtain s' where s': "find_by ks_id (sy_source_id x) (st_sources st1) = Some s'"
      "marked s s'" "indexed pl st1 s'" by blast
    have "chunks_of (sy_source_id x) st' = chunks_of (sy_source_id x) st1 \<and>
        find_by ks_id (sy_source_id x) (st_sources st') = find_by ks_id (sy_source_id x) (st_sources st1)"
      using IH(2) [of "sy_source_id x"] fresh by blast
    moreover have "ks_id s' = sy_source_id x" using s'(1) by (rule find_by_key)
    ultimately show ?thesis using s' indexed_frame [of s' st' st1 pl] True by auto
  next
    case False
    with y have "y \<in> set xs" by simp
    moreover have "find_by ks_id (sy_source_id y) (st_sources st1) = Some s"
      using rechunk_one_other [OF one, of "sy_source_id y"] fresh \<open>y \<in> set xs\<close> y(3) by metis
    ultimately show ?thesis using IH(3) y by blast
  qed
  ultimately show ?case using IH(1) rechunk_one_ids [OF one] by metis
qed simp

lemma publish_tables: "publish f now sm rs ss st = (p, f', st') \<Longrightarrow>
    st_sources st' = st_sources st \<and> st_chunks st' = st_chunks st \<and> st_next_id st \<le> st_next_id st'"
  by (auto simp: publish_def Let_def supersede_def split: option.splits if_splits)

lemma build_phases:
  assumes "build pl summarize ask now full f st = Inr (p, f', st')"
  obtains xs st1 st2 where "sync pl full f st = Inr (xs, st1)" "rechunk pl (c_id (cf_row f)) xs st1 = Inr st2"
    "st_sources st' = st_sources st2" "st_chunks st' = st_chunks st2" "st_next_id st2 \<le> st_next_id st'"
proof -
  from assms obtain xs st1 st2 sm rs ss where 1: "sync pl full f st = Inr (xs, st1)" and 2: "rechunk pl (c_id (cf_row f)) xs st1 = Inr st2"
    and pub: "publish f now sm rs ss st2 = (p, f', st')"
    by (auto simp: build_def Let_def bindR_eq_Inr)
  from that [OF 1 2] publish_tables [OF pub] show thesis by simp
qed

lemma find_by_iff: "distinct (map key rows) \<Longrightarrow> find_by key k rows = Some r \<longleftrightarrow> r \<in> set rows \<and> key r = k"
  using find_by_unique find_by_key find_by_in_set by metis

lemma marked_fields: "marked s s' \<Longrightarrow> ks_id s' = ks_id s \<and> ks_client_id s' = ks_client_id s \<and>
    source_identity s' = source_identity s \<and> ks_content_hash s' = ks_content_hash s"
  by (auto simp: marked_def source_identity_def)

text \<open>After ingestion and embedding: a source of the store is an old one left alone or one of the synchronised.\<close>

lemma build_sources:
  assumes inv: "sources_inv st" and idx: "\<forall>s \<in> set (st_sources st). indexed pl st s" and ok: "file_ok f"
    and ext: "extractor_ok pl" and run: "build pl summarize ask now full f st = Inr (p, f', st')"
  defines "cid \<equiv> c_id (cf_row f)" and "wanted \<equiv> desired_sources pl f"
  obtains st1 where "sources_inv st1" "map ks_id (st_sources st') = map ks_id (st_sources st1)" "st_next_id st1 \<le> st_next_id st'"
    "\<And>s. s \<in> set (st_sources st1) \<Longrightarrow> ks_client_id s = cid \<Longrightarrow> \<exists>d \<in> set wanted. source_identity s = de_identity d \<and>
      ks_content_hash s = Some (pl_sha pl (de_hash_basis d))"
    "\<And>d. d \<in> set wanted \<Longrightarrow> \<exists>s \<in> set (st_sources st1). ks_client_id s = cid \<and> source_identity s = de_identity d"
    "\<And>s. ks_client_id s \<noteq> cid \<Longrightarrow> s \<in> set (st_sources st1) \<longleftrightarrow> s \<in> set (st_sources st)"
    "\<And>s. s \<in> set (st_sources st1) \<Longrightarrow> \<exists>s'. find_by ks_id (ks_id s) (st_sources st') = Some s' \<and> marked s s' \<and> indexed pl st' s' \<and>
      (ks_client_id s \<noteq> cid \<longrightarrow> s' = s)"
proof -
  from build_phases [OF run] obtain xs st1 st2 where sync: "sync pl full f st = Inr (xs, st1)"
    and re: "rechunk pl cid xs st1 = Inr st2"
    and st': "st_sources st' = st_sources st2" "st_chunks st' = st_chunks st2" "st_next_id st2 \<le> st_next_id st'"
    unfolding cid_def by blast
  obtain st0 where 0: "sources_inv st0" "list_all2 (synced_ok pl cid st st0) wanted xs"
    "touches_only cid (de_identity ` set wanted) st st0" "sources_inv st1"
    "\<And>s. s \<in> set (st_sources st1) \<longleftrightarrow> s \<in> set (st_sources st0) \<and>
      (ks_client_id s = cid \<longrightarrow> source_identity s \<in> de_identity ` set wanted)"
    "st_chunks st1 = filter (\<lambda>c. \<forall>s \<in> set (st_sources st). ks_client_id s = cid \<longrightarrow>
      source_identity s \<notin> de_identity ` set wanted \<longrightarrow> kc_source_id c \<noteq> ks_id s) (st_chunks st)"
    by (rule sync_result [OF inv ok sync, folded cid_def wanted_def], rule that) assumption+
  have ids0: "r = s" if "r \<in> set (st_sources st0)" "s \<in> set (st_sources st0)" "ks_id r = ks_id s" for r s
    using 0(1) that by (auto simp: sources_inv_def distinct_map inj_on_def)
  have own0: "r = s" if "r \<in> set (st_sources st0)" "s \<in> set (st_sources st0)" "ks_client_id r = ks_client_id s"
    "source_identity r = source_identity s" for r s
    using 0(1) that by (auto simp: sources_inv_def distinct_map inj_on_def)
  have pair: "synced_ok pl cid st st0 (wanted ! k) (xs ! k)" "length xs = length wanted" if "k < length wanted" for k
    using 0(2) that by (auto simp: list_all2_conv_all_nth)
  have row: "\<exists>s \<in> set (st_sources st0). ks_id s = sy_source_id (xs ! k) \<and> ks_client_id s = cid \<and>
      source_identity s = de_identity (wanted ! k) \<and> ks_content_hash s = Some (pl_sha pl (de_hash_basis (wanted ! k))) \<and>
      (if sy_needs_rechunk (xs ! k) then \<exists>body status. de_load (wanted ! k) = Inr (body, status) \<and> ks_status s = status
       else s \<in> set (st_sources st))" if "k < length wanted" for k
    using pair(1) [OF that] unfolding synced_ok_def by (auto split: if_splits)
  have len: "length xs = length wanted" using 0(2) by (simp add: list_all2_lengthD)
  have dist: "distinct (map sy_source_id xs)"
  proof -
    have "sy_source_id (xs ! i) \<noteq> sy_source_id (xs ! j)" if "i < length wanted" "j < length wanted" "i \<noteq> j" for i j
    proof
      assume "sy_source_id (xs ! i) = sy_source_id (xs ! j)"
      then have "de_identity (wanted ! i) = de_identity (wanted ! j)" using row [OF that(1)] row [OF that(2)] ids0 by metis
      then show False using desired_distinct [OF ok, of pl] that by (auto simp: wanted_def [symmetric] distinct_conv_nth)
    qed
    then show ?thesis using len by (simp add: distinct_conv_nth)
  qed
  note R = rechunk_result [OF re dist]
  have dist1: "distinct (map ks_id (st_sources st1))" using 0(4) by (simp add: sources_inv_def)
  have index_of: "\<exists>k < length wanted. ks_id s = sy_source_id (xs ! k) \<and> source_identity s = de_identity (wanted ! k) \<and>
      ks_content_hash s = Some (pl_sha pl (de_hash_basis (wanted ! k))) \<and>
      (if sy_needs_rechunk (xs ! k) then \<exists>body status. de_load (wanted ! k) = Inr (body, status) \<and> ks_status s = status
       else s \<in> set (st_sources st))"
    if s: "s \<in> set (st_sources st1)" "ks_client_id s = cid" for s
  proof -
    have "s \<in> set (st_sources st0)" "source_identity s \<in> de_identity ` set wanted" using 0(5) s by blast+
    then obtain k where k: "k < length wanted" "source_identity s = de_identity (wanted ! k)" by (auto simp: in_set_conv_nth)
    from row [OF k(1)] obtain r where r: "r \<in> set (st_sources st0)" "ks_id r = sy_source_id (xs ! k)" "ks_client_id r = cid"
      "source_identity r = de_identity (wanted ! k)" "ks_content_hash r = Some (pl_sha pl (de_hash_basis (wanted ! k)))"
      "if sy_needs_rechunk (xs ! k) then \<exists>body status. de_load (wanted ! k) = Inr (body, status) \<and> ks_status r = status
       else r \<in> set (st_sources st)" by blast
    have "r = s" using own0 [OF r(1) \<open>s \<in> set (st_sources st0)\<close>] r(3,4) s(2) k(2) by simp
    with r k show ?thesis by auto
  qed
  show thesis
  proof (rule that [of st1])
    show "sources_inv st1" by (rule 0(4))
    show "map ks_id (st_sources st') = map ks_id (st_sources st1)" using R st'(1) by simp
    show "st_next_id st1 \<le> st_next_id st'" using rechunk_rules [OF re] st'(3) by (simp add: same_rules_def)
    show "\<exists>d \<in> set wanted. source_identity s = de_identity d \<and> ks_content_hash s = Some (pl_sha pl (de_hash_basis d))"
      if "s \<in> set (st_sources st1)" "ks_client_id s = cid" for s
      using index_of [OF that] by (metis nth_mem)
    show "\<exists>s \<in> set (st_sources st1). ks_client_id s = cid \<and> source_identity s = de_identity d" if "d \<in> set wanted" for d
    proof -
      from that obtain k where k: "k < length wanted" "d = wanted ! k" by (metis in_set_conv_nth)
      from row [OF k(1)] obtain s where "s \<in> set (st_sources st0)" "ks_client_id s = cid" "source_identity s = de_identity (wanted ! k)" by blast
      moreover have "s \<in> set (st_sources st1)" using 0(5) calculation that k(2) by (metis imageI)
      ultimately show ?thesis using k(2) by blast
    qed
    show "s \<in> set (st_sources st1) \<longleftrightarrow> s \<in> set (st_sources st)" if "ks_client_id s \<noteq> cid" for s
      using 0(3,5) that by (simp add: touches_only_def)
    show "\<exists>s'. find_by ks_id (ks_id s) (st_sources st') = Some s' \<and> marked s s' \<and> indexed pl st' s' \<and>
        (ks_client_id s \<noteq> cid \<longrightarrow> s' = s)" if s: "s \<in> set (st_sources st1)" for s
    proof -
      have find1: "find_by ks_id (ks_id s) (st_sources st1) = Some s" using find_by_unique [OF dist1 s] .
      have "indexed pl st' r = indexed pl st2 r" for r by (simp add: indexed_def chunks_of_def st'(2))
      note same = this st'(1)
      have stable: "find_by ks_id (ks_id s) (st_sources st2) = Some s \<and> indexed pl st2 s"
        if old: "s \<in> set (st_sources st)" and quiet: "\<forall>x \<in> set xs. sy_needs_rechunk x \<longrightarrow> sy_source_id x \<noteq> ks_id s"
      proof -
        have "\<not> (ks_client_id r = cid \<and> source_identity r \<notin> de_identity ` set wanted)"
          if "r \<in> set (st_sources st)" "ks_id r = ks_id s" for r
        proof -
          have "r = s" using inv old that by (auto simp: sources_inv_def distinct_map inj_on_def)
          then show ?thesis using s 0(5) by blast
        qed
        then have "chunks_of (ks_id s) st1 = chunks_of (ks_id s) st"
          unfolding chunks_of_def 0(6) filter_filter by (intro filter_cong) auto
        then show ?thesis using R quiet idx old find1 indexed_frame by metis
      qed
      show ?thesis
      proof (cases "ks_client_id s = cid")
        case False
        then have old: "s \<in> set (st_sources st)" using 0(3,5) s by (simp add: touches_only_def)
        have "sy_source_id x \<noteq> ks_id s" if "x \<in> set xs" for x
        proof -
          from that obtain k where k: "k < length wanted" "x = xs ! k" using len by (metis in_set_conv_nth)
          from row [OF k(1)] obtain r where "r \<in> set (st_sources st0)" "ks_id r = sy_source_id x" "ks_client_id r = cid"
            using k(2) by blast
          then show ?thesis using ids0 [of r s] 0(5) s False by metis
        qed
        with stable [OF old] same show ?thesis by (auto simp: marked_def)
      next
        case True
        from index_of [OF s True] obtain k where k: "k < length wanted" "ks_id s = sy_source_id (xs ! k)"
          "if sy_needs_rechunk (xs ! k) then \<exists>body status. de_load (wanted ! k) = Inr (body, status) \<and> ks_status s = status
           else s \<in> set (st_sources st)" by blast
        show ?thesis
        proof (cases "sy_needs_rechunk (xs ! k)")
          case False
          then have old: "s \<in> set (st_sources st)" using k(3) by simp
          have "sy_source_id x \<noteq> ks_id s" if "x \<in> set xs" "sy_needs_rechunk x" for x
          proof
            assume "sy_source_id x = ks_id s"
            then have "x = xs ! k" using dist k len that(1) by (auto simp: distinct_map inj_on_def)
            with that(2) False show False by simp
          qed
          with stable [OF old] same True show ?thesis by (auto simp: marked_def)
        next
          case need: True
          then obtain body status where "de_load (wanted ! k) = Inr (body, status)" "ks_status s = status" using k(3) by auto
          then have "ks_status s \<noteq> Src_embedded" using desired_status [OF ext] k(1) unfolding wanted_def by (metis nth_mem)
          moreover have "xs ! k \<in> set xs" using k(1) len by simp
          ultimately have "\<exists>s'. find_by ks_id (ks_id s) (st_sources st2) = Some s' \<and> marked s s' \<and> indexed pl st2 s'"
            using R need find1 True k(2) by metis
          with same True show ?thesis by auto
        qed
      qed
    qed
  qed
qed

section \<open>The index after a build\<close>

text \<open>
  C18. A build leaves the index exact, full or incremental, whatever the run before it: the sources of
  the client are one per field group, document and promoted message of its file and nothing else, each
  with the hash of what its origin says now; every source of the store that is embedded has exactly the
  chunks of its text, each with its vector, in order, and no other source has any; an extracted source
  is one with no text; and the sources of other clients are the same as before.
\<close>

theorem build_index_exact:
  assumes inv: "sources_inv st" and idx: "\<forall>s \<in> set (st_sources st). indexed pl st s" and ok: "file_ok f"
    and ext: "extractor_ok pl" and run: "build pl summarize ask now full f st = Inr (p, f', st')"
  shows "sources_inv st' \<and> (\<forall>s \<in> set (st_sources st'). indexed pl st' s) \<and>
    source_identity ` set (sources_for_client (c_id (cf_row f)) st') = de_identity ` set (desired_sources pl f) \<and>
    (\<forall>s \<in> set (sources_for_client (c_id (cf_row f)) st'). \<exists>d \<in> set (desired_sources pl f).
      source_identity s = de_identity d \<and> ks_content_hash s = Some (pl_sha pl (de_hash_basis d))) \<and>
    (\<forall>s. ks_client_id s \<noteq> c_id (cf_row f) \<longrightarrow> s \<in> set (st_sources st') \<longleftrightarrow> s \<in> set (st_sources st))"
proof -
  let ?cid = "c_id (cf_row f)" and ?wanted = "desired_sources pl f"
  obtain st1 where 1: "sources_inv st1" and ids: "map ks_id (st_sources st') = map ks_id (st_sources st1)"
    and le: "st_next_id st1 \<le> st_next_id st'"
    and current: "\<And>s. s \<in> set (st_sources st1) \<Longrightarrow> ks_client_id s = ?cid \<Longrightarrow> \<exists>d \<in> set ?wanted. source_identity s = de_identity d \<and>
      ks_content_hash s = Some (pl_sha pl (de_hash_basis d))"
    and every: "\<And>d. d \<in> set ?wanted \<Longrightarrow> \<exists>s \<in> set (st_sources st1). ks_client_id s = ?cid \<and> source_identity s = de_identity d"
    and others: "\<And>s. ks_client_id s \<noteq> ?cid \<Longrightarrow> s \<in> set (st_sources st1) \<longleftrightarrow> s \<in> set (st_sources st)"
    and rows: "\<And>s. s \<in> set (st_sources st1) \<Longrightarrow> \<exists>s'. find_by ks_id (ks_id s) (st_sources st') = Some s' \<and> marked s s' \<and> indexed pl st' s' \<and>
      (ks_client_id s \<noteq> ?cid \<longrightarrow> s' = s)"
    by (rule build_sources [OF inv idx ok ext run], rule that) assumption+
  have dist: "distinct (map ks_id (st_sources st'))" using 1 ids by (simp add: sources_inv_def)
  have len: "length (st_sources st') = length (st_sources st1)" using ids by (metis length_map)
  have at: "marked (st_sources st1 ! k) (st_sources st' ! k) \<and> indexed pl st' (st_sources st' ! k) \<and>
      (ks_client_id (st_sources st1 ! k) \<noteq> ?cid \<longrightarrow> st_sources st' ! k = st_sources st1 ! k)" if k: "k < length (st_sources st1)" for k
  proof -
    have "ks_id (st_sources st' ! k) = ks_id (st_sources st1 ! k)" using ids k len by (metis nth_map)
    then have "find_by ks_id (ks_id (st_sources st1 ! k)) (st_sources st') = Some (st_sources st' ! k)"
      using find_by_iff [OF dist] k len by simp
    with rows [of "st_sources st1 ! k"] k show ?thesis by auto
  qed
  have pre: "\<exists>s \<in> set (st_sources st1). marked s s' \<and> indexed pl st' s' \<and> (ks_client_id s \<noteq> ?cid \<longrightarrow> s' = s)"
    if "s' \<in> set (st_sources st')" for s'
    using that at len by (metis in_set_conv_nth)
  have post: "\<exists>s' \<in> set (st_sources st'). marked s s' \<and> (ks_client_id s \<noteq> ?cid \<longrightarrow> s' = s)" if "s \<in> set (st_sources st1)" for s
    using that at len by (metis in_set_conv_nth)
  have keys: "map (\<lambda>s. (ks_client_id s, source_identity s)) (st_sources st') = map (\<lambda>s. (ks_client_id s, source_identity s)) (st_sources st1)"
    by (rule nth_equalityI) (use len at marked_fields in auto)
  have "ks_id s < st_next_id st'" if s: "s \<in> set (st_sources st')" for s
  proof -
    have "ks_id s \<in> ks_id ` set (st_sources st1)" using s ids by (metis imageI set_map)
    then show ?thesis using 1 le by (auto simp: sources_inv_def dest: less_le_trans)
  qed
  then have "sources_inv st'" using dist 1 unfolding sources_inv_def keys by simp
  moreover have "\<forall>s \<in> set (st_sources st'). indexed pl st' s" using pre by blast
  moreover have hash: "\<exists>d \<in> set ?wanted. source_identity s' = de_identity d \<and> ks_content_hash s' = Some (pl_sha pl (de_hash_basis d))"
    if s': "s' \<in> set (sources_for_client ?cid st')" for s'
  proof -
    from s' pre obtain s where "s \<in> set (st_sources st1)" "marked s s'" "ks_client_id s' = ?cid" by (auto simp: sources_for_client_def)
    then show ?thesis using current [of s] marked_fields [of s s'] by simp
  qed
  moreover have "source_identity ` set (sources_for_client ?cid st') = de_identity ` set ?wanted"
  proof
    show "source_identity ` set (sources_for_client ?cid st') \<subseteq> de_identity ` set ?wanted" using hash by force
    show "de_identity ` set ?wanted \<subseteq> source_identity ` set (sources_for_client ?cid st')"
    proof
      fix k assume "k \<in> de_identity ` set ?wanted"
      then obtain s where s: "s \<in> set (st_sources st1)" "ks_client_id s = ?cid" "source_identity s = k" using every by auto
      from post [OF s(1)] obtain s' where "s' \<in> set (st_sources st')" "marked s s'" by blast
      then show "k \<in> source_identity ` set (sources_for_client ?cid st')"
        using s marked_fields [of s s'] by (auto simp: sources_for_client_def intro!: image_eqI [of _ _ s'])
    qed
  qed
  moreover have "s \<in> set (st_sources st') \<longleftrightarrow> s \<in> set (st_sources st)" if "ks_client_id s \<noteq> ?cid" for s
  proof
    assume "s \<in> set (st_sources st')"
    with pre obtain r where r: "r \<in> set (st_sources st1)" "marked r s" "ks_client_id r \<noteq> ?cid \<longrightarrow> s = r" by blast
    then show "s \<in> set (st_sources st)" using others [OF that] marked_fields [OF r(2)] that by simp
  next
    assume "s \<in> set (st_sources st)"
    with others [OF that] post that show "s \<in> set (st_sources st')" by blast
  qed
  ultimately show ?thesis by (intro conjI ballI allI impI) blast+
qed

section \<open>A run\<close>

text \<open>
  A client whose register holds one entry, a build, and the administrator's approval of the rule the
  net made of it. The corpus is capped at nothing, so that no model is asked.
\<close>

definition tiny_pl :: pipeline where
  "tiny_pl = \<lparr>pl_sha = (\<lambda>s. s), pl_storage = None, pl_extract = (\<lambda>d m n. ([], Src_unsupported)),
     pl_embed = (\<lambda>ts. Inr (map (\<lambda>t. [1]) ts)), pl_max_document_chars = 100, pl_max_corpus_chars = 0,
     pl_chunk_chars = 100, pl_chunk_overlap_chars = 10\<rparr>"

definition no_summary :: summary_model where
  "no_summary f corpus = \<lparr>sm_profile = [], sm_summary_md = [], sm_model = None\<rparr>"

definition tiny_file :: client_file where
  "tiny_file = plain_file [no_ai_entry True]"

definition tiny_sync :: "synced list \<times> store" where
  "tiny_sync = (case sync tiny_pl False tiny_file empty_store of Inr x \<Rightarrow> x | Inl e \<Rightarrow> ([], empty_store))"

definition tiny_store :: store where
  "tiny_store = (case rechunk tiny_pl 7 (fst tiny_sync) (snd tiny_sync) of Inr st \<Rightarrow> st | Inl e \<Rightarrow> empty_store)"

definition pending :: "directive \<Rightarrow> reconciled" where
  "pending d = \<lparr>rc_directive = d, rc_status = DS_pending_review, rc_conflict = None\<rparr>"

definition net_rule :: directive where
  "net_rule = ai_rule\<lparr>d_flags := [(''ai_text_generation'', JBool False)]\<rparr>"

definition tiny_built :: "client_profile \<times> client_file \<times> store" where
  "tiny_built = publish tiny_file 1 (no_summary tiny_file []) [pending entry_rule, pending net_rule]
     (List.map_filter (\<lambda>x. source_get (sy_source_id x) tiny_store) (fst tiny_sync)) tiny_store"

lemma tiny_phases: "sync tiny_pl False tiny_file empty_store = Inr tiny_sync"
  "rechunk tiny_pl 7 (fst tiny_sync) (snd tiny_sync) = Inr tiny_store"
  "st_next_id tiny_store = 3 \<and> st_profiles tiny_store = [] \<and> st_directives tiny_store = []"
proof -
  have "case sync tiny_pl False tiny_file empty_store of Inl e \<Rightarrow> False | Inr x \<Rightarrow> True" by code_simp
  then show 1: "sync tiny_pl False tiny_file empty_store = Inr tiny_sync"
    by (auto simp: tiny_sync_def split: sum.split)
  have "case rechunk tiny_pl 7 (fst tiny_sync) (snd tiny_sync) of Inl e \<Rightarrow> False | Inr x \<Rightarrow> True" by code_simp
  then show 2: "rechunk tiny_pl 7 (fst tiny_sync) (snd tiny_sync) = Inr tiny_store"
    by (auto simp: tiny_store_def split: sum.split)
  show "st_next_id tiny_store = 3 \<and> st_profiles tiny_store = [] \<and> st_directives tiny_store = []" by code_simp
qed

lemma no_corpus: "assemble_corpus 0 ss = []"
proof -
  have "corpus_parts 0 0 ss = [] \<or> corpus_parts 0 0 ss = [[]]" for ss
    by (induction ss) (auto simp: Let_def)
  from this [of "sort_key source_priority ss"] show ?thesis by (auto simp: assemble_corpus_def join_def)
qed

lemma extract_tiny: "extract_directives silent tiny_file [] = [entry_rule, net_rule]"
proof -
  have "net_haystack [] tiny_file = ''No AI text''"
    by (simp add: net_haystack_def tiny_file_def plain_file_def no_ai_entry_def sample_client_def or_empty_def join_def)
  moreover have "search no_ai_pattern ''No AI text''" by code_simp
  moreover have "\<not> search no_stock_pattern ''No AI text''" by code_simp
  moreover have "\<not> search no_emoji_pattern ''No AI text''" by code_simp
  ultimately have "capability_net [] tiny_file = [net_rule]"
    by (simp add: capability_net_def CAPABILITY_RULES_def List.map_filter_simps net_directive_def normalize_directive_def
        parse_must_not round3_def net_rule_def ai_rule_def)
  moreover have "strip [] = []" by code_simp
  ultimately show ?thesis using fallback_plain by (simp add: extract_directives_def tiny_file_def)
qed

lemma tiny_rules: "gate_new_restrictions (approved_directive_keys tiny_file tiny_store)
    (reconcile (extract_directives silent tiny_file [])) = [pending entry_rule, pending net_rule]"
proof -
  have key: "d_key net_rule = d_key ai_rule" by (simp add: d_key_def net_rule_def)
  have types: "d_type entry_rule = DT_must_not" "d_type net_rule = DT_must_not" "d_rank entry_rule = 0" "d_rank net_rule = 0"
    by (simp_all add: entry_rule_def ai_rule_def net_rule_def)
  have "reconcile [entry_rule, net_rule] =
      map (\<lambda>d. \<lparr>rc_directive = d, rc_status = DS_active, rc_conflict = None\<rparr>) [entry_rule, net_rule]"
    using plain_keys plain_keys [symmetric] by (simp add: reconcile_def key opposes_def types Let_def)
  moreover have "approved_directive_keys tiny_file tiny_store = {}"
    by (simp add: approved_directive_keys_def tiny_file_def plain_file_def)
  ultimately show ?thesis
    unfolding extract_tiny by (simp add: gate_new_restrictions_def needs_review_def types pending_def)
qed

lemma tiny_build: "build tiny_pl no_summary silent 1 False tiny_file empty_store = Inr tiny_built"
proof -
  have "c_id (cf_row tiny_file) = 7" by (simp add: tiny_file_def plain_file_def sample_client_def)
  moreover have "pl_max_corpus_chars tiny_pl = 0" by (simp add: tiny_pl_def)
  ultimately show ?thesis
    using tiny_phases(1,2) by (simp add: build_def no_corpus tiny_rules tiny_built_def Let_def case_prod_beta)
qed

abbreviation "tiny_profile \<equiv> fst tiny_built"
abbreviation "tiny_live \<equiv> fst (snd tiny_built)"
abbreviation "tiny_published \<equiv> snd (snd tiny_built)"

lemma run_published: "intel_run [Built 7] [7 \<mapsto> tiny_live] tiny_published"
proof -
  have "intel_run [] [7 \<mapsto> tiny_file] empty_store"
    by (rule run_client [OF run_start]) (simp_all add: tiny_file_def plain_file_def sample_client_def)
  from run_build [OF this, of 7 tiny_file tiny_pl no_summary silent 1 False tiny_profile tiny_live tiny_published]
  show ?thesis using tiny_build by simp
qed

text \<open>What was published: two pending rules, no flag.\<close>

lemma tiny_fields: "cf_current_version tiny_live = Some 1" "c_id (cf_row tiny_live) = 7"
  "map (\<lambda>d. (cd_id d, cd_profile_id d, cd_client_id d, cd_type d, cd_status d)) (st_directives tiny_published) =
    [(4, 3, 7, DT_must_not, DS_pending_review), (5, 3, 7, DT_must_not, DS_pending_review)]"
  "map cd_capability_flags (st_directives tiny_published) = [[], [(''ai_text_generation'', JBool False)]]"
  "map cd_text (st_directives tiny_published) = [d_text entry_rule, d_text net_rule]"
  "map (\<lambda>p. (pf_id p, pf_client_id p, pf_version p)) (st_profiles tiny_published) = [(3, 7, 1)]"
proof -
  have f0: "cf_current_version tiny_file = None" "c_id (cf_row tiny_file) = 7"
    by (simp_all add: tiny_file_def plain_file_def sample_client_def)
  note simps = tiny_built_def publish_def Let_def next_version_def tiny_phases(3) supersede_def f0 directive_row_def pending_def
    net_rule_def ai_rule_def entry_rule_def
  show "cf_current_version tiny_live = Some 1" "c_id (cf_row tiny_live) = 7"
  "map (\<lambda>d. (cd_id d, cd_profile_id d, cd_client_id d, cd_type d, cd_status d)) (st_directives tiny_published) =
    [(4, 3, 7, DT_must_not, DS_pending_review), (5, 3, 7, DT_must_not, DS_pending_review)]"
  "map cd_capability_flags (st_directives tiny_published) = [[], [(''ai_text_generation'', JBool False)]]"
  "map cd_text (st_directives tiny_published) = [d_text entry_rule, d_text net_rule]"
  "map (\<lambda>p. (pf_id p, pf_client_id p, pf_version p)) (st_profiles tiny_published) = [(3, 7, 1)]"
    by (simp_all add: simps)
qed

text \<open>The administrator approves the second rule.\<close>

definition approved_store :: store where
  "approved_store = (case resolve_directive 7 5 True tiny_published of Inr st \<Rightarrow> st | Inl e \<Rightarrow> empty_store)"

lemma approved_rule: obtains d where "directive_get_owned 7 5 tiny_published = Some d" "cd_text d = d_text net_rule" "cd_type d = DT_must_not"
    "cd_profile_id d = 3" "cd_capability_flags d = [(''ai_text_generation'', JBool False)]"
    "resolve_directive 7 5 True tiny_published = Inr approved_store"
proof -
  obtain d1 d2 where ds: "st_directives tiny_published = [d1, d2]" and d2: "cd_id d2 = 5" "cd_client_id d2 = 7" "cd_text d2 = d_text net_rule"
    "cd_type d2 = DT_must_not" "cd_profile_id d2 = 3" "cd_capability_flags d2 = [(''ai_text_generation'', JBool False)]" and d1: "cd_id d1 = 4"
    using tiny_fields(3,4,5) by (auto simp: map_eq_Cons_conv)
  have got: "directive_get_owned 7 5 tiny_published = Some d2" by (simp add: directive_get_owned_def ds d1 d2)
  then have "resolve_directive 7 5 True tiny_published = Inr approved_store"
    by (simp add: approved_store_def resolve_directive_def)
  from that [OF got d2(3,4,5,6) this] show thesis .
qed

lemma run_approved: "intel_run [Resolved 7 (rule_key DT_must_not (d_text net_rule)) True, Built 7] [7 \<mapsto> tiny_live] approved_store"
proof -
  from approved_rule obtain d where "directive_get_owned 7 5 tiny_published = Some d" "cd_text d = d_text net_rule" "cd_type d = DT_must_not"
    "resolve_directive 7 5 True tiny_published = Inr approved_store" .
  from run_resolve [OF run_published this(1,4)] this(2,3) show ?thesis by simp
qed

lemma start_run: "intel_run [] [7 \<mapsto> tiny_file] empty_store"
  by (rule run_client [OF run_start]) (simp_all add: tiny_file_def plain_file_def sample_client_def)

lemma live_profile:
  assumes "intel_run tr [7 \<mapsto> tiny_live] st" "map (\<lambda>p. (pf_id p, pf_client_id p, pf_version p)) (st_profiles st) = [(3, 7, 1)]"
  shows "\<exists>p \<in> set (st_profiles st). pf_id p = 3 \<and> pf_status p = Profile_ready"
proof -
  have "client_profiles_ok 7 (Some 1) st"
    using intel_run_inv [OF assms(1)] files_ok_Some [of "[7 \<mapsto> tiny_live]" st 7 tiny_live] tiny_fields(1) by simp
  moreover obtain p where "p \<in> set (st_profiles st)" "pf_id p = 3" "pf_client_id p = 7" "pf_version p = 1"
    using assms(2) by (auto simp: map_eq_Cons_conv)
  ultimately show ?thesis by (auto simp: client_profiles_ok_def)
qed

lemma approved_context:
  "\<exists>d \<in> set (cx_directives (context_build (Some tiny_live) approved_store)). cd_capability_flags d = [(''ai_text_generation'', JBool False)]"
proof -
  from approved_rule obtain d where got: "directive_get_owned 7 5 tiny_published = Some d" and d: "cd_profile_id d = 3"
    "cd_capability_flags d = [(''ai_text_generation'', JBool False)]" and run: "resolve_directive 7 5 True tiny_published = Inr approved_store" .
  have wf: "wf_store tiny_published" using intel_run_inv [OF run_published] by simp
  note R = resolve_store [OF wf got run]
  have mine: "d \<in> set (st_directives tiny_published)" "cd_client_id d = 7"
    using got by (auto simp: directive_get_owned_def find_Some_iff)
  then have "d\<lparr>cd_status := DS_active\<rparr> \<in> set (st_directives approved_store)" by (auto simp: R(1))
  moreover have "map (\<lambda>p. (pf_id p, pf_client_id p, pf_version p)) (st_profiles approved_store) = [(3, 7, 1)]"
    using R(3) tiny_fields(6) by (auto simp: map_eq_Cons_conv)
  note live_profile [OF run_approved this]
  ultimately have "d\<lparr>cd_status := DS_active\<rparr> \<in> set (cx_directives (context_build (Some tiny_live) approved_store))"
    using context_of_run [OF run_approved, of 7 tiny_live] d mine(2) by simp
  with d(2) show ?thesis by (intro bexI [of _ "d\<lparr>cd_status := DS_active\<rparr>"]) simp_all
qed

lemma pending_context: "set (cx_directives (context_build (Some tiny_live) tiny_published)) = {}"
proof -
  have "cd_status d = DS_pending_review" if "d \<in> set (st_directives tiny_published)" for d
    using tiny_fields(3) that by (auto simp: map_eq_Cons_conv)
  then show ?thesis using context_of_run [OF run_published, of 7 tiny_live] by (metis directive_status.distinct(5) equals0I fun_upd_same)
qed

theorem build_publishes_version_witness:
  "pf_version tiny_profile = 1 \<and> cf_current_version tiny_live = Some 1 \<and> tiny_profile \<in> set (st_profiles tiny_published)"
  using build_publishes_version [OF start_run, of 7 tiny_file tiny_pl no_summary silent 1 False tiny_profile tiny_live tiny_published]
    tiny_build by (simp add: tiny_file_def plain_file_def)

theorem rules_enforced_exactly_witness:
  "ensure_allowed (context_build (Some tiny_live) tiny_published) ''ai_text_generation'' = Inr () \<and>
    ensure_allowed (context_build (Some tiny_live) approved_store) ''ai_text_generation'' \<noteq> Inr ()"
proof
  show "ensure_allowed (context_build (Some tiny_live) tiny_published) ''ai_text_generation'' = Inr ()"
    using rules_enforced_exactly [OF run_published, of 7 tiny_live] pending_context by simp
  have "ensure_allowed (context_build (Some tiny_live) approved_store) ''ai_text_generation'' = Inr () \<longleftrightarrow>
      (\<forall>d \<in> set (cx_directives (context_build (Some tiny_live) approved_store)). ''ai_text_generation'' \<notin> fst ` set (cd_capability_flags d))"
    using rules_enforced_exactly [OF run_approved, of 7 tiny_live] by simp
  then show "ensure_allowed (context_build (Some tiny_live) approved_store) ''ai_text_generation'' \<noteq> Inr ()"
    using approved_context by force
qed

theorem hard_rules_reviewed_witness:
  "\<exists>d \<in> set (cx_directives (context_build (Some tiny_live) approved_store)). cd_capability_flags d \<noteq> [] \<and>
    Resolved 7 (rule_key (cd_type d) (cd_text d)) True \<in> set [Resolved 7 (rule_key DT_must_not (d_text net_rule)) True, Built 7]"
proof -
  from approved_context obtain d where d: "d \<in> set (cx_directives (context_build (Some tiny_live) approved_store))"
    "cd_capability_flags d \<noteq> []" by auto
  then show ?thesis using hard_rules_reviewed [OF run_approved, of 7 tiny_live] by auto
qed

theorem build_index_exact_witness:
  "source_identity ` set (sources_for_client 7 tiny_published) = {''field:basics'', ''field:compliance''} \<and>
    list_all (indexed tiny_pl tiny_published) (st_sources tiny_published)"
proof -
  have "extractor_ok tiny_pl" by (simp add: extractor_ok_def tiny_pl_def)
  moreover have "sources_inv empty_store" "\<forall>s \<in> set (st_sources empty_store). indexed tiny_pl empty_store s" "file_ok tiny_file"
    by (simp_all add: sources_inv_def empty_store_def file_ok_def tiny_file_def plain_file_def)
  ultimately have "source_identity ` set (sources_for_client (c_id (cf_row tiny_file)) tiny_published) = de_identity ` set (desired_sources tiny_pl tiny_file) \<and>
      (\<forall>s \<in> set (st_sources tiny_published). indexed tiny_pl tiny_published s)"
    using build_index_exact [of empty_store tiny_pl tiny_file no_summary silent 1 False tiny_profile tiny_live tiny_published] tiny_build
    by simp
  moreover have "map de_identity (desired_sources tiny_pl tiny_file) = [''field:basics'', ''field:compliance'']" by code_simp
  then have "de_identity ` set (desired_sources tiny_pl tiny_file) = {''field:basics'', ''field:compliance''}"
    unfolding set_map [symmetric] by (simp only: list.set)
  moreover have "c_id (cf_row tiny_file) = 7" by (simp add: tiny_file_def plain_file_def sample_client_def)
  ultimately show ?thesis by (simp add: list_all_iff)
qed

end
