(* ===== verification/Web_Fetch.thy ===== *)
theory Web_Fetch
  imports Enums "HOL-Library.Word"
begin

text \<open>
  Fetching a page a user names (\<^verbatim>\<open>app/utils/web.py\<close>): which addresses a server may be
  reached at, the pinned connection with its manual redirects, the candidate URLs and the page with its
  style sheets. The resolver and the servers are adversaries: what they answer may depend on everything
  asked before. The parts of \<^verbatim>\<open>urllib\<close> that take a URL apart and put it together are
  parameters, as are the regular expressions that find the style sheets of a page.
\<close>

section \<open>Addresses\<close>

unbundle bit_operations_syntax

datatype ip = IPv4 "32 word" | IPv6 "128 word"

text \<open>\<^verbatim>\<open>ipaddress\<close>: an address is in a network when its leading bits are the network's.\<close>

definition in_network :: "'a::len word \<Rightarrow> 'a word \<times> nat \<Rightarrow> bool" where
  "in_network a net = (case net of (base, bits) \<Rightarrow> drop_bit (LENGTH('a) - bits) a = drop_bit (LENGTH('a) - bits) base)"

definition v4 :: "nat \<Rightarrow> nat \<Rightarrow> nat \<Rightarrow> nat \<Rightarrow> 32 word" where
  "v4 a b c d = word_of_nat (((a * 256 + b) * 256 + c) * 256 + d)"

text \<open>An IPv6 base by its first groups of sixteen bits.\<close>

definition v6 :: "nat list \<Rightarrow> 128 word" where
  "v6 groups = word_of_nat (foldl (\<lambda>n g. n * 65536 + g) 0 (take 8 (groups @ replicate 8 0)))"

definition private4 :: "(32 word \<times> nat) list" where
  "private4 = [(v4 0 0 0 0, 8), (v4 10 0 0 0, 8), (v4 127 0 0 0, 8), (v4 169 254 0 0, 16), (v4 172 16 0 0, 12),
     (v4 192 0 0 0, 24), (v4 192 0 2 0, 24), (v4 192 168 0 0, 16), (v4 198 18 0 0, 15), (v4 198 51 100 0, 24),
     (v4 203 0 113 0, 24), (v4 240 0 0 0, 4)]"

definition private4_exceptions :: "(32 word \<times> nat) list" where
  "private4_exceptions = [(v4 192 0 0 9, 32), (v4 192 0 0 10, 32)]"

definition private6 :: "(128 word \<times> nat) list" where
  "private6 = [(v6 [0, 0, 0, 0, 0, 0, 0, 1], 128), (v6 [], 128), (v6 [0, 0, 0, 0, 0, 0xFFFF], 96), (v6 [0x64, 0xFF9B, 1], 48),
     (v6 [0x100], 64), (v6 [0x2001], 23), (v6 [0x2001, 0xDB8], 32), (v6 [0x2002], 16), (v6 [0xFC00], 7), (v6 [0xFE80], 10)]"

definition private6_exceptions :: "(128 word \<times> nat) list" where
  "private6_exceptions = [(v6 [0x2001, 1, 0, 0, 0, 0, 0, 1], 128), (v6 [0x2001, 1, 0, 0, 0, 0, 0, 2], 128),
     (v6 [0x2001, 3], 32), (v6 [0x2001, 4, 0x112], 48), (v6 [0x2001, 0x20], 28), (v6 [0x2001, 0x30], 28)]"

definition reserved6 :: "(128 word \<times> nat) list" where
  "reserved6 = [(v6 [], 8), (v6 [0x100], 8), (v6 [0x200], 7), (v6 [0x400], 6), (v6 [0x800], 5), (v6 [0x1000], 4),
     (v6 [0x4000], 3), (v6 [0x6000], 3), (v6 [0x8000], 3), (v6 [0xA000], 3), (v6 [0xC000], 3), (v6 [0xE000], 4),
     (v6 [0xF000], 5), (v6 [0xF800], 6), (v6 [0xFE00], 9)]"

definition private_v4 :: "32 word \<Rightarrow> bool" where
  "private_v4 a \<longleftrightarrow> list_ex (in_network a) private4 \<and> \<not> list_ex (in_network a) private4_exceptions"

text \<open>An IPv6 address that carries an IPv4 one is as private as that is.\<close>

fun is_private :: "ip \<Rightarrow> bool" where
  "is_private (IPv4 a) = private_v4 a"
| "is_private (IPv6 a) =
     (if in_network a (v6 [0, 0, 0, 0, 0, 0xFFFF], 96) then private_v4 (ucast a)
      else list_ex (in_network a) private6 \<and> \<not> list_ex (in_network a) private6_exceptions)"

fun is_loopback :: "ip \<Rightarrow> bool" where
  "is_loopback (IPv4 a) = in_network a (v4 127 0 0 0, 8)"
| "is_loopback (IPv6 a) = (a = 1)"

fun is_link_local :: "ip \<Rightarrow> bool" where
  "is_link_local (IPv4 a) = in_network a (v4 169 254 0 0, 16)"
| "is_link_local (IPv6 a) = in_network a (v6 [0xFE80], 10)"

fun is_reserved :: "ip \<Rightarrow> bool" where
  "is_reserved (IPv4 a) = in_network a (v4 240 0 0 0, 4)"
| "is_reserved (IPv6 a) = list_ex (in_network a) reserved6"

fun is_multicast :: "ip \<Rightarrow> bool" where
  "is_multicast (IPv4 a) = in_network a (v4 224 0 0 0, 4)"
| "is_multicast (IPv6 a) = in_network a (v6 [0xFF00], 8)"

fun is_unspecified :: "ip \<Rightarrow> bool" where
  "is_unspecified (IPv4 a) = (a = 0)"
| "is_unspecified (IPv6 a) = (a = 0)"

definition is_blocked_ip :: "ip \<Rightarrow> bool" where
  "is_blocked_ip a \<longleftrightarrow> is_private a \<or> is_loopback a \<or> is_link_local a \<or> is_reserved a \<or> is_multicast a \<or> is_unspecified a"

section \<open>Resolving\<close>

text \<open>
  What the resolver answers: an error, or entries, each an address or a text that is none
  (\<^verbatim>\<open>ip_address\<close> raises and the entry is skipped).
\<close>

type_synonym dns_answer = "ip option list option"

fun public_addrs :: "ip option list \<Rightarrow> ip list option" where
  "public_addrs [] = Some []"
| "public_addrs (None # infos) = public_addrs infos"
| "public_addrs (Some a # infos) = (if is_blocked_ip a then None else map_option ((#) a) (public_addrs infos))"

fun is_v4 :: "ip \<Rightarrow> bool" where
  "is_v4 (IPv4 a) = True"
| "is_v4 (IPv6 a) = False"

definition resolve_public_ip :: "dns_answer \<Rightarrow> ip option" where
  "resolve_public_ip answer =
     (case answer of
        None \<Rightarrow> None
      | Some infos \<Rightarrow>
          (case public_addrs infos of
             None \<Rightarrow> None
           | Some [] \<Rightarrow> None
           | Some (a # addrs) \<Rightarrow>
               (case find is_v4 (a # addrs) of Some x \<Rightarrow> Some x | None \<Rightarrow> Some a)))"

section \<open>A request and its redirects\<close>

text \<open>Reading the port of a URL raises when it is no number up to 65535; taking the URL apart does not.\<close>

record url =
  ur_scheme :: string
  ur_hostname :: "string option"
  ur_port :: "exn + nat option"
  ur_path :: string
  ur_params :: string
  ur_query :: string

text \<open>The connection that is made: to the address, with the name of the host in \<^verbatim>\<open>Host\<close> and SNI.\<close>

record request =
  rq_scheme :: string
  rq_ip :: ip
  rq_port :: "nat option"
  rq_path :: string
  rq_params :: string
  rq_query :: string
  rq_host :: string

datatype response = Transport_error | Raises exn | Redirect "string option" | Error_status | Page string

record net =
  nt_parse :: "string \<Rightarrow> exn + url"
  nt_unparse :: "url \<Rightarrow> string"
  nt_join :: "string \<Rightarrow> string \<Rightarrow> exn + string"
  nt_dns :: "request list \<Rightarrow> string \<Rightarrow> dns_answer"
  nt_server :: "request list \<Rightarrow> request \<Rightarrow> response"

definition MAX_REDIRECTS :: nat where
  "MAX_REDIRECTS = 5"

definition explicit_port :: "nat option \<Rightarrow> nat option" where
  "explicit_port port = (if port = Some 0 then None else port)"

definition pinned :: "url \<Rightarrow> nat option \<Rightarrow> string \<Rightarrow> ip \<Rightarrow> request" where
  "pinned u port host a = \<lparr>rq_scheme = ur_scheme u, rq_ip = a, rq_port = explicit_port port,
     rq_path = (if ur_path u = [] then ''/'' else ur_path u), rq_params = ur_params u, rq_query = ur_query u, rq_host = host\<rparr>"

text \<open>The turns left, the URL now, the requests so far; with the answer the requests made.\<close>

fun get_loop :: "nat \<Rightarrow> net \<Rightarrow> string \<Rightarrow> request list \<Rightarrow> (exn + string option) \<times> request list" where
  "get_loop 0 nt current sent = (Inr None, sent)"
| "get_loop (Suc n) nt current sent =
     (case nt_parse nt current of
        Inl e \<Rightarrow> (Inl e, sent)
      | Inr u \<Rightarrow>
          (case ur_hostname u of
             None \<Rightarrow> (Inr None, sent)
           | Some host \<Rightarrow>
               if ur_scheme u \<notin> {''http'', ''https''} \<or> host = [] then (Inr None, sent)
               else (case resolve_public_ip (nt_dns nt sent host) of
                  None \<Rightarrow> (Inr None, sent)
                | Some a \<Rightarrow>
                    (case ur_port u of
                       Inl e \<Rightarrow> (Inl e, sent)
                     | Inr port \<Rightarrow>
                         let rq = pinned u port host a; sent' = sent @ [rq] in
                         (case nt_server nt sent rq of
                            Transport_error \<Rightarrow> (Inr None, sent')
                          | Raises e \<Rightarrow> (Inl e, sent')
                          | Redirect None \<Rightarrow> (Inr None, sent')
                          | Redirect (Some loc) \<Rightarrow>
                              if loc = [] then (Inr None, sent')
                              else (case nt_join nt current loc of
                                  Inl e \<Rightarrow> (Inl e, sent')
                                | Inr target \<Rightarrow> get_loop n nt target sent')
                          | Error_status \<Rightarrow> (Inr None, sent')
                          | Page body \<Rightarrow> (Inr (Some body), sent'))))))"

definition get :: "net \<Rightarrow> string \<Rightarrow> request list \<Rightarrow> (exn + string option) \<times> request list" where
  "get nt u sent = get_loop (MAX_REDIRECTS + 1) nt u sent"

section \<open>The candidates\<close>

definition is_letter :: "char \<Rightarrow> bool" where
  "is_letter c \<longleftrightarrow> (let n = (of_char c :: nat) in (65 \<le> n \<and> n \<le> 90) \<or> (97 \<le> n \<and> n \<le> 122))"

definition scheme_char :: "char \<Rightarrow> bool" where
  "scheme_char c \<longleftrightarrow> (let n = (of_char c :: nat) in is_letter c \<or> (48 \<le> n \<and> n \<le> 57) \<or> c \<in> {CHR ''+'', CHR ''.'', CHR ''-''})"

text \<open>\<^verbatim>\<open>_SCHEME_RE\<close>: none of the characters of a scheme is a colon, so the longest run decides.\<close>

definition has_scheme :: "string \<Rightarrow> bool" where
  "has_scheme s = (case s of [] \<Rightarrow> False
     | c # rest \<Rightarrow> is_letter c \<and> take 3 (dropWhile scheme_char rest) = ''://'')"

definition normalize_url :: "net \<Rightarrow> string \<Rightarrow> exn + string option" where
  "normalize_url nt raw =
     (let s = strip raw in
      if s = [] then Inr None
      else
        let inferred = (\<not> has_scheme s); full = (if inferred then ''https://'' @ s else s) in
        bindR (nt_parse nt full) (\<lambda>u.
          case ur_hostname u of
            None \<Rightarrow> Inr None
          | Some host \<Rightarrow>
              if ur_scheme u \<notin> {''http'', ''https''} \<or> host = [] then Inr None
              else if inferred \<and> CHR ''.'' \<notin> set host then Inr None
              else Inr (Some full)))"

definition build_url :: "net \<Rightarrow> url \<Rightarrow> nat option \<Rightarrow> string \<Rightarrow> string \<Rightarrow> string" where
  "build_url nt u port scheme host = nt_unparse nt (u\<lparr>ur_scheme := scheme, ur_hostname := Some host,
     ur_port := Inr (explicit_port port), ur_path := (if ur_path u = [] then ''/'' else ur_path u)\<rparr>)"

definition alt_host :: "string \<Rightarrow> string" where
  "alt_host host = (if take 4 host = ''www.'' then drop 4 host else ''www.'' @ host)"

definition candidate_urls :: "net \<Rightarrow> string \<Rightarrow> exn + string list" where
  "candidate_urls nt raw =
     bindR (normalize_url nt raw) (\<lambda>base.
       case base of
         None \<Rightarrow> Inr []
       | Some b \<Rightarrow>
           bindR (nt_parse nt b) (\<lambda>u. bindR (ur_port u) (\<lambda>port.
             let host = (case ur_hostname u of None \<Rightarrow> [] | Some h \<Rightarrow> h);
                 out = [b, build_url nt u port (ur_scheme u) (alt_host host)] @
                   (if ur_scheme u = ''https'' \<and> \<not> has_scheme (strip raw) then [build_url nt u port ''http'' host] else []) in
             Inr (rev (remdups (rev out))))))"

section \<open>The page\<close>

definition MAX_CANDIDATES :: nat where
  "MAX_CANDIDATES = 3"

fun try_candidates :: "net \<Rightarrow> string list \<Rightarrow> string option \<Rightarrow> request list \<Rightarrow>
    (exn + string option \<times> string option) \<times> request list" where
  "try_candidates nt [] html sent = (Inr (html, None), sent)"
| "try_candidates nt (c # cs) html sent =
     (case get nt c sent of
        (Inl e, sent') \<Rightarrow> (Inl e, sent')
      | (Inr r, sent') \<Rightarrow>
          if (case r of None \<Rightarrow> False | Some body \<Rightarrow> body \<noteq> []) then (Inr (r, Some c), sent')
          else try_candidates nt cs r sent')"

fun get_sheets :: "net \<Rightarrow> string \<Rightarrow> string list \<Rightarrow> request list \<Rightarrow> (exn + string list) \<times> request list" where
  "get_sheets nt base [] sent = (Inr [], sent)"
| "get_sheets nt base (href # hrefs) sent =
     (case nt_join nt base href of
        Inl e \<Rightarrow> (Inl e, sent)
      | Inr target \<Rightarrow>
          (case get nt target sent of
             (Inl e, sent') \<Rightarrow> (Inl e, sent')
           | (Inr r, sent') \<Rightarrow>
               (case get_sheets nt base hrefs sent' of
                  (Inl e, sent'') \<Rightarrow> (Inl e, sent'')
                | (Inr sheets, sent'') \<Rightarrow> (Inr ((case r of None \<Rightarrow> [] | Some s \<Rightarrow> if s = [] then [] else [s]) @ sheets), sent''))))"

text \<open>
  \<open>links\<close> is what the expressions find: the references of the link tags, in order, \<open>None\<close> for a tag
  without one. Only the first \<open>max_css\<close> tags are looked at.
\<close>

definition fetch_page :: "net \<Rightarrow> (string \<Rightarrow> string option list) \<Rightarrow> nat \<Rightarrow> string \<Rightarrow>
    (exn + (string \<times> string list) option) \<times> request list" where
  "fetch_page nt links max_css raw =
     (case candidate_urls nt raw of
        Inl e \<Rightarrow> (Inl e, [])
      | Inr cs \<Rightarrow>
          (case try_candidates nt (take MAX_CANDIDATES cs) None [] of
             (Inl e, sent) \<Rightarrow> (Inl e, sent)
           | (Inr (None, hit), sent) \<Rightarrow> (Inr None, sent)
           | (Inr (Some html, hit), sent) \<Rightarrow>
               (case get_sheets nt (case hit of Some c \<Rightarrow> c | None \<Rightarrow> raw)
                   (List.map_filter id (take max_css (links html))) sent of
                  (Inl e, sent') \<Rightarrow> (Inl e, sent')
                | (Inr sheets, sent') \<Rightarrow> (Inr (Some (html, sheets)), sent'))))"

section \<open>Lemmas: no request to the inside\<close>

lemma public_addrs_Some: "public_addrs infos = Some addrs \<Longrightarrow> set addrs = {a. Some a \<in> set infos} \<and> (\<forall>a \<in> set addrs. \<not> is_blocked_ip a)"
  by (induction infos arbitrary: addrs rule: public_addrs.induct) (auto split: if_splits)

lemma resolve_public_ip_Some:
  assumes "resolve_public_ip answer = Some a"
  shows "\<exists>infos. answer = Some infos \<and> Some a \<in> set infos \<and> (\<forall>x. Some x \<in> set infos \<longrightarrow> \<not> is_blocked_ip x)"
proof -
  from assms obtain infos b addrs where infos: "answer = Some infos" "public_addrs infos = Some (b # addrs)"
    by (auto simp: resolve_public_ip_def split: option.splits list.splits)
  have "a \<in> set (b # addrs)"
    using assms infos by (auto simp: resolve_public_ip_def find_Some_iff split: option.splits if_splits)
  with public_addrs_Some [OF infos(2)] infos(1) show ?thesis by auto
qed

text \<open>
  A request is safe at its place in the history: its scheme is http or https, and its address is one of
  those the resolver gave for its host at that moment, all of them public.
\<close>

definition safe_at :: "net \<Rightarrow> request list \<Rightarrow> request \<Rightarrow> bool" where
  "safe_at nt sent rq \<longleftrightarrow> rq_scheme rq \<in> {''http'', ''https''} \<and> \<not> is_blocked_ip (rq_ip rq) \<and>
     (\<exists>infos. nt_dns nt sent (rq_host rq) = Some infos \<and> Some (rq_ip rq) \<in> set infos \<and>
       (\<forall>x. Some x \<in> set infos \<longrightarrow> \<not> is_blocked_ip x))"

definition safe_history :: "net \<Rightarrow> request list \<Rightarrow> bool" where
  "safe_history nt sent \<longleftrightarrow> (\<forall>i < length sent. safe_at nt (take i sent) (sent ! i))"

lemma safe_history_snoc: "safe_history nt (sent @ [rq]) \<longleftrightarrow> safe_history nt sent \<and> safe_at nt sent rq"
  by (auto simp: safe_history_def less_Suc_eq nth_append)

text \<open>What a step of fetching may do to the history: extend it safely, by at most \<open>n\<close> requests.\<close>

definition extends :: "net \<Rightarrow> nat \<Rightarrow> request list \<Rightarrow> request list \<Rightarrow> bool" where
  "extends nt n sent sent' \<longleftrightarrow> (safe_history nt sent \<longrightarrow> safe_history nt sent') \<and> length sent' \<le> length sent + n"

lemma extends_refl [simp]: "extends nt n sent sent"
  by (simp add: extends_def)

lemma extends_trans: "extends nt m a b \<Longrightarrow> extends nt n b c \<Longrightarrow> extends nt (m + n) a c"
  by (auto simp: extends_def)

lemma get_loop_extends: "extends nt n sent (snd (get_loop n nt current sent))"
proof (induction n arbitrary: current sent)
  case (Suc n)
  have step: "extends nt (Suc n) sent (sent @ [pinned u port host a])"
    and cont: "extends nt (Suc n) sent (snd (get_loop n nt next (sent @ [pinned u port host a])))"
    if "ur_scheme u \<in> {''http'', ''https''}" "resolve_public_ip (nt_dns nt sent host) = Some a" for u port host a "next"
  proof -
    have "safe_at nt sent (pinned u port host a)"
      using resolve_public_ip_Some [OF that(2)] that(1) by (auto simp: safe_at_def pinned_def)
    then have one: "extends nt 1 sent (sent @ [pinned u port host a])" by (simp add: extends_def safe_history_snoc)
    then show "extends nt (Suc n) sent (sent @ [pinned u port host a])" by (simp add: extends_def)
    show "extends nt (Suc n) sent (snd (get_loop n nt next (sent @ [pinned u port host a])))"
      using extends_trans [OF one Suc.IH] by simp
  qed
  show ?case
    by (auto simp: Let_def split: sum.split option.split response.split intro: step cont)
qed simp

lemma get_extends: "get nt u sent = (r, sent') \<Longrightarrow> extends nt 6 sent sent'"
  using get_loop_extends [of nt 6 sent u] by (simp add: get_def MAX_REDIRECTS_def)

lemma try_candidates_extends: "try_candidates nt cs html sent = (r, sent') \<Longrightarrow> extends nt (length cs * 6) sent sent'"
proof (induction cs arbitrary: html sent)
  case (Cons c cs)
  obtain x sent1 where g: "get nt c sent = (x, sent1)" by (cases "get nt c sent")
  have halt: "extends nt (length (c # cs) * 6) sent sent1"
    using get_extends [OF g] by (simp add: extends_def)
  have more: "extends nt (length (c # cs) * 6) sent sent'" if "try_candidates nt cs h sent1 = (r, sent')" for h
    using extends_trans [OF get_extends [OF g] Cons.IH [OF that]] by simp
  from Cons.prems g halt more show ?case by (auto split: sum.splits if_splits option.splits)
qed simp

lemma get_sheets_extends: "get_sheets nt base hrefs sent = (r, sent') \<Longrightarrow> extends nt (length hrefs * 6) sent sent'"
proof (induction hrefs arbitrary: sent r sent')
  case (Cons href hrefs)
  have stop: "extends nt (length (href # hrefs) * 6) sent sent" by simp
  have halt: "extends nt (length (href # hrefs) * 6) sent sent1" if "get nt target sent = (x, sent1)" for target x sent1
    using get_extends [OF that] by (simp add: extends_def)
  have more: "extends nt (length (href # hrefs) * 6) sent sent2"
    if "get nt target sent = (x, sent1)" "get_sheets nt base hrefs sent1 = (y, sent2)" for target x sent1 y sent2
    using extends_trans [OF get_extends [OF that(1)] Cons.IH [OF that(2)]] by simp
  from Cons.prems stop halt more show ?case by (auto split: sum.splits prod.splits)
qed simp


section \<open>Concrete addresses and inputs\<close>

lemma in_network_unat: "in_network (a :: 'a::len word) (base, bits) \<longleftrightarrow>
    unat a div 2 ^ (LENGTH('a) - bits) = unat base div 2 ^ (LENGTH('a) - bits)"
  by (simp only: in_network_def prod.case word_unat_eq_iff unat_drop_bit_eq) (simp add: drop_bit_eq_div)

lemma unat_v4: "unat (v4 a b c d) = (((a * 256 + b) * 256 + c) * 256 + d) mod 4294967296"
  by (simp only: v4_def unat_of_nat) simp

lemma unat_v6: "unat (v6 groups) = foldl (\<lambda>n g. n * 65536 + g) 0 (take 8 (groups @ [0, 0, 0, 0, 0, 0, 0, 0])) mod 2 ^ 128"
proof -
  have "replicate 8 (0 :: nat) = [0, 0, 0, 0, 0, 0, 0, 0]" by (simp add: numeral_eq_Suc)
  then show ?thesis by (simp only: v6_def unat_of_nat) simp
qed

lemma unat_low: "unat (ucast (a :: 128 word) :: 32 word) = unat a mod 4294967296"
  by (simp add: unsigned_ucast_eq unsigned_take_bit_eq take_bit_eq_mod)

lemma eq_zero_unat: "a = 0 \<longleftrightarrow> unat (a :: 'a::len word) = 0"
  by (simp add: unat_eq_0)

lemmas address_simps = is_blocked_ip_def private_v4_def in_network_unat unat_v4 unat_v6 private4_def private4_exceptions_def
  private6_def private6_exceptions_def reserved6_def eq_zero_unat(1) unat_low

text \<open>The metadata service, the private ranges and the mapped and translated forms of them are blocked.\<close>

lemma internal_addresses_blocked:
  "is_blocked_ip (IPv4 (v4 169 254 169 254))" "is_blocked_ip (IPv4 (v4 127 0 0 1))" "is_blocked_ip (IPv4 (v4 10 1 2 3))"
  "is_blocked_ip (IPv4 (v4 172 31 255 255))" "is_blocked_ip (IPv4 (v4 192 168 0 1))" "is_blocked_ip (IPv4 (v4 0 0 0 0))"
  "is_blocked_ip (IPv6 1)" "is_blocked_ip (IPv6 (v6 [0, 0, 0, 0, 0, 0xFFFF, 0xA9FE, 0xA9FE]))"
  "is_blocked_ip (IPv6 (v6 [0x64, 0xFF9B, 0, 0, 0, 0, 0xA9FE, 0xA9FE]))" "is_blocked_ip (IPv6 (v6 [0xFD00, 0xEC2, 0, 0, 0, 0, 0, 0x254]))"
  "\<not> is_blocked_ip (IPv4 (v4 93 184 216 34))"
  by (simp_all add: address_simps)

text \<open>
  The address space shared by carriers is neither private nor reserved to the library, so the guard lets
  it through: 100.64.0.0/10, where some clouds keep their metadata service.
\<close>

lemma shared_space_not_blocked: "\<not> is_blocked_ip (IPv4 (v4 100 100 100 200))" "\<not> is_blocked_ip (IPv4 (v4 100 64 0 1))"
  by (simp_all add: address_simps)

text \<open>A URL that spells out its scheme is never tried in the clear when it asked for https.\<close>

lemma no_downgrade:
  assumes "has_scheme (strip raw)" "candidate_urls nt raw = Inr cs" "nt_parse nt (strip raw) = Inr u" "ur_port u = Inr port"
  shows "set cs \<subseteq> {strip raw, build_url nt u port (ur_scheme u) (alt_host (case ur_hostname u of None \<Rightarrow> [] | Some h \<Rightarrow> h))}"
  using assms by (auto simp: candidate_urls_def normalize_url_def bindR_eq_Inr Let_def split: if_splits option.splits)

text \<open>A port that is no port is not refused as an unusable URL: reading it raises, and nothing catches it.\<close>

lemma bad_port_raises:
  assumes "nt_parse nt ''https://acme.com:99999/'' = Inr u" "ur_scheme u = ''https''" "ur_hostname u = Some ''acme.com''"
    and "ur_port u = Inl (Crash ''ValueError'')"
  shows "normalize_url nt ''https://acme.com:99999/'' = Inr (Some ''https://acme.com:99999/'')"
    "fetch_page nt links max_css ''https://acme.com:99999/'' = (Inl (Crash ''ValueError''), [])"
proof -
  have "strip ''https://acme.com:99999/'' = ''https://acme.com:99999/''" "has_scheme ''https://acme.com:99999/''" by code_simp+
  with assms show "normalize_url nt ''https://acme.com:99999/'' = Inr (Some ''https://acme.com:99999/'')"
    by (simp add: normalize_url_def bindR_def)
  with assms show "fetch_page nt links max_css ''https://acme.com:99999/'' = (Inl (Crash ''ValueError''), [])"
    by (simp add: fetch_page_def candidate_urls_def bindR_def)
qed

end
