(* ===== verification/Report_Mail.thy ===== *)
theory Report_Mail
  imports Access Audit_Trail
begin

text \<open>
  The daily report mails (\<^verbatim>\<open>services/report_email/service.py\<close>,
  \<^verbatim>\<open>services/report_email/timing.py\<close> and the sweep of
  \<^verbatim>\<open>services/scheduler_service.py\<close>): when a report is due, who gets it, the delivery log
  with its unique key, the cooldown and the retries. A delivery is a launch, which reads the log and calls
  the provider, and a finish, which writes the log; other sessions may commit between the two. The provider,
  the assembly of the report and the zone data are parameters.
\<close>

section \<open>Rows\<close>

datatype email_status = Mail_sent | Mail_failed | Mail_skipped_no_recipients | Mail_skipped_not_configured

fun email_status_value :: "email_status \<Rightarrow> string" where
  "email_status_value Mail_sent = ''sent''"
| "email_status_value Mail_failed = ''failed''"
| "email_status_value Mail_skipped_no_recipients = ''skipped_no_recipients''"
| "email_status_value Mail_skipped_not_configured = ''skipped_not_configured''"

record email_log =
  el_id :: uuid
  el_client_id :: uuid
  el_report_date :: date
  el_status :: email_status
  el_recipient_count :: nat
  el_recipient_emails :: "string list option"
  el_message_id :: "string option"
  el_error :: "string option"
  el_attempt_count :: nat
  el_sent_at :: "datetime option"
  el_created_at :: datetime
  el_updated_at :: datetime

definition el_key :: "email_log \<Rightarrow> uuid \<times> date" where
  "el_key l = (el_client_id l, el_report_date l)"

text \<open>
  What one call of the provider comes to: a message identifier, a \<^verbatim>\<open>BrevoSendError\<close> with its
  flag, or another exception (an unreadable answer, a protocol error).
\<close>

datatype send_outcome = Accepted string | Refused string bool | Raised exn

text \<open>A call of the provider: for which report, when, to whom, with which outcome.\<close>

record mail_call =
  mc_key :: "uuid \<times> date"
  mc_at :: datetime
  mc_to :: "(string \<times> string) list"
  mc_outcome :: send_outcome

record world =
  w_db :: db
  w_logs :: "email_log list"
  w_calls :: "mail_call list"

text \<open>
  The collaborators: whether the provider is configured, the data, narrative and HTML of a report, and
  the provider, whose answer may depend on all the calls so far.
\<close>

record mailer =
  ml_configured :: bool
  ml_build :: "db \<Rightarrow> client \<Rightarrow> date \<Rightarrow> exn + string"
  ml_send :: "mail_call list \<Rightarrow> (string \<times> string) list \<Rightarrow> string \<Rightarrow> send_outcome"

fun exn_text :: "exn \<Rightarrow> string" where
  "exn_text (AppError c msg) = msg"
| "exn_text (Crash s) = s"

section \<open>When a report is due\<close>

definition DAY :: int where
  "DAY = 24 * 60 * 60 * 1000000"

definition REPORT_TIME :: int where
  "REPORT_TIME = (23 * 60 + 30) * 60 * 1000000"

definition CATCH_UP_DAYS :: int where
  "CATCH_UP_DAYS = 1"

text \<open>
  \<open>offset\<close> is the zone data: what the named zone adds to an instant. Two datetimes of the same zone
  compare by their wall clocks.
\<close>

definition local_now :: "(string \<Rightarrow> datetime \<Rightarrow> int) \<Rightarrow> string option \<Rightarrow> datetime \<Rightarrow> int" where
  "local_now offset tz now = now + offset (case tz of Some z \<Rightarrow> if z = [] then ''UTC'' else z | None \<Rightarrow> ''UTC'') now"

definition due_report_dates :: "(string \<Rightarrow> datetime \<Rightarrow> int) \<Rightarrow> string option \<Rightarrow> datetime \<Rightarrow> date list" where
  "due_report_dates offset tz now =
     (let wall = local_now offset tz now; today = wall div DAY in
      filter (\<lambda>d. d * DAY + REPORT_TIME \<le> wall) [today - CATCH_UP_DAYS, today])"

section \<open>Recipients\<close>

text \<open>The users in the order of a dict filled by both queries: an identifier keeps its first place.\<close>

definition resolve_recipients :: "uuid \<Rightarrow> db \<Rightarrow> (string \<times> string) list" where
  "resolve_recipients cid d =
     (let assigned = map a_user_id (list_for_client_rows cid d);
          team = filter (\<lambda>u. u_id u \<in> set assigned \<and> u_is_active u) (d_users d);
          admins = filter (\<lambda>u. u_role u = Role_admin \<and> u_is_active u) (d_users d) in
      map (\<lambda>u. (u_name u, u_email u)) (team @ filter (\<lambda>u. u_id u \<notin> u_id ` set team) admins))"

section \<open>Sending one report\<close>

definition MAX_ATTEMPTS :: nat where
  "MAX_ATTEMPTS = 3"

definition FAILED_RETRY_COOLDOWN :: int where
  "FAILED_RETRY_COOLDOWN = 60 * 60 * 1000000"

definition get_for_date :: "uuid \<Rightarrow> date \<Rightarrow> email_log list \<Rightarrow> email_log option" where
  "get_for_date cid dt logs = find_by el_key (cid, dt) logs"

text \<open>The log row says that nothing is to be done now.\<close>

definition settled :: "datetime \<Rightarrow> email_log option \<Rightarrow> bool" where
  "settled now existing =
     (case existing of
        None \<Rightarrow> False
      | Some l \<Rightarrow> el_status l = Mail_sent \<or>
          (el_status l = Mail_failed \<and> now - el_updated_at l < FAILED_RETRY_COOLDOWN))"

text \<open>What the delivery leaves to be written to the log.\<close>

record log_fields =
  lf_status :: email_status
  lf_recipients :: "(string \<times> string) list"
  lf_error :: "string option"
  lf_attempts :: nat
  lf_message_id :: "string option"

text \<open>
  The attempts that are left, and the attempt, error and message of the last one; with the result the
  calls made.
\<close>

fun send_loop :: "(mail_call list \<Rightarrow> send_outcome) \<Rightarrow> (send_outcome \<Rightarrow> mail_call) \<Rightarrow> nat list \<Rightarrow>
    nat \<times> string option \<times> string option \<Rightarrow> mail_call list \<Rightarrow>
    (exn + nat \<times> string option \<times> string option) \<times> mail_call list" where
  "send_loop send mk [] acc calls = (Inr acc, calls)"
| "send_loop send mk (n # ns) (attempt, error, mid) calls =
     (let o' = send calls; calls' = calls @ [mk o'] in
      case o' of
        Accepted m \<Rightarrow> (Inr (n, None, Some m), calls')
      | Refused msg retryable \<Rightarrow>
          if \<not> retryable \<or> n = MAX_ATTEMPTS then (Inr (n, Some (take 500 msg), mid), calls')
          else send_loop send mk ns (n, Some (take 500 msg), mid) calls'
      | Raised e \<Rightarrow> (Inl e, calls'))"

definition deliver :: "datetime \<Rightarrow> mailer \<Rightarrow> client \<Rightarrow> date \<Rightarrow> db \<Rightarrow> mail_call list \<Rightarrow>
    (exn + log_fields) \<times> mail_call list" where
  "deliver now m c dt d calls =
     (let rcp = resolve_recipients (c_id c) d in
      if rcp = [] then
        (Inr \<lparr>lf_status = Mail_skipped_no_recipients, lf_recipients = [], lf_error = None, lf_attempts = 0, lf_message_id = None\<rparr>, calls)
      else if \<not> ml_configured m then
        (Inr \<lparr>lf_status = Mail_skipped_not_configured, lf_recipients = [], lf_error = None, lf_attempts = 0, lf_message_id = None\<rparr>, calls)
      else
        (case ml_build m d c dt of
           Inl e \<Rightarrow>
             (Inr \<lparr>lf_status = Mail_failed, lf_recipients = rcp, lf_error = Some (take 500 (exn_text e)), lf_attempts = 0,
                lf_message_id = None\<rparr>, calls)
         | Inr html \<Rightarrow>
             (case send_loop (\<lambda>h. ml_send m h rcp html)
                 (\<lambda>o'. \<lparr>mc_key = (c_id c, dt), mc_at = now, mc_to = rcp, mc_outcome = o'\<rparr>)
                 [1..<MAX_ATTEMPTS + 1] (0, None, None) calls of
                (Inl e, calls') \<Rightarrow> (Inl e, calls')
              | (Inr (attempt, error, mid), calls') \<Rightarrow>
                  (Inr \<lparr>lf_status = (if error = None then Mail_sent else Mail_failed), lf_recipients = rcp, lf_error = error,
                     lf_attempts = attempt, lf_message_id = (if error = None then mid else None)\<rparr>, calls'))))"

text \<open>
  The row a log call writes: a new one, or the loaded one with its columns assigned. The columns the
  assignment moved are written, and with them \<^verbatim>\<open>updated_at\<close>; when none moved, nothing is.
\<close>

definition assign_log :: "datetime \<Rightarrow> log_fields \<Rightarrow> email_log \<Rightarrow> email_log" where
  "assign_log now f l = l\<lparr>el_status := lf_status f, el_recipient_count := length (lf_recipients f),
     el_recipient_emails := (if lf_recipients f = [] then None else Some (map snd (lf_recipients f))),
     el_message_id := lf_message_id f, el_error := lf_error f, el_attempt_count := lf_attempts f,
     el_sent_at := (if lf_status f = Mail_sent then Some now else None)\<rparr>"

definition new_log :: "uuid \<Rightarrow> uuid \<Rightarrow> date \<Rightarrow> datetime \<Rightarrow> email_log" where
  "new_log i cid dt now = \<lparr>el_id = i, el_client_id = cid, el_report_date = dt, el_status = Mail_failed, el_recipient_count = 0,
     el_recipient_emails = None, el_message_id = None, el_error = None, el_attempt_count = 0, el_sent_at = None,
     el_created_at = now, el_updated_at = now\<rparr>"

text \<open>\<open>l\<close> as it was loaded, \<open>l'\<close> as it was assigned, applied to the row as it is now.\<close>

definition update_moved :: "datetime \<Rightarrow> email_log \<Rightarrow> email_log \<Rightarrow> email_log \<Rightarrow> email_log" where
  "update_moved now l l' cur =
     (if l' = l then cur
      else cur\<lparr>el_status := moved (el_status l) (el_status l') (el_status cur),
        el_recipient_count := moved (el_recipient_count l) (el_recipient_count l') (el_recipient_count cur),
        el_recipient_emails := moved (el_recipient_emails l) (el_recipient_emails l') (el_recipient_emails cur),
        el_message_id := moved (el_message_id l) (el_message_id l') (el_message_id cur),
        el_error := moved (el_error l) (el_error l') (el_error cur),
        el_attempt_count := moved (el_attempt_count l) (el_attempt_count l') (el_attempt_count cur),
        el_sent_at := moved (el_sent_at l) (el_sent_at l') (el_sent_at cur),
        el_updated_at := now\<rparr>)"

definition log_row_ok :: "email_log \<Rightarrow> bool" where
  "log_row_ok l \<longleftrightarrow> len_ok 120 (el_message_id l)"

definition write_log :: "datetime \<Rightarrow> email_log option \<Rightarrow> uuid \<Rightarrow> date \<Rightarrow> log_fields \<Rightarrow> world \<Rightarrow> (exn + email_log) \<times> world" where
  "write_log now existing cid dt f w =
     (case existing of
        None \<Rightarrow>
          let i = d_next_id (w_db w); row = assign_log now f (new_log i cid dt now) in
          if \<not> log_row_ok row then (Inl (Crash ''DBAPIError''), w)
          else if find_by el_key (cid, dt) (w_logs w) \<noteq> None \<or> client_get cid (w_db w) = None then
            (case get_for_date cid dt (w_logs w) of Some l \<Rightarrow> (Inr l, w) | None \<Rightarrow> (Inl (Crash ''IntegrityError''), w))
          else (Inr row, w\<lparr>w_db := (w_db w)\<lparr>d_next_id := Suc i\<rparr>, w_logs := w_logs w @ [row]\<rparr>)
      | Some l \<Rightarrow>
          let l' = assign_log now f l in
          if \<not> log_row_ok l' then (Inl (Crash ''DBAPIError''), w)
          else (case find_by el_id (el_id l) (w_logs w) of
                  None \<Rightarrow> (Inl (Crash ''StaleDataError''), w)
                | Some cur \<Rightarrow>
                    (Inr (update_moved now l l' cur),
                     w\<lparr>w_logs := update_by el_id (el_id l) (update_moved now l l') (w_logs w)\<rparr>)))"

definition sent_audit :: "client \<Rightarrow> date \<Rightarrow> nat \<Rightarrow> uuid \<Rightarrow> audit_log" where
  "sent_audit c dt n i = \<lparr>au_id = i, au_actor_user_id = None, au_client_id = Some (c_id c), au_proposal_id = None,
     au_entity = ''clients'', au_entity_id = Some (c_id c), au_action = ''report.daily_email.sent'', au_target_label = c_name c,
     au_meta = Some [(''report_date'', JDate dt), (''recipient_count'', JInt (int n))], au_changes = None, au_created_at = 0\<rparr>"

text \<open>A delivery between its launch and its finish: the row it loaded and what it has to write.\<close>

record flight =
  fl_existing :: "email_log option"
  fl_fields :: log_fields

text \<open>A launch ends in the settled row, in an exception, or in a delivery to be logged.\<close>

datatype launched = Nothing_to_do email_log | Escaped exn | In_flight flight

definition launch :: "datetime \<Rightarrow> mailer \<Rightarrow> client \<Rightarrow> date \<Rightarrow> world \<Rightarrow> launched \<times> world" where
  "launch now m c dt w =
     (let existing = get_for_date (c_id c) dt (w_logs w) in
      if settled now existing then (Nothing_to_do (the existing), w)
      else
        (case deliver now m c dt (w_db w) (w_calls w) of
           (Inl e, calls) \<Rightarrow> (Escaped e, w\<lparr>w_calls := calls\<rparr>)
         | (Inr f, calls) \<Rightarrow> (In_flight \<lparr>fl_existing = existing, fl_fields = f\<rparr>, w\<lparr>w_calls := calls\<rparr>)))"

definition finish :: "env \<Rightarrow> client \<Rightarrow> date \<Rightarrow> flight \<Rightarrow> world \<Rightarrow> (exn + email_log) \<times> world" where
  "finish e c dt fl w =
     (case write_log (e_now e) (fl_existing fl) (c_id c) dt (fl_fields fl) w of
        (Inl ex, w1) \<Rightarrow> (Inl ex, w1)
      | (Inr l, w1) \<Rightarrow>
          if lf_status (fl_fields fl) = Mail_sent then
            (case audit_record e (sent_audit c dt (length (lf_recipients (fl_fields fl)))) (w_db w1) of
               Inl ex \<Rightarrow> (Inl ex, w1)
             | Inr (row, d) \<Rightarrow> (Inr l, w1\<lparr>w_db := d\<rparr>))
          else (Inr l, w1))"

definition send_daily_report :: "env \<Rightarrow> mailer \<Rightarrow> client \<Rightarrow> date \<Rightarrow> world \<Rightarrow> (exn + email_log) \<times> world" where
  "send_daily_report e m c dt w =
     (case launch (e_now e) m c dt w of
        (Nothing_to_do l, w1) \<Rightarrow> (Inr l, w1)
      | (Escaped ex, w1) \<Rightarrow> (Inl ex, w1)
      | (In_flight fl, w1) \<Rightarrow> finish e c dt fl w1)"

section \<open>The sweep\<close>

definition active_clients :: "db \<Rightarrow> client list" where
  "active_clients d = sort_key c_created_at (filter (\<lambda>c. c_status c = Some Client_active) (d_clients d))"

datatype sweep_status = Row_status email_status | Row_error exn

record sweep_row =
  sw_client_id :: uuid
  sw_report_date :: date
  sw_status :: sweep_status

fun sweep_dates :: "env \<Rightarrow> mailer \<Rightarrow> client \<Rightarrow> date list \<Rightarrow> world \<Rightarrow> sweep_row list \<times> world" where
  "sweep_dates e m c [] w = ([], w)"
| "sweep_dates e m c (dt # dts) w =
     (let (r, w1) = send_daily_report e m c dt w;
          row = \<lparr>sw_client_id = c_id c, sw_report_date = dt,
                 sw_status = (case r of Inl ex \<Rightarrow> Row_error ex | Inr l \<Rightarrow> Row_status (el_status l))\<rparr>;
          (rows, w2) = sweep_dates e m c dts w1 in
      (row # rows, w2))"

fun sweep_clients :: "(string \<Rightarrow> datetime \<Rightarrow> int) \<Rightarrow> env \<Rightarrow> mailer \<Rightarrow> client list \<Rightarrow> world \<Rightarrow> sweep_row list \<times> world" where
  "sweep_clients offset e m [] w = ([], w)"
| "sweep_clients offset e m (c # cs) w =
     (let (rows, w1) = (case client_get (c_id c) (w_db w) of
            None \<Rightarrow> ([], w)
          | Some fresh \<Rightarrow> sweep_dates e m fresh (due_report_dates offset (c_timezone c) (e_now e)) w);
          (rows', w2) = sweep_clients offset e m cs w1 in
      (rows @ rows', w2))"

record sweep_result =
  sr_clients :: nat
  sr_sent :: nat
  sr_skipped :: nat
  sr_failed :: nat
  sr_details :: "sweep_row list"

definition sweep_failed :: "sweep_status \<Rightarrow> bool" where
  "sweep_failed s = (case s of Row_error ex \<Rightarrow> True | Row_status st \<Rightarrow> st = Mail_failed)"

definition send_daily_reports_sweep :: "(string \<Rightarrow> datetime \<Rightarrow> int) \<Rightarrow> env \<Rightarrow> mailer \<Rightarrow> world \<Rightarrow> sweep_result \<times> world" where
  "send_daily_reports_sweep offset e m w =
     (let clients = active_clients (w_db w); (rows, w') = sweep_clients offset e m clients w;
          sent = length (filter (\<lambda>r. sw_status r = Row_status Mail_sent) rows);
          failed = length (filter (\<lambda>r. sweep_failed (sw_status r)) rows) in
      (\<lparr>sr_clients = length clients, sr_sent = sent, sr_skipped = length rows - sent - failed, sr_failed = failed,
        sr_details = rows\<rparr>, w'))"

section \<open>Lemmas: the calls of one delivery\<close>

fun is_accepted :: "send_outcome \<Rightarrow> bool" where
  "is_accepted (Accepted m) = True"
| "is_accepted (Refused msg b) = False"
| "is_accepted (Raised e) = False"

definition accepted :: "uuid \<times> date \<Rightarrow> mail_call list \<Rightarrow> mail_call list" where
  "accepted k calls = filter (\<lambda>c. mc_key c = k \<and> is_accepted (mc_outcome c)) calls"

lemma accepted_append [simp]: "accepted k (xs @ ys) = accepted k xs @ accepted k ys"
  by (simp add: accepted_def)

lemma accepted_Nil [simp]: "accepted k [] = []"
  by (simp add: accepted_def)

text \<open>The outcome of the loop and what it adds to the calls.\<close>

definition loop_result :: "(send_outcome \<Rightarrow> mail_call) \<Rightarrow> nat \<Rightarrow> mail_call list \<Rightarrow>
    exn + nat \<times> string option \<times> string option \<Rightarrow> bool" where
  "loop_result mk n new r \<longleftrightarrow> length new \<le> n \<and> set new \<subseteq> range mk \<and>
     (case r of
        Inl e \<Rightarrow> filter (\<lambda>c. is_accepted (mc_outcome c)) new = []
      | Inr (attempt, error, mid) \<Rightarrow>
          (if error = None then \<exists>m. mid = Some m \<and> filter (\<lambda>c. is_accepted (mc_outcome c)) new = [mk (Accepted m)]
           else filter (\<lambda>c. is_accepted (mc_outcome c)) new = []))"

lemma send_loop_result:
  assumes mk: "\<And>o'. mc_outcome (mk o') = o'"
    and run: "send_loop send mk ns acc calls = (r, calls')" "ns \<noteq> [] \<or> fst (snd acc) \<noteq> None"
  shows "\<exists>new. calls' = calls @ new \<and> loop_result mk (length ns) new r"
  using run
proof (induction ns arbitrary: acc calls)
  case Nil
  obtain a err mid where "acc = (a, err, mid)" by (cases acc)
  with Nil show ?case by (auto simp: loop_result_def)
next
  case (Cons n ns)
  obtain a err mid where acc: "acc = (a, err, mid)" by (cases acc)
  have one: "loop_result mk (length (n # ns)) [mk (send calls)] r" if "calls' = calls @ [mk (send calls)]"
    "case r of Inl e \<Rightarrow> \<not> is_accepted (send calls)
     | Inr (attempt, error, mid) \<Rightarrow> (if error = None then \<exists>m. mid = Some m \<and> send calls = Accepted m else \<not> is_accepted (send calls))"
    using that mk by (auto simp: loop_result_def split: sum.splits if_splits)
  show ?case
  proof (cases "send calls")
    case (Accepted m)
    with Cons.prems acc one show ?thesis by (auto simp: Let_def)
  next
    case (Raised e)
    with Cons.prems acc one show ?thesis by (auto simp: Let_def)
  next
    case (Refused msg b)
    show ?thesis
    proof (cases "\<not> b \<or> n = MAX_ATTEMPTS")
      case True
      with Refused Cons.prems acc one show ?thesis by (auto simp: Let_def)
    next
      case False
      with Refused Cons.prems(1) acc
      have "send_loop send mk ns (n, Some (take 500 msg), mid) (calls @ [mk (send calls)]) = (r, calls')"
        by (simp add: Let_def)
      from Cons.IH [OF this] obtain new where new: "calls' = (calls @ [mk (send calls)]) @ new" "loop_result mk (length ns) new r"
        by auto
      have "loop_result mk (length (n # ns)) (mk (send calls) # new) r"
        using new(2) mk Refused by (auto simp: loop_result_def split: sum.splits if_splits)
      with new(1) show ?thesis by auto
    qed
  qed
qed

text \<open>A delivery: at most three calls, all to the recipients of the report, and at most the last one accepted.\<close>

definition call_of :: "datetime \<Rightarrow> client \<Rightarrow> date \<Rightarrow> db \<Rightarrow> send_outcome \<Rightarrow> mail_call" where
  "call_of now c dt d o' = \<lparr>mc_key = (c_id c, dt), mc_at = now, mc_to = resolve_recipients (c_id c) d, mc_outcome = o'\<rparr>"

definition delivery :: "datetime \<Rightarrow> client \<Rightarrow> date \<Rightarrow> db \<Rightarrow> mail_call list \<Rightarrow> exn + log_fields \<Rightarrow> bool" where
  "delivery now c dt d new r \<longleftrightarrow> length new \<le> MAX_ATTEMPTS \<and> set new \<subseteq> range (call_of now c dt d) \<and>
     (new \<noteq> [] \<longrightarrow> resolve_recipients (c_id c) d \<noteq> []) \<and>
     (case r of
        Inl e \<Rightarrow> filter (\<lambda>x. is_accepted (mc_outcome x)) new = []
      | Inr f \<Rightarrow>
          (if lf_status f = Mail_sent
           then \<exists>m. lf_message_id f = Some m \<and> filter (\<lambda>x. is_accepted (mc_outcome x)) new = [call_of now c dt d (Accepted m)]
           else lf_message_id f = None \<and> filter (\<lambda>x. is_accepted (mc_outcome x)) new = []))"

lemma deliver_delivery:
  assumes "deliver now m c dt d calls = (r, calls')"
  shows "\<exists>new. calls' = calls @ new \<and> delivery now c dt d new r"
proof -
  let ?rcp = "resolve_recipients (c_id c) d" and ?mk = "call_of now c dt d"
  consider (quiet) f where "r = Inr f" "lf_status f \<noteq> Mail_sent" "lf_message_id f = None" "calls' = calls"
    | (loud) html r' where "?rcp \<noteq> []" "send_loop (\<lambda>h. ml_send m h ?rcp html) ?mk [1..<MAX_ATTEMPTS + 1] (0, None, None) calls = (r', calls')"
        "r = (case r' of Inl e \<Rightarrow> Inl e | Inr (attempt, error, mid) \<Rightarrow>
          Inr \<lparr>lf_status = (if error = None then Mail_sent else Mail_failed), lf_recipients = ?rcp, lf_error = error,
             lf_attempts = attempt, lf_message_id = (if error = None then mid else None)\<rparr>)"
    using assms unfolding deliver_def Let_def call_of_def [abs_def]
    by (auto split: if_splits sum.splits prod.splits)
  then show ?thesis
  proof cases
    case quiet
    then show ?thesis by (simp add: delivery_def)
  next
    case loud
    have mk: "mc_outcome (?mk o') = o'" for o' by (simp add: call_of_def)
    have some: "[1..<MAX_ATTEMPTS + 1] \<noteq> [] \<or> fst (snd (0 :: nat, None :: string option, None :: string option)) \<noteq> None"
      by (simp add: MAX_ATTEMPTS_def)
    from send_loop_result [OF mk loud(2) some] obtain new where
      "calls' = calls @ new" "loop_result ?mk (length [1..<MAX_ATTEMPTS + 1]) new r'" by auto
    with loud(1,3) show ?thesis
      by (auto simp: loop_result_def delivery_def split: sum.splits if_splits)
  qed
qed

lemma send_loop_message:
  "send_loop send mk ns (a0, err0, None) calls = (Inr (a, err, Some mid), calls') \<Longrightarrow> \<exists>h. send h = Accepted mid"
proof (induction ns arbitrary: a0 err0 calls)
  case (Cons n ns)
  show ?case
  proof (cases "send calls")
    case (Accepted m)
    with Cons.prems have "send calls = Accepted mid" by (simp add: Let_def)
    then show ?thesis ..
  qed (use Cons in \<open>auto simp: Let_def split: if_splits\<close>)
qed simp

lemma deliver_message:
  assumes "deliver now m c dt d calls = (Inr f, calls')" "lf_message_id f = Some mid"
  shows "\<exists>h rcp html. ml_send m h rcp html = Accepted mid"
  using assms by (auto simp: deliver_def Let_def split: if_splits sum.splits prod.splits dest!: send_loop_message) blast

section \<open>The log and the calls agree\<close>

text \<open>
  One log row per client and date; at most one accepted call per client and date; while the client exists,
  the row says sent exactly when there is one. Identifiers are from the supply.
\<close>

definition log_agrees :: "world \<Rightarrow> bool" where
  "log_agrees w \<longleftrightarrow>
     (\<forall>k. length (accepted k (w_calls w)) \<le> 1) \<and>
     (\<forall>l \<in> set (w_logs w). el_status l = Mail_sent \<longrightarrow> accepted (el_key l) (w_calls w) \<noteq> []) \<and>
     (\<forall>x \<in> set (w_calls w). is_accepted (mc_outcome x) \<longrightarrow> fst (mc_key x) \<in> c_id ` set (d_clients (w_db w)) \<longrightarrow>
        (\<exists>l \<in> set (w_logs w). el_key l = mc_key x \<and> el_status l = Mail_sent))"

definition ids_ok :: "world \<Rightarrow> bool" where
  "ids_ok w \<longleftrightarrow> distinct (map el_key (w_logs w)) \<and> distinct (map el_id (w_logs w)) \<and>
     (\<forall>l \<in> set (w_logs w). el_id l < d_next_id (w_db w) \<and> el_client_id l \<in> c_id ` set (d_clients (w_db w))) \<and>
     (\<forall>x \<in> set (w_calls w). fst (mc_key x) < d_next_id (w_db w)) \<and>
     (\<forall>c \<in> set (d_clients (w_db w)). c_id c < d_next_id (w_db w))"

text \<open>A mailer whose message identifiers fit their column.\<close>

definition mailer_ok :: "mailer \<Rightarrow> bool" where
  "mailer_ok m \<longleftrightarrow> (\<forall>h rcp html mid. ml_send m h rcp html = Accepted mid \<longrightarrow> length mid \<le> 120)"

text \<open>What other sessions commit: anything, but a client's identifier is never given twice.\<close>

definition others_commit :: "db \<Rightarrow> db \<Rightarrow> bool" where
  "others_commit d d' \<longleftrightarrow> d_next_id d \<le> d_next_id d' \<and>
     (\<forall>c \<in> set (d_clients d'). c_id c < d_next_id d' \<and> (c_id c \<in> c_id ` set (d_clients d) \<or> d_next_id d \<le> c_id c))"

text \<open>The rows of a removed client go with it (\<^verbatim>\<open>ON DELETE CASCADE\<close>).\<close>

definition cascade :: "db \<Rightarrow> world \<Rightarrow> world" where
  "cascade d' w = w\<lparr>w_db := d', w_logs := filter (\<lambda>l. el_client_id l \<in> c_id ` set (d_clients d')) (w_logs w)\<rparr>"

inductive mail_run :: "world \<Rightarrow> bool" where
  start: "w_logs w = [] \<Longrightarrow> w_calls w = [] \<Longrightarrow> (\<forall>c \<in> set (d_clients (w_db w)). c_id c < d_next_id (w_db w)) \<Longrightarrow> mail_run w"
| send: "mail_run w \<Longrightarrow> mailer_ok m \<Longrightarrow> client_get (c_id c) (w_db w) = Some c \<Longrightarrow> mail_run (snd (send_daily_report e m c dt w))"
| other: "mail_run w \<Longrightarrow> others_commit (w_db w) d' \<Longrightarrow> mail_run (cascade d' w)"

lemma accepted_empty_iff: "accepted k calls = [] \<longleftrightarrow> (\<forall>x \<in> set calls. mc_key x = k \<longrightarrow> \<not> is_accepted (mc_outcome x))"
  by (auto simp: accepted_def filter_empty_conv)

lemma audit_record_keeps:
  "audit_record e mk d = Inr (row, d') \<Longrightarrow> d_next_id d' = Suc (d_next_id d) \<and> d_clients d' = d_clients d \<and> d_users d' = d_users d"
  by (drule audit_record_Inr(1)) simp

text \<open>What a call adds before it is logged: calls of this client and date, none of them accepted unless it says so.\<close>

lemma delivery_accepted:
  assumes "delivery now c dt d new r"
  shows "accepted k new = (if k = (c_id c, dt) then filter (\<lambda>x. is_accepted (mc_outcome x)) new else [])"
proof -
  have key: "mc_key x = (c_id c, dt)" if "x \<in> set new" for x
    using assms that by (auto simp: delivery_def call_of_def)
  show ?thesis unfolding accepted_def
    by (auto simp: key filter_empty_conv intro!: filter_cong)
qed

lemma quiet_calls:
  assumes "ids_ok w" "log_agrees w" "delivery now c dt d new r" "filter (\<lambda>x. is_accepted (mc_outcome x)) new = []"
    and "c_id c < d_next_id (w_db w)"
  shows "ids_ok (w\<lparr>w_calls := w_calls w @ new\<rparr>) \<and> log_agrees (w\<lparr>w_calls := w_calls w @ new\<rparr>)"
proof -
  have none: "accepted k new = []" for k using delivery_accepted [OF assms(3)] assms(4) by simp
  have keys: "mc_key x = (c_id c, dt)" if "x \<in> set new" for x
    using assms(3) that by (auto simp: delivery_def call_of_def)
  from assms(1,5) keys have "ids_ok (w\<lparr>w_calls := w_calls w @ new\<rparr>)" by (auto simp: ids_ok_def)
  moreover from assms(2,4) none have "log_agrees (w\<lparr>w_calls := w_calls w @ new\<rparr>)"
    by (auto simp: log_agrees_def filter_empty_conv)
  ultimately show ?thesis ..
qed

lemma update_moved_self: "update_moved now l (assign_log t f l) l =
    (if assign_log t f l = l then l else (assign_log t f l)\<lparr>el_updated_at := now\<rparr>)"
  by (cases l) (simp add: update_moved_def moved_def assign_log_def)

lemma assign_log_keeps [simp]:
  "el_id (assign_log now f l) = el_id l" "el_key (assign_log now f l) = el_key l"
  "el_status (assign_log now f l) = lf_status f" "el_message_id (assign_log now f l) = lf_message_id f"
  "el_client_id (assign_log now f l) = el_client_id l" "el_report_date (assign_log now f l) = el_report_date l"
  by (simp_all add: assign_log_def el_key_def)

lemma new_log_keeps [simp]: "el_id (new_log i cid dt now) = i" "el_key (new_log i cid dt now) = (cid, dt)"
  "el_client_id (new_log i cid dt now) = cid"
  by (simp_all add: new_log_def el_key_def)

lemma get_for_date_None: "get_for_date cid dt logs = None \<longleftrightarrow> (cid, dt) \<notin> el_key ` set logs"
  by (simp add: get_for_date_def find_by_None_iff)

lemma get_for_date_Some: "get_for_date cid dt logs = Some l \<Longrightarrow> l \<in> set logs \<and> el_key l = (cid, dt)"
  by (auto simp: get_for_date_def dest: find_by_key find_by_in_set)

lemma distinct_keys_eq: "distinct (map key rows) \<Longrightarrow> r \<in> set rows \<Longrightarrow> r' \<in> set rows \<Longrightarrow> key r = key r' \<Longrightarrow> r = r'"
  by (metis find_by_unique option.inject)

text \<open>
  Writing the log when nothing came in between: the row of the client and date is the one of the
  delivery, and the other rows stay.
\<close>

lemma write_log_exact:
  assumes ids: "ids_ok w" and ex: "get_for_date cid dt (w_logs w) = existing"
    and client: "cid \<in> c_id ` set (d_clients (w_db w))" and len: "len_ok 120 (lf_message_id f)"
  obtains l w' where "write_log now existing cid dt f w = (Inr l, w')" "el_key l = (cid, dt)" "el_status l = lf_status f"
    "w_calls w' = w_calls w" "d_clients (w_db w') = d_clients (w_db w)" "d_users (w_db w') = d_users (w_db w)"
    "d_next_id (w_db w) \<le> d_next_id (w_db w')"
    "set (w_logs w') = insert l {l' \<in> set (w_logs w). el_key l' \<noteq> (cid, dt)}" "ids_ok w'"
proof (cases existing)
  case None
  let ?row = "assign_log now f (new_log (d_next_id (w_db w)) cid dt now)"
  let ?w = "w\<lparr>w_db := (w_db w)\<lparr>d_next_id := Suc (d_next_id (w_db w))\<rparr>, w_logs := w_logs w @ [?row]\<rparr>"
  have absent: "(cid, dt) \<notin> el_key ` set (w_logs w)" using None ex by (simp add: get_for_date_None)
  have key: "el_key ?row = (cid, dt)" by (simp add: assign_log_def new_log_def el_key_def)
  have w: "write_log now existing cid dt f w = (Inr ?row, ?w)"
    using None len client absent
    by (auto simp: write_log_def log_row_ok_def Let_def client_get_def find_by_None_iff)
  have cid: "el_client_id ?row = cid" "el_id ?row = d_next_id (w_db w)" by (simp_all add: new_log_def)
  have "ids_ok ?w"
  proof -
    have "d_next_id (w_db w) \<notin> el_id ` set (w_logs w)" using ids by (auto simp: ids_ok_def)
    then have "distinct (map el_id (w_logs ?w))" "distinct (map el_key (w_logs ?w))"
      using ids absent by (simp_all add: ids_ok_def)
    then show ?thesis using ids client by (auto simp: ids_ok_def cid less_Suc_eq)
  qed
  moreover have "set (w_logs ?w) = insert ?row {l' \<in> set (w_logs w). el_key l' \<noteq> (cid, dt)}"
    using absent by (auto simp: image_iff)
  ultimately show thesis using that [OF w key] by simp
next
  case (Some l)
  have l: "l \<in> set (w_logs w)" "el_key l = (cid, dt)" using ex Some get_for_date_Some by auto
  let ?l' = "assign_log now f l" and ?l2 = "update_moved now l (assign_log now f l) l"
  have ids': "distinct (map el_id (w_logs w))" "distinct (map el_key (w_logs w))" using ids by (simp_all add: ids_ok_def)
  have found: "find_by el_id (el_id l) (w_logs w) = Some l" using find_by_unique [OF ids'(1) l(1)] .
  let ?w = "w\<lparr>w_logs := update_by el_id (el_id l) (update_moved now l ?l') (w_logs w)\<rparr>"
  have w: "write_log now existing cid dt f w = (Inr ?l2, ?w)"
    using Some len found by (simp add: write_log_def log_row_ok_def Let_def)
  have same: "el_id ?l2 = el_id l" "el_key ?l2 = el_key l" "el_status ?l2 = lf_status f" "el_client_id ?l2 = el_client_id l"
    by (simp_all add: update_moved_self el_key_def) (metis assign_log_keeps(3))
  have upd: "update_by el_id (el_id l) (update_moved now l ?l') (w_logs w) = map (\<lambda>r. if r = l then ?l2 else r) (w_logs w)"
    using distinct_keys_eq [OF ids'(1) _ l(1)] by (auto simp: update_by_def)
  have maps: "map g (w_logs ?w) = map g (w_logs w)" if "g ?l2 = g l" for g :: "email_log \<Rightarrow> 'a"
    using that by (auto simp: upd)
  have rows: "set (w_logs ?w) = insert ?l2 {l' \<in> set (w_logs w). el_key l' \<noteq> (cid, dt)}"
  proof -
    have "r = l \<longleftrightarrow> el_key r = (cid, dt)" if "r \<in> set (w_logs w)" for r
      using distinct_keys_eq [OF ids'(2) that l(1)] l(2) by auto
    then show ?thesis using l(1) by (auto simp: upd)
  qed
  have "ids_ok ?w"
    using ids l same maps [of el_key] maps [of el_id] rows by (auto simp: ids_ok_def)
  then show thesis using that [OF w] same l rows by simp
qed

text \<open>The launch and the finish of a delivery without interference.\<close>

lemma sent_logged:
  assumes ids: "ids_ok w" and agree: "log_agrees w" and ex: "get_for_date (c_id c) dt (w_logs w) = existing"
    and unsettled: "\<not> settled now existing" and client: "c_id c \<in> c_id ` set (d_clients (w_db w))"
    and d: "delivery now c dt d new (Inr f)" and len: "len_ok 120 (lf_message_id f)"
    and calls: "w1 = w\<lparr>w_calls := w_calls w @ new\<rparr>" and res: "write_log now' existing (c_id c) dt f w1 = (r, w2)"
  shows "ids_ok w2 \<and> log_agrees w2 \<and> d_clients (w_db w2) = d_clients (w_db w)"
proof -
  let ?k = "(c_id c, dt)"
  have keys: "mc_key x = ?k" if "x \<in> set new" for x using d that by (auto simp: delivery_def call_of_def)
  have ids1: "ids_ok w1" using ids keys client calls by (auto simp: ids_ok_def)
  have ex1: "get_for_date (c_id c) dt (w_logs w1) = existing" "c_id c \<in> c_id ` set (d_clients (w_db w1))"
    using ex client calls by simp_all
  obtain l where
    l: "el_key l = ?k" "el_status l = lf_status f" "w_calls w2 = w_calls w1" "d_clients (w_db w2) = d_clients (w_db w1)"
      "set (w_logs w2) = insert l {l' \<in> set (w_logs w1). el_key l' \<noteq> ?k}" "ids_ok w2"
    by (rule write_log_exact [OF ids1 ex1 len, of now']) (use res that in auto)
  have calls2: "w_calls w2 = w_calls w @ new" "set (w_logs w2) = insert l {l' \<in> set (w_logs w). el_key l' \<noteq> ?k}"
    using l(3,5) calls by simp_all
  have not_sent: "el_status l' \<noteq> Mail_sent" if "l' \<in> set (w_logs w)" "el_key l' = ?k" for l'
  proof -
    have "get_for_date (c_id c) dt (w_logs w) = Some l'"
      using find_by_unique [of el_key "w_logs w" l'] ids that by (simp add: ids_ok_def get_for_date_def)
    with ex unsettled show ?thesis by (auto simp: settled_def)
  qed
  have before: "accepted ?k (w_calls w) = []"
  proof (rule ccontr)
    assume "accepted ?k (w_calls w) \<noteq> []"
    then obtain x where "x \<in> set (w_calls w)" "mc_key x = ?k" "is_accepted (mc_outcome x)"
      by (auto simp: accepted_empty_iff)
    with agree client not_sent show False by (fastforce simp: log_agrees_def)
  qed
  have now: "accepted k new = (if k = ?k then filter (\<lambda>x. is_accepted (mc_outcome x)) new else [])" for k
    using delivery_accepted [OF d] .
  have f: "if lf_status f = Mail_sent then \<exists>m. filter (\<lambda>x. is_accepted (mc_outcome x)) new = [call_of now c dt d (Accepted m)]
      else filter (\<lambda>x. is_accepted (mc_outcome x)) new = []"
    using d by (auto simp: delivery_def split: if_splits)
  have one: "length (accepted k (w_calls w2)) \<le> 1" for k
  proof (cases "k = ?k")
    case True
    then have "accepted k (w_calls w2) = filter (\<lambda>x. is_accepted (mc_outcome x)) new"
      using before now by (simp add: calls2)
    with f show ?thesis by (cases "lf_status f = Mail_sent") auto
  next
    case False
    then show ?thesis using agree now [of k] by (cases k) (auto simp: calls2 log_agrees_def)
  qed
  have sent: "accepted (el_key l') (w_calls w2) \<noteq> []" if "l' \<in> set (w_logs w2)" "el_status l' = Mail_sent" for l'
  proof (cases "l' = l")
    case True
    with that(2) l(1,2) now [of ?k] f show ?thesis by (auto simp: calls2)
  next
    case False
    with that agree show ?thesis by (auto simp: calls2 log_agrees_def)
  qed
  have logged: "\<exists>l \<in> set (w_logs w2). el_key l = mc_key x \<and> el_status l = Mail_sent"
    if x: "x \<in> set (w_calls w2)" "is_accepted (mc_outcome x)" "fst (mc_key x) \<in> c_id ` set (d_clients (w_db w2))" for x
  proof (cases "x \<in> set new")
    case True
    then have "filter (\<lambda>x. is_accepted (mc_outcome x)) new \<noteq> []" using x(2) by (auto simp: filter_empty_conv)
    then have "lf_status f = Mail_sent" using f by (auto split: if_splits)
    with l(1,2) keys [OF True] show ?thesis by (auto simp: calls2)
  next
    case False
    with x have old: "x \<in> set (w_calls w)" by (simp add: calls2)
    have "mc_key x \<noteq> ?k" using before old x(2) by (auto simp: accepted_empty_iff)
    moreover obtain l' where "l' \<in> set (w_logs w)" "el_key l' = mc_key x" "el_status l' = Mail_sent"
      using agree old x(2,3) l(4) calls by (auto simp: log_agrees_def)
    ultimately show ?thesis by (auto simp: calls2)
  qed
  have "log_agrees w2" using one sent logged unfolding log_agrees_def by blast
  with l(4,6) calls show ?thesis by simp
qed

lemma audit_keeps:
  assumes "ids_ok w" "log_agrees w" "audit_record e mk (w_db w) = Inr (row, d)"
  shows "ids_ok (w\<lparr>w_db := d\<rparr>) \<and> log_agrees (w\<lparr>w_db := d\<rparr>)"
  using assms audit_record_keeps [OF assms(3)] by (auto simp: ids_ok_def log_agrees_def less_Suc_eq)

lemma write_log_clients: "write_log now existing cid dt f w = (r, w') \<Longrightarrow> d_clients (w_db w') = d_clients (w_db w)"
  by (auto simp: write_log_def Let_def split: option.splits if_splits)

lemma send_daily_report_clients: "send_daily_report e m c dt w = (r, w') \<Longrightarrow> d_clients (w_db w') = d_clients (w_db w)"
  by (auto simp: send_daily_report_def launch_def finish_def Let_def dest!: write_log_clients audit_record_keeps
      split: if_splits prod.splits sum.splits)

lemma write_log_calls: "write_log now existing cid dt f w = (r, w') \<Longrightarrow> w_calls w' = w_calls w \<and> d_users (w_db w') = d_users (w_db w)"
  by (auto simp: write_log_def Let_def split: option.splits if_splits)

lemma send_daily_report_users: "send_daily_report e m c dt w = (r, w') \<Longrightarrow> d_users (w_db w') = d_users (w_db w)"
  by (auto simp: send_daily_report_def launch_def finish_def Let_def dest!: write_log_calls audit_record_keeps
      split: if_splits prod.splits sum.splits)

lemma send_daily_report_keeps:
  assumes "ids_ok w" "log_agrees w" "mailer_ok m" and client: "c_id c \<in> c_id ` set (d_clients (w_db w))"
    and res: "send_daily_report e m c dt w = (r, w')"
  shows "ids_ok w' \<and> log_agrees w'"
proof -
  let ?existing = "get_for_date (c_id c) dt (w_logs w)"
  obtain r0 calls where del: "deliver (e_now e) m c dt (w_db w) (w_calls w) = (r0, calls)"
    by (cases "deliver (e_now e) m c dt (w_db w) (w_calls w)")
  obtain new where new: "calls = w_calls w @ new" "delivery (e_now e) c dt (w_db w) new r0"
    using deliver_delivery [OF del] by auto
  show ?thesis
  proof (cases "settled (e_now e) ?existing")
    case True
    with res assms(1,2) show ?thesis by (auto simp: send_daily_report_def launch_def Let_def)
  next
    case unsettled: False
    show ?thesis
    proof (cases r0)
      case (Inl ex)
      have "c_id c < d_next_id (w_db w)" using assms(1) client by (auto simp: ids_ok_def)
      with quiet_calls [OF assms(1,2) new(2)] new Inl
      have "ids_ok (w\<lparr>w_calls := calls\<rparr>) \<and> log_agrees (w\<lparr>w_calls := calls\<rparr>)" by (auto simp: delivery_def)
      with res unsettled del Inl show ?thesis by (auto simp: send_daily_report_def launch_def Let_def)
    next
      case (Inr f)
      have len: "len_ok 120 (lf_message_id f)"
      proof (cases "lf_status f = Mail_sent")
        case True
        then obtain mid where mid: "lf_message_id f = Some mid" using new(2) Inr by (auto simp: delivery_def)
        have "\<exists>h rcp html. ml_send m h rcp html = Accepted mid"
          using deliver_message [OF del [unfolded Inr]] mid by blast
        with assms(3) mid show ?thesis by (auto simp: mailer_ok_def len_ok_def)
      qed (use new(2) Inr in \<open>auto simp: delivery_def len_ok_def\<close>)
      obtain r2 w2 where wl: "write_log (e_now e) ?existing (c_id c) dt f (w\<lparr>w_calls := calls\<rparr>) = (r2, w2)"
        by (cases "write_log (e_now e) ?existing (c_id c) dt f (w\<lparr>w_calls := calls\<rparr>)")
      have kept: "ids_ok w2 \<and> log_agrees w2"
        using sent_logged [OF assms(1,2) refl unsettled client new(2) [unfolded Inr] len _ wl] new(1) by simp
      with res unsettled del Inr wl show ?thesis
        by (auto simp: send_daily_report_def launch_def finish_def Let_def dest: audit_keeps split: sum.splits if_splits prod.splits)
    qed
  qed
qed

lemma others_keep:
  assumes "ids_ok w" "log_agrees w" "others_commit (w_db w) d'"
  shows "ids_ok (cascade d' w) \<and> log_agrees (cascade d' w)"
proof -
  have old: "i \<in> c_id ` set (d_clients (w_db w))" if "i \<in> c_id ` set (d_clients d')" "i < d_next_id (w_db w)" for i
    using assms(3) that by (fastforce simp: others_commit_def)
  have ids: "ids_ok (cascade d' w)"
    using assms(1,3) by (fastforce simp: ids_ok_def cascade_def others_commit_def distinct_map_filter)
  have "\<exists>l \<in> set (w_logs (cascade d' w)). el_key l = mc_key x \<and> el_status l = Mail_sent"
    if "x \<in> set (w_calls w)" "is_accepted (mc_outcome x)" "fst (mc_key x) \<in> c_id ` set (d_clients d')" for x
  proof -
    have "fst (mc_key x) < d_next_id (w_db w)" using assms(1) that(1) by (simp add: ids_ok_def)
    with old that obtain l where "l \<in> set (w_logs w)" "el_key l = mc_key x" "el_status l = Mail_sent"
      using assms(2) unfolding log_agrees_def by blast
    moreover from this(2) have "el_client_id l = fst (mc_key x)" by (auto simp: el_key_def dest: sym)
    ultimately show ?thesis using that(3) by (auto simp: cascade_def)
  qed
  moreover have "w_calls (cascade d' w) = w_calls w" "w_db (cascade d' w) = d'" "set (w_logs (cascade d' w)) \<subseteq> set (w_logs w)"
    by (auto simp: cascade_def)
  ultimately have "log_agrees (cascade d' w)"
    using assms(2) unfolding log_agrees_def by (auto dest: subsetD)
  with ids show ?thesis ..
qed

lemma mail_run_agrees: "mail_run w \<Longrightarrow> ids_ok w \<and> log_agrees w"
proof (induction rule: mail_run.induct)
  case (start w)
  then show ?case by (simp add: ids_ok_def log_agrees_def)
next
  case (send w m c e dt)
  have "c_id c \<in> c_id ` set (d_clients (w_db w))"
    using send.hyps(3) by (auto simp: client_get_def dest: find_by_in_set)
  with send show ?case
    using send_daily_report_keeps [of w m c e dt] by (cases "send_daily_report e m c dt w") auto
next
  case (other w d')
  then show ?case using others_keep by blast
qed

lemma sweep_dates_run:
  assumes "mail_run w" "mailer_ok m" "client_get (c_id c) (w_db w) = Some c"
  shows "mail_run (snd (sweep_dates e m c dts w)) \<and> d_clients (w_db (snd (sweep_dates e m c dts w))) = d_clients (w_db w)"
  using assms
proof (induction dts arbitrary: w)
  case (Cons dt dts)
  obtain r w1 where s: "send_daily_report e m c dt w = (r, w1)" by (cases "send_daily_report e m c dt w")
  have run: "mail_run w1" using mail_run.send [OF Cons.prems, of e dt] s by simp
  have same: "d_clients (w_db w1) = d_clients (w_db w)" using send_daily_report_clients [OF s] .
  with Cons.prems have "client_get (c_id c) (w_db w1) = Some c" by (simp add: client_get_def)
  from Cons.IH [OF run Cons.prems(2) this] s same show ?case by (auto simp: Let_def split: prod.split)
qed simp

lemma client_get_id: "client_get i d = Some c \<Longrightarrow> c_id c = i"
  by (auto simp: client_get_def dest: find_by_key)

lemma sweep_clients_run:
  assumes "mail_run w" "mailer_ok m"
  shows "mail_run (snd (sweep_clients offset e m cs w)) \<and>
    d_clients (w_db (snd (sweep_clients offset e m cs w))) = d_clients (w_db w)"
  using assms
proof (induction cs arbitrary: w)
  case (Cons c cs)
  show ?case
  proof (cases "client_get (c_id c) (w_db w)")
    case None
    with Cons show ?thesis by (auto simp: Let_def split: prod.split)
  next
    case (Some fresh)
    obtain rows w1 where s: "sweep_dates e m fresh (due_report_dates offset (c_timezone c) (e_now e)) w = (rows, w1)"
      by (cases "sweep_dates e m fresh (due_report_dates offset (c_timezone c) (e_now e)) w")
    have "mail_run w1 \<and> d_clients (w_db w1) = d_clients (w_db w)"
      using sweep_dates_run [OF Cons.prems(1,2), of fresh e "due_report_dates offset (c_timezone c) (e_now e)"]
        Some client_get_id [OF Some] s by simp
    with Cons.IH [of w1] Cons.prems(2) Some s show ?thesis by (auto simp: Let_def split: prod.split)
  qed
qed simp

lemma sweep_dates_clients: "d_clients (w_db (snd (sweep_dates e m c dts w))) = d_clients (w_db w)"
  by (induction dts arbitrary: w) (auto simp: Let_def split: prod.split, metis send_daily_report_clients snd_conv)

lemma sweep_clients_clients: "d_clients (w_db (snd (sweep_clients offset e m cs w))) = d_clients (w_db w)"
proof (induction cs arbitrary: w)
  case (Cons c cs)
  show ?case
  proof (cases "client_get (c_id c) (w_db w)")
    case None
    with Cons [of w] show ?thesis by (auto simp: Let_def split: prod.split)
  next
    case (Some fresh)
    obtain rows w1 where s: "sweep_dates e m fresh (due_report_dates offset (c_timezone c) (e_now e)) w = (rows, w1)"
      by (cases "sweep_dates e m fresh (due_report_dates offset (c_timezone c) (e_now e)) w")
    with sweep_dates_clients [of e m fresh "due_report_dates offset (c_timezone c) (e_now e)" w] Cons [of w1] Some
    show ?thesis by (auto simp: Let_def split: prod.split)
  qed
qed simp

text \<open>Which reports a sweep handles.\<close>

definition due_window :: "int \<Rightarrow> date \<Rightarrow> bool" where
  "due_window wall dt \<longleftrightarrow> dt * DAY + REPORT_TIME \<le> wall \<and> wall < (dt + 2) * DAY"

lemma due_report_dates_window: "set (due_report_dates offset tz now) = {dt. due_window (local_now offset tz now) dt}"
proof -
  let ?w = "local_now offset tz now"
  have "dt * DAY + REPORT_TIME \<le> ?w \<and> (dt = ?w div DAY - 1 \<or> dt = ?w div DAY) \<longleftrightarrow> due_window ?w dt" for dt
  proof -
    have "?w div DAY * DAY \<le> ?w" "?w < (?w div DAY + 1) * DAY"
      by (simp_all add: DAY_def)
    then show ?thesis unfolding due_window_def by (auto simp: DAY_def REPORT_TIME_def)
  qed
  moreover have "set (due_report_dates offset tz now) = {dt. dt * DAY + REPORT_TIME \<le> ?w \<and> (dt = ?w div DAY - 1 \<or> dt = ?w div DAY)}"
    unfolding due_report_dates_def Let_def CATCH_UP_DAYS_def set_filter by (simp only: list.set) blast
  ultimately show ?thesis by simp
qed

section \<open>The properties\<close>

definition sample_world :: world where
  "sample_world = \<lparr>w_db = empty_db\<lparr>d_users := [sample_user 1 Role_admin, sample_user 2 Role_user, sample_user 3 Role_user],
     d_clients := [sample_client 7],
     d_assignments := [\<lparr>a_id = 8, a_client_id = 7, a_user_id = 2, a_assigned_by = None, a_capabilities = None, a_created_at = 0\<rparr>]\<rparr>,
     w_logs = [], w_calls = []\<rparr>"

definition sample_mailer :: "send_outcome \<Rightarrow> mailer" where
  "sample_mailer o' = \<lparr>ml_configured = True, ml_build = (\<lambda>d c dt. Inr ''<p>''), ml_send = (\<lambda>h rcp html. o')\<rparr>"

lemma sample_run: "mail_run sample_world"
  by (rule mail_run.start) (simp_all add: sample_world_def empty_db_def sample_client_def)

lemma sample_mailer_ok: "mailer_ok (sample_mailer (Accepted ''m1''))"
  by (simp add: mailer_ok_def sample_mailer_def)



text \<open>
  A report goes to the team only: sending one calls the provider at most three times, and every call
  addresses exactly the active users who are assigned to the client or are administrators, each once; the
  client's own contacts are never read, and nothing else of the world but the log and the audit trail moves.
\<close>

theorem report_goes_to_team_only:
  assumes "distinct (map u_email (d_users (w_db w)))" "distinct (map u_id (d_users (w_db w)))"
    and "send_daily_report e m c dt w = (r, w')"
  shows "\<exists>new. w_calls w' = w_calls w @ new \<and> length new \<le> 3 \<and> (\<forall>x \<in> set new. mc_key x = (c_id c, dt) \<and>
      distinct (map snd (mc_to x)) \<and> mc_to x \<noteq> [] \<and>
      set (mc_to x) = {(u_name u, u_email u) |u. u \<in> set (d_users (w_db w)) \<and> u_is_active u \<and>
        (u_role u = Role_admin \<or> (\<exists>a \<in> set (d_assignments (w_db w)). a_client_id a = c_id c \<and> a_user_id a = u_id u))}) \<and>
    d_users (w_db w') = d_users (w_db w) \<and> d_clients (w_db w') = d_clients (w_db w)"
proof -
  let ?d = "w_db w"
  let ?team = "filter (\<lambda>u. u_id u \<in> a_user_id ` set (list_for_client_rows (c_id c) ?d) \<and> u_is_active u) (d_users ?d)"
  let ?rest = "filter (\<lambda>u. u_id u \<notin> u_id ` set ?team) (filter (\<lambda>u. u_role u = Role_admin \<and> u_is_active u) (d_users ?d))"
  have rcp: "resolve_recipients (c_id c) ?d = map (\<lambda>u. (u_name u, u_email u)) (?team @ ?rest)"
    by (simp add: resolve_recipients_def Let_def)
  have same: "u \<in> set ?team \<longleftrightarrow> u_id u \<in> u_id ` set ?team" if "u \<in> set (d_users ?d)" for u
    using distinct_keys_eq [OF assms(2) that] by auto
  have rows: "a \<in> set (list_for_client_rows (c_id c) ?d) \<longleftrightarrow> a \<in> set (d_assignments ?d) \<and> a_client_id a = c_id c" for a
    by (auto simp: list_for_client_rows_def)
  have "set ?team \<inter> set ?rest = {}" by auto
  then have "distinct (map u_email (?team @ ?rest))"
    using assms(1) distinct_keys_eq [OF assms(1)] by (auto simp: distinct_map_filter)
  then have dist: "distinct (map snd (resolve_recipients (c_id c) ?d))" by (simp add: rcp o_def)
  have set: "set (resolve_recipients (c_id c) ?d) = {(u_name u, u_email u) |u. u \<in> set (d_users ?d) \<and> u_is_active u \<and>
        (u_role u = Role_admin \<or> (\<exists>a \<in> set (d_assignments ?d). a_client_id a = c_id c \<and> a_user_id a = u_id u))}"
  proof -
    have "set (?team @ ?rest) = {u \<in> set (d_users ?d). u_is_active u \<and>
        (u_role u = Role_admin \<or> (\<exists>a \<in> set (d_assignments ?d). a_client_id a = c_id c \<and> a_user_id a = u_id u))}"
    proof (rule set_eqI)
      fix u
      have "u \<in> set (?team @ ?rest) \<longleftrightarrow> u \<in> set ?team \<or> (u \<in> set (d_users ?d) \<and> u_role u = Role_admin \<and> u_is_active u \<and> u_id u \<notin> u_id ` set ?team)"
        by (simp only: set_append Un_iff set_filter mem_Collect_eq) blast
      also have "\<dots> \<longleftrightarrow> u \<in> set ?team \<or> (u \<in> set (d_users ?d) \<and> u_role u = Role_admin \<and> u_is_active u)"
        using same by blast
      also have "u \<in> set ?team \<longleftrightarrow> u \<in> set (d_users ?d) \<and> u_is_active u \<and> (\<exists>a \<in> set (d_assignments ?d). a_client_id a = c_id c \<and> a_user_id a = u_id u)"
        using rows by (simp only: set_filter mem_Collect_eq image_iff) metis
      finally show "u \<in> set (?team @ ?rest) \<longleftrightarrow> u \<in> {u \<in> set (d_users ?d). u_is_active u \<and>
          (u_role u = Role_admin \<or> (\<exists>a \<in> set (d_assignments ?d). a_client_id a = c_id c \<and> a_user_id a = u_id u))}"
        by auto
    qed
    moreover have "set (resolve_recipients (c_id c) ?d) = (\<lambda>u. (u_name u, u_email u)) ` set (?team @ ?rest)"
      by (simp only: rcp set_map)
    ultimately have "set (resolve_recipients (c_id c) ?d) = (\<lambda>u. (u_name u, u_email u)) ` {u \<in> set (d_users ?d). u_is_active u \<and>
        (u_role u = Role_admin \<or> (\<exists>a \<in> set (d_assignments ?d). a_client_id a = c_id c \<and> a_user_id a = u_id u))}"
      by (simp only:)
    then show ?thesis by (simp only:) blast
  qed
  obtain r0 calls where del: "deliver (e_now e) m c dt ?d (w_calls w) = (r0, calls)"
    by (cases "deliver (e_now e) m c dt ?d (w_calls w)")
  obtain new where new: "calls = w_calls w @ new" "delivery (e_now e) c dt ?d new r0"
    using deliver_delivery [OF del] by auto
  have calls: "w_calls w' = w_calls w \<or> w_calls w' = w_calls w @ new"
    using assms(3) del new(1)
    by (auto simp: send_daily_report_def launch_def finish_def Let_def dest!: write_log_calls split: if_splits sum.splits prod.splits)
  have users: "d_users (w_db w') = d_users ?d" using send_daily_report_users [OF assms(3)] .
  have clients: "d_clients (w_db w') = d_clients ?d" using send_daily_report_clients [OF assms(3)] .
  have each: "mc_key x = (c_id c, dt) \<and> mc_to x = resolve_recipients (c_id c) ?d \<and> mc_to x \<noteq> []" if "x \<in> set new" for x
    using new(2) that by (auto simp: delivery_def call_of_def)
  from calls each new(2) dist set users clients show ?thesis
    by (elim disjE; intro exI [of _ "[]"] exI [of _ new])
       (auto simp: delivery_def MAX_ATTEMPTS_def)
qed

theorem report_goes_to_team_only_witness:
  "(case send_daily_report sample_env (sample_mailer (Refused ''down'' True)) (sample_client 7) 0 sample_world of
      (r, w') \<Rightarrow> d_users (w_db w') = d_users (w_db sample_world) \<and> length (w_calls w') = 3 \<and>
        list_all (\<lambda>x. map fst (mc_to x) = [''A'', ''A''] \<and> set (map snd (mc_to x)) = {u_email (sample_user 1 Role_admin), u_email (sample_user 2 Role_user)})
          (w_calls w'))"
proof -
  obtain r w' where s: "send_daily_report sample_env (sample_mailer (Refused ''down'' True)) (sample_client 7) 0 sample_world = (r, w')"
    by (cases "send_daily_report sample_env (sample_mailer (Refused ''down'' True)) (sample_client 7) 0 sample_world")
  have "distinct (map u_email (d_users (w_db sample_world)))" "distinct (map u_id (d_users (w_db sample_world)))"
    by code_simp+
  from report_goes_to_team_only [OF this s] have "d_users (w_db w') = d_users (w_db sample_world)" by blast
  moreover have "case send_daily_report sample_env (sample_mailer (Refused ''down'' True)) (sample_client 7) 0 sample_world of
      (r, w') \<Rightarrow> length (w_calls w') = 3 \<and>
        list_all (\<lambda>x. map fst (mc_to x) = [''A'', ''A''] \<and> set (map snd (mc_to x)) = {u_email (sample_user 1 Role_admin), u_email (sample_user 2 Role_user)})
          (w_calls w')"
    by code_simp
  ultimately show ?thesis by (simp add: s)
qed

text \<open>The keys a sweep reports on, in its order.\<close>

lemma sweep_dates_keys: "map (\<lambda>r. (sw_client_id r, sw_report_date r)) (fst (sweep_dates e m c dts w)) = map (Pair (c_id c)) dts"
  by (induction dts arbitrary: w) (auto simp: Let_def split: prod.split, metis fst_conv)

lemma sweep_clients_keys:
  assumes "\<forall>c \<in> set cs. c_id c \<in> c_id ` set (d_clients (w_db w))"
  shows "set (map (\<lambda>r. (sw_client_id r, sw_report_date r)) (fst (sweep_clients offset e m cs w))) =
    {(c_id c, dt) |c dt. c \<in> set cs \<and> due_window (local_now offset (c_timezone c) (e_now e)) dt}"
  using assms
proof (induction cs arbitrary: w)
  case (Cons c cs)
  let ?key = "\<lambda>r. (sw_client_id r, sw_report_date r)" and ?due = "due_report_dates offset (c_timezone c) (e_now e)"
  obtain fresh where fresh: "client_get (c_id c) (w_db w) = Some fresh" "c_id fresh = c_id c"
    using Cons.prems client_get_id by (cases "client_get (c_id c) (w_db w)") (auto simp: client_get_def find_by_None_iff)
  obtain rows w1 where s: "sweep_dates e m fresh ?due w = (rows, w1)" by (cases "sweep_dates e m fresh ?due w")
  obtain rows' w2 where s': "sweep_clients offset e m cs w1 = (rows', w2)" by (cases "sweep_clients offset e m cs w1")
  have "set (map ?key rows) = {(c_id c, dt) |dt. due_window (local_now offset (c_timezone c) (e_now e)) dt}"
    using sweep_dates_keys [of e m fresh ?due w] s fresh(2) due_report_dates_window [of offset "c_timezone c" "e_now e"] by auto
  moreover have "d_clients (w_db w1) = d_clients (w_db w)" using sweep_dates_clients [of e m fresh ?due w] s by simp
  with Cons.IH [of w1] Cons.prems s' have "set (map ?key rows') =
      {(c_id c, dt) |c dt. c \<in> set cs \<and> due_window (local_now offset (c_timezone c) (e_now e)) dt}" by simp
  moreover have "fst (sweep_clients offset e m (c # cs) w) = rows @ rows'"
    using fresh(1) s s' by (simp add: Let_def)
  ultimately show ?case by (simp only: map_append set_append) auto
qed simp

text \<open>
  A sweep reports on exactly the due reports of the active clients: a date is due from 23:30 of its
  own day until the end of the next day on the wall clock of the client's zone, so a sweep at least every
  24 hours and a half misses none; and every due report is counted as sent, skipped or failed.
\<close>

theorem sweep_covers_due_reports:
  "case send_daily_reports_sweep offset e m w of (res, w') \<Rightarrow>
     set (map (\<lambda>r. (sw_client_id r, sw_report_date r)) (sr_details res)) =
       {(c_id c, dt) |c dt. c \<in> set (d_clients (w_db w)) \<and> c_status c = Some Client_active \<and>
          due_window (local_now offset (c_timezone c) (e_now e)) dt} \<and>
     sr_sent res + sr_skipped res + sr_failed res = length (sr_details res) \<and>
     d_clients (w_db w') = d_clients (w_db w)"
proof -
  obtain rows w' where s: "sweep_clients offset e m (active_clients (w_db w)) w = (rows, w')"
    by (cases "sweep_clients offset e m (active_clients (w_db w)) w")
  have active: "c \<in> set (active_clients (w_db w)) \<longleftrightarrow> c \<in> set (d_clients (w_db w)) \<and> c_status c = Some Client_active" for c
    by (auto simp: active_clients_def)
  have "length (filter (\<lambda>r. sw_status r = Row_status Mail_sent) rows) + length (filter (\<lambda>r. sweep_failed (sw_status r)) rows) \<le> length rows"
    by (induction rows) (auto simp: sweep_failed_def)
  moreover have "set (map (\<lambda>r. (sw_client_id r, sw_report_date r)) rows) = {(c_id c, dt) |c dt. c \<in> set (d_clients (w_db w)) \<and>
      c_status c = Some Client_active \<and> due_window (local_now offset (c_timezone c) (e_now e)) dt}"
    using sweep_clients_keys [of "active_clients (w_db w)" w offset e m] s by (auto simp: active)
  moreover have "d_clients (w_db w') = d_clients (w_db w)"
    using sweep_clients_clients [of offset e m "active_clients (w_db w)" w] s by simp
  ultimately show ?thesis using s by (simp add: send_daily_reports_sweep_def Let_def)
qed

text \<open>
  Two overlapping deliveries both mail: when two sweeps have launched the same report before either has
  written the log, the provider accepts it twice, and the unique key only keeps the second log row out.
\<close>

theorem overlapping_sends_deliver_twice:
  assumes "get_for_date (c_id c) dt (w_logs w) = None" "resolve_recipients (c_id c) (w_db w) \<noteq> []"
    and "client_get (c_id c) (w_db w) = Some c'" "ml_configured m" "ml_build m (w_db w) c dt = Inr html"
    and "\<forall>h. ml_send m h (resolve_recipients (c_id c) (w_db w)) html = Accepted mid" "length mid \<le> 120"
    and "launch now m c dt w = (In_flight fl1, w1)" "launch now m c dt w1 = (In_flight fl2, w2)"
    and "finish e1 c dt fl1 w2 = (r1, w3)" "finish e2 c dt fl2 w3 = (r2, w4)"
  shows "length (accepted (c_id c, dt) (w_calls w4)) = length (accepted (c_id c, dt) (w_calls w)) + 2 \<and>
    length (w_logs w4) = length (w_logs w) + 1 \<and>
    (case get_for_date (c_id c) dt (w_logs w4) of Some l \<Rightarrow> el_status l = Mail_sent \<and> (r2 = Inr l \<or> isl r2) | None \<Rightarrow> False)"
proof -
  let ?rcp = "resolve_recipients (c_id c) (w_db w)" and ?k = "(c_id c, dt)"
  let ?call = "\<lparr>mc_key = ?k, mc_at = now, mc_to = ?rcp, mc_outcome = Accepted mid\<rparr>"
  let ?f = "\<lparr>lf_status = Mail_sent, lf_recipients = ?rcp, lf_error = None, lf_attempts = 1, lf_message_id = Some mid\<rparr>"
  have "[1..<MAX_ATTEMPTS + 1] = [1, 2, 3]" by (simp add: MAX_ATTEMPTS_def upt_rec numeral_eq_Suc)
  then have del: "deliver now m c dt (w_db w) calls = (Inr ?f, calls @ [?call])" for calls
    using assms(2,4-6) by (simp add: deliver_def Let_def)
  have fl1: "fl1 = \<lparr>fl_existing = None, fl_fields = ?f\<rparr>" "w1 = w\<lparr>w_calls := w_calls w @ [?call]\<rparr>"
    using assms(1,8) del by (auto simp: launch_def settled_def)
  have fl2: "fl2 = \<lparr>fl_existing = None, fl_fields = ?f\<rparr>" "w2 = w\<lparr>w_calls := w_calls w @ [?call, ?call]\<rparr>"
    using assms(1,9) del fl1(2) by (auto simp: launch_def settled_def)
  let ?row = "assign_log (e_now e1) ?f (new_log (d_next_id (w_db w)) (c_id c) dt (e_now e1))"
  have absent: "find_by el_key ?k (w_logs w) = None" using assms(1) by (simp add: get_for_date_def)
  have ok: "log_row_ok (assign_log t ?f l)" for t l using assms(7) by (simp add: log_row_ok_def len_ok_def)
  obtain w2' where wl1: "write_log (e_now e1) None (c_id c) dt ?f w2 = (Inr ?row, w2')"
    and w2': "w_logs w2' = w_logs w @ [?row]" "w_calls w2' = w_calls w2" "d_clients (w_db w2') = d_clients (w_db w)"
    using absent assms(3) ok fl2(2) by (simp add: write_log_def Let_def client_get_def)
  have w3: "w_logs w3 = w_logs w @ [?row]" "w_calls w3 = w_calls w2"
    using assms(10) fl1 wl1 w2' by (auto simp: finish_def split: sum.splits)
  have found: "get_for_date (c_id c) dt (w_logs w3) = Some ?row"
    using absent by (simp add: w3 get_for_date_def find_by_append)
  have wl2: "write_log (e_now e2) None (c_id c) dt ?f w3 = (Inr ?row, w3)"
    using ok found by (simp add: write_log_def Let_def get_for_date_def)
  have w4: "w_logs w4 = w_logs w3" "w_calls w4 = w_calls w3" "r2 = Inr ?row \<or> isl r2"
    using assms(11) fl2 wl2 by (auto simp: finish_def split: sum.splits)
  have "accepted ?k [?call, ?call] = [?call, ?call]" by (simp add: accepted_def)
  with found w4 w3 fl2(2) show ?thesis by simp
qed

theorem overlapping_sends_deliver_twice_witness:
  "(case launch 1000 (sample_mailer (Accepted ''m1'')) (sample_client 7) 0 sample_world of
     (In_flight fl1, w1) \<Rightarrow> (case launch 1000 (sample_mailer (Accepted ''m1'')) (sample_client 7) 0 w1 of
       (In_flight fl2, w2) \<Rightarrow> (case finish sample_env (sample_client 7) 0 fl1 w2 of
         (r1, w3) \<Rightarrow> (case finish sample_env (sample_client 7) 0 fl2 w3 of
           (r2, w4) \<Rightarrow> length (accepted (7, 0) (w_calls w4)) = 2 \<and> length (w_logs w4) = 1))
     | _ \<Rightarrow> False) | _ \<Rightarrow> False)"
proof -
  let ?m = "sample_mailer (Accepted ''m1'')" and ?c = "sample_client 7"
  have "case launch 1000 ?m ?c 0 sample_world of (In_flight fl1, w1) \<Rightarrow>
      (case launch 1000 ?m ?c 0 w1 of (In_flight fl2, w2) \<Rightarrow> True | _ \<Rightarrow> False) | _ \<Rightarrow> False"
    by code_simp
  then obtain fl1 w1 fl2 w2 where l: "launch 1000 ?m ?c 0 sample_world = (In_flight fl1, w1)" "launch 1000 ?m ?c 0 w1 = (In_flight fl2, w2)"
    by (auto split: prod.splits launched.splits)
  obtain r1 w3 where f1: "finish sample_env ?c 0 fl1 w2 = (r1, w3)" by (cases "finish sample_env ?c 0 fl1 w2")
  obtain r2 w4 where f2: "finish sample_env ?c 0 fl2 w3 = (r2, w4)" by (cases "finish sample_env ?c 0 fl2 w3")
  have id: "c_id ?c = 7" by (simp add: sample_client_def)
  have pre: "get_for_date (c_id ?c) 0 (w_logs sample_world) = None" "resolve_recipients (c_id ?c) (w_db sample_world) \<noteq> []"
      "client_get (c_id ?c) (w_db sample_world) = Some ?c" "length ''m1'' \<le> 120"
    by code_simp+
  have m: "ml_configured ?m" "ml_build ?m (w_db sample_world) ?c 0 = Inr ''<p>''"
      "\<forall>h. ml_send ?m h (resolve_recipients (c_id ?c) (w_db sample_world)) ''<p>'' = Accepted ''m1''"
    by (simp_all add: sample_mailer_def)
  from overlapping_sends_deliver_twice [OF pre(1-3) m pre(4) l f1 f2] l f1 f2 show ?thesis
    by (simp add: id) (simp add: sample_world_def)
qed

text \<open>
  The cooldown after a failure counts from \<^verbatim>\<open>updated_at\<close>, which moves only when a column does: a
  failure that repeats itself writes nothing.
\<close>

definition same_failure :: "mailer \<Rightarrow> client \<Rightarrow> date \<Rightarrow> string \<Rightarrow> world \<Rightarrow> email_log \<Rightarrow> bool" where
  "same_failure m c dt msg w l \<longleftrightarrow> get_for_date (c_id c) dt (w_logs w) = Some l \<and> find_by el_id (el_id l) (w_logs w) = Some l \<and>
     el_status l = Mail_failed \<and> el_error l = Some (take 500 msg) \<and> el_attempt_count l = 1 \<and> el_message_id l = None \<and>
     el_sent_at l = None \<and> resolve_recipients (c_id c) (w_db w) \<noteq> [] \<and>
     el_recipient_count l = length (resolve_recipients (c_id c) (w_db w)) \<and>
     el_recipient_emails l = Some (map snd (resolve_recipients (c_id c) (w_db w))) \<and> ml_configured m \<and>
     (\<exists>html. ml_build m (w_db w) c dt = Inr html \<and>
        (\<forall>h. ml_send m h (resolve_recipients (c_id c) (w_db w)) html = Refused msg False))"

lemma same_failure_again:
  assumes "same_failure m c dt msg w l" "\<not> e_now e - el_updated_at l < FAILED_RETRY_COOLDOWN"
  shows "\<exists>x. send_daily_report e m c dt w = (Inr l, w\<lparr>w_calls := w_calls w @ [x]\<rparr>) \<and> mc_key x = (c_id c, dt) \<and>
    mc_outcome x = Refused msg False \<and> same_failure m c dt msg (w\<lparr>w_calls := w_calls w @ [x]\<rparr>) l"
proof -
  let ?rcp = "resolve_recipients (c_id c) (w_db w)"
  let ?x = "\<lparr>mc_key = (c_id c, dt), mc_at = e_now e, mc_to = ?rcp, mc_outcome = Refused msg False\<rparr>"
  let ?f = "\<lparr>lf_status = Mail_failed, lf_recipients = ?rcp, lf_error = Some (take 500 msg), lf_attempts = 1, lf_message_id = None\<rparr>"
  have upto: "[1..<MAX_ATTEMPTS + 1] = [1, 2, 3]" by (simp add: MAX_ATTEMPTS_def upt_rec numeral_eq_Suc)
  obtain html where html: "ml_build m (w_db w) c dt = Inr html" "\<forall>h. ml_send m h ?rcp html = Refused msg False"
    using assms(1) by (auto simp: same_failure_def)
  then have del: "deliver (e_now e) m c dt (w_db w) (w_calls w) = (Inr ?f, w_calls w @ [?x])"
    using assms(1) upto by (simp add: deliver_def Let_def same_failure_def)
  have same: "assign_log (e_now e) ?f l = l"
    using assms(1) by (cases l) (simp add: assign_log_def same_failure_def)
  have ok: "log_row_ok l" using assms(1) by (simp add: log_row_ok_def len_ok_def same_failure_def)
  have upd: "update_moved t l l = (\<lambda>cur. cur)" for t by (rule ext) (simp add: update_moved_def)
  have keep: "w\<lparr>w_calls := x, w_logs := w_logs w\<rparr> = w\<lparr>w_calls := x\<rparr>" for x
    by (cases w) simp
  have "update_by el_id (el_id l) (\<lambda>cur. cur) rows = rows" for rows :: "email_log list" by (simp add: update_by_def)
  then have "send_daily_report e m c dt w = (Inr l, w\<lparr>w_calls := w_calls w @ [?x]\<rparr>)"
    using assms del same ok upd keep
    by (simp add: send_daily_report_def launch_def finish_def write_log_def settled_def same_failure_def Let_def)
  moreover have "same_failure m c dt msg (w\<lparr>w_calls := w_calls w @ [?x]\<rparr>) l" using assms(1) by (simp add: same_failure_def)
  ultimately show ?thesis by auto
qed

text \<open>One send per tick.\<close>

definition ticks :: "env list \<Rightarrow> mailer \<Rightarrow> client \<Rightarrow> date \<Rightarrow> world \<Rightarrow> world" where
  "ticks es m c dt w = foldl (\<lambda>w e. snd (send_daily_report e m c dt w)) w es"

text \<open>
  The cooldown does not outlast a failure that repeats itself: once an hour has passed since the first
  failure, every tick calls the provider again, however soon after the last one, because the log row, and
  with it the instant the cooldown counts from, no longer moves.
\<close>

theorem repeated_failure_disarms_cooldown:
  assumes "same_failure m c dt msg w l" "\<forall>e \<in> set es. el_updated_at l + FAILED_RETRY_COOLDOWN \<le> e_now e"
  shows "length (w_calls (ticks es m c dt w)) = length (w_calls w) + length es \<and> w_logs (ticks es m c dt w) = w_logs w"
  using assms
proof (induction es arbitrary: w)
  case (Cons e es)
  have "\<not> e_now e - el_updated_at l < FAILED_RETRY_COOLDOWN" using Cons.prems(2) by auto
  from same_failure_again [OF Cons.prems(1) this] obtain x where
    x: "send_daily_report e m c dt w = (Inr l, w\<lparr>w_calls := w_calls w @ [x]\<rparr>)" "same_failure m c dt msg (w\<lparr>w_calls := w_calls w @ [x]\<rparr>) l"
    by blast
  from Cons.IH [OF x(2)] Cons.prems(2) show ?case by (simp add: ticks_def x(1))
qed (simp add: ticks_def)

theorem repeated_failure_disarms_cooldown_witness:
  "(let m = sample_mailer (Refused ''Brevo returned 401'' False); c = sample_client 7;
        w1 = snd (send_daily_report sample_env m c 0 sample_world);
        late = (\<lambda>k. sample_env\<lparr>e_now := 1000 + FAILED_RETRY_COOLDOWN + k\<rparr>) in
      length (w_calls w1) = 1 \<and> length (w_calls (ticks [late 0, late 1, late 2] m c 0 w1)) = 4 \<and>
      w_logs (ticks [late 0, late 1, late 2] m c 0 w1) = w_logs w1)"
proof -
  let ?m = "sample_mailer (Refused ''Brevo returned 401'' False)" and ?c = "sample_client 7"
  let ?w1 = "snd (send_daily_report sample_env ?m ?c 0 sample_world)"
  let ?late = "\<lambda>k. sample_env\<lparr>e_now := 1000 + FAILED_RETRY_COOLDOWN + k\<rparr>"
  let ?l = "\<lparr>el_id = 100, el_client_id = 7, el_report_date = 0, el_status = Mail_failed, el_recipient_count = 2,
     el_recipient_emails = Some [''aa@x.io'', ''a@x.io''], el_message_id = None, el_error = Some ''Brevo returned 401'', el_attempt_count = 1,
     el_sent_at = None, el_created_at = 1000, el_updated_at = 1000\<rparr>"
  have start: "get_for_date (c_id ?c) 0 (w_logs ?w1) = Some ?l" "find_by el_id (el_id ?l) (w_logs ?w1) = Some ?l"
    "map snd (resolve_recipients (c_id ?c) (w_db ?w1)) = [''aa@x.io'', ''a@x.io'']" "length (w_calls ?w1) = 1"
    "take 500 ''Brevo returned 401'' = ''Brevo returned 401''"
    by code_simp+
  have len: "length (resolve_recipients (c_id ?c) (w_db ?w1)) = 2" using start(3) by (metis length_map list.size(3,4) One_nat_def Suc_1 add.commute plus_1_eq_Suc)
  have "same_failure ?m ?c 0 ''Brevo returned 401'' ?w1 ?l"
    using start len unfolding same_failure_def by (auto simp: sample_mailer_def)
  moreover have "\<forall>e \<in> set [?late 0, ?late 1, ?late 2]. el_updated_at ?l + FAILED_RETRY_COOLDOWN \<le> e_now e" by simp
  ultimately have "length (w_calls (ticks [?late 0, ?late 1, ?late 2] ?m ?c 0 ?w1)) = length (w_calls ?w1) + length [?late 0, ?late 1, ?late 2] \<and>
      w_logs (ticks [?late 0, ?late 1, ?late 2] ?m ?c 0 ?w1) = w_logs ?w1"
    by (rule repeated_failure_disarms_cooldown)
  with start(4) show ?thesis by (simp add: Let_def)
qed

text \<open>An exception of the provider call other than its own leaves no trace in the log, so the next tick sends again.\<close>

lemma escape_leaves_no_log:
  assumes "launch now m c dt w = (Escaped ex, w1)"
  shows "send_daily_report (e\<lparr>e_now := now\<rparr>) m c dt w = (Inl ex, w1) \<and> w_logs w1 = w_logs w"
  using assms by (auto simp: send_daily_report_def launch_def Let_def split: prod.splits sum.splits if_splits)

end
