(* ===== verification/OAuth_State.thy ===== *)
theory OAuth_State
  imports Audit_Trail
begin

text \<open>
  The signed state of an authorization flow (\<^verbatim>\<open>services/integration_service.py\<close>:
  \<^verbatim>\<open>_sign_state\<close>, \<^verbatim>\<open>_verify_state\<close> and their agency-wide counterparts), with the
  base64 decoder, the UTF-8 check and the number parser of the standard library it goes through. A text is
  the list of its UTF-8 bytes; the keyed hash is a parameter.
\<close>

section \<open>The providers\<close>

datatype integration_key = Key_ga4 | Key_search_console | Key_google_ads | Key_google_lsa | Key_meta | Key_linkedin | Key_ghl

fun key_value :: "integration_key \<Rightarrow> string" where
  "key_value Key_ga4 = ''ga4''"
| "key_value Key_search_console = ''search_console''"
| "key_value Key_google_ads = ''google_ads''"
| "key_value Key_google_lsa = ''google_lsa''"
| "key_value Key_meta = ''meta''"
| "key_value Key_linkedin = ''linkedin''"
| "key_value Key_ghl = ''ghl''"

definition all_keys :: "integration_key list" where
  "all_keys = [Key_ga4, Key_search_console, Key_google_ads, Key_google_lsa, Key_meta, Key_linkedin, Key_ghl]"

interpretation key_enum: str_enum key_value all_keys
proof
  fix x y :: integration_key
  show "key_value x = key_value y \<Longrightarrow> x = y" by (cases x; cases y) simp_all
  show "x \<in> set all_keys" by (cases x) (simp_all add: all_keys_def)
qed (simp add: all_keys_def)

section \<open>base64\<close>

definition byte :: "char \<Rightarrow> nat" where
  "byte c = of_char c"

text \<open>The URL-safe alphabet, and what the decoder reads: it takes both forms of the last two.\<close>

definition b64_char :: "nat \<Rightarrow> char" where
  "b64_char n = (if n < 26 then char_of (65 + n) else if n < 52 then char_of (97 + (n - 26))
     else if n < 62 then char_of (48 + (n - 52)) else if n = 62 then CHR ''-'' else CHR ''_'')"

definition b64_value :: "char \<Rightarrow> nat option" where
  "b64_value c = (let n = byte c in
     if 65 \<le> n \<and> n \<le> 90 then Some (n - 65) else if 97 \<le> n \<and> n \<le> 122 then Some (n - 97 + 26)
     else if 48 \<le> n \<and> n \<le> 57 then Some (n - 48 + 52)
     else if c = CHR ''-'' \<or> c = CHR ''+'' then Some 62 else if c = CHR ''_'' \<or> c = CHR ''/'' then Some 63 else None)"

fun b64_encode :: "string \<Rightarrow> string" where
  "b64_encode [] = []"
| "b64_encode [a] = [b64_char (byte a div 4), b64_char (byte a mod 4 * 16), CHR ''='', CHR ''='']"
| "b64_encode [a, b] = [b64_char (byte a div 4), b64_char (byte a mod 4 * 16 + byte b div 16),
     b64_char (byte b mod 16 * 4), CHR ''='']"
| "b64_encode (a # b # c # rest) = b64_char (byte a div 4) # b64_char (byte a mod 4 * 16 + byte b div 16) #
     b64_char (byte b mod 16 * 4 + byte c div 64) # b64_char (byte c mod 64) # b64_encode rest"

text \<open>
  \<^verbatim>\<open>binascii.a2b_base64\<close> as it reads by default: the position in the group of four, the bits
  left over, the padding seen. Characters outside the alphabet are skipped; a complete padding ends the
  input, whatever follows it.
\<close>

fun b64_scan :: "nat \<Rightarrow> nat \<Rightarrow> nat \<Rightarrow> string \<Rightarrow> string option" where
  "b64_scan pos left pads [] = (if pos = 0 then Some [] else None)"
| "b64_scan pos left pads (c # cs) =
     (if c = CHR ''='' then
        (if 2 \<le> pos then if 4 \<le> pos + (pads + 1) then Some [] else b64_scan pos left (pads + 1) cs
         else b64_scan pos left pads cs)
      else (case b64_value c of
          None \<Rightarrow> b64_scan pos left pads cs
        | Some v \<Rightarrow>
            if pos = 0 then b64_scan 1 v 0 cs
            else if pos = 1 then map_option ((#) (char_of (left * 4 + v div 16))) (b64_scan 2 (v mod 16) 0 cs)
            else if pos = 2 then map_option ((#) (char_of (left * 16 + v div 4))) (b64_scan 3 (v mod 4) 0 cs)
            else map_option ((#) (char_of (left * 64 + v))) (b64_scan 0 0 0 cs)))"

definition b64_decode :: "string \<Rightarrow> string option" where
  "b64_decode s = b64_scan 0 0 0 s"

section \<open>UTF-8, splitting and numbers\<close>

definition between :: "nat \<Rightarrow> nat \<Rightarrow> char \<Rightarrow> bool" where
  "between lo hi c \<longleftrightarrow> lo \<le> byte c \<and> byte c \<le> hi"

abbreviation cont :: "char \<Rightarrow> bool" where
  "cont \<equiv> between 128 191"

text \<open>\<^verbatim>\<open>bytes.decode()\<close> accepts the bytes: no overlong form, no surrogate, nothing past U+10FFFF.\<close>

fun utf8_ok :: "string \<Rightarrow> bool" where
  "utf8_ok [] = True"
| "utf8_ok (a # s) =
     (if byte a < 128 then utf8_ok s
      else (case s of
          [] \<Rightarrow> False
        | b # s1 \<Rightarrow>
            if between 194 223 a then cont b \<and> utf8_ok s1
            else (case s1 of
                [] \<Rightarrow> False
              | c # s2 \<Rightarrow>
                  if between 224 239 a then
                    between (if byte a = 224 then 160 else 128) (if byte a = 237 then 159 else 191) b \<and> cont c \<and> utf8_ok s2
                  else (case s2 of
                      [] \<Rightarrow> False
                    | d # s3 \<Rightarrow> between 240 244 a \<and>
                        between (if byte a = 240 then 144 else 128) (if byte a = 244 then 143 else 191) b \<and>
                        cont c \<and> cont d \<and> utf8_ok s3))))"

definition is_ascii :: "string \<Rightarrow> bool" where
  "is_ascii s \<longleftrightarrow> list_all (\<lambda>c. byte c < 128) s"

text \<open>\<^verbatim>\<open>s.rsplit(sep, n)\<close>: at most \<open>n\<close> cuts, from the right.\<close>

fun cut_front :: "char \<Rightarrow> nat \<Rightarrow> string \<Rightarrow> string list" where
  "cut_front c 0 s = [s]"
| "cut_front c (Suc n) s =
     (if c \<in> set s then takeWhile (\<lambda>x. x \<noteq> c) s # cut_front c n (tl (dropWhile (\<lambda>x. x \<noteq> c) s)) else [s])"

definition rsplit :: "char \<Rightarrow> nat \<Rightarrow> string \<Rightarrow> string list" where
  "rsplit c n s = rev (map rev (cut_front c n (rev s)))"

definition is_digit :: "char \<Rightarrow> bool" where
  "is_digit c = between 48 57 c"

definition digits_value :: "string \<Rightarrow> nat" where
  "digits_value s = foldl (\<lambda>n c. n * 10 + (byte c - 48)) 0 s"

text \<open>
  \<^verbatim>\<open>int(s)\<close> for an ASCII text: surrounding white space, a sign, digits with single underscores
  between them. (Other digits of Unicode are read as no number, and the limit of 4300 digits is out of
  reach: a state has at most 1024 characters.)
\<close>

definition py_int :: "string \<Rightarrow> int option" where
  "py_int s =
     (let t = strip s;
          (neg, u) = (case t of [] \<Rightarrow> (False, []) | c # r \<Rightarrow>
             if c = CHR ''-'' then (True, r) else if c = CHR ''+'' then (False, r) else (False, t));
          groups = split_on CHR ''_'' u in
      if list_all (\<lambda>g. g \<noteq> [] \<and> list_all is_digit g) groups
      then Some ((if neg then -1 else 1) * int (digits_value (concat groups))) else None)"

section \<open>Signing and verifying\<close>

definition STATE_MAX_AGE :: int where
  "STATE_MAX_AGE = 600"

text \<open>
  \<open>mac\<close> is \<^verbatim>\<open>_hmac\<close>: the first 32 hexadecimal digits of the keyed hash. \<open>now\<close> is
  \<^verbatim>\<open>int(time.time())\<close>.
\<close>

definition state_raw :: "uuid \<Rightarrow> integration_key \<Rightarrow> nat \<Rightarrow> string" where
  "state_raw cid key now = uuid_str cid @ '':'' @ key_value key @ '':'' @ digits now"

definition sign_state :: "(string \<Rightarrow> string) \<Rightarrow> nat \<Rightarrow> uuid \<Rightarrow> integration_key \<Rightarrow> string" where
  "sign_state mac now cid key = b64_encode (state_raw cid key now @ '':'' @ mac (state_raw cid key now))"

definition decode_state :: "nat \<Rightarrow> string \<Rightarrow> string list" where
  "decode_state n state =
     (case b64_decode state of
        None \<Rightarrow> []
      | Some bytes \<Rightarrow> if utf8_ok bytes then rsplit (CHR '':'') n bytes else [])"

text \<open>
  \<^verbatim>\<open>hmac.compare_digest\<close> of two texts raises when one is not ASCII; the code calls it outside
  the \<^verbatim>\<open>try\<close>.
\<close>

definition compare_digest :: "string \<Rightarrow> string \<Rightarrow> exn + bool" where
  "compare_digest a b = (if is_ascii a \<and> is_ascii b then Inr (a = b) else Inl (Crash ''TypeError''))"

definition young :: "nat \<Rightarrow> string \<Rightarrow> bool" where
  "young now ts = (case py_int ts of None \<Rightarrow> False | Some t \<Rightarrow> int now - t \<le> STATE_MAX_AGE)"

definition verify_state :: "(string \<Rightarrow> string) \<Rightarrow> nat \<Rightarrow> string \<Rightarrow> uuid \<Rightarrow> integration_key \<Rightarrow> exn + bool" where
  "verify_state mac now state cid key =
     (case decode_state 3 state of
        [c, k, ts, sig] \<Rightarrow>
          bindR (compare_digest sig (mac (c @ '':'' @ k @ '':'' @ ts))) (\<lambda>same.
            if \<not> same then Inr False
            else if c \<noteq> uuid_str cid \<or> k \<noteq> key_value key then Inr False
            else Inr (young now ts))
      | _ \<Rightarrow> Inr False)"

definition AGENCY_MARKER :: string where
  "AGENCY_MARKER = ''ghl-agency''"

definition sign_agency_state :: "(string \<Rightarrow> string) \<Rightarrow> nat \<Rightarrow> string" where
  "sign_agency_state mac now = (let raw = AGENCY_MARKER @ '':'' @ digits now in b64_encode (raw @ '':'' @ mac raw))"

definition verify_agency_state :: "(string \<Rightarrow> string) \<Rightarrow> nat \<Rightarrow> string \<Rightarrow> exn + bool" where
  "verify_agency_state mac now state =
     (case decode_state 2 state of
        [marker, ts, sig] \<Rightarrow>
          bindR (compare_digest sig (mac (marker @ '':'' @ ts))) (\<lambda>same.
            if \<not> same then Inr False
            else if marker \<noteq> AGENCY_MARKER then Inr False
            else Inr (young now ts))
      | _ \<Rightarrow> Inr False)"

section \<open>Lemmas: the codecs invert each other\<close>

lemma byte_char_of [simp]: "n < 256 \<Longrightarrow> byte (char_of n) = n"
  by (simp add: byte_def)

lemma byte_less [simp]: "byte c < 256"
  by (simp add: byte_def)

lemma char_of_byte [simp]: "char_of (byte c) = c"
  by (simp add: byte_def)

lemma b64_value_char:
  assumes "n < 64"
  shows "b64_value (b64_char n) = Some n \<and> b64_char n \<noteq> CHR ''=''"
proof -
  have "b64_value (b64_char n) = Some n"
  proof (cases "n < 62")
    case True
    then show ?thesis by (auto simp: b64_char_def b64_value_def Let_def)
  next
    case False
    with assms have "n = 62 \<or> n = 63" by auto
    then show ?thesis by (auto simp: b64_char_def b64_value_def Let_def byte_def)
  qed
  moreover have "b64_value CHR ''='' = None" by (simp add: b64_value_def byte_def)
  ultimately show ?thesis by auto
qed

lemma b64_scan_char: "v < 64 \<Longrightarrow> b64_scan pos left pads (b64_char v # cs) =
    (if pos = 0 then b64_scan 1 v 0 cs
     else if pos = 1 then map_option ((#) (char_of (left * 4 + v div 16))) (b64_scan 2 (v mod 16) 0 cs)
     else if pos = 2 then map_option ((#) (char_of (left * 16 + v div 4))) (b64_scan 3 (v mod 4) 0 cs)
     else map_option ((#) (char_of (left * 64 + v))) (b64_scan 0 0 0 cs))"
  using b64_value_char [of v] by simp

lemma byte_small [simp]: "byte b div 16 < 16" "byte b div 64 < 4" "byte b div 4 < 64"
  using byte_less [of b] by (simp_all add: less_mult_imp_div_less)

lemma byte_parts: "byte a mod 4 * 16 < 64" "byte a mod 4 * 16 + byte b div 16 < 64" "byte b mod 16 * 4 < 64"
  "byte b mod 16 * 4 + byte c div 64 < 64" "byte c mod 64 < 64"
proof -
  have "byte a mod 4 < 4" "byte b mod 16 < 16" "byte c mod 64 < 64" by simp_all
  with byte_small(1) [of b] byte_small(2) [of c] show "byte a mod 4 * 16 < 64" "byte a mod 4 * 16 + byte b div 16 < 64" "byte b mod 16 * 4 < 64"
    "byte b mod 16 * 4 + byte c div 64 < 64" "byte c mod 64 < 64" by linarith+
qed

lemma b64_scan_encode: "b64_scan 0 l p (b64_encode s) = Some s"
  by (induction s arbitrary: l p rule: b64_encode.induct)
     (simp_all add: b64_scan_char byte_parts del: b64_scan.simps(2), simp_all)

lemma b64_decode_encode [simp]: "b64_decode (b64_encode s) = Some s"
  by (simp add: b64_decode_def b64_scan_encode)

lemma is_ascii_append [simp]: "is_ascii (s @ t) \<longleftrightarrow> is_ascii s \<and> is_ascii t" "is_ascii (c # s) \<longleftrightarrow> byte c < 128 \<and> is_ascii s"
    "is_ascii []"
  by (simp_all add: is_ascii_def)

lemma utf8_ascii: "is_ascii s \<Longrightarrow> utf8_ok s"
  by (induction s) (auto simp: is_ascii_def)

lemma cut_front_here: "c \<notin> set x \<Longrightarrow> cut_front c (Suc n) (x @ c # s) = x # cut_front c n s"
  by (induction x) auto

lemma rsplit_here: "c \<notin> set x \<Longrightarrow> rsplit c (Suc n) (s @ c # x) = rsplit c n s @ [x]"
  using cut_front_here [of c "rev x" n "rev s"] by (simp add: rsplit_def del: cut_front.simps)

lemma rsplit_zero [simp]: "rsplit c 0 s = [s]"
  by (simp add: rsplit_def)

lemma rsplit_none: "c \<notin> set s \<Longrightarrow> rsplit c n s = [s]"
  by (cases n) (simp_all add: rsplit_def)

lemma digits_digit: "c \<in> set (digits n) \<Longrightarrow> 48 \<le> byte c \<and> byte c \<le> 57"
proof (induction n rule: digits.induct)
  case (1 n)
  then show ?case by (subst (asm) (2) digits.simps) (auto split: if_splits)
qed

lemma digits_nonempty: "digits n \<noteq> []"
  by (subst digits.simps) simp

lemma digits_value_snoc: "digits_value (s @ [c]) = digits_value s * 10 + (byte c - 48)"
  by (simp add: digits_value_def)

lemma digits_value_digits [simp]: "digits_value (digits n) = n"
proof (induction n rule: digits.induct)
  case (1 n)
  show ?case
  proof (cases "n < 10")
    case True
    then show ?thesis by (subst digits.simps) (simp add: digits_value_def)
  next
    case False
    then show ?thesis using 1 by (subst digits.simps) (simp add: digits_value_snoc)
  qed
qed

lemma dropWhile_none: "\<forall>c \<in> set s. \<not> P c \<Longrightarrow> dropWhile P s = s"
  by (induction s) auto

lemma strip_none: "\<forall>c \<in> set s. \<not> is_space c \<Longrightarrow> strip s = s"
  by (simp add: strip_def dropWhile_none)

lemma split_on_none: "c \<notin> set s \<Longrightarrow> split_on c s = [s]"
  by (induction s) auto

lemma byte_CHR: "48 \<le> byte c \<Longrightarrow> byte c \<le> 57 \<Longrightarrow> c \<noteq> CHR ''-'' \<and> c \<noteq> CHR ''+'' \<and> c \<noteq> CHR ''_'' \<and> c \<noteq> CHR '':'' \<and> \<not> is_space c \<and> byte c < 128"
  by (auto simp: byte_def is_space_def)

lemma py_int_digits [simp]: "py_int (digits n) = Some (int n)"
proof -
  have d: "\<forall>c \<in> set (digits n). 48 \<le> byte c \<and> byte c \<le> 57" using digits_digit by blast
  then have "strip (digits n) = digits n" "split_on CHR ''_'' (digits n) = [digits n]" "list_all is_digit (digits n)"
    by (auto simp: list_all_iff is_digit_def between_def dest: byte_CHR intro!: strip_none split_on_none)
  moreover obtain c r where "digits n = c # r" "c \<noteq> CHR ''-''" "c \<noteq> CHR ''+''"
    using digits_nonempty [of n] d byte_CHR by (cases "digits n") force+
  moreover have "digits_value (digits n) = n" by simp
  ultimately show ?thesis by (simp add: py_int_def Let_def del: digits_value_digits split_on.simps)
qed

text \<open>The keyed hash answers hexadecimal digits.\<close>

definition mac_hex :: "(string \<Rightarrow> string) \<Rightarrow> bool" where
  "mac_hex mac \<longleftrightarrow> (\<forall>s. list_all (\<lambda>c. between 48 57 c \<or> between 97 102 c) (mac s))"

lemma mac_hex_plain: "mac_hex mac \<Longrightarrow> is_ascii (mac s) \<and> CHR '':'' \<notin> set (mac s)"
  by (fastforce simp: mac_hex_def list_all_iff is_ascii_def between_def byte_def)

lemma digits_plain: "is_ascii (digits n) \<and> CHR '':'' \<notin> set (digits n)"
  using digits_digit byte_CHR by (force simp: is_ascii_def list_all_iff)

lemma key_plain: "is_ascii (key_value k) \<and> CHR '':'' \<notin> set (key_value k)"
  by (cases k) (simp_all add: is_ascii_def byte_def)

lemma marker_plain: "is_ascii AGENCY_MARKER \<and> CHR '':'' \<notin> set AGENCY_MARKER"
  by (simp add: AGENCY_MARKER_def is_ascii_def byte_def)

lemma colon_byte [simp]: "byte (CHR '':'') = 58"
  by (simp add: byte_def)

lemma rsplit_colon: "CHR '':'' \<notin> set x \<Longrightarrow> rsplit (CHR '':'') (Suc n) (s @ '':'' @ x) = rsplit (CHR '':'') n s @ [x]"
  by (simp add: rsplit_here)

text \<open>What the two decoders make of the two kinds of state.\<close>

lemma decode_signed:
  assumes "mac_hex mac" "is_ascii raw"
  shows "decode_state (Suc n) (b64_encode (raw @ '':'' @ mac raw)) = rsplit (CHR '':'') n raw @ [mac raw]"
  using assms mac_hex_plain [OF assms(1), of raw] rsplit_colon [of "mac raw" n raw]
  by (simp add: decode_state_def utf8_ascii)

lemma split_state_raw: "rsplit (CHR '':'') 2 (state_raw cid key t) = [uuid_str cid, key_value key, digits t]"
  "rsplit (CHR '':'') 1 (state_raw cid key t) = [uuid_str cid @ '':'' @ key_value key, digits t]"
proof -
  have "state_raw cid key t = (uuid_str cid @ '':'' @ key_value key) @ '':'' @ digits t" by (simp add: state_raw_def)
  then show "rsplit (CHR '':'') 1 (state_raw cid key t) = [uuid_str cid @ '':'' @ key_value key, digits t]"
    and "rsplit (CHR '':'') 2 (state_raw cid key t) = [uuid_str cid, key_value key, digits t]"
    using rsplit_colon [of "digits t" 0 "uuid_str cid @ '':'' @ key_value key"] rsplit_colon [of "digits t" 1 "uuid_str cid @ '':'' @ key_value key"]
      rsplit_colon [of "key_value key" 0 "uuid_str cid"] digits_plain [of t] key_plain [of key]
    by (simp_all add: numeral_2_eq_2)
qed

lemma raw_ascii: "is_ascii (state_raw cid key t)" "is_ascii (AGENCY_MARKER @ '':'' @ digits t)"
  using digits_plain key_plain marker_plain by (simp_all add: state_raw_def uuid_str_def)

lemma young_digits [simp]: "young now (digits t) \<longleftrightarrow> int now - int t \<le> STATE_MAX_AGE"
  by (simp add: young_def)

text \<open>
  C23. A state comes back as it was signed: for any keyed hash with hexadecimal output, the state signed for
  a client and a provider is accepted for that client and that provider and for ten minutes, and for no
  other client, provider or time.
\<close>

theorem state_roundtrip:
  assumes "mac_hex mac"
  shows "verify_state mac now (sign_state mac t cid key) cid' key' =
    Inr (cid' = cid \<and> key' = key \<and> int now \<le> int t + STATE_MAX_AGE)"
proof -
  have raw: "state_raw cid key t = uuid_str cid @ '':'' @ key_value key @ '':'' @ digits t" by (simp add: state_raw_def)
  have dec: "decode_state 3 (sign_state mac t cid key) = [uuid_str cid, key_value key, digits t, mac (state_raw cid key t)]"
    using decode_signed [OF assms raw_ascii(1), of 2 cid key t] split_state_raw by (simp add: sign_state_def numeral_eq_Suc)
  have "compare_digest (mac (state_raw cid key t)) (mac (state_raw cid key t)) = Inr True"
    using mac_hex_plain [OF assms] by (simp add: compare_digest_def)
  then show ?thesis using key_enum.val_inj [of key key'] unfolding verify_state_def dec by (auto simp: raw)
qed

theorem state_roundtrip_witness:
  "verify_state (\<lambda>s. ''0f'') 1300 (sign_state (\<lambda>s. ''0f'') 1000 7 Key_meta) 7 Key_meta = Inr True \<and>
   verify_state (\<lambda>s. ''0f'') 1300 (sign_state (\<lambda>s. ''0f'') 1000 7 Key_meta) 8 Key_meta = Inr False \<and>
   sign_state (\<lambda>s. ''0f'') 1000 7 Key_meta = ''NzptZXRhOjEwMDA6MGY=''"
proof -
  have "mac_hex (\<lambda>s. ''0f'')" by (simp add: mac_hex_def between_def byte_def)
  note state_roundtrip [OF this, of 1300 1000 7 Key_meta 7 Key_meta] state_roundtrip [OF this, of 1300 1000 7 Key_meta 8 Key_meta]
  moreover have "sign_state (\<lambda>s. ''0f'') 1000 7 Key_meta = ''NzptZXRhOjEwMDA6MGY=''" by code_simp
  ultimately show ?thesis by (simp add: STATE_MAX_AGE_def)
qed

lemma cut_front_join: "foldl (\<lambda>a b. a @ c # b) (hd (cut_front c n s)) (tl (cut_front c n s)) = s"
proof (induction n arbitrary: s)
  case (Suc n)
  have assoc: "foldl (\<lambda>a b. a @ c # b) (x @ c # y) zs = x @ c # foldl (\<lambda>a b. a @ c # b) y zs" for x y zs
    by (induction zs arbitrary: y) auto
  show ?case
  proof (cases "c \<in> set s")
    case True
    then obtain pre post where s: "s = pre @ c # post" "c \<notin> set pre" by (meson split_list_first)
    have "cut_front c n post \<noteq> []" by (cases n) auto
    then obtain y ys where y: "cut_front c n post = y # ys" by (cases "cut_front c n post") auto
    with Suc [of post] have "foldl (\<lambda>a b. a @ c # b) y ys = post" by simp
    then show ?thesis using cut_front_here [OF s(2), of n post] s(1) y by (simp add: assoc)
  qed simp
qed simp

lemma rsplit_join4: "rsplit c n s = [a, b, d, e] \<Longrightarrow> s = a @ c # b @ c # d @ c # e"
proof -
  assume "rsplit c n s = [a, b, d, e]"
  then have "rev (map rev (cut_front c n (rev s))) = [a, b, d, e]" by (simp add: rsplit_def)
  then have "map rev (cut_front c n (rev s)) = [e, d, b, a]" by (metis rev_rev_ident rev.simps append.simps)
  then have "cut_front c n (rev s) = [rev e, rev d, rev b, rev a]" by (auto simp: map_eq_Cons_conv)
  from cut_front_join [of c n "rev s"] this have "rev s = rev e @ c # rev d @ c # rev b @ c # rev a" by simp
  then have "rev (rev s) = rev (rev e @ c # rev d @ c # rev b @ c # rev a)" by (rule arg_cong)
  then show ?thesis by simp
qed

text \<open>
  Only what the server signed is accepted: a state that passes is the text of this very client, this
  provider and a time at most ten minutes old, followed by the keyed hash of exactly that text. And the two
  flows do not mix: a client's state never completes the agency-wide connection, nor the other way round.
\<close>

theorem accepted_state_is_signed:
  assumes "mac_hex mac"
  shows "(verify_state mac now state cid key = Inr True \<longrightarrow>
      (\<exists>ts. let m = uuid_str cid @ '':'' @ key_value key @ '':'' @ ts in b64_decode state = Some (m @ '':'' @ mac m) \<and> young now ts)) \<and>
    verify_agency_state mac now (sign_state mac t cid key) = Inr False \<and>
    verify_state mac now (sign_agency_state mac t) cid key = Inr False \<and>
    verify_agency_state mac now (sign_agency_state mac t) = Inr (int now \<le> int t + STATE_MAX_AGE)"
proof (intro conjI impI)
  assume "verify_state mac now state cid key = Inr True"
  then obtain c k ts sig where dec: "decode_state 3 state = [c, k, ts, sig]"
    and ok: "sig = mac (c @ '':'' @ k @ '':'' @ ts)" "c = uuid_str cid" "k = key_value key" "young now ts"
    by (auto simp: verify_state_def compare_digest_def bindR_eq_Inr split: list.splits if_splits)
  obtain bytes where bytes: "b64_decode state = Some bytes" "rsplit (CHR '':'') 3 bytes = [c, k, ts, sig]"
    using dec by (auto simp: decode_state_def split: option.splits if_splits)
  from rsplit_join4 [OF bytes(2)] ok bytes(1)
  show "\<exists>ts. let m = uuid_str cid @ '':'' @ key_value key @ '':'' @ ts in b64_decode state = Some (m @ '':'' @ mac m) \<and> young now ts"
    by (intro exI [of _ ts]) (simp add: Let_def)
next
  let ?raw = "AGENCY_MARKER @ '':'' @ digits t"
  have "CHR '':'' \<notin> set AGENCY_MARKER" using marker_plain by simp
  then have two: "rsplit (CHR '':'') 1 ?raw = [AGENCY_MARKER, digits t]" "rsplit (CHR '':'') 2 ?raw = [AGENCY_MARKER, digits t]"
    using rsplit_colon [of "digits t" 0 AGENCY_MARKER] rsplit_colon [of "digits t" 1 AGENCY_MARKER] rsplit_none [of "CHR '':''" AGENCY_MARKER 1]
      digits_plain [of t] by (simp_all add: numeral_2_eq_2)
  have signed: "sign_agency_state mac t = b64_encode (?raw @ '':'' @ mac ?raw)" by (simp add: sign_agency_state_def Let_def)
  have dec: "decode_state 2 (sign_agency_state mac t) = [AGENCY_MARKER, digits t, mac ?raw]"
    "decode_state 3 (sign_agency_state mac t) = [AGENCY_MARKER, digits t, mac ?raw]"
    using decode_signed [OF assms raw_ascii(2), of 1 t] decode_signed [OF assms raw_ascii(2), of 2 t] two
    unfolding signed by (simp_all add: numeral_eq_Suc)
  have same: "compare_digest (mac x) (mac x) = Inr True" for x
    using mac_hex_plain [OF assms] by (simp add: compare_digest_def)
  show "verify_state mac now (sign_agency_state mac t) cid key = Inr False" unfolding verify_state_def dec by simp
  show "verify_agency_state mac now (sign_agency_state mac t) = Inr (int now \<le> int t + STATE_MAX_AGE)"
    unfolding verify_agency_state_def dec using same by auto
  let ?craw = "state_raw cid key t"
  have cdec: "decode_state 2 (sign_state mac t cid key) = [uuid_str cid @ '':'' @ key_value key, digits t, mac ?craw]"
    using decode_signed [OF assms raw_ascii(1), of 1 cid key t] split_state_raw unfolding sign_state_def by (simp add: numeral_eq_Suc)
  have "uuid_str cid @ '':'' @ key_value key \<noteq> AGENCY_MARKER" using marker_plain by (metis in_set_conv_decomp append_Cons append_Nil)
  then show "verify_agency_state mac now (sign_state mac t cid key) = Inr False"
    unfolding verify_agency_state_def cdec using same [of ?craw] by (simp add: state_raw_def)
qed

theorem accepted_state_is_signed_witness:
  "verify_state (\<lambda>s. ''0f'') 1300 ''NzptZXRhOjEwMDA6MGY='' 7 Key_meta = Inr True \<and>
   b64_decode ''NzptZXRhOjEwMDA6MGY='' = Some ''7:meta:1000:0f'' \<and>
   verify_agency_state (\<lambda>s. ''0f'') 1300 (sign_state (\<lambda>s. ''0f'') 1000 7 Key_meta) = Inr False"
proof -
  have "mac_hex (\<lambda>s. ''0f'')" by (simp add: mac_hex_def between_def byte_def)
  from accepted_state_is_signed [OF this, of 1300 _ 7 Key_meta 1000]
  have "verify_agency_state (\<lambda>s. ''0f'') 1300 (sign_state (\<lambda>s. ''0f'') 1000 7 Key_meta) = Inr False" by blast
  moreover have "verify_state (\<lambda>s. ''0f'') 1300 ''NzptZXRhOjEwMDA6MGY='' 7 Key_meta = Inr True" by code_simp
  moreover have "b64_decode ''NzptZXRhOjEwMDA6MGY='' = Some ''7:meta:1000:0f''" by code_simp
  ultimately show ?thesis by blast
qed

text \<open>
  A signature that is not ASCII is not refused: the comparison raises, outside the handler of the decoding.
  The state below decodes to three colons and an e with an acute accent.
\<close>

lemma crafted_state_raises: "verify_state mac now ''Ojo6w6k='' cid key = Inl (Crash ''TypeError'')"
proof -
  have "decode_state 3 ''Ojo6w6k='' = [[], [], [], [char_of (0xC3 :: nat), char_of (0xA9 :: nat)]]" by code_simp
  then show ?thesis by (simp add: verify_state_def compare_digest_def is_ascii_def)
qed

end
