(* ===== verification/Integrations.thy ===== *)
theory Integrations
  imports Complex_Main OAuth_State
begin

text \<open>
  The connections of a client to the providers (\<^verbatim>\<open>services/integration_service.py\<close>): the
  authorization flows, the accounts they bind, the tokens and their refresh, the synchronisation, and the
  one agency-wide GHL connection with its rotating refresh token. The providers, the cipher and the keyed
  hash are parameters.
\<close>

section \<open>Rows\<close>

datatype integration_status = Int_connected | Int_disconnected | Int_error | Int_pending | Int_needs_reauth

record integration =
  ig_id :: uuid
  ig_client_id :: uuid
  ig_key :: integration_key
  ig_status :: integration_status
  ig_account_label :: "string option"
  ig_external_account_id :: "string option"
  ig_login_customer_id :: "string option"
  ig_ghl_tags :: "string list option"
  ig_scopes :: "string option"
  ig_access :: "string option"
  ig_refresh :: "string option"
  ig_expires_at :: "datetime option"
  ig_last_sync_at :: "datetime option"
  ig_last_error :: "string option"

record ghl_connection =
  gh_status :: integration_status
  gh_company_id :: "string option"
  gh_location_id :: "string option"
  gh_access :: "string option"
  gh_refresh :: "string option"
  gh_expires_at :: "datetime option"
  gh_connected_by :: "uuid option"
  gh_last_sync_at :: "datetime option"
  gh_last_error :: "string option"

text \<open>A daily fact: its client, platform and day, and its metrics by name.\<close>

type_synonym metrics = "(string \<times> rat) list"

record fact =
  fa_client_id :: uuid
  fa_platform :: string
  fa_date :: date
  fa_metrics :: metrics

text \<open>
  What the service keeps: the rows, the agency connection if it was ever begun, the facts, and the refresh
  tokens GHL was given so far, which the provider remembers.
\<close>

record hub =
  hb_rows :: "integration list"
  hb_agency :: "ghl_connection option"
  hb_facts :: "fact list"
  hb_spent :: "string list"
  hb_next_id :: uuid

section \<open>The providers\<close>

record tokens =
  tk_access :: "string option"
  tk_refresh :: "string option"
  tk_expires_in :: "int option"
  tk_location_id :: "string option"
  tk_company_id :: "string option"

record account =
  ac_account_id :: "string option"
  ac_id :: "string option"
  ac_name :: "string option"

record providers =
  pv_configured :: "integration_key \<Rightarrow> bool"
  pv_url :: "integration_key \<Rightarrow> string \<Rightarrow> string"
  pv_exchange :: "integration_key \<Rightarrow> string \<Rightarrow> exn + tokens"
  pv_extend :: "string \<Rightarrow> exn + tokens"
  pv_refresh :: "integration_key \<Rightarrow> string \<Rightarrow> exn + tokens"
  pv_accounts :: "integration_key \<Rightarrow> string \<Rightarrow> exn + account list"
  pv_direct :: "integration_key \<Rightarrow> string \<Rightarrow> exn + string list"
  pv_customer_name :: "string \<Rightarrow> string \<Rightarrow> exn + string option"
  pv_children :: "string \<Rightarrow> string \<Rightarrow> exn + account list"
  pv_insights :: "integration_key \<Rightarrow> string \<Rightarrow> string \<Rightarrow> string option \<Rightarrow> exn + (date \<times> metrics) list"
  pv_ghl_refresh :: "string list \<Rightarrow> string \<Rightarrow> exn + tokens"
  pv_ghl_exchange :: "string \<Rightarrow> exn + tokens"
  pv_ghl_contacts :: "string \<Rightarrow> string option \<Rightarrow> string list \<Rightarrow> exn + datetime option list"
  pv_mac :: "string \<Rightarrow> string"
  pv_encrypt :: "string \<Rightarrow> string"
  pv_decrypt :: "string \<Rightarrow> exn + string"
  pv_scopes :: "integration_key \<Rightarrow> string"

definition META_KEYS :: "integration_key list" where
  "META_KEYS = [Key_meta]"

definition GOOGLE_KEYS :: "integration_key list" where
  "GOOGLE_KEYS = [Key_google_ads, Key_google_lsa, Key_ga4, Key_search_console]"

definition LINKEDIN_KEYS :: "integration_key list" where
  "LINKEDIN_KEYS = [Key_linkedin]"

definition REAL_KEYS :: "integration_key list" where
  "REAL_KEYS = META_KEYS @ GOOGLE_KEYS @ LINKEDIN_KEYS"

fun platform_of :: "integration_key \<Rightarrow> string" where
  "platform_of Key_google_ads = ''google''"
| "platform_of Key_google_lsa = ''google_lsa''"
| "platform_of Key_ga4 = ''ga4''"
| "platform_of Key_search_console = ''seo''"
| "platform_of Key_meta = ''facebook''"
| "platform_of Key_linkedin = ''linkedin''"
| "platform_of Key_ghl = ''ghl''"

section \<open>Python values\<close>

text \<open>An empty text is as false as none; \<open>a or b\<close>.\<close>

definition truthy :: "string option \<Rightarrow> string option" where
  "truthy s = (if s = Some [] then None else s)"

definition or_else :: "string option \<Rightarrow> string option \<Rightarrow> string option" where
  "or_else a b = (case truthy a of None \<Rightarrow> b | Some s \<Rightarrow> Some s)"

definition SECOND :: int where
  "SECOND = 1000000"

definition expiry :: "datetime \<Rightarrow> int option \<Rightarrow> datetime option" where
  "expiry now n = (case n of None \<Rightarrow> None | Some k \<Rightarrow> if k = 0 then None else Some (now + k * SECOND))"

text \<open>\<^verbatim>\<open>removeprefix("act_")\<close> and \<^verbatim>\<open>replace("-", "")\<close>.\<close>

definition no_act :: "string \<Rightarrow> string" where
  "no_act s = (if starts_with s ''act_'' then drop 4 s else s)"

definition no_dash :: "string \<Rightarrow> string" where
  "no_dash s = filter (\<lambda>c. c \<noteq> CHR ''-'') s"

definition text_of :: "string option \<Rightarrow> string" where
  "text_of s = (case truthy s of None \<Rightarrow> [] | Some x \<Rightarrow> x)"

section \<open>Choosing an account\<close>

definition select_ad_account :: "account list \<Rightarrow> string option \<Rightarrow> exn + account option" where
  "select_ad_account accounts requested =
     (case truthy requested of
        Some r \<Rightarrow>
          (case find (\<lambda>a. no_act r \<in> {no_act (text_of (ac_account_id a)), no_act (text_of (ac_id a))}) accounts of
             Some a \<Rightarrow> Inr (Some a)
           | None \<Rightarrow> Inl (bad_request ''The requested Meta ad account isn't accessible to the authorized user.''))
      | None \<Rightarrow>
          if accounts = [] then Inr (Some \<lparr>ac_account_id = None, ac_id = None, ac_name = None\<rparr>) else Inr None)"

definition select_google_account :: "account list \<Rightarrow> string option \<Rightarrow> exn + account option" where
  "select_google_account accounts requested =
     (case truthy requested of
        Some r \<Rightarrow>
          (case find (\<lambda>a. no_dash (text_of (ac_id a)) = no_dash r) accounts of
             Some a \<Rightarrow> Inr (Some a)
           | None \<Rightarrow> Inl (bad_request ''The requested Google account isn't accessible to the authorized user.''))
      | None \<Rightarrow> Inr None)"

section \<open>The accounts a token can read\<close>

definition is_app_error :: "exn \<Rightarrow> bool" where
  "is_app_error e = (case e of AppError c msg \<Rightarrow> True | Crash s \<Rightarrow> False)"

text \<open>
  Google Ads and LSA: the accounts with direct access, each with its name, and then the linked accounts of
  each that is a manager, each once. An application error says that it is no manager.
\<close>

fun direct_accounts :: "providers \<Rightarrow> string \<Rightarrow> string list \<Rightarrow> exn + account list" where
  "direct_accounts pv token [] = Inr []"
| "direct_accounts pv token (cid # cids) =
     bindR (pv_customer_name pv token cid) (\<lambda>name. bindR (direct_accounts pv token cids) (\<lambda>rest.
       Inr (\<lparr>ac_account_id = None, ac_id = Some cid, ac_name = or_else name (Some cid)\<rparr> # rest)))"

fun add_children :: "account list \<Rightarrow> string list \<Rightarrow> account list \<times> string list" where
  "add_children [] seen = ([], seen)"
| "add_children (c # cs) seen =
     (case truthy (ac_id c) of
        None \<Rightarrow> add_children cs seen
      | Some i \<Rightarrow>
          if i \<in> set seen then add_children cs seen
          else (let (rest, seen') = add_children cs (i # seen) in
            (\<lparr>ac_account_id = None, ac_id = Some i, ac_name = or_else (ac_name c) (Some i)\<rparr> # rest, seen')))"

fun linked_accounts :: "providers \<Rightarrow> string \<Rightarrow> string list \<Rightarrow> string list \<Rightarrow> exn + account list" where
  "linked_accounts pv token [] seen = Inr []"
| "linked_accounts pv token (m # ms) seen =
     (case pv_children pv token m of
        Inl e \<Rightarrow> if is_app_error e then linked_accounts pv token ms seen else Inl e
      | Inr children \<Rightarrow>
          let (found, seen') = add_children children seen in
          bindR (linked_accounts pv token ms seen') (\<lambda>rest. Inr (found @ rest)))"

definition list_ads_family_customers :: "providers \<Rightarrow> integration_key \<Rightarrow> string \<Rightarrow> exn + account list" where
  "list_ads_family_customers pv key token =
     bindR (pv_direct pv key token) (\<lambda>direct.
     bindR (direct_accounts pv token direct) (\<lambda>accounts.
     bindR (linked_accounts pv token direct direct) (\<lambda>linked. Inr (accounts @ linked))))"

definition list_accounts :: "providers \<Rightarrow> integration_key \<Rightarrow> string \<Rightarrow> exn + account list" where
  "list_accounts pv key token =
     (if key = Key_google_ads \<or> key = Key_google_lsa then list_ads_family_customers pv key token
      else bindR (pv_accounts pv key token) (\<lambda>accounts. Inr (
        if key = Key_ga4 \<or> key = Key_search_console then map (\<lambda>a. a\<lparr>ac_name := ac_id a\<rparr>) accounts else accounts)))"

section \<open>The rows\<close>

definition ig_pair :: "integration \<Rightarrow> uuid \<times> integration_key" where
  "ig_pair r = (ig_client_id r, ig_key r)"

definition integration_for_client :: "uuid \<Rightarrow> integration_key \<Rightarrow> hub \<Rightarrow> integration option" where
  "integration_for_client cid key h = find_by ig_pair (cid, key) (hb_rows h)"

definition new_row :: "uuid \<Rightarrow> uuid \<Rightarrow> integration_key \<Rightarrow> integration" where
  "new_row i cid key = \<lparr>ig_id = i, ig_client_id = cid, ig_key = key, ig_status = Int_disconnected, ig_account_label = None,
     ig_external_account_id = None, ig_login_customer_id = None, ig_ghl_tags = None, ig_scopes = None, ig_access = None,
     ig_refresh = None, ig_expires_at = None, ig_last_sync_at = None, ig_last_error = None\<rparr>"

definition put_row :: "uuid \<Rightarrow> integration_key \<Rightarrow> (integration \<Rightarrow> integration) \<Rightarrow> hub \<Rightarrow> hub" where
  "put_row cid key f h = h\<lparr>hb_rows := update_by ig_pair (cid, key) f (hb_rows h)\<rparr>"

definition upsert :: "uuid \<Rightarrow> integration_key \<Rightarrow> hub \<Rightarrow> hub" where
  "upsert cid key h = (case integration_for_client cid key h of
       Some r \<Rightarrow> h
     | None \<Rightarrow> h\<lparr>hb_rows := hb_rows h @ [new_row (hb_next_id h) cid key], hb_next_id := Suc (hb_next_id h)\<rparr>)"

definition ig_get :: "uuid \<Rightarrow> integration_key \<Rightarrow> hub \<Rightarrow> exn + integration" where
  "ig_get cid key h = some_or (not_found ''Integration not configured.'') (integration_for_client cid key h)"

text \<open>The catalog: a stored row, or a transient disconnected one, for every provider.\<close>

definition list_integrations :: "uuid \<Rightarrow> hub \<Rightarrow> (integration_key \<times> integration option) list" where
  "list_integrations cid h = map (\<lambda>key. (key, integration_for_client cid key h)) all_keys"

record connect_request =
  cr_account_label :: "string option"
  cr_external_account_id :: "string option"
  cr_scopes :: "string option"

definition connect :: "datetime \<Rightarrow> uuid \<Rightarrow> integration_key \<Rightarrow> connect_request \<Rightarrow> hub \<Rightarrow> hub" where
  "connect now cid key data h = put_row cid key (\<lambda>r. r\<lparr>ig_status := Int_connected, ig_account_label := cr_account_label data,
     ig_external_account_id := cr_external_account_id data, ig_scopes := cr_scopes data, ig_last_sync_at := Some now,
     ig_last_error := None\<rparr>) (upsert cid key h)"

definition disconnect :: "uuid \<Rightarrow> integration_key \<Rightarrow> hub \<Rightarrow> exn + hub" where
  "disconnect cid key h = bindR (ig_get cid key h) (\<lambda>r. Inr (put_row cid key (\<lambda>r. r\<lparr>ig_status := Int_disconnected,
     ig_access := None, ig_refresh := None, ig_expires_at := None\<rparr>) h))"

section \<open>Tokens\<close>

definition require_real :: "integration_key \<Rightarrow> exn + unit" where
  "require_real key = ensure (key \<in> set REAL_KEYS)
     (bad_request (''Real OAuth is not yet available for '' @ key_value key @ ''.''))"

definition fresh_for :: "int \<Rightarrow> datetime \<Rightarrow> datetime option \<Rightarrow> bool" where
  "fresh_for window now expires = (case expires of None \<Rightarrow> True | Some e \<Rightarrow> now + window < e)"

definition decrypt_opt :: "providers \<Rightarrow> string option \<Rightarrow> exn + string" where
  "decrypt_opt pv s = (case s of None \<Rightarrow> Inl (Crash ''AttributeError'') | Some x \<Rightarrow> pv_decrypt pv x)"

text \<open>Google and LinkedIn refresh a minute ahead; the new access token is committed at once.\<close>

definition refreshed_token :: "datetime \<Rightarrow> providers \<Rightarrow> integration \<Rightarrow> hub \<Rightarrow> (exn + string) \<times> hub" where
  "refreshed_token now pv r h =
     (if fresh_for (60 * SECOND) now (ig_expires_at r) \<or> truthy (ig_refresh r) = None then (decrypt_opt pv (ig_access r), h)
      else
        (case bindR (decrypt_opt pv (ig_refresh r)) (pv_refresh pv (ig_key r)) of
           Inl e \<Rightarrow> (Inl e, h)
         | Inr tk \<Rightarrow>
             (case truthy (tk_access tk) of
                None \<Rightarrow> (decrypt_opt pv (ig_access r), h)
              | Some a \<Rightarrow>
                  (Inr a, put_row (ig_client_id r) (ig_key r) (\<lambda>r. r\<lparr>ig_access := Some (pv_encrypt pv a),
                     ig_expires_at := expiry now (tk_expires_in tk)\<rparr>) h))))"

text \<open>Meta re-extends the token itself a week ahead, and carries on with the old one when that fails.\<close>

definition meta_token :: "datetime \<Rightarrow> providers \<Rightarrow> integration \<Rightarrow> hub \<Rightarrow> (exn + string) \<times> hub" where
  "meta_token now pv r h =
     (case decrypt_opt pv (ig_access r) of
        Inl e \<Rightarrow> (Inl e, h)
      | Inr current \<Rightarrow>
          if fresh_for (7 * 24 * 60 * 60 * SECOND) now (ig_expires_at r) then (Inr current, h)
          else
            (case pv_extend pv current of
               Inl e \<Rightarrow> (if is_app_error e then Inr current else Inl e, h)
             | Inr tk \<Rightarrow>
                 (case truthy (tk_access tk) of
                    None \<Rightarrow> (Inr current, h)
                  | Some a \<Rightarrow>
                      (Inr a, put_row (ig_client_id r) (ig_key r) (\<lambda>r. r\<lparr>ig_access := Some (pv_encrypt pv a),
                         ig_expires_at := expiry now (tk_expires_in tk)\<rparr>) h))))"

definition access_token :: "datetime \<Rightarrow> providers \<Rightarrow> integration \<Rightarrow> hub \<Rightarrow> (exn + string) \<times> hub" where
  "access_token now pv r h = (if ig_key r \<in> set META_KEYS then meta_token now pv r h else refreshed_token now pv r h)"

section \<open>Synchronising\<close>

text \<open>Upsert of daily facts on client, platform and day.\<close>

definition fa_key :: "fact \<Rightarrow> uuid \<times> string \<times> date" where
  "fa_key f = (fa_client_id f, fa_platform f, fa_date f)"

fun ingest :: "uuid \<Rightarrow> string \<Rightarrow> (date \<times> metrics) list \<Rightarrow> fact list \<Rightarrow> fact list" where
  "ingest cid plat [] facts = facts"
| "ingest cid plat ((d, m) # rows) facts =
     ingest cid plat rows
       (if find_by fa_key (cid, plat, d) facts = None
        then facts @ [\<lparr>fa_client_id = cid, fa_platform = plat, fa_date = d, fa_metrics = m\<rparr>]
        else update_by fa_key (cid, plat, d) (\<lambda>f. f\<lparr>fa_metrics := m\<rparr>) facts)"

text \<open>The insights of a connected row, with the token it may have had to renew.\<close>

definition fetch_insights :: "datetime \<Rightarrow> providers \<Rightarrow> integration \<Rightarrow> hub \<Rightarrow> (exn + (date \<times> metrics) list) \<times> hub" where
  "fetch_insights now pv r h =
     (case access_token now pv r h of
        (Inl e, h1) \<Rightarrow> (Inl e, h1)
      | (Inr t, h1) \<Rightarrow> (pv_insights pv (ig_key r) t (case ig_external_account_id r of None \<Rightarrow> [] | Some a \<Rightarrow> a)
           (if ig_key r = Key_google_ads then ig_login_customer_id r else None), h1))"

definition failure_status :: "exn \<Rightarrow> integration_status" where
  "failure_status e = (case e of AppError c msg \<Rightarrow> if c = ProviderAuthError then Int_needs_reauth else Int_error | Crash s \<Rightarrow> Int_error)"

definition error_text :: "exn \<Rightarrow> string" where
  "error_text e = (case e of AppError c msg \<Rightarrow> msg | Crash s \<Rightarrow> s)"

definition sync_ready :: "integration \<Rightarrow> exn + unit" where
  "sync_ready r =
     bindR (ensure (ig_status r = Int_connected \<and> truthy (ig_access r) \<noteq> None)
       (bad_request ''Integration is not connected -- run OAuth first.'')) (\<lambda>u.
     ensure (ig_key r \<notin> set (META_KEYS @ GOOGLE_KEYS) \<or> truthy (ig_external_account_id r) \<noteq> None)
       (bad_request ''No account is bound yet -- finish account selection before syncing.''))"

definition sync_integration :: "datetime \<Rightarrow> providers \<Rightarrow> uuid \<Rightarrow> integration_key \<Rightarrow> hub \<Rightarrow> (exn + integration) \<times> hub" where
  "sync_integration now pv cid key h =
     (case bindR (require_real key) (\<lambda>u. bindR (ig_get cid key h) (\<lambda>r. bindR (sync_ready r) (\<lambda>u. Inr r))) of
        Inl e \<Rightarrow> (Inl e, h)
      | Inr r \<Rightarrow>
          (case fetch_insights now pv r h of
             (Inl e, h1) \<Rightarrow>
               (Inl e, put_row cid key (\<lambda>r. r\<lparr>ig_status := failure_status e, ig_last_error := Some (take 1000 (error_text e))\<rparr>) h1)
           | (Inr rows, h1) \<Rightarrow>
               let h2 = put_row cid key (\<lambda>r. r\<lparr>ig_status := Int_connected, ig_last_sync_at := Some now, ig_last_error := None\<rparr>)
                   (h1\<lparr>hb_facts := ingest cid (platform_of key) rows (hb_facts h1)\<rparr>) in
               (ig_get cid key h2, h2)))"

text \<open>The first synchronisation after a connection: its failure is a hint, not a broken connection.\<close>

definition try_sync_after_connect :: "datetime \<Rightarrow> providers \<Rightarrow> uuid \<Rightarrow> integration_key \<Rightarrow> hub \<Rightarrow> (exn + integration) \<times> hub" where
  "try_sync_after_connect now pv cid key h =
     (case sync_integration now pv cid key h of
        (Inr r, h1) \<Rightarrow> (Inr r, h1)
      | (Inl e, h1) \<Rightarrow>
          let h2 = put_row cid key (\<lambda>r. r\<lparr>ig_status := Int_connected,
                ig_last_error := Some (take 1000 (''Connected, but the first automatic sync failed: '' @ error_text e))\<rparr>) h1 in
          (ig_get cid key h2, h2))"

section \<open>The authorization flow\<close>

definition oauth_start :: "nat \<Rightarrow> providers \<Rightarrow> uuid \<Rightarrow> integration_key \<Rightarrow> hub \<Rightarrow> exn + (string \<times> string) \<times> hub" where
  "oauth_start now pv cid key h =
     bindR (require_real key) (\<lambda>u.
       let state = sign_state (pv_mac pv) now cid key in
       bindR (ensure (pv_configured pv key) (AppError ServiceUnavailableError ''integration is not configured'')) (\<lambda>u.
         Inr ((pv_url pv key state, state), put_row cid key (\<lambda>r. r\<lparr>ig_status := Int_pending\<rparr>) (upsert cid key h))))"

text \<open>
  What completing the flow writes to the row, and the accounts to choose from when none is bound. The code
  is exchanged before anything is written.
\<close>

definition bind_account :: "account option \<Rightarrow> (account \<Rightarrow> string option) \<Rightarrow> (account \<Rightarrow> string option) \<Rightarrow> integration \<Rightarrow> integration" where
  "bind_account a ident label r = (case a of
       None \<Rightarrow> r\<lparr>ig_external_account_id := None, ig_account_label := None\<rparr>
     | Some x \<Rightarrow> r\<lparr>ig_external_account_id := ident x, ig_account_label := label x\<rparr>)"

definition meta_ident :: "account \<Rightarrow> string option" where
  "meta_ident a = or_else (ac_account_id a) (ac_id a)"

definition named :: "account \<Rightarrow> string option" where
  "named a = or_else (ac_name a) (ac_id a)"

definition complete_meta :: "datetime \<Rightarrow> providers \<Rightarrow> string \<Rightarrow> string option \<Rightarrow> exn + (integration \<Rightarrow> integration) \<times> account list" where
  "complete_meta now pv code requested =
     bindR (pv_exchange pv Key_meta code) (\<lambda>short.
     bindR (pv_extend pv (case tk_access short of None \<Rightarrow> [] | Some t \<Rightarrow> t)) (\<lambda>long.
       (case truthy (or_else (tk_access long) (tk_access short)) of
          None \<Rightarrow> Inl (bad_request ''Meta did not return an access token.'')
        | Some token \<Rightarrow>
            let expires = (if tk_expires_in long \<in> {None, Some 0} then tk_expires_in short else tk_expires_in long) in
            bindR (list_accounts pv Key_meta token) (\<lambda>accounts.
            bindR (select_ad_account accounts requested) (\<lambda>a.
              Inr (\<lambda>r. bind_account a meta_ident ac_name (r\<lparr>ig_access := Some (pv_encrypt pv token), ig_refresh := None,
                  ig_expires_at := expiry now expires, ig_scopes := Some (pv_scopes pv Key_meta)\<rparr>),
                if a = None then accounts else []))))))"

definition complete_google :: "datetime \<Rightarrow> providers \<Rightarrow> integration_key \<Rightarrow> string \<Rightarrow> string option \<Rightarrow> string option \<Rightarrow>
    exn + (integration \<Rightarrow> integration) \<times> account list" where
  "complete_google now pv key code requested login =
     bindR (pv_exchange pv key code) (\<lambda>tk.
       (case truthy (tk_access tk) of
          None \<Rightarrow> Inl (bad_request ''Google did not return an access token.'')
        | Some token \<Rightarrow>
            bindR (list_accounts pv key token) (\<lambda>accounts.
            bindR (select_google_account accounts requested) (\<lambda>a.
              Inr (\<lambda>r. (\<lambda>r. if key = Key_google_ads \<and> a \<noteq> None then r\<lparr>ig_login_customer_id := login\<rparr> else r)
                  (bind_account a ac_id named (r\<lparr>ig_access := Some (pv_encrypt pv token),
                    ig_refresh := (case truthy (tk_refresh tk) of None \<Rightarrow> ig_refresh r | Some t \<Rightarrow> Some (pv_encrypt pv t)),
                    ig_expires_at := expiry now (tk_expires_in tk), ig_scopes := Some (pv_scopes pv key)\<rparr>)),
                if a = None then accounts else [])))))"

definition complete_linkedin :: "datetime \<Rightarrow> providers \<Rightarrow> string \<Rightarrow> exn + (integration \<Rightarrow> integration) \<times> account list" where
  "complete_linkedin now pv code =
     bindR (pv_exchange pv Key_linkedin code) (\<lambda>tk.
       (case truthy (tk_access tk) of
          None \<Rightarrow> Inl (bad_request ''LinkedIn did not return an access token.'')
        | Some token \<Rightarrow>
            bindR (list_accounts pv Key_linkedin token) (\<lambda>accounts.
              let a = (case accounts of [] \<Rightarrow> \<lparr>ac_account_id = None, ac_id = None, ac_name = None\<rparr> | x # xs \<Rightarrow> x) in
              Inr (\<lambda>r. bind_account (Some a) ac_id named (r\<lparr>ig_access := Some (pv_encrypt pv token),
                  ig_refresh := map_option (pv_encrypt pv) (truthy (tk_refresh tk)),
                  ig_expires_at := expiry now (tk_expires_in tk), ig_scopes := Some (pv_scopes pv Key_linkedin)\<rparr>), []))))"

definition complete :: "datetime \<Rightarrow> providers \<Rightarrow> integration_key \<Rightarrow> string \<Rightarrow> string option \<Rightarrow> string option \<Rightarrow>
    exn + (integration \<Rightarrow> integration) \<times> account list" where
  "complete now pv key code requested login =
     (if key \<in> set META_KEYS then complete_meta now pv code requested
      else if key \<in> set LINKEDIN_KEYS then complete_linkedin now pv code
      else complete_google now pv key code requested login)"

definition oauth_complete :: "datetime \<Rightarrow> providers \<Rightarrow> uuid \<Rightarrow> integration_key \<Rightarrow> string \<Rightarrow> string \<Rightarrow> string option \<Rightarrow> string option \<Rightarrow>
    hub \<Rightarrow> (exn + integration \<times> account list) \<times> hub" where
  "oauth_complete now pv cid key code state requested login h =
     (case bindR (require_real key) (\<lambda>u.
           bindR (verify_state (pv_mac pv) (nat (now div SECOND)) state cid key) (\<lambda>ok.
           bindR (ensure ok (bad_request ''Invalid or expired OAuth state.'')) (\<lambda>u.
             complete now pv key code requested login))) of
        Inl e \<Rightarrow> (Inl e, h)
      | Inr (f, pending) \<Rightarrow>
          let h1 = put_row cid key (\<lambda>r. (f r)\<lparr>ig_status := Int_connected, ig_last_error := None\<rparr>) (upsert cid key h) in
          if pending = [] then
            (case try_sync_after_connect now pv cid key h1 of
               (Inl e, h2) \<Rightarrow> (Inl e, h2)
             | (Inr r, h2) \<Rightarrow> (Inr (r, []), h2))
          else (bindR (ig_get cid key h1) (\<lambda>r. Inr (r, pending)), h1))"

definition select_account :: "datetime \<Rightarrow> providers \<Rightarrow> uuid \<Rightarrow> integration_key \<Rightarrow> string \<Rightarrow> string option \<Rightarrow> hub \<Rightarrow>
    (exn + integration) \<times> hub" where
  "select_account now pv cid key requested login h =
     (case bindR (ensure (key \<in> set (META_KEYS @ GOOGLE_KEYS)) (bad_request ''Ad account selection is not available for this provider.''))
         (\<lambda>u. bindR (ig_get cid key h) (\<lambda>r.
           bindR (ensure (ig_status r = Int_connected \<and> truthy (ig_access r) \<noteq> None)
             (bad_request ''Integration is not connected -- run OAuth first.'')) (\<lambda>u. Inr r))) of
        Inl e \<Rightarrow> (Inl e, h)
      | Inr r \<Rightarrow>
          (case (if key \<in> set META_KEYS then (decrypt_opt pv (ig_access r), h) else refreshed_token now pv r h) of
             (Inl e, h1) \<Rightarrow> (Inl e, h1)
           | (Inr token, h1) \<Rightarrow>
               (case bindR (list_accounts pv key token) (\<lambda>accounts.
                   if key \<in> set META_KEYS
                   then bindR (select_ad_account accounts (Some requested)) (\<lambda>a.
                     case a of
                       None \<Rightarrow> Inl (bad_request ''The requested Meta ad account isn't accessible to the authorized user.'')
                     | Some x \<Rightarrow>
                         if x = \<lparr>ac_account_id = None, ac_id = None, ac_name = None\<rparr>
                         then Inl (bad_request ''The requested Meta ad account isn't accessible to the authorized user.'')
                         else Inr (bind_account (Some x) meta_ident ac_name))
                   else bindR (select_google_account accounts (Some requested)) (\<lambda>a.
                     case a of
                       None \<Rightarrow> Inl (bad_request ''The requested Google account isn't accessible to the authorized user.'')
                     | Some x \<Rightarrow> Inr (\<lambda>r. (\<lambda>r. if key = Key_google_ads then r\<lparr>ig_login_customer_id := login\<rparr> else r)
                         (bind_account (Some x) ac_id named r)))) of
                  Inl e \<Rightarrow> (Inl e, h1)
                | Inr f \<Rightarrow> try_sync_after_connect now pv cid key (put_row cid key f h1))))"

section \<open>The agency-wide connection\<close>

definition new_connection :: ghl_connection where
  "new_connection = \<lparr>gh_status = Int_disconnected, gh_company_id = None, gh_location_id = None, gh_access = None, gh_refresh = None,
     gh_expires_at = None, gh_connected_by = None, gh_last_sync_at = None, gh_last_error = None\<rparr>"

definition connection_or_new :: "hub \<Rightarrow> ghl_connection" where
  "connection_or_new h = (case hb_agency h of None \<Rightarrow> new_connection | Some c \<Rightarrow> c)"

definition ghl_oauth_start :: "nat \<Rightarrow> providers \<Rightarrow> hub \<Rightarrow> exn + (string \<times> string) \<times> hub" where
  "ghl_oauth_start now pv h =
     bindR (ensure (pv_configured pv Key_ghl) (AppError ServiceUnavailableError ''GHL integration is not configured on this server'')) (\<lambda>u.
       let state = sign_agency_state (pv_mac pv) now in
       Inr ((pv_url pv Key_ghl state, state), h\<lparr>hb_agency := Some ((connection_or_new h)\<lparr>gh_status := Int_pending\<rparr>)\<rparr>))"

definition ghl_disconnect :: "hub \<Rightarrow> exn + hub" where
  "ghl_disconnect h =
     (case hb_agency h of
        None \<Rightarrow> Inl (not_found ''GHL has never been connected.'')
      | Some c \<Rightarrow> Inr (h\<lparr>hb_agency := Some (c\<lparr>gh_status := Int_disconnected, gh_access := None, gh_refresh := None, gh_expires_at := None\<rparr>)\<rparr>))"

text \<open>
  What a session loaded before it talks to GHL: the row of the client and the connection. A commit writes
  the columns the session moved since it loaded them, and loads again.
\<close>

record ghl_loaded =
  gl_row :: integration
  gl_conn :: ghl_connection

definition ghl_load :: "uuid \<Rightarrow> hub \<Rightarrow> exn + ghl_loaded" where
  "ghl_load cid h =
     bindR (ig_get cid Key_ghl h) (\<lambda>r.
     bindR (ensure (ig_ghl_tags r \<notin> {None, Some []}) (bad_request ''No GHL tags are configured for this client.'')) (\<lambda>u.
       case hb_agency h of
         None \<Rightarrow> Inl (bad_request ''GHL is not connected yet -- connect it from Settings first.'')
       | Some c \<Rightarrow> bindR (ensure (truthy (gh_access c) \<noteq> None) (bad_request ''GHL is not connected yet -- connect it from Settings first.''))
           (\<lambda>u. Inr \<lparr>gl_row = r, gl_conn = c\<rparr>)))"

definition merge_conn :: "ghl_connection \<Rightarrow> ghl_connection \<Rightarrow> ghl_connection \<Rightarrow> ghl_connection" where
  "merge_conn old new cur = cur\<lparr>gh_status := moved (gh_status old) (gh_status new) (gh_status cur),
     gh_access := moved (gh_access old) (gh_access new) (gh_access cur), gh_refresh := moved (gh_refresh old) (gh_refresh new) (gh_refresh cur),
     gh_expires_at := moved (gh_expires_at old) (gh_expires_at new) (gh_expires_at cur),
     gh_last_sync_at := moved (gh_last_sync_at old) (gh_last_sync_at new) (gh_last_sync_at cur),
     gh_last_error := moved (gh_last_error old) (gh_last_error new) (gh_last_error cur)\<rparr>"

definition merge_row :: "integration \<Rightarrow> integration \<Rightarrow> integration \<Rightarrow> integration" where
  "merge_row old new cur = cur\<lparr>ig_status := moved (ig_status old) (ig_status new) (ig_status cur),
     ig_last_sync_at := moved (ig_last_sync_at old) (ig_last_sync_at new) (ig_last_sync_at cur),
     ig_last_error := moved (ig_last_error old) (ig_last_error new) (ig_last_error cur)\<rparr>"

definition write_conn :: "ghl_connection \<Rightarrow> ghl_connection \<Rightarrow> hub \<Rightarrow> hub" where
  "write_conn old new h = h\<lparr>hb_agency := map_option (merge_conn old new) (hb_agency h)\<rparr>"

definition write_row :: "integration \<Rightarrow> integration \<Rightarrow> hub \<Rightarrow> hub" where
  "write_row old new h = put_row (ig_client_id old) (ig_key old) (merge_row old new) h"

definition reload :: "ghl_loaded \<Rightarrow> hub \<Rightarrow> ghl_loaded" where
  "reload l h = \<lparr>gl_row = (case integration_for_client (ig_client_id (gl_row l)) (ig_key (gl_row l)) h of None \<Rightarrow> gl_row l | Some r \<Rightarrow> r),
     gl_conn = (case hb_agency h of None \<Rightarrow> gl_conn l | Some c \<Rightarrow> c)\<rparr>"

text \<open>The access token of the connection; a refresh spends the stored token and commits the new pair.\<close>

definition ghl_agency_access_token :: "datetime \<Rightarrow> providers \<Rightarrow> ghl_loaded \<Rightarrow> hub \<Rightarrow> (exn + string) \<times> ghl_loaded \<times> hub" where
  "ghl_agency_access_token now pv l h =
     (let c = gl_conn l in
      if fresh_for (60 * SECOND) now (gh_expires_at c) \<or> truthy (gh_refresh c) = None then (decrypt_opt pv (gh_access c), l, h)
      else
        (case decrypt_opt pv (gh_refresh c) of
           Inl e \<Rightarrow> (Inl e, l, h)
         | Inr r \<Rightarrow>
             (case pv_ghl_refresh pv (hb_spent h) r of
                Inl e \<Rightarrow> (Inl e, l, h)
              | Inr tk \<Rightarrow>
                  let h1 = h\<lparr>hb_spent := hb_spent h @ [r]\<rparr> in
                  (case truthy (tk_access tk) of
                     None \<Rightarrow> (decrypt_opt pv (gh_access c), l, h1)
                   | Some a \<Rightarrow>
                       let c' = c\<lparr>gh_access := Some (pv_encrypt pv a),
                             gh_refresh := (case truthy (tk_refresh tk) of None \<Rightarrow> gh_refresh c | Some t \<Rightarrow> Some (pv_encrypt pv t)),
                             gh_expires_at := expiry now (tk_expires_in tk)\<rparr>;
                           h2 = write_conn c c' h1 in
                       (Inr a, reload l h2, h2)))))"

definition ghl_pull :: "datetime \<Rightarrow> providers \<Rightarrow> ghl_loaded \<Rightarrow> hub \<Rightarrow> (exn + datetime option list) \<times> ghl_loaded \<times> hub" where
  "ghl_pull now pv l h =
     (case ghl_agency_access_token now pv l h of
        (Inl e, l1, h1) \<Rightarrow> (Inl e, l1, h1)
      | (Inr t, l1, h1) \<Rightarrow>
          (pv_ghl_contacts pv t (gh_location_id (gl_conn l1)) (case ig_ghl_tags (gl_row l1) of None \<Rightarrow> [] | Some ts \<Rightarrow> ts), l1, h1))"

definition record_ghl_failure :: "ghl_loaded \<Rightarrow> exn \<Rightarrow> hub \<Rightarrow> hub" where
  "record_ghl_failure l e h =
     write_row (gl_row l) ((gl_row l)\<lparr>ig_status := failure_status e, ig_last_error := Some (take 1000 (error_text e))\<rparr>)
       (write_conn (gl_conn l) ((gl_conn l)\<lparr>gh_status := failure_status e, gh_last_error := Some (take 1000 (error_text e))\<rparr>) h)"

definition DAY_LENGTH :: int where
  "DAY_LENGTH = 24 * 60 * 60 * SECOND"

text \<open>The contacts by the day they were added, from the start of the window.\<close>

definition lead_days :: "datetime \<Rightarrow> nat \<Rightarrow> datetime option list \<Rightarrow> date list" where
  "lead_days now days contacts =
     map (\<lambda>t. t div DAY_LENGTH) (filter (\<lambda>t. \<not> t < now - int days * DAY_LENGTH) (List.map_filter id contacts))"

definition lead_rows :: "datetime \<Rightarrow> nat \<Rightarrow> datetime option list \<Rightarrow> (date \<times> metrics) list" where
  "lead_rows now days contacts = (let ds = lead_days now days contacts in
     map (\<lambda>d. (d, [(''leads'', of_nat (count_list ds d))])) (remdups ds))"

definition sync_ghl_from :: "datetime \<Rightarrow> providers \<Rightarrow> nat \<Rightarrow> ghl_loaded \<Rightarrow> hub \<Rightarrow> (exn + nat) \<times> hub" where
  "sync_ghl_from now pv days l h =
     (case ghl_pull now pv l h of
        (Inl e, l1, h1) \<Rightarrow> (Inl e, record_ghl_failure l1 e h1)
      | (Inr contacts, l1, h1) \<Rightarrow>
          let rows = lead_rows now days contacts in
          (Inr (length rows),
           write_row (gl_row l1) ((gl_row l1)\<lparr>ig_status := Int_connected, ig_last_sync_at := Some now, ig_last_error := None\<rparr>)
             (write_conn (gl_conn l1) ((gl_conn l1)\<lparr>gh_status := Int_connected, gh_last_sync_at := Some now, gh_last_error := None\<rparr>)
               (h1\<lparr>hb_facts := ingest (ig_client_id (gl_row l1)) ''ghl'' rows (hb_facts h1)\<rparr>))))"

definition sync_ghl_leads :: "datetime \<Rightarrow> providers \<Rightarrow> uuid \<Rightarrow> nat \<Rightarrow> hub \<Rightarrow> (exn + nat) \<times> hub" where
  "sync_ghl_leads now pv cid days h =
     (case ghl_load cid h of
        Inl e \<Rightarrow> (Inl e, h)
      | Inr l \<Rightarrow> sync_ghl_from now pv days l h)"

text \<open>The page of contacts on demand: the row is marked, the facts are not.\<close>

definition fetch_ghl_contacts :: "datetime \<Rightarrow> providers \<Rightarrow> uuid \<Rightarrow> hub \<Rightarrow> (exn + datetime option list) \<times> hub" where
  "fetch_ghl_contacts now pv cid h =
     (case ghl_load cid h of
        Inl e \<Rightarrow> (Inl e, h)
      | Inr l \<Rightarrow>
          (case ghl_pull now pv l h of
             (Inl e, l1, h1) \<Rightarrow> (Inl e, record_ghl_failure l1 e h1)
           | (Inr page, l1, h1) \<Rightarrow>
               (Inr page, write_row (gl_row l1) ((gl_row l1)\<lparr>ig_status := Int_connected, ig_last_sync_at := Some now, ig_last_error := None\<rparr>) h1)))"

definition set_ghl_tags :: "datetime \<Rightarrow> providers \<Rightarrow> uuid \<Rightarrow> string list \<Rightarrow> hub \<Rightarrow> (exn + integration) \<times> hub" where
  "set_ghl_tags now pv cid tags h =
     (if tags = [] then (Inl (bad_request ''At least one GHL tag is required to connect this client.''), h)
      else
        let connected = (hb_agency h \<noteq> None);
            h1 = put_row cid Key_ghl (\<lambda>r. r\<lparr>ig_ghl_tags := Some tags,
                 ig_status := (if connected then Int_connected else Int_pending), ig_last_error := None\<rparr>) (upsert cid Key_ghl h);
            h2 = (if connected then snd (sync_ghl_leads now pv cid 30 h1) else h1) in
        (ig_get cid Key_ghl h2, h2))"

text \<open>After a connection every client with tags is synchronised, each on its own.\<close>

definition sync_all_tagged :: "datetime \<Rightarrow> providers \<Rightarrow> hub \<Rightarrow> hub" where
  "sync_all_tagged now pv h =
     foldl (\<lambda>h r. if ig_ghl_tags r \<in> {None, Some []} then h else snd (sync_ghl_leads now pv (ig_client_id r) 30 h)) h
       (filter (\<lambda>r. ig_key r = Key_ghl) (hb_rows h))"

definition ghl_oauth_complete :: "datetime \<Rightarrow> providers \<Rightarrow> string \<Rightarrow> string \<Rightarrow> uuid \<Rightarrow> hub \<Rightarrow> (exn + unit) \<times> hub" where
  "ghl_oauth_complete now pv code state actor h =
     (case bindR (verify_agency_state (pv_mac pv) (nat (now div SECOND)) state) (\<lambda>ok.
           bindR (ensure ok (bad_request ''Invalid or expired OAuth state.'')) (\<lambda>u.
           bindR (pv_ghl_exchange pv code) (\<lambda>tk.
             case truthy (tk_access tk) of
               None \<Rightarrow> Inl (AppError ProviderAuthError ''GHL did not return an access token.'')
             | Some a \<Rightarrow> Inr (a, tk)))) of
        Inl e \<Rightarrow> (Inl e, h)
      | Inr (a, tk) \<Rightarrow>
          let c = connection_or_new h;
              c' = c\<lparr>gh_access := Some (pv_encrypt pv a), gh_refresh := map_option (pv_encrypt pv) (truthy (tk_refresh tk)),
                gh_expires_at := expiry now (tk_expires_in tk), gh_location_id := or_else (tk_location_id tk) (gh_location_id c),
                gh_company_id := or_else (tk_company_id tk) (gh_company_id c), gh_status := Int_connected,
                gh_connected_by := Some actor, gh_last_error := None\<rparr> in
          (Inr (), sync_all_tagged now pv (h\<lparr>hb_agency := Some c'\<rparr>)))"

section \<open>Lemmas: the rotating refresh token\<close>

lemma moved_simps [simp]: "moved a b a = b" "moved a a c = c"
  by (simp_all add: moved_def)

lemma put_row_keeps [simp]: "hb_agency (put_row cid key f h) = hb_agency h" "hb_spent (put_row cid key f h) = hb_spent h"
  "hb_facts (put_row cid key f h) = hb_facts h" "hb_next_id (put_row cid key f h) = hb_next_id h"
  by (simp_all add: put_row_def)

lemma write_keeps [simp]: "hb_agency (write_row old new h) = hb_agency h" "hb_spent (write_row old new h) = hb_spent h"
  "hb_spent (write_conn o' n h) = hb_spent h" "hb_rows (write_conn o' n h) = hb_rows h" "hb_facts (write_conn o' n h) = hb_facts h"
  "hb_agency (write_conn o' n h) = map_option (merge_conn o' n) (hb_agency h)"
  by (simp_all add: write_row_def write_conn_def)

text \<open>
  The stored refresh token has not been spent; and the documented behaviour of the provider: it takes a
  refresh token once and answers with an access token and a new refresh token.
\<close>

definition unspent :: "providers \<Rightarrow> hub \<Rightarrow> bool" where
  "unspent pv h \<longleftrightarrow> (case hb_agency h of None \<Rightarrow> True | Some c \<Rightarrow>
     (case gh_refresh c of None \<Rightarrow> True | Some e \<Rightarrow>
       (case pv_decrypt pv e of Inl x \<Rightarrow> False | Inr r \<Rightarrow> r \<notin> set (hb_spent h))))"

definition rotates :: "providers \<Rightarrow> bool" where
  "rotates pv \<longleftrightarrow> (\<forall>spent r tk. pv_ghl_refresh pv spent r = Inr tk \<longrightarrow>
     r \<notin> set spent \<and> truthy (tk_access tk) \<noteq> None \<and>
     (\<exists>r'. truthy (tk_refresh tk) = Some r' \<and> r' \<notin> set (spent @ [r])))"

definition deciphers :: "providers \<Rightarrow> bool" where
  "deciphers pv \<longleftrightarrow> (\<forall>x. pv_decrypt pv (pv_encrypt pv x) = Inr x)"

lemma pull_unspent:
  assumes "rotates pv" "deciphers pv" "unspent pv h" "hb_agency h = Some (gl_conn l)" "ghl_pull now pv l h = (res, l1, h1)"
  shows "unspent pv h1 \<and> hb_agency h1 = Some (gl_conn l1)"
proof -
  obtain res' l' h' where a: "ghl_agency_access_token now pv l h = (res', l', h')" by (cases "ghl_agency_access_token now pv l h")
  have same: "l1 = l'" "h1 = h'" using assms(5) a by (auto simp: ghl_pull_def split: sum.splits)
  show ?thesis
  proof (cases "h' = h \<and> l' = l")
    case True
    with same assms show ?thesis by simp
  next
    case False
    from a False obtain e r tk where c: "gh_refresh (gl_conn l) = Some e" "pv_decrypt pv e = Inr r" "pv_ghl_refresh pv (hb_spent h) r = Inr tk"
      by (auto simp: ghl_agency_access_token_def Let_def decrypt_opt_def truthy_def split: if_splits sum.splits option.splits)
    obtain acc r' where tk: "truthy (tk_access tk) = Some acc" "truthy (tk_refresh tk) = Some r'" "r' \<notin> set (hb_spent h @ [r])"
      using assms(1) c(3) unfolding rotates_def by blast
    let ?c' = "(gl_conn l)\<lparr>gh_access := Some (pv_encrypt pv acc), gh_refresh := Some (pv_encrypt pv r'), gh_expires_at := expiry now (tk_expires_in tk)\<rparr>"
    let ?h2 = "write_conn (gl_conn l) ?c' (h\<lparr>hb_spent := hb_spent h @ [r]\<rparr>)"
    have h': "h' = ?h2" "l' = reload l ?h2"
      using a False c tk by (auto simp: ghl_agency_access_token_def Let_def decrypt_opt_def split: if_splits)
    have "hb_agency ?h2 = Some ?c'" using assms(4) by (simp add: merge_conn_def)
    then have "hb_agency h' = Some ?c'" "gl_conn l' = ?c'" by (simp_all only: h' reload_def ghl_loaded.simps option.case)
    moreover have "hb_spent h' = hb_spent h @ [r]" by (simp add: h')
    ultimately show ?thesis using same assms(2) tk(3) by (simp add: unspent_def deciphers_def)
  qed
qed

lemma load_conn: "ghl_load cid h = Inr l \<Longrightarrow> hb_agency h = Some (gl_conn l) \<and> integration_for_client cid Key_ghl h = Some (gl_row l) \<and> truthy (gh_access (gl_conn l)) \<noteq> None"
  by (auto simp: ghl_load_def ig_get_def result_simps split: option.splits)

lemma unspent_cong: "map_option gh_refresh (hb_agency h) = map_option gh_refresh (hb_agency h') \<Longrightarrow> hb_spent h = hb_spent h' \<Longrightarrow>
    unspent pv h = unspent pv h'"
  by (cases "hb_agency h"; cases "hb_agency h'") (auto simp: unspent_def split: option.splits sum.splits)

lemma sync_ghl_unspent:
  assumes "rotates pv" "deciphers pv" "unspent pv h"
  shows "unspent pv (snd (sync_ghl_leads now pv cid days h))"
proof (cases "ghl_load cid h")
  case (Inl e)
  with assms show ?thesis by (simp add: sync_ghl_leads_def)
next
  case (Inr l)
  obtain res l1 h1 where p: "ghl_pull now pv l h = (res, l1, h1)" by (cases "ghl_pull now pv l h")
  have after: "unspent pv h1" "hb_agency h1 = Some (gl_conn l1)"
    using pull_unspent [OF assms _ p] load_conn [OF Inr] by auto
  let ?h' = "snd (sync_ghl_from now pv days l h)"
  have "hb_spent ?h' = hb_spent h1 \<and> map_option gh_refresh (hb_agency ?h') = map_option gh_refresh (hb_agency h1)"
    using p after(2) by (simp add: sync_ghl_from_def record_ghl_failure_def Let_def merge_conn_def split: sum.split)
  then have "unspent pv ?h' = unspent pv h1" by (intro unspent_cong) auto
  with after(1) Inr show ?thesis by (simp add: sync_ghl_leads_def)
qed

definition ghl_syncs :: "providers \<Rightarrow> (datetime \<times> uuid) list \<Rightarrow> hub \<Rightarrow> hub" where
  "ghl_syncs pv calls h = foldl (\<lambda>h (now, cid). snd (sync_ghl_leads now pv cid 30 h)) h calls"

lemma ghl_syncs_unspent: "rotates pv \<Longrightarrow> deciphers pv \<Longrightarrow> unspent pv h \<Longrightarrow> unspent pv (ghl_syncs pv calls h)"
proof (induction calls arbitrary: h)
  case (Cons c calls)
  obtain now cid where "c = (now, cid)" by (cases c)
  with Cons.IH [OF Cons.prems(1,2) sync_ghl_unspent [OF Cons.prems, of now cid 30]] show ?case by (simp add: ghl_syncs_def)
qed (simp add: ghl_syncs_def)

lemma put_row_pairs: "(\<And>r. ig_pair (f r) = ig_pair r) \<Longrightarrow> map ig_pair (hb_rows (put_row cid key f h)) = map ig_pair (hb_rows h)"
  by (simp add: put_row_def keys_update_by)

lemma write_row_pairs [simp]: "map ig_pair (hb_rows (write_row old new h)) = map ig_pair (hb_rows h)"
  by (simp add: write_row_def put_row_pairs ig_pair_def merge_row_def)

lemma pull_rows: "ghl_pull now pv l h = (res, l1, h1) \<Longrightarrow> hb_rows h1 = hb_rows h"
  by (auto simp: ghl_pull_def ghl_agency_access_token_def Let_def split: if_splits sum.splits option.splits prod.splits)

lemma sync_ghl_from_pairs: "ig_pair ` set (hb_rows (snd (sync_ghl_from now pv days l h))) = ig_pair ` set (hb_rows h)"
proof -
  obtain res l1 h1 where p: "ghl_pull now pv l h = (res, l1, h1)" by (cases "ghl_pull now pv l h")
  have "map ig_pair (hb_rows (snd (sync_ghl_from now pv days l h))) = map ig_pair (hb_rows h)"
    using p pull_rows [OF p] by (simp add: sync_ghl_from_def record_ghl_failure_def Let_def split: sum.split)
  then show ?thesis by (metis list.set_map)
qed

text \<open>
  C24. One shared connection is not enough: while synchronisations of any clients follow one another, the
  stored refresh token is never a spent one; but when two of them have loaded the connection before the
  first one refreshes, the second spends the same token again, and the connection that is alive is
  marked as dead, with the client it was synchronised for.
\<close>

theorem overlapping_refresh_kills_connection:
  assumes "rotates pv" "deciphers pv" "unspent pv h0" "h = ghl_syncs pv calls h0"
    and "ghl_load c1 h = Inr l1" "ghl_load c2 h = Inr l2"
    and "\<not> fresh_for (60 * SECOND) now (gh_expires_at (gl_conn l1))" "gh_refresh (gl_conn l1) = Some e" "e \<noteq> []" "pv_decrypt pv e = Inr r"
    and "pv_ghl_refresh pv (hb_spent h) r = Inr tk" "pv_ghl_refresh pv (hb_spent h @ [r]) r = Inl (AppError ProviderAuthError msg)"
    and "gh_status (gl_conn l1) = Int_connected" "ig_status (gl_row l2) = Int_connected"
    and "sync_ghl_from now pv 30 l1 h = (res1, h1)" "sync_ghl_from now' pv 30 l2 h1 = (res2, h2)" "now \<le> now'"
  shows "unspent pv h \<and> r \<notin> set (hb_spent h) \<and> res2 = Inl (AppError ProviderAuthError msg) \<and> unspent pv h2 \<and>
    map_option gh_status (hb_agency h2) = Some Int_needs_reauth \<and> map_option ig_status (integration_for_client c2 Key_ghl h2) = Some Int_needs_reauth"
proof -
  have un: "unspent pv h" using ghl_syncs_unspent [OF assms(1-3)] assms(4) by simp
  have l: "hb_agency h = Some (gl_conn l1)" "hb_agency h = Some (gl_conn l2)" "integration_for_client c2 Key_ghl h = Some (gl_row l2)"
    using load_conn [OF assms(5)] load_conn [OF assms(6)] by simp_all
  then have conn: "gl_conn l2 = gl_conn l1" by simp
  have nr: "r \<notin> set (hb_spent h)" using un l(1) assms(8,10) by (simp add: unspent_def)
  obtain res p1 g where p: "ghl_pull now pv l1 h = (res, p1, g)" by (cases "ghl_pull now pv l1 h")
  have g: "unspent pv g" "hb_agency g = Some (gl_conn p1)" using pull_unspent [OF assms(1,2) un l(1) p] by simp_all
  have spent: "hb_spent g = hb_spent h @ [r]"
  proof -
    obtain acc where "truthy (tk_access tk) = Some acc" using assms(1,11) unfolding rotates_def by (metis option.exhaust)
    moreover have "truthy (Some e) = Some e" using assms(9) by (simp add: truthy_def)
    ultimately show ?thesis
      using p assms(7,8,10,11) by (simp add: ghl_pull_def ghl_agency_access_token_def Let_def decrypt_opt_def) (auto simp: write_conn_def)
  qed
  have h1: "hb_spent h1 = hb_spent g" "map_option gh_refresh (hb_agency h1) = map_option gh_refresh (hb_agency g)" "hb_agency h1 \<noteq> None"
    using assms(15) p g(2) by (auto simp: sync_ghl_from_def record_ghl_failure_def Let_def merge_conn_def split: sum.splits)
  have un1: "unspent pv h1" using unspent_cong [OF h1(2,1)] g(1) by simp
  have stale: "\<not> fresh_for (60 * SECOND) now' (gh_expires_at (gl_conn l2))"
    using assms(7,17) conn by (auto simp: fresh_for_def split: option.splits)
  have "ghl_pull now' pv l2 h1 = (Inl (AppError ProviderAuthError msg), l2, h1)"
    using stale conn assms(8-10,12) spent h1(1) by (simp add: ghl_pull_def ghl_agency_access_token_def Let_def decrypt_opt_def truthy_def)
  then have r2: "res2 = Inl (AppError ProviderAuthError msg)" "h2 = record_ghl_failure l2 (AppError ProviderAuthError msg) h1"
    using assms(16) by (simp_all add: sync_ghl_from_def)
  obtain c where c: "hb_agency h1 = Some c" using h1(3) by auto
  have dead: "map_option gh_status (hb_agency h2) = Some Int_needs_reauth"
    using c conn assms(13) by (simp add: r2(2) record_ghl_failure_def merge_conn_def moved_def failure_status_def)
  have keeps: "map_option gh_refresh (hb_agency h2) = map_option gh_refresh (hb_agency h1)" "hb_spent h2 = hb_spent h1"
    using c by (simp_all add: r2(2) record_ghl_failure_def merge_conn_def)
  have un2: "unspent pv h2" using unspent_cong [OF keeps] un1 by simp
  have key2: "ig_client_id (gl_row l2) = c2" "ig_key (gl_row l2) = Key_ghl"
    using find_by_key [of ig_pair "(c2, Key_ghl)" "hb_rows h"] l(3) by (auto simp: integration_for_client_def ig_pair_def)
  have "integration_for_client c2 Key_ghl h1 \<noteq> None"
  proof -
    have rows: "ig_pair ` set (hb_rows h1) = ig_pair ` set (hb_rows h)"
      using sync_ghl_from_pairs [of now pv 30 l1 h] assms(15) by simp
    show ?thesis using l(3) rows by (metis integration_for_client_def find_by_None_iff option.distinct(1))
  qed
  then obtain cur where "integration_for_client c2 Key_ghl h1 = Some cur" by auto
  then have "map_option ig_status (integration_for_client c2 Key_ghl h2) = Some Int_needs_reauth"
    using assms(14) key2 by (simp add: r2(2) record_ghl_failure_def write_row_def put_row_def integration_for_client_def write_conn_def
        find_by_update_by ig_pair_def merge_row_def moved_def failure_status_def)
  with un nr r2(1) dead un2 show ?thesis by simp
qed

text \<open>A provider that rotates, and two clients with tags.\<close>

definition sample_providers :: providers where
  "sample_providers = \<lparr>pv_configured = (\<lambda>k. True), pv_url = (\<lambda>k s. s), pv_exchange = (\<lambda>k c. Inl (Crash ''none'')),
     pv_extend = (\<lambda>t. Inl (Crash ''none'')), pv_refresh = (\<lambda>k t. Inl (Crash ''none'')), pv_accounts = (\<lambda>k t. Inr []),
     pv_direct = (\<lambda>k t. Inr []), pv_customer_name = (\<lambda>t c. Inr None), pv_children = (\<lambda>t c. Inr []),
     pv_insights = (\<lambda>k t a l. Inr []),
     pv_ghl_refresh = (\<lambda>spent r. if r \<in> set spent then Inl (AppError ProviderAuthError ''invalid_grant'')
       else Inr \<lparr>tk_access = Some ''a'', tk_refresh = Some (concat (spent @ [r]) @ ''x''), tk_expires_in = Some 86400,
         tk_location_id = None, tk_company_id = None\<rparr>),
     pv_ghl_exchange = (\<lambda>c. Inl (Crash ''none'')), pv_ghl_contacts = (\<lambda>t l tags. Inr [Some 0, Some 0, None]),
     pv_mac = (\<lambda>s. ''0f''), pv_encrypt = (\<lambda>s. ''*'' @ s), pv_decrypt = (\<lambda>s. Inr (tl s)), pv_scopes = (\<lambda>k. [])\<rparr>"

definition tagged_row :: "uuid \<Rightarrow> uuid \<Rightarrow> integration" where
  "tagged_row i cid = (new_row i cid Key_ghl)\<lparr>ig_status := Int_connected, ig_ghl_tags := Some [''t'']\<rparr>"

definition sample_hub :: hub where
  "sample_hub = \<lparr>hb_rows = [tagged_row 1 7, tagged_row 2 8],
     hb_agency = Some (new_connection\<lparr>gh_status := Int_connected, gh_access := Some ''*a0'', gh_refresh := Some ''*r0'', gh_expires_at := Some 0\<rparr>),
     hb_facts = [], hb_spent = [], hb_next_id = 3\<rparr>"

lemma concat_longer: "x \<in> set xs \<Longrightarrow> length x \<le> length (concat xs)"
  by (induction xs) auto

lemma sample_rotates: "rotates sample_providers" "deciphers sample_providers"
proof -
  have "concat (spent @ [r]) @ ''x'' \<noteq> y" if "y \<in> set (spent @ [r])" for spent r and y :: string
    using concat_longer [OF that] by auto
  then show "rotates sample_providers"
    unfolding rotates_def sample_providers_def by (auto simp: truthy_def split: if_splits)
qed (simp add: deciphers_def sample_providers_def)

theorem overlapping_refresh_kills_connection_witness:
  "(case (ghl_load 7 sample_hub, ghl_load 8 sample_hub) of
     (Inr l1, Inr l2) \<Rightarrow> (case sync_ghl_from 1 sample_providers 30 l1 sample_hub of
       (res1, h1) \<Rightarrow> (case sync_ghl_from 1 sample_providers 30 l2 h1 of
         (res2, h2) \<Rightarrow> res1 = Inr 1 \<and> res2 = Inl (AppError ProviderAuthError ''invalid_grant'') \<and>
           map_option gh_status (hb_agency h2) = Some Int_needs_reauth \<and> unspent sample_providers h2))
     | _ \<Rightarrow> False)"
proof -
  let ?c = "new_connection\<lparr>gh_status := Int_connected, gh_access := Some ''*a0'', gh_refresh := Some ''*r0'', gh_expires_at := Some 0\<rparr>"
  let ?l1 = "\<lparr>gl_row = tagged_row 1 7, gl_conn = ?c\<rparr>" and ?l2 = "\<lparr>gl_row = tagged_row 2 8, gl_conn = ?c\<rparr>"
  have load: "ghl_load 7 sample_hub = Inr ?l1" "ghl_load 8 sample_hub = Inr ?l2"
    by (simp_all add: ghl_load_def ig_get_def integration_for_client_def sample_hub_def tagged_row_def new_row_def ig_pair_def truthy_def)
  obtain res1 h1 where s1: "sync_ghl_from 1 sample_providers 30 ?l1 sample_hub = (res1, h1)" by (cases "sync_ghl_from 1 sample_providers 30 ?l1 sample_hub")
  obtain res2 h2 where s2: "sync_ghl_from 1 sample_providers 30 ?l2 h1 = (res2, h2)" by (cases "sync_ghl_from 1 sample_providers 30 ?l2 h1")
  have nil: "sample_hub = ghl_syncs sample_providers [] sample_hub" by (simp add: ghl_syncs_def)
  have un: "unspent sample_providers sample_hub" by code_simp
  have pre: "\<not> fresh_for (60 * SECOND) 1 (gh_expires_at (gl_conn ?l1))" "gh_refresh (gl_conn ?l1) = Some ''*r0''" "''*r0'' \<noteq> []"
      "pv_decrypt sample_providers ''*r0'' = Inr ''r0''"
    by (simp_all add: fresh_for_def SECOND_def new_connection_def sample_providers_def)
  have ref: "pv_ghl_refresh sample_providers (hb_spent sample_hub) ''r0'' = Inr \<lparr>tk_access = Some ''a'', tk_refresh = Some ''r0x'',
        tk_expires_in = Some 86400, tk_location_id = None, tk_company_id = None\<rparr>"
      "pv_ghl_refresh sample_providers (hb_spent sample_hub @ [''r0'']) ''r0'' = Inl (AppError ProviderAuthError ''invalid_grant'')"
      "gh_status (gl_conn ?l1) = Int_connected" "ig_status (gl_row ?l2) = Int_connected" "(1 :: int) \<le> 1"
    by (simp_all add: sample_providers_def sample_hub_def tagged_row_def)
  have "res2 = Inl (AppError ProviderAuthError ''invalid_grant'') \<and> unspent sample_providers h2 \<and> map_option gh_status (hb_agency h2) = Some Int_needs_reauth"
    using overlapping_refresh_kills_connection [OF sample_rotates un nil load pre ref(1-4) s1 s2 ref(5)] by simp
  moreover have "fst (sync_ghl_from 1 sample_providers 30 ?l1 sample_hub) = Inr 1" by code_simp
  ultimately show ?thesis using s1 s2 load by simp
qed

text \<open>
  Saving a client's tags asks whether a connection was ever begun, not whether there is one: after a
  disconnection, or an authorization that was never finished, the client is shown as connected.
\<close>

lemma tags_connect_to_nothing:
  assumes "ghl_disconnect h = Inr h1" "tags \<noteq> []" "set_ghl_tags now pv cid tags h1 = (res, h2)"
  shows "map_option ig_status (integration_for_client cid Key_ghl h2) = Some Int_connected \<and> map_option gh_access (hb_agency h2) = Some None"
proof -
  obtain c where c: "hb_agency h1 = Some c" "gh_access c = None" using assms(1) by (auto simp: ghl_disconnect_def split: option.splits)
  let ?h = "put_row cid Key_ghl (\<lambda>r. r\<lparr>ig_ghl_tags := Some tags, ig_status := Int_connected, ig_last_error := None\<rparr>) (upsert cid Key_ghl h1)"
  have agency: "hb_agency (upsert cid Key_ghl h1) = Some c" using c by (simp add: upsert_def split: option.split)
  have "\<exists>e. ghl_load cid ?h = Inl e"
    using agency c(2) by (auto simp: ghl_load_def bindR_def ensure_def truthy_def some_or_def ig_get_def split: option.split)
  then have h2: "h2 = ?h" using assms(2,3) c by (auto simp: set_ghl_tags_def Let_def sync_ghl_leads_def)
  have "integration_for_client cid Key_ghl (upsert cid Key_ghl h1) \<noteq> None"
    by (auto simp: upsert_def integration_for_client_def find_by_append ig_pair_def new_row_def split: option.split)
  then show ?thesis using agency c(2)
    by (auto simp: h2 integration_for_client_def put_row_def find_by_update_by ig_pair_def)
qed

section \<open>Lemmas: what an operation leaves in the rows\<close>

text \<open>
  A row is well formed when its tokens are ciphertexts, and only providers with a flow have any. \<open>keeps\<close>:
  an assignment to a row that respects this and the row's client and provider.
\<close>

definition ciphertext :: "providers \<Rightarrow> string option \<Rightarrow> bool" where
  "ciphertext pv t \<longleftrightarrow> (case t of None \<Rightarrow> True | Some x \<Rightarrow> x \<in> range (pv_encrypt pv))"

definition row_ok :: "providers \<Rightarrow> integration \<Rightarrow> bool" where
  "row_ok pv r \<longleftrightarrow> ciphertext pv (ig_access r) \<and> ciphertext pv (ig_refresh r) \<and>
     (ig_access r \<noteq> None \<or> ig_refresh r \<noteq> None \<longrightarrow> ig_key r \<in> set REAL_KEYS)"

definition keeps :: "providers \<Rightarrow> integration_key \<Rightarrow> (integration \<Rightarrow> integration) \<Rightarrow> bool" where
  "keeps pv key f \<longleftrightarrow> (\<forall>r. ig_pair (f r) = ig_pair r \<and> (ig_key r = key \<and> row_ok pv r \<longrightarrow> row_ok pv (f r)))"

definition hub_ok :: "providers \<Rightarrow> hub \<Rightarrow> bool" where
  "hub_ok pv h \<longleftrightarrow> distinct (map ig_pair (hb_rows h)) \<and> list_all (row_ok pv) (hb_rows h) \<and>
     (case hb_agency h of None \<Rightarrow> True | Some c \<Rightarrow> ciphertext pv (gh_access c) \<and> ciphertext pv (gh_refresh c))"

lemma ciphertext_encrypt [simp]: "ciphertext pv (Some (pv_encrypt pv x))" "ciphertext pv None"
    "ciphertext pv (map_option (pv_encrypt pv) t)"
  by (auto simp: ciphertext_def split: option.split)

lemma get_put_row:
  assumes "keeps pv k f"
  shows "integration_for_client c key' (put_row cid key f h) =
    (if (c, key') = (cid, key) then map_option f (integration_for_client c key' h) else integration_for_client c key' h)"
  using assms find_by_update_by [of ig_pair f "(c, key')" "(cid, key)" "hb_rows h"]
  by (auto simp: integration_for_client_def put_row_def keeps_def)

lemma put_row_ok:
  assumes "keeps pv key f" "hub_ok pv h"
  shows "hub_ok pv (put_row cid key f h)"
proof -
  have "map ig_pair (hb_rows (put_row cid key f h)) = map ig_pair (hb_rows h)"
    using assms(1) by (simp add: put_row_pairs keeps_def)
  moreover have "row_ok pv r" if "r \<in> set (hb_rows (put_row cid key f h))" for r
    using that assms by (auto simp: put_row_def set_update_by hub_ok_def list_all_iff keeps_def ig_pair_def)
  ultimately show ?thesis using assms(2) by (simp add: hub_ok_def list_all_iff)
qed

lemma upsert_ok:
  assumes "hub_ok pv h"
  shows "hub_ok pv (upsert cid key h)"
proof (cases "integration_for_client cid key h")
  case None
  then have "(cid, key) \<notin> ig_pair ` set (hb_rows h)" by (simp add: integration_for_client_def find_by_None_iff)
  with None assms show ?thesis by (simp add: upsert_def hub_ok_def row_ok_def new_row_def ig_pair_def)
qed (use assms in \<open>simp add: upsert_def\<close>)

lemma upsert_get: "integration_for_client c k (upsert cid key h) =
    (if (c, k) = (cid, key) \<and> integration_for_client cid key h = None then Some (new_row (hb_next_id h) cid key) else integration_for_client c k h)"
  by (auto simp: upsert_def integration_for_client_def find_by_append ig_pair_def new_row_def split: option.split)

text \<open>The assignments of the operations.\<close>

lemma keeps_status: "keeps pv k (\<lambda>r. r\<lparr>ig_status := s\<rparr>)" "keeps pv k (\<lambda>r. r\<lparr>ig_status := s, ig_last_error := e\<rparr>)"
  "keeps pv k (\<lambda>r. r\<lparr>ig_status := s, ig_last_sync_at := t, ig_last_error := e\<rparr>)"
  "keeps pv k (\<lambda>r. r\<lparr>ig_status := s, ig_access := None, ig_refresh := None, ig_expires_at := None\<rparr>)"
  "keeps pv k (\<lambda>r. r\<lparr>ig_status := s, ig_account_label := a, ig_external_account_id := b, ig_scopes := c, ig_last_sync_at := t, ig_last_error := e\<rparr>)"
  "keeps pv k (\<lambda>r. r\<lparr>ig_ghl_tags := g, ig_status := s, ig_last_error := e\<rparr>)" "keeps pv k (merge_row old new)"
  by (auto simp: keeps_def row_ok_def ig_pair_def merge_row_def)

lemma keeps_token: "key \<in> set REAL_KEYS \<Longrightarrow> keeps pv key (\<lambda>r. r\<lparr>ig_access := Some (pv_encrypt pv a), ig_expires_at := e\<rparr>)"
  by (simp add: keeps_def row_ok_def ig_pair_def)

lemma keeps_compose: "keeps pv key f \<Longrightarrow> keeps pv key g \<Longrightarrow> keeps pv key (\<lambda>r. g (f r))"
  by (simp add: keeps_def ig_pair_def)

lemma keeps_bind: "keeps pv key (bind_account a ident label)" "keeps pv key (\<lambda>r. if b then r\<lparr>ig_login_customer_id := l\<rparr> else r)"
  by (auto simp: keeps_def row_ok_def ig_pair_def bind_account_def split: option.split)

lemma access_token_put: "ig_key r \<in> set REAL_KEYS \<Longrightarrow> access_token now pv r h = (res, h') \<Longrightarrow>
    h' = h \<or> (\<exists>a e. h' = put_row (ig_client_id r) (ig_key r) (\<lambda>r. r\<lparr>ig_access := Some (pv_encrypt pv a), ig_expires_at := e\<rparr>) h)"
  by (auto simp: access_token_def meta_token_def refreshed_token_def split: if_splits sum.splits option.splits)

lemma access_token_keeps:
  assumes "ig_key r \<in> set REAL_KEYS" "access_token now pv r h = (res, h')"
  obtains g where "keeps pv (ig_key r) g" "h' = put_row (ig_client_id r) (ig_key r) g h"
    "\<And>x. ig_external_account_id (g x) = ig_external_account_id x"
  using access_token_put [OF assms]
proof (elim disjE exE)
  assume "h' = h"
  then show thesis using that [of "\<lambda>x. x"] by (simp add: keeps_def put_row_def update_by_def)
next
  fix a e
  assume "h' = put_row (ig_client_id r) (ig_key r) (\<lambda>r. r\<lparr>ig_access := Some (pv_encrypt pv a), ig_expires_at := e\<rparr>) h"
  then show thesis using that [OF keeps_token [OF assms(1)]] by simp
qed

lemma ig_get_Inr: "ig_get cid key h = Inr r \<longleftrightarrow> integration_for_client cid key h = Some r"
  by (simp add: ig_get_def result_simps)

lemma integration_for_client_pair: "integration_for_client cid key h = Some r \<Longrightarrow> ig_client_id r = cid \<and> ig_key r = key"
  using find_by_key [of ig_pair "(cid, key)" "hb_rows h" r] by (simp add: integration_for_client_def ig_pair_def)

text \<open>What a synchronisation leaves, in one statement.\<close>

lemma sync_outcome_all:
  "case sync_integration now pv cid key h of (res, h') \<Rightarrow>
     (case res of
        Inl e \<Rightarrow> hb_facts h' = hb_facts h \<and>
          (h' = h \<or> map_option ig_status (integration_for_client cid key h') =
             Some (if \<exists>msg. e = AppError ProviderAuthError msg then Int_needs_reauth else Int_error))
      | Inr r \<Rightarrow> integration_for_client cid key h' = Some r \<and> ig_status r = Int_connected \<and> ig_last_sync_at r = Some now \<and> ig_last_error r = None \<and>
          (\<exists>t account login rows. pv_insights pv key t account login = Inr rows \<and> hb_facts h' = ingest cid (platform_of key) rows (hb_facts h))) \<and>
     (\<forall>c k. (c, k) \<noteq> (cid, key) \<longrightarrow> integration_for_client c k h' = integration_for_client c k h) \<and>
     hb_agency h' = hb_agency h \<and>
     (hub_ok pv h \<longrightarrow> hub_ok pv h') \<and>
     map_option ig_external_account_id (integration_for_client cid key h') = map_option ig_external_account_id (integration_for_client cid key h)"
  (is "case sync_integration now pv cid key h of (res, h') \<Rightarrow> ?post res h'")
proof -
  consider (refused) e where "sync_integration now pv cid key h = (Inl e, h)"
    | (tried) r where "integration_for_client cid key h = Some r" "key \<in> set REAL_KEYS" "sync_integration now pv cid key h =
        (case fetch_insights now pv r h of
             (Inl e, h1) \<Rightarrow>
               (Inl e, put_row cid key (\<lambda>r. r\<lparr>ig_status := failure_status e, ig_last_error := Some (take 1000 (error_text e))\<rparr>) h1)
           | (Inr rows, h1) \<Rightarrow>
               let h2 = put_row cid key (\<lambda>r. r\<lparr>ig_status := Int_connected, ig_last_sync_at := Some now, ig_last_error := None\<rparr>)
                   (h1\<lparr>hb_facts := ingest cid (platform_of key) rows (hb_facts h1)\<rparr>) in
               (ig_get cid key h2, h2))"
  proof (cases "bindR (require_real key) (\<lambda>u. bindR (ig_get cid key h) (\<lambda>r. bindR (sync_ready r) (\<lambda>u. Inr r)))")
    case (Inl e)
    then have "sync_integration now pv cid key h = (Inl e, h)" by (simp only: sync_integration_def sum.case)
    then show ?thesis by (rule refused)
  next
    case (Inr r)
    have "integration_for_client cid key h = Some r" "key \<in> set REAL_KEYS"
      using Inr by (auto simp: ig_get_Inr require_real_def result_simps)
    then show ?thesis by (rule tried) (simp only: sync_integration_def Inr sum.case)
  qed
  then show ?thesis
  proof cases
    case refused
    then show ?thesis by simp
  next
    case tried
    have pair: "ig_client_id r = cid" "ig_key r = key" using integration_for_client_pair [OF tried(1)] by simp_all
    obtain res h1 where f: "fetch_insights now pv r h = (res, h1)" by (cases "fetch_insights now pv r h")
    obtain t h2 where t: "access_token now pv r h = (t, h2)" by (cases "access_token now pv r h")
    have "h1 = h2" using f t by (auto simp: fetch_insights_def split: sum.splits)
    then obtain g where g: "keeps pv key g" "h1 = put_row cid key g h" "\<And>r. ig_external_account_id (g r) = ig_external_account_id r"
      using access_token_keeps [OF _ t] tried(2) pair by metis
    have row: "integration_for_client cid key h1 = Some (g r)" using tried(1) by (simp add: g(2) get_put_row [OF g(1)])
    have others: "integration_for_client c k h1 = integration_for_client c k h" if "(c, k) \<noteq> (cid, key)" for c k
      using that by (auto simp: g(2) get_put_row [OF g(1)])
    have ok1: "hub_ok pv h \<Longrightarrow> hub_ok pv h1" using put_row_ok [OF g(1)] by (simp add: g(2))
    have keep1: "hb_facts h1 = hb_facts h" "hb_agency h1 = hb_agency h" by (simp_all add: g(2))
    show ?thesis
    proof (cases res)
      case (Inl e)
      let ?f = "\<lambda>r :: integration. r\<lparr>ig_status := failure_status e, ig_last_error := Some (take 1000 (error_text e))\<rparr>"
      have h': "sync_integration now pv cid key h = (Inl e, put_row cid key ?f h1)" using f tried(3) Inl by simp
      have "failure_status e = (if \<exists>msg. e = AppError ProviderAuthError msg then Int_needs_reauth else Int_error)"
        by (auto simp: failure_status_def split: exn.split)
      with h' row others ok1 keep1 tried(1) g(3) put_row_ok [OF keeps_status(2) [of pv key]] show ?thesis
        by (simp add: get_put_row [OF keeps_status(2) [of pv key]])
    next
      case (Inr rows)
      let ?f = "\<lambda>r :: integration. r\<lparr>ig_status := Int_connected, ig_last_sync_at := Some now, ig_last_error := None\<rparr>"
      let ?h2 = "h1\<lparr>hb_facts := ingest cid (platform_of key) rows (hb_facts h1)\<rparr>"
      have eq: "integration_for_client c k ?h2 = integration_for_client c k h1" "hub_ok pv ?h2 = hub_ok pv h1" "hb_agency ?h2 = hb_agency h1" for c k
        by (simp_all add: integration_for_client_def hub_ok_def)
      have h': "sync_integration now pv cid key h = (Inr (?f (g r)), put_row cid key ?f ?h2)"
        using f tried(3) Inr row eq(1) by (simp add: Let_def ig_get_def get_put_row [OF keeps_status(3) [of pv key]])
      have "\<exists>t account login. pv_insights pv key t account login = Inr rows"
        using f Inr pair by (auto simp: fetch_insights_def split: sum.splits prod.splits)
      with h' row others ok1 keep1 tried(1) g(3) put_row_ok [OF keeps_status(3) [of pv key]] eq show ?thesis
        by (simp add: get_put_row [OF keeps_status(3) [of pv key]]) blast
    qed
  qed
qed

lemma sync_outcome':
  assumes "sync_integration now pv cid key h = (res, h')"
  shows "map_option ig_external_account_id (integration_for_client cid key h') = map_option ig_external_account_id (integration_for_client cid key h)"
    "hub_ok pv h \<Longrightarrow> hub_ok pv h'" "hb_agency h' = hb_agency h"
    "\<And>c k. (c, k) \<noteq> (cid, key) \<Longrightarrow> integration_for_client c k h' = integration_for_client c k h"
    "\<And>r. res = Inr r \<Longrightarrow> integration_for_client cid key h' = Some r"
  using sync_outcome_all [where now = now and pv = pv and cid = cid and key = key and h = h] assms by auto


definition meta_hub :: hub where
  "meta_hub = sample_hub\<lparr>hb_rows := [(new_row 1 7 Key_meta)\<lparr>ig_status := Int_connected, ig_access := Some ''*t'', ig_external_account_id := Some ''act_1''\<rparr>,
     (new_row 2 8 Key_meta)\<lparr>ig_status := Int_connected, ig_access := Some ''*u'', ig_external_account_id := Some ''act_2''\<rparr>]\<rparr>"


section \<open>Lemmas: binding an account\<close>

text \<open>What an authorization may bind: nothing, or a requested account that the new token can read.\<close>

definition bound_as_requested :: "providers \<Rightarrow> integration_key \<Rightarrow> string option \<Rightarrow> string option \<Rightarrow> bool" where
  "bound_as_requested pv key requested ext \<longleftrightarrow> ext = None \<or> (truthy requested \<noteq> None \<and>
     (\<exists>token accounts a. list_accounts pv key token = Inr accounts \<and> a \<in> set accounts \<and>
        ext = (if key \<in> set META_KEYS then meta_ident a else ac_id a)))"

lemma select_ad_account_cases:
  "select_ad_account accounts requested = Inr a \<Longrightarrow>
    a = None \<and> truthy requested = None \<or> a = Some \<lparr>ac_account_id = None, ac_id = None, ac_name = None\<rparr> \<and> accounts = [] \<or>
    (\<exists>x. a = Some x \<and> x \<in> set accounts \<and> truthy requested \<noteq> None)"
  by (auto simp: select_ad_account_def find_Some_iff split: option.splits if_splits)

lemma select_google_account_cases:
  "select_google_account accounts requested = Inr a \<Longrightarrow>
    a = None \<and> truthy requested = None \<or> (\<exists>x. a = Some x \<and> x \<in> set accounts \<and> truthy requested \<noteq> None)"
  by (auto simp: select_google_account_def find_Some_iff split: option.splits)

lemma complete_meta_effect:
  assumes "complete_meta now pv code requested = Inr (f, pending)"
  shows "keeps pv Key_meta f \<and> (\<forall>r. bound_as_requested pv Key_meta requested (ig_external_account_id (f r)) \<and>
    ig_access (f r) \<noteq> None \<and> (pending \<noteq> [] \<longrightarrow> ig_external_account_id (f r) = None))"
proof -
  obtain token accounts a e where f: "f = (\<lambda>r. bind_account a meta_ident ac_name (r\<lparr>ig_access := Some (pv_encrypt pv token), ig_refresh := None,
        ig_expires_at := e, ig_scopes := Some (pv_scopes pv Key_meta)\<rparr>))" "pending = (if a = None then accounts else [])"
      "list_accounts pv Key_meta token = Inr accounts" "select_ad_account accounts requested = Inr a"
    using assms by (auto simp: complete_meta_def bindR_eq_Inr Let_def split: option.splits)
  have "keeps pv Key_meta (\<lambda>r. r\<lparr>ig_access := Some (pv_encrypt pv token), ig_refresh := None, ig_expires_at := e, ig_scopes := Some (pv_scopes pv Key_meta)\<rparr>)"
    by (simp add: keeps_def row_ok_def ig_pair_def REAL_KEYS_def META_KEYS_def)
  from keeps_compose [OF this keeps_bind(1)] f(1) have "keeps pv Key_meta f" by simp
  moreover have "meta_ident \<lparr>ac_account_id = None, ac_id = None, ac_name = None\<rparr> = None" by (simp add: meta_ident_def or_else_def truthy_def)
  ultimately show ?thesis using select_ad_account_cases [OF f(4)] f(1-3)
    by (auto simp: bound_as_requested_def bind_account_def META_KEYS_def split: if_splits) metis
qed

lemma complete_google_effect:
  assumes "complete_google now pv key code requested login = Inr (f, pending)" "key \<in> set GOOGLE_KEYS"
  shows "keeps pv key f \<and> (\<forall>r. bound_as_requested pv key requested (ig_external_account_id (f r)) \<and>
    ig_access (f r) \<noteq> None \<and> (pending \<noteq> [] \<longrightarrow> ig_external_account_id (f r) = None))"
proof -
  obtain tk token accounts a where g: "pv_exchange pv key code = Inr tk" "truthy (tk_access tk) = Some token"
      "list_accounts pv key token = Inr accounts" "select_google_account accounts requested = Inr a"
    using assms(1) by (auto simp: complete_google_def bindR_eq_Inr split: option.splits)
  have f: "f = (\<lambda>r. (\<lambda>r. if key = Key_google_ads \<and> a \<noteq> None then r\<lparr>ig_login_customer_id := login\<rparr> else r)
        (bind_account a ac_id named (r\<lparr>ig_access := Some (pv_encrypt pv token),
           ig_refresh := (case truthy (tk_refresh tk) of None \<Rightarrow> ig_refresh r | Some t \<Rightarrow> Some (pv_encrypt pv t)),
           ig_expires_at := expiry now (tk_expires_in tk), ig_scopes := Some (pv_scopes pv key)\<rparr>)))"
      "pending = (if a = None then accounts else [])"
    using assms(1) g by (simp_all add: complete_google_def)
  have "keeps pv key (\<lambda>r. r\<lparr>ig_access := Some (pv_encrypt pv token),
           ig_refresh := (case truthy (tk_refresh tk) of None \<Rightarrow> ig_refresh r | Some t \<Rightarrow> Some (pv_encrypt pv t)),
           ig_expires_at := expiry now (tk_expires_in tk), ig_scopes := Some (pv_scopes pv key)\<rparr>)"
    using assms(2) by (auto simp: keeps_def row_ok_def ig_pair_def REAL_KEYS_def split: option.split)
  from keeps_compose [OF keeps_compose [OF this keeps_bind(1)] keeps_bind(2)] f(1) have "keeps pv key f" by simp
  moreover have "key \<notin> set META_KEYS" using assms(2) by (auto simp: GOOGLE_KEYS_def META_KEYS_def)
  ultimately show ?thesis using select_google_account_cases [OF g(4)] f g(3)
    by (auto simp: bound_as_requested_def bind_account_def split: if_splits) metis+
qed

lemma complete_linkedin_keeps:
  assumes "complete_linkedin now pv code = Inr (f, pending)"
  shows "keeps pv Key_linkedin f"
proof -
  obtain tk token accounts where g: "pv_exchange pv Key_linkedin code = Inr tk" "truthy (tk_access tk) = Some token"
      "list_accounts pv Key_linkedin token = Inr accounts"
    using assms by (auto simp: complete_linkedin_def bindR_eq_Inr split: option.splits)
  let ?a = "case accounts of [] \<Rightarrow> \<lparr>ac_account_id = None, ac_id = None, ac_name = None\<rparr> | x # xs \<Rightarrow> x"
  have f: "f = (\<lambda>r. bind_account (Some ?a) ac_id named (r\<lparr>ig_access := Some (pv_encrypt pv token),
        ig_refresh := map_option (pv_encrypt pv) (truthy (tk_refresh tk)),
        ig_expires_at := expiry now (tk_expires_in tk), ig_scopes := Some (pv_scopes pv Key_linkedin)\<rparr>))"
    using assms g by (simp add: complete_linkedin_def Let_def)
  have "keeps pv Key_linkedin (\<lambda>r. r\<lparr>ig_access := Some (pv_encrypt pv token),
        ig_refresh := map_option (pv_encrypt pv) (truthy (tk_refresh tk)),
        ig_expires_at := expiry now (tk_expires_in tk), ig_scopes := Some (pv_scopes pv Key_linkedin)\<rparr>)"
    by (simp add: keeps_def row_ok_def ig_pair_def REAL_KEYS_def LINKEDIN_KEYS_def)
  from keeps_compose [OF this keeps_bind(1)] f show ?thesis by simp
qed

lemma complete_keeps:
  assumes "complete now pv key code requested login = Inr (f, pending)" "key \<in> set REAL_KEYS"
  shows "keeps pv key f"
proof (cases key)
  case Key_meta
  with assms complete_meta_effect show ?thesis by (fastforce simp: complete_def META_KEYS_def)
next
  case Key_linkedin
  with assms complete_linkedin_keeps show ?thesis by (fastforce simp: complete_def META_KEYS_def LINKEDIN_KEYS_def)
next
  case Key_ghl
  with assms show ?thesis by (simp add: REAL_KEYS_def META_KEYS_def GOOGLE_KEYS_def LINKEDIN_KEYS_def)
qed (use assms complete_google_effect in \<open>fastforce simp: complete_def META_KEYS_def LINKEDIN_KEYS_def GOOGLE_KEYS_def\<close>)+

lemma try_sync_outcome:
  assumes "try_sync_after_connect now pv cid key h = (res, h')"
  shows "map_option ig_external_account_id (integration_for_client cid key h') = map_option ig_external_account_id (integration_for_client cid key h)"
    "hub_ok pv h \<Longrightarrow> hub_ok pv h'" "hb_agency h' = hb_agency h"
    "\<And>c k. (c, k) \<noteq> (cid, key) \<Longrightarrow> integration_for_client c k h' = integration_for_client c k h"
    "res = Inr r \<Longrightarrow> integration_for_client cid key h' = Some r"
proof -
  obtain res1 h1 where s: "sync_integration now pv cid key h = (res1, h1)" by (cases "sync_integration now pv cid key h")
  from sync_outcome' [OF s] have out: "map_option ig_external_account_id (integration_for_client cid key h1) = map_option ig_external_account_id (integration_for_client cid key h)"
    "hub_ok pv h \<Longrightarrow> hub_ok pv h1" "hb_agency h1 = hb_agency h"
    "\<And>c k. (c, k) \<noteq> (cid, key) \<Longrightarrow> integration_for_client c k h1 = integration_for_client c k h" "\<And>r. res1 = Inr r \<Longrightarrow> integration_for_client cid key h1 = Some r"
    by simp_all
  show "map_option ig_external_account_id (integration_for_client cid key h') = map_option ig_external_account_id (integration_for_client cid key h)"
    "hub_ok pv h \<Longrightarrow> hub_ok pv h'" "hb_agency h' = hb_agency h"
    "\<And>c k. (c, k) \<noteq> (cid, key) \<Longrightarrow> integration_for_client c k h' = integration_for_client c k h"
    "res = Inr r \<Longrightarrow> integration_for_client cid key h' = Some r"
    using assms s out put_row_ok [OF keeps_status(2)]
    by (auto simp: try_sync_after_connect_def Let_def get_put_row [OF keeps_status(2) [of pv key]] ig_get_Inr o_def
        option.map_comp split: sum.splits)
qed


definition ga4_providers :: providers where
  "ga4_providers = sample_providers\<lparr>pv_exchange := (\<lambda>k c. Inr \<lparr>tk_access = Some ''at'', tk_refresh = Some ''rt'', tk_expires_in = Some 3600,
       tk_location_id = None, tk_company_id = None\<rparr>),
     pv_accounts := (\<lambda>k t. Inr [\<lparr>ac_account_id = None, ac_id = Some ''properties/1'', ac_name = None\<rparr>])\<rparr>"


section \<open>All operations keep the rows well formed\<close>

inductive hub_run :: "providers \<Rightarrow> hub \<Rightarrow> bool" for pv where
  start: "hub_run pv \<lparr>hb_rows = [], hb_agency = None, hb_facts = [], hb_spent = [], hb_next_id = 0\<rparr>"
| connect: "hub_run pv h \<Longrightarrow> hub_run pv (connect now cid key data h)"
| disconnect: "hub_run pv h \<Longrightarrow> disconnect cid key h = Inr h' \<Longrightarrow> hub_run pv h'"
| oauth_start: "hub_run pv h \<Longrightarrow> oauth_start n pv cid key h = Inr (u, h') \<Longrightarrow> hub_run pv h'"
| oauth_complete: "hub_run pv h \<Longrightarrow> hub_run pv (snd (oauth_complete now pv cid key code state requested login h))"
| select_account: "hub_run pv h \<Longrightarrow> hub_run pv (snd (select_account now pv cid key requested' login h))"
| sync_integration: "hub_run pv h \<Longrightarrow> hub_run pv (snd (sync_integration now pv cid key h))"
| ghl_oauth_start: "hub_run pv h \<Longrightarrow> ghl_oauth_start n pv h = Inr (u, h') \<Longrightarrow> hub_run pv h'"
| ghl_oauth_complete: "hub_run pv h \<Longrightarrow> hub_run pv (snd (ghl_oauth_complete now pv code state actor h))"
| ghl_disconnect: "hub_run pv h \<Longrightarrow> ghl_disconnect h = Inr h' \<Longrightarrow> hub_run pv h'"
| set_ghl_tags: "hub_run pv h \<Longrightarrow> hub_run pv (snd (set_ghl_tags now pv cid tags h))"
| sync_ghl: "hub_run pv h \<Longrightarrow> hub_run pv (snd (sync_ghl_leads now pv cid days h))"
| fetch_ghl: "hub_run pv h \<Longrightarrow> hub_run pv (snd (fetch_ghl_contacts now pv cid h))"

definition agency_ok :: "providers \<Rightarrow> ghl_connection \<Rightarrow> bool" where
  "agency_ok pv c \<longleftrightarrow> ciphertext pv (gh_access c) \<and> ciphertext pv (gh_refresh c)"

lemma hub_ok_agency: "hub_ok pv h \<Longrightarrow> agency_ok pv c \<Longrightarrow> hub_ok pv (h\<lparr>hb_agency := Some c\<rparr>)"
  by (simp add: hub_ok_def agency_ok_def)

lemma hub_okD: "hub_ok pv h \<Longrightarrow> hb_agency h = Some c \<Longrightarrow> agency_ok pv c"
  by (simp add: hub_ok_def agency_ok_def)

lemma hub_ok_parts [simp]: "hub_ok pv (h\<lparr>hb_facts := fs\<rparr>) = hub_ok pv h" "hub_ok pv (h\<lparr>hb_spent := sp\<rparr>) = hub_ok pv h"
  by (simp_all add: hub_ok_def)

lemma write_row_ok: "hub_ok pv h \<Longrightarrow> hub_ok pv (write_row old new h)"
  by (simp add: write_row_def put_row_ok [OF keeps_status(7)])

lemma write_conn_ok:
  assumes "hub_ok pv h" "agency_ok pv new"
  shows "hub_ok pv (write_conn old new h)"
proof (cases "hb_agency h")
  case None
  with assms(1) show ?thesis by (simp add: hub_ok_def write_conn_def)
next
  case (Some c)
  have "agency_ok pv (merge_conn old new c)"
    using hub_okD [OF assms(1) Some] assms(2) by (simp add: agency_ok_def merge_conn_def moved_def)
  with hub_ok_agency [OF assms(1)] Some show ?thesis by (simp add: write_conn_def)
qed

definition renewed :: "datetime \<Rightarrow> providers \<Rightarrow> ghl_connection \<Rightarrow> tokens \<Rightarrow> string \<Rightarrow> ghl_connection" where
  "renewed now pv c tk a = c\<lparr>gh_access := Some (pv_encrypt pv a),
     gh_refresh := (case truthy (tk_refresh tk) of None \<Rightarrow> gh_refresh c | Some t \<Rightarrow> Some (pv_encrypt pv t)),
     gh_expires_at := expiry now (tk_expires_in tk)\<rparr>"

lemma renewed_ok: "agency_ok pv c \<Longrightarrow> agency_ok pv (renewed now pv c tk a)"
  by (auto simp: agency_ok_def renewed_def split: option.split)

lemma token_outcome:
  assumes "ghl_agency_access_token now pv l h = (res, l', h')"
  obtains "l' = l" "h' = h" | sp where "l' = l" "h' = h\<lparr>hb_spent := sp\<rparr>"
    | tk a sp where "h' = write_conn (gl_conn l) (renewed now pv (gl_conn l) tk a) (h\<lparr>hb_spent := sp\<rparr>)" "l' = reload l h'"
proof (cases "fresh_for (60 * SECOND) now (gh_expires_at (gl_conn l)) \<or> truthy (gh_refresh (gl_conn l)) = None")
  case True
  with assms that(1) show thesis by (simp add: ghl_agency_access_token_def Let_def)
next
  case old: False
  show thesis
  proof (cases "decrypt_opt pv (gh_refresh (gl_conn l))")
    case (Inl e)
    with assms old that(1) show thesis by (simp add: ghl_agency_access_token_def Let_def)
  next
    case r: (Inr r)
    show thesis
    proof (cases "pv_ghl_refresh pv (hb_spent h) r")
      case (Inl e)
      with assms old r that(1) show thesis by (simp add: ghl_agency_access_token_def Let_def)
    next
      case tk: (Inr tk)
      show thesis
      proof (cases "truthy (tk_access tk)")
        case None
        with assms old r tk that(2) [of "hb_spent h @ [r]"] show thesis by (simp add: ghl_agency_access_token_def Let_def)
      next
        case (Some a)
        with assms old r tk show thesis
          by (intro that(3) [of tk a "hb_spent h @ [r]"]) (auto simp: ghl_agency_access_token_def Let_def renewed_def)
      qed
    qed
  qed
qed

lemma pull_ok:
  assumes "hub_ok pv h" "agency_ok pv (gl_conn l)" "ghl_pull now pv l h = (res, l1, h1)"
  shows "hub_ok pv h1 \<and> agency_ok pv (gl_conn l1)"
proof -
  obtain res' l' h' where a: "ghl_agency_access_token now pv l h = (res', l', h')" by (cases "ghl_agency_access_token now pv l h")
  have same: "l1 = l'" "h1 = h'" using assms(3) a by (auto simp: ghl_pull_def split: sum.splits)
  consider "hub_ok pv h'" "l' = l" | c' h0 where "agency_ok pv c'" "hub_ok pv h0" "h' = write_conn (gl_conn l) c' h0" "l' = reload l h'"
    using a
  proof (rule token_outcome)
    fix tk a' sp
    assume "h' = write_conn (gl_conn l) (renewed now pv (gl_conn l) tk a') (h\<lparr>hb_spent := sp\<rparr>)" "l' = reload l h'"
    with that(2) [OF renewed_ok [OF assms(2)], of "h\<lparr>hb_spent := sp\<rparr>" now tk a'] assms(1) show thesis by simp
  qed (use assms(1) that(1) in auto)
  then show ?thesis
  proof cases
    case 1
    with same assms show ?thesis by simp
  next
    case 2
    have "hub_ok pv h'" using write_conn_ok [OF 2(2,1)] 2(3) by simp
    moreover from this have "agency_ok pv (gl_conn l')" using hub_okD assms(2) by (auto simp: 2(4) reload_def split: option.split)
    ultimately show ?thesis using same by simp
  qed
qed

lemma record_ghl_failure_ok: "hub_ok pv h \<Longrightarrow> agency_ok pv (gl_conn l) \<Longrightarrow> hub_ok pv (record_ghl_failure l e h)"
  by (simp add: record_ghl_failure_def write_row_ok write_conn_ok agency_ok_def)

lemma sync_ghl_ok:
  assumes "hub_ok pv h"
  shows "hub_ok pv (snd (sync_ghl_leads now pv cid days h))"
proof (cases "ghl_load cid h")
  case (Inr l)
  obtain res l1 h1 where p: "ghl_pull now pv l h = (res, l1, h1)" by (cases "ghl_pull now pv l h")
  have "agency_ok pv (gl_conn l)" using load_conn [OF Inr] hub_okD [OF assms] by simp
  from pull_ok [OF assms this p] p Inr show ?thesis
    by (cases res) (simp_all add: sync_ghl_leads_def sync_ghl_from_def Let_def record_ghl_failure_ok write_row_ok write_conn_ok agency_ok_def)
qed (use assms in \<open>simp add: sync_ghl_leads_def\<close>)

lemma fetch_ghl_ok:
  assumes "hub_ok pv h"
  shows "hub_ok pv (snd (fetch_ghl_contacts now pv cid h))"
proof (cases "ghl_load cid h")
  case (Inr l)
  obtain res l1 h1 where p: "ghl_pull now pv l h = (res, l1, h1)" by (cases "ghl_pull now pv l h")
  have "agency_ok pv (gl_conn l)" using load_conn [OF Inr] hub_okD [OF assms] by simp
  from pull_ok [OF assms this p] p Inr show ?thesis
    by (cases res) (simp_all add: fetch_ghl_contacts_def record_ghl_failure_ok write_row_ok)
qed (use assms in \<open>simp add: fetch_ghl_contacts_def\<close>)

lemma sync_all_ok: "hub_ok pv h \<Longrightarrow> hub_ok pv (sync_all_tagged now pv h)"
proof -
  have "hub_ok pv (foldl (\<lambda>h r. if ig_ghl_tags r \<in> {None, Some []} then h else snd (sync_ghl_leads now pv (ig_client_id r) 30 h)) h rs)"
    if "hub_ok pv h" for rs
    using that by (induction rs arbitrary: h) (auto simp: sync_ghl_ok)
  then show "hub_ok pv h \<Longrightarrow> hub_ok pv (sync_all_tagged now pv h)" unfolding sync_all_tagged_def by blast
qed

lemma oauth_complete_ok:
  assumes "hub_ok pv h"
  shows "hub_ok pv (snd (oauth_complete now pv cid key code state requested login h))"
proof -
  let ?pre = "bindR (require_real key) (\<lambda>u. bindR (verify_state (pv_mac pv) (nat (now div SECOND)) state cid key) (\<lambda>ok.
           bindR (ensure ok (bad_request ''Invalid or expired OAuth state.'')) (\<lambda>u. complete now pv key code requested login)))"
  show ?thesis
  proof (cases ?pre)
    case (Inl e)
    with assms show ?thesis by (simp add: oauth_complete_def)
  next
    case (Inr fp)
    obtain f pending where fp: "fp = (f, pending)" by (cases fp)
    have "keeps pv key f" using Inr fp complete_keeps [of now pv key code requested login f pending]
      by (auto simp: result_simps require_real_def)
    from keeps_compose [OF this keeps_status(2) [of pv key]]
    have g: "keeps pv key (\<lambda>r. (f r)\<lparr>ig_status := Int_connected, ig_last_error := None\<rparr>)" by simp
    let ?h1 = "put_row cid key (\<lambda>r. (f r)\<lparr>ig_status := Int_connected, ig_last_error := None\<rparr>) (upsert cid key h)"
    have h1: "hub_ok pv ?h1" using put_row_ok [OF g upsert_ok [OF assms]] .
    obtain res h2 where t: "try_sync_after_connect now pv cid key ?h1 = (res, h2)" by (cases "try_sync_after_connect now pv cid key ?h1")
    have "hub_ok pv h2" using try_sync_outcome(2) [OF t h1] .
    with h1 t Inr fp show ?thesis by (cases res) (simp_all add: oauth_complete_def Let_def)
  qed
qed

lemma refreshed_token_ok:
  assumes "hub_ok pv h" "ig_key r \<in> set REAL_KEYS" "refreshed_token now pv r h = (res, h')"
  shows "hub_ok pv h'"
  using assms(3) put_row_ok [OF keeps_token [OF assms(2)] assms(1)] assms(1)
  by (auto simp: refreshed_token_def split: if_splits sum.splits option.splits)

lemma select_account_ok:
  assumes "hub_ok pv h"
  shows "hub_ok pv (snd (select_account now pv cid key requested login h))"
proof -
  let ?pre = "bindR (ensure (key \<in> set (META_KEYS @ GOOGLE_KEYS)) (bad_request ''Ad account selection is not available for this provider.''))
         (\<lambda>u. bindR (ig_get cid key h) (\<lambda>r.
           bindR (ensure (ig_status r = Int_connected \<and> truthy (ig_access r) \<noteq> None)
             (bad_request ''Integration is not connected -- run OAuth first.'')) (\<lambda>u. Inr r)))"
  show ?thesis
  proof (cases ?pre)
    case (Inl e)
    with assms show ?thesis by (simp add: select_account_def)
  next
    case (Inr r)
    have key: "ig_key r = key" "key \<in> set REAL_KEYS"
      using Inr integration_for_client_pair [of cid key h r] by (auto simp: result_simps ig_get_Inr REAL_KEYS_def)
    obtain t h1 where t: "(if key \<in> set META_KEYS then (decrypt_opt pv (ig_access r), h) else refreshed_token now pv r h) = (t, h1)"
      by (cases "if key \<in> set META_KEYS then (decrypt_opt pv (ig_access r), h) else refreshed_token now pv r h")
    have h1: "hub_ok pv h1" using t assms refreshed_token_ok [OF assms _ , of r now t h1] key by (auto split: if_splits)
    let ?bind = "\<lambda>token. bindR (list_accounts pv key token) (\<lambda>accounts.
                   if key \<in> set META_KEYS
                   then bindR (select_ad_account accounts (Some requested)) (\<lambda>a.
                     case a of
                       None \<Rightarrow> Inl (bad_request ''The requested Meta ad account isn't accessible to the authorized user.'')
                     | Some x \<Rightarrow>
                         if x = \<lparr>ac_account_id = None, ac_id = None, ac_name = None\<rparr>
                         then Inl (bad_request ''The requested Meta ad account isn't accessible to the authorized user.'')
                         else Inr (bind_account (Some x) meta_ident ac_name))
                   else bindR (select_google_account accounts (Some requested)) (\<lambda>a.
                     case a of
                       None \<Rightarrow> Inl (bad_request ''The requested Google account isn't accessible to the authorized user.'')
                     | Some x \<Rightarrow> Inr (\<lambda>r. (\<lambda>r. if key = Key_google_ads then r\<lparr>ig_login_customer_id := login\<rparr> else r)
                         (bind_account (Some x) ac_id named r))))"
    have keeps: "keeps pv key f" if "?bind token = Inr f" for token f
      using that keeps_bind(1) keeps_compose [OF keeps_bind(1) keeps_bind(2)]
      by (auto simp: bindR_eq_Inr split: if_splits option.splits)
    have done': "hub_ok pv (snd (try_sync_after_connect now pv cid key (put_row cid key f h1)))" if "?bind token = Inr f" for token f
      using try_sync_outcome(2) [OF prod.collapse [symmetric] put_row_ok [OF keeps [OF that] h1]] .
    show ?thesis
    proof (cases t)
      case (Inl e)
      with Inr t h1 show ?thesis by (simp add: select_account_def)
    next
      case token: (Inr token)
      show ?thesis
      proof (cases "?bind token")
        case (Inl e)
        with Inr t h1 token show ?thesis by (simp add: select_account_def)
      next
        case (Inr f)
        with \<open>?pre = Inr r\<close> t token done' [OF Inr] show ?thesis by (simp add: select_account_def)
      qed
    qed
  qed
qed

lemma set_ghl_tags_ok: "hub_ok pv h \<Longrightarrow> hub_ok pv (snd (set_ghl_tags now pv cid tags h))"
  by (auto simp: set_ghl_tags_def Let_def intro!: sync_ghl_ok put_row_ok [OF keeps_status(6)] upsert_ok)

lemma ghl_oauth_complete_ok:
  assumes "hub_ok pv h"
  shows "hub_ok pv (snd (ghl_oauth_complete now pv code state actor h))"
proof -
  have "hub_ok pv (h\<lparr>hb_agency := Some c\<rparr>)" if "agency_ok pv c" for c using hub_ok_agency [OF assms that] .
  then show ?thesis using assms
    by (auto simp: ghl_oauth_complete_def Let_def agency_ok_def split: sum.split intro!: sync_all_ok)
qed

lemma connection_or_new_ok: "hub_ok pv h \<Longrightarrow> agency_ok pv (connection_or_new h)"
  using hub_okD by (auto simp: connection_or_new_def new_connection_def agency_ok_def split: option.split)

text \<open>
  C27. Over any sequence of connections, authorizations, account choices, synchronisations and
  disconnections of any clients, there is at most one row per client and provider, every stored token, of a
  client or of the agency, is a ciphertext, only providers with an authorization flow have tokens, and a
  disconnection leaves the row without any.
\<close>

theorem connections_well_formed:
  assumes "hub_run pv h"
  shows "hub_ok pv h \<and> (case disconnect cid key h of
     Inr h' \<Rightarrow> (case integration_for_client cid key h' of None \<Rightarrow> False | Some r \<Rightarrow> ig_status r = Int_disconnected \<and> ig_access r = None \<and> ig_refresh r = None)
   | Inl e \<Rightarrow> integration_for_client cid key h = None)"
proof
  show "hub_ok pv h"
    using assms
  proof induction
    case start
    then show ?case by (simp add: hub_ok_def)
  next
    case (connect h now cid key data)
    then show ?case by (simp add: connect_def put_row_ok [OF keeps_status(5)] upsert_ok)
  next
    case (disconnect h cid key h')
    then show ?case by (auto simp: disconnect_def bindR_eq_Inr intro: put_row_ok [OF keeps_status(4)])
  next
    case (oauth_start h n cid key u h')
    then show ?case by (auto simp: oauth_start_def bindR_eq_Inr Let_def intro: put_row_ok [OF keeps_status(1)] upsert_ok)
  next
    case (sync_integration h now cid key)
    then show ?case using sync_outcome' [OF prod.collapse [symmetric]] by blast
  next
    case (ghl_oauth_start h n u h')
    then show ?case using hub_ok_agency [of pv h "(connection_or_new h)\<lparr>gh_status := Int_pending\<rparr>"] connection_or_new_ok [of pv h]
      by (auto simp: ghl_oauth_start_def bindR_eq_Inr Let_def agency_ok_def)
  next
    case (ghl_disconnect h h')
    then show ?case using hub_ok_agency [of pv h] by (auto simp: ghl_disconnect_def agency_ok_def split: option.splits)
  qed (simp_all add: oauth_complete_ok select_account_ok ghl_oauth_complete_ok set_ghl_tags_ok sync_ghl_ok fetch_ghl_ok)
  show "case disconnect cid key h of
     Inr h' \<Rightarrow> (case integration_for_client cid key h' of None \<Rightarrow> False | Some r \<Rightarrow> ig_status r = Int_disconnected \<and> ig_access r = None \<and> ig_refresh r = None)
   | Inl e \<Rightarrow> integration_for_client cid key h = None"
    by (cases "integration_for_client cid key h") (simp_all add: disconnect_def ig_get_def get_put_row [OF keeps_status(4)])
qed

theorem connections_well_formed_witness:
  "(let h = snd (oauth_complete 0 ga4_providers 9 Key_ga4 ''code'' (sign_state (\<lambda>s. ''0f'') 0 9 Key_ga4) None None
       \<lparr>hb_rows = [], hb_agency = None, hb_facts = [], hb_spent = [], hb_next_id = 0\<rparr>) in
     hub_ok ga4_providers h \<and> map ig_access (hb_rows h) = [Some ''*at''])"
proof -
  let ?h = "snd (oauth_complete 0 ga4_providers 9 Key_ga4 ''code'' (sign_state (\<lambda>s. ''0f'') 0 9 Key_ga4) None None
       \<lparr>hb_rows = [], hb_agency = None, hb_facts = [], hb_spent = [], hb_next_id = 0\<rparr>)"
  have "hub_run ga4_providers ?h" by (rule hub_run.oauth_complete, rule hub_run.start)
  from connections_well_formed [OF this] have "hub_ok ga4_providers ?h" by blast
  moreover have "map ig_access (hb_rows ?h) = [Some ''*at'']" by code_simp
  ultimately show ?thesis by (simp add: Let_def)
qed

text \<open>
  Starting an authorization again marks a working connection as pending, and only connected ones are
  synchronised: until the flow is finished the client's numbers stand still.
\<close>

lemma restart_stops_sync:
  assumes "oauth_start n pv cid key h = Inr (u, h')"
  shows "\<exists>e. sync_integration now pv cid key h' = (Inl e, h')"
proof -
  obtain r where "integration_for_client cid key h' = Some r" "ig_status r = Int_pending" "key \<in> set REAL_KEYS"
    using assms by (cases "integration_for_client cid key h")
      (auto simp: oauth_start_def bindR_eq_Inr Let_def require_real_def ensure_eq_Inr get_put_row [OF keeps_status(1) [of pv key]] upsert_get)
  then show ?thesis by (simp add: sync_integration_def require_real_def ig_get_def sync_ready_def)
qed

end
