(* ===== verification/Dates.thy ===== *)
theory Dates
  imports Prelude
begin

text \<open>
  Calendar days, as the services use Python's \<^verbatim>\<open>datetime.date\<close> and \<^verbatim>\<open>calendar\<close>: a
  day is its proleptic Gregorian ordinal, day 1 the first of January of year 1. Reading and writing ISO
  text, and the month windows of the calendar, the plan generator and the scheduler.
\<close>

section \<open>The Gregorian calendar\<close>

definition leap :: "int \<Rightarrow> bool" where
  "leap y \<longleftrightarrow> y mod 4 = 0 \<and> (y mod 100 \<noteq> 0 \<or> y mod 400 = 0)"

definition days_in_month :: "int \<Rightarrow> int \<Rightarrow> int" where
  "days_in_month y m = (if m = 2 then (if leap y then 29 else 28)
     else if m \<in> {4, 6, 9, 11} then 30 else 31)"

definition days_before_year :: "int \<Rightarrow> int" where
  "days_before_year y = (y - 1) * 365 + (y - 1) div 4 - (y - 1) div 100 + (y - 1) div 400"

fun months_before :: "int \<Rightarrow> nat \<Rightarrow> int" where
  "months_before y 0 = 0"
| "months_before y (Suc k) = months_before y k + days_in_month y (int (Suc k))"

definition valid_ymd :: "int \<Rightarrow> int \<Rightarrow> int \<Rightarrow> bool" where
  "valid_ymd y m d \<longleftrightarrow> 1 \<le> y \<and> y \<le> 9999 \<and> 1 \<le> m \<and> m \<le> 12 \<and> 1 \<le> d \<and> d \<le> days_in_month y m"

definition ordinal :: "int \<Rightarrow> int \<Rightarrow> int \<Rightarrow> date" where
  "ordinal y m d = days_before_year y + months_before y (nat (m - 1)) + d"

text \<open>\<^verbatim>\<open>date(y, m, d)\<close>, which raises on a day that is not in the calendar.\<close>

definition mk_date :: "int \<Rightarrow> int \<Rightarrow> int \<Rightarrow> date option" where
  "mk_date y m d = (if valid_ymd y m d then Some (ordinal y m d) else None)"

definition MAX_ORDINAL :: int where
  "MAX_ORDINAL = 3652059"

definition year_of :: "date \<Rightarrow> int" where
  "year_of n = (let g = (n - 1) * 400 div 146097 + 1 in if days_before_year (g + 1) < n then g + 1 else g)"

fun month_from :: "int \<Rightarrow> int \<Rightarrow> nat \<Rightarrow> int" where
  "month_from y n 0 = 1"
| "month_from y n (Suc k) = (if months_before y (Suc k) < n then int (Suc (Suc k)) else month_from y n k)"

definition month_of :: "date \<Rightarrow> int" where
  "month_of n = (let y = year_of n in month_from y (n - days_before_year y) 11)"

definition day_of :: "date \<Rightarrow> int" where
  "day_of n = n - days_before_year (year_of n) - months_before (year_of n) (nat (month_of n - 1))"

lemma days_in_month_bounds: "28 \<le> days_in_month y m" "days_in_month y m \<le> 31"
  by (auto simp: days_in_month_def)

lemma div_pred:
  assumes "0 < (n :: int)"
  shows "(y - 1) div n = y div n - (if y mod n = 0 then 1 else 0)"
proof (cases "y mod n = 0")
  case True
  have "y - 1 = n * (y div n - 1) + (n - 1)"
    using mult_div_mod_eq [of n y] True by (simp add: algebra_simps)
  then have "(y - 1) div n = y div n - 1" by (rule int_div_pos_eq) (use assms in simp_all)
  with True show ?thesis by simp
next
  case False
  have "y - 1 = n * (y div n) + (y mod n - 1)" using mult_div_mod_eq [of n y] by simp
  then have "(y - 1) div n = y div n"
    by (rule int_div_pos_eq) (use assms False pos_mod_bound [of n y] pos_mod_sign [of n y] in linarith)+
  with False show ?thesis by simp
qed

lemma days_before_Suc_year: "days_before_year (y + 1) = days_before_year y + (if leap y then 366 else 365)"
proof -
  have m: "y mod 100 = 0 \<Longrightarrow> y mod 4 = 0" "y mod 400 = 0 \<Longrightarrow> y mod 100 = 0" by presburger+
  show ?thesis using m by (auto simp: days_before_year_def leap_def div_pred)
qed

lemma year_days: "months_before y 12 = (if leap y then 366 else 365)"
  by (simp add: eval_nat_numeral days_in_month_def)

lemma months_before_mono: "i \<le> j \<Longrightarrow> months_before y i \<le> months_before y j"
proof (induction j)
  case (Suc j)
  then show ?case using days_in_month_bounds(1) [of y "int (Suc j)"] by (cases "i = Suc j") auto
qed simp

lemma year_guess_low:
  fixes K :: int
  assumes "146097 * g \<le> m * 400" "m < 365 * K + a - b + c" "4 * a \<le> K" "K < 100 * b + 100" "400 * c \<le> K"
  shows "g < K"
  using assms by linarith

lemma year_guess_high:
  fixes K :: int
  assumes "m * 400 < 146097 * g + 146097" "365 * K + a - b + c \<le> m" "K < 4 * a + 4" "100 * b \<le> K" "K < 400 * c + 400"
  shows "K - 1 \<le> g"
  using assms by linarith

lemma year_of_unique:
  assumes "days_before_year y < n" "n \<le> days_before_year (y + 1)"
  shows "year_of n = y"
proof -
  define k where "k = y - 1"
  define g where "g = (n - 1) * 400 div 146097"
  have lo: "365 * k + k div 4 - k div 100 + k div 400 \<le> n - 1"
    using assms(1) by (simp add: days_before_year_def k_def)
  have hi: "n - 1 < 365 * (k + 1) + (k + 1) div 4 - (k + 1) div 100 + (k + 1) div 400"
    using assms(2) by (simp add: days_before_year_def k_def)
  have q: "4 * (x div 4) \<le> x" "x < 4 * (x div 4) + 4" "100 * (x div 100) \<le> x" "x < 100 * (x div 100) + 100"
      "400 * (x div 400) \<le> x" "x < 400 * (x div 400) + 400" for x :: int
    by presburger+
  have g: "146097 * g \<le> (n - 1) * 400" "(n - 1) * 400 < 146097 * g + 146097"
    using mult_div_mod_eq [of 146097 "(n - 1) * 400"] pos_mod_bound [of 146097 "(n - 1) * 400"]
      pos_mod_sign [of 146097 "(n - 1) * 400"] unfolding g_def by linarith+
  have "g < k + 1" by (rule year_guess_low [OF g(1) hi q(1) q(4) q(5)])
  moreover have "k - 1 \<le> g" by (rule year_guess_high [OF g(2) lo q(2) q(3) q(6)])
  ultimately have "g = k \<or> g = k - 1" by linarith
  then have "g + 1 = y \<or> g + 1 = y - 1" by (simp add: k_def) arith
  moreover have "\<not> days_before_year (y + 1) < n" using assms(2) by simp
  ultimately show ?thesis using assms(1) by (auto simp: year_of_def g_def Let_def)
qed

lemma month_from_unique:
  assumes "months_before y k < n" "n \<le> months_before y (Suc k)" "k \<le> j"
  shows "month_from y n j = int (Suc k)"
  using assms(3)
proof (induction j)
  case 0 then show ?case by simp
next
  case (Suc j)
  show ?case
  proof (cases "k = Suc j")
    case True then show ?thesis using assms(1) by simp
  next
    case False
    then have "Suc k \<le> Suc j" using Suc.prems by simp
    from months_before_mono [OF this, of y] assms(2) have "\<not> months_before y (Suc j) < n" by linarith
    then show ?thesis using Suc False by simp
  qed
qed

lemma months_before_bound: "m < 12 \<Longrightarrow> months_before y m + days_in_month y (int (Suc m)) \<le> months_before y 12"
  using months_before_mono [of "Suc m" 12 y] by simp

lemma ordinal_bounds:
  assumes "valid_ymd y m d"
  shows "days_before_year y < ordinal y m d" "ordinal y m d \<le> days_before_year (y + 1)"
proof -
  obtain k where k: "m = int (Suc k)" "k < 12"
    using assms by (intro that [of "nat (m - 1)"]) (auto simp: valid_ymd_def)
  then have n: "nat (m - 1) = k" by simp
  have "0 \<le> months_before y k" using months_before_mono [of 0 k y] by simp
  then show "days_before_year y < ordinal y m d" using assms by (simp add: ordinal_def n valid_ymd_def)
  show "ordinal y m d \<le> days_before_year (y + 1)"
    using months_before_bound [OF k(2), of y] assms
    by (simp add: ordinal_def n valid_ymd_def days_before_Suc_year year_days k(1))
qed

text \<open>An ordinal determines its year, month and day.\<close>

lemma ymd_of_ordinal:
  assumes "valid_ymd y m d"
  shows "year_of (ordinal y m d) = y" "month_of (ordinal y m d) = m" "day_of (ordinal y m d) = d"
proof -
  show y: "year_of (ordinal y m d) = y" by (rule year_of_unique [OF ordinal_bounds [OF assms]])
  obtain k where k: "m = int (Suc k)" "k \<le> 11"
    using assms by (intro that [of "nat (m - 1)"]) (auto simp: valid_ymd_def)
  then have n: "nat (m - 1) = k" by simp
  show m: "month_of (ordinal y m d) = m"
  proof -
    have "ordinal y m d - days_before_year y = months_before y k + d" by (simp add: ordinal_def n)
    moreover have "month_from y (months_before y k + d) 11 = int (Suc k)"
      by (rule month_from_unique) (use assms k in \<open>simp_all add: valid_ymd_def\<close>)
    ultimately show ?thesis unfolding month_of_def y Let_def by (simp add: k(1))
  qed
  show "day_of (ordinal y m d) = d" by (simp add: day_of_def y m) (simp add: ordinal_def)
qed

lemma find_year:
  assumes "0 < n" "n \<le> days_before_year (1 + int N)"
  shows "\<exists>y. 1 \<le> y \<and> y \<le> int N \<and> days_before_year y < n \<and> n \<le> days_before_year (y + 1)"
  using assms(2)
proof (induction N)
  case 0 then show ?case using assms(1) by (simp add: days_before_year_def)
next
  case (Suc N)
  show ?case
  proof (cases "n \<le> days_before_year (1 + int N)")
    case True then show ?thesis using Suc.IH by (auto intro: exI)
  next
    case False
    then show ?thesis using Suc.prems by (intro exI [of _ "1 + int N"]) (auto simp: add.commute)
  qed
qed

lemma find_month:
  assumes "0 < x" "x \<le> months_before y j"
  shows "\<exists>k<j. months_before y k < x \<and> x \<le> months_before y (Suc k)"
  using assms(2)
proof (induction j)
  case 0 then show ?case using assms(1) by simp
next
  case (Suc j)
  show ?case
  proof (cases "x \<le> months_before y j")
    case True then show ?thesis using Suc.IH less_SucI by blast
  next
    case False
    then show ?thesis using Suc.prems by (intro exI [of _ j]) (auto simp del: months_before.simps)
  qed
qed

text \<open>Every day of the supported range is a valid year, month and day.\<close>

lemma ordinal_of_ymd:
  assumes "1 \<le> n" "n \<le> MAX_ORDINAL"
  shows "valid_ymd (year_of n) (month_of n) (day_of n)" "ordinal (year_of n) (month_of n) (day_of n) = n"
proof -
  have "n \<le> days_before_year (1 + int 9999)"
    using assms(2) by (simp add: MAX_ORDINAL_def days_before_year_def)
  with assms(1) obtain y where y: "1 \<le> y" "y \<le> 9999" "days_before_year y < n" "n \<le> days_before_year (y + 1)"
    using find_year [of n 9999] by auto
  have "n - days_before_year y \<le> months_before y 12" using y(4) by (simp only: days_before_Suc_year year_days)
  with y(3) obtain k where k: "k < 12" "months_before y k < n - days_before_year y"
      "n - days_before_year y \<le> months_before y (Suc k)"
    using find_month [of "n - days_before_year y" y 12] by auto
  define d where "d = n - days_before_year y - months_before y k"
  have v: "valid_ymd y (int (Suc k)) d" using y k by (simp add: valid_ymd_def d_def)
  have n: "ordinal y (int (Suc k)) d = n" by (simp add: ordinal_def d_def)
  from v ymd_of_ordinal [OF v, unfolded n] n
  show "valid_ymd (year_of n) (month_of n) (day_of n)" "ordinal (year_of n) (month_of n) (day_of n) = n"
    by simp_all
qed

section \<open>ISO text\<close>

text \<open>A number in a field of \<open>k\<close> digits, and reading one back: digits only.\<close>

definition digit_char :: "int \<Rightarrow> char" where
  "digit_char n = char_of (48 + nat n)"

definition char_digit :: "char \<Rightarrow> int option" where
  "char_digit c = (let n = (of_char c :: nat) in if 48 \<le> n \<and> n \<le> 57 then Some (int n - 48) else None)"

fun field_text :: "nat \<Rightarrow> int \<Rightarrow> string" where
  "field_text 0 n = []"
| "field_text (Suc k) n = field_text k (n div 10) @ [digit_char (n mod 10)]"

fun field_value :: "int \<Rightarrow> string \<Rightarrow> int option" where
  "field_value acc [] = Some acc"
| "field_value acc (c # cs) = (case char_digit c of None \<Rightarrow> None | Some v \<Rightarrow> field_value (acc * 10 + v) cs)"

text \<open>
  The Monday of ISO week 1, the week with the year's first Thursday; day 1 is a Monday. A year has 53
  weeks when it begins on a Thursday, or on a Wednesday and is a leap year.
\<close>

definition week1_monday :: "int \<Rightarrow> date" where
  "week1_monday y = (let jan1 = ordinal y 1 1; wd = (jan1 + 6) mod 7 in
     if wd > 3 then jan1 - wd + 7 else jan1 - wd)"

definition mk_week_date :: "int \<Rightarrow> int \<Rightarrow> int \<Rightarrow> date option" where
  "mk_week_date y w d =
     (let wd = (ordinal y 1 1 + 6) mod 7; n = week1_monday y + (w - 1) * 7 + d - 1 in
      if 1 \<le> y \<and> y \<le> 9999 \<and> 1 \<le> w \<and> (w \<le> 52 \<or> w = 53 \<and> (wd = 3 \<or> wd = 2 \<and> leap y)) \<and> 1 \<le> d \<and> d \<le> 7 \<and>
        1 \<le> n \<and> n \<le> MAX_ORDINAL
      then Some n else None)"

definition slice :: "nat \<Rightarrow> nat \<Rightarrow> string \<Rightarrow> string" where
  "slice i j s = take (j - i) (drop i s)"

definition num_field :: "nat \<Rightarrow> nat \<Rightarrow> string \<Rightarrow> int option" where
  "num_field i j s = field_value 0 (slice i j s)"

definition fields3 :: "(int \<Rightarrow> int \<Rightarrow> int \<Rightarrow> 'a option) \<Rightarrow> int option \<Rightarrow> int option \<Rightarrow> int option \<Rightarrow> 'a option" where
  "fields3 f a b c = (case (a, b, c) of (Some x, Some y, Some z) \<Rightarrow> f x y z | _ \<Rightarrow> None)"

text \<open>
  \<^verbatim>\<open>date.fromisoformat\<close> (Python 3.11): \<^verbatim>\<open>YYYY-MM-DD\<close>, \<^verbatim>\<open>YYYYMMDD\<close>,
  \<^verbatim>\<open>YYYY-Www-D\<close>, \<^verbatim>\<open>YYYYWwwD\<close>, and a week alone for its Monday; \<open>None\<close> is the
  \<^verbatim>\<open>ValueError\<close>.
\<close>

definition date_fromisoformat :: "string \<Rightarrow> date option" where
  "date_fromisoformat s =
     (if length s = 10 \<and> s ! 4 = CHR ''-'' \<and> s ! 5 = CHR ''W'' \<and> s ! 8 = CHR ''-''
      then fields3 mk_week_date (num_field 0 4 s) (num_field 6 8 s) (num_field 9 10 s)
      else if length s = 10 \<and> s ! 4 = CHR ''-'' \<and> s ! 7 = CHR ''-''
      then fields3 mk_date (num_field 0 4 s) (num_field 5 7 s) (num_field 8 10 s)
      else if length s = 8 \<and> s ! 4 = CHR ''-'' \<and> s ! 5 = CHR ''W''
      then fields3 mk_week_date (num_field 0 4 s) (num_field 6 8 s) (Some 1)
      else if length s = 8 \<and> s ! 4 = CHR ''W''
      then fields3 mk_week_date (num_field 0 4 s) (num_field 5 7 s) (num_field 7 8 s)
      else if length s = 8
      then fields3 mk_date (num_field 0 4 s) (num_field 4 6 s) (num_field 6 8 s)
      else if length s = 7 \<and> s ! 4 = CHR ''W''
      then fields3 mk_week_date (num_field 0 4 s) (num_field 5 7 s) (Some 1)
      else None)"

text \<open>\<^verbatim>\<open>d.isoformat()\<close>\<close>

definition isoformat :: "date \<Rightarrow> string" where
  "isoformat n = field_text 4 (year_of n) @ ''-'' @ field_text 2 (month_of n) @ ''-'' @ field_text 2 (day_of n)"

lemma char_digit_char [simp]: "0 \<le> n \<Longrightarrow> n < 10 \<Longrightarrow> char_digit (digit_char n) = Some n"
proof -
  assume "0 \<le> n" "n < 10"
  then obtain k where "n = int k" "k < 10" by (metis nat_less_iff nonneg_int_cases numeral_less_iff nat_int of_nat_numeral zless_nat_eq_int_zless)
  then show ?thesis by (simp add: char_digit_def digit_char_def Let_def)
qed

lemma length_field_text [simp]: "length (field_text k n) = k"
  by (induction k arbitrary: n) simp_all

lemma field_value_append:
  "field_value a (xs @ ys) = (case field_value a xs of None \<Rightarrow> None | Some b \<Rightarrow> field_value b ys)"
  by (induction xs arbitrary: a) (auto split: option.splits)

lemma field_value_text: "0 \<le> n \<Longrightarrow> n < 10 ^ k \<Longrightarrow> field_value a (field_text k n) = Some (a * 10 ^ k + n)"
proof (induction k arbitrary: n a)
  case (Suc k)
  have "n div 10 < 10 ^ k" using Suc.prems by simp
  moreover have "0 \<le> n div 10" using Suc.prems by simp
  ultimately have ih: "field_value a (field_text k (n div 10)) = Some (a * 10 ^ k + n div 10)" by (rule Suc.IH [rotated])
  have "(a * 10 ^ k + n div 10) * 10 + n mod 10 = a * 10 ^ Suc k + n"
    using mult_div_mod_eq [of 10 n] by (simp add: algebra_simps)
  with ih show ?case by (simp add: field_value_append)
qed simp

lemma first_digit_not_W: "0 \<le> n \<Longrightarrow> n < 100 \<Longrightarrow> field_text 2 n ! 0 \<noteq> CHR ''W''"
proof
  assume n: "0 \<le> n" "n < 100" and "field_text 2 n ! 0 = CHR ''W''"
  then have "digit_char (n div 10 mod 10) = CHR ''W''" by (simp add: eval_nat_numeral)
  moreover have "char_digit (digit_char (n div 10 mod 10)) = Some (n div 10 mod 10)" by simp
  moreover have "char_digit (CHR ''W'') = None" by (simp add: char_digit_def)
  ultimately show False by simp
qed

lemma fromisoformat_isoformat:
  assumes "1 \<le> n" "n \<le> MAX_ORDINAL"
  shows "date_fromisoformat (isoformat n) = Some n"
proof -
  let ?y = "year_of n" and ?m = "month_of n" and ?d = "day_of n"
  have v: "valid_ymd ?y ?m ?d" and n: "ordinal ?y ?m ?d = n" using ordinal_of_ymd [OF assms] by simp_all
  have b: "0 \<le> ?y" "?y < 10 ^ 4" "0 \<le> ?m" "?m < 10 ^ 2" "0 \<le> ?d" "?d < 10 ^ 2"
    using v days_in_month_bounds(2) [of ?y ?m] by (auto simp: valid_ymd_def)
  have 5: "isoformat n ! 5 = field_text 2 ?m ! 0"
    by (simp add: isoformat_def nth_append)
  have w: "isoformat n ! 5 \<noteq> CHR ''W''" unfolding 5 by (rule first_digit_not_W) (use b in simp_all)
  have s: "slice 0 4 (isoformat n) = field_text 4 ?y" "slice 5 7 (isoformat n) = field_text 2 ?m"
      "slice 8 10 (isoformat n) = field_text 2 ?d"
    by (simp_all add: slice_def isoformat_def)
  have f: "num_field 0 4 (isoformat n) = Some ?y" "num_field 5 7 (isoformat n) = Some ?m"
      "num_field 8 10 (isoformat n) = Some ?d"
    using field_value_text [OF b(1,2), of 0] field_value_text [OF b(3,4), of 0] field_value_text [OF b(5,6), of 0]
    by (simp_all add: num_field_def s del: field_text.simps)
  have l: "length (isoformat n) = 10" "isoformat n ! 4 = CHR ''-''" "isoformat n ! 7 = CHR ''-''"
    by (simp_all add: isoformat_def nth_append)
  show ?thesis
    unfolding date_fromisoformat_def f using w l by (simp add: fields3_def mk_date_def v n)
qed

section \<open>Months\<close>

text \<open>The first and last day of a month; \<^verbatim>\<open>calendar.monthrange\<close> refuses a month that is none.\<close>

definition month_window :: "int \<Rightarrow> int \<Rightarrow> (date \<times> date) option" where
  "month_window y m = (case (mk_date y m 1, mk_date y m (days_in_month y m)) of
     (Some a, Some b) \<Rightarrow> Some (a, b) | _ \<Rightarrow> None)"

text \<open>The window of a month holds exactly the days of that month.\<close>

lemma month_window_exact:
  assumes "month_window y m = Some (a, b)" "1 \<le> n" "n \<le> MAX_ORDINAL"
  shows "a \<le> n \<and> n \<le> b \<longleftrightarrow> year_of n = y \<and> month_of n = m"
proof -
  have v: "valid_ymd y m 1" "valid_ymd y m (days_in_month y m)" and ab: "a = ordinal y m 1" "b = ordinal y m (days_in_month y m)"
    using assms(1) by (auto simp: month_window_def mk_date_def split: if_splits)
  show ?thesis
  proof
    assume "a \<le> n \<and> n \<le> b"
    then have "valid_ymd y m (n - ordinal y m 0)" "ordinal y m (n - ordinal y m 0) = n"
      using v by (auto simp: ab ordinal_def valid_ymd_def)
    then show "year_of n = y \<and> month_of n = m" using ymd_of_ordinal(1,2) [of y m "n - ordinal y m 0"] by simp
  next
    assume e: "year_of n = y \<and> month_of n = m"
    have "valid_ymd y m (day_of n)" "ordinal y m (day_of n) = n" using ordinal_of_ymd [OF assms(2,3)] e by simp_all
    then show "a \<le> n \<and> n \<le> b" by (auto simp: ab ordinal_def valid_ymd_def)
  qed
qed

end
