(* ===== verification/Command_Tools.thy ===== *)
theory Command_Tools
  imports Complex_Main Proposals Dates
begin

text \<open>
  The tools the command agent may call: \<^verbatim>\<open>app/ai/tools/handlers.py\<close> and
  \<^verbatim>\<open>app/ai/tools/registry.py\<close>. The arguments of a call are whatever JSON the language model
  wrote, so the model keeps them untyped, with what Python does to a value of the wrong type: the
  dispatcher turns a \<^verbatim>\<open>TypeError\<close>, a \<^verbatim>\<open>ValueError\<close> and an application
  error into a tool result, and any other exception leaves the turn.
\<close>

section \<open>Arguments\<close>

datatype arg = ANull | ABool bool | AInt int | AFloat rat | AStr string | AList "arg list"
  | AObj "(string \<times> arg) list"

type_synonym kwargs = "(string \<times> arg) list"

text \<open>
  An exception inside a handler. A \<^verbatim>\<open>ValueError\<close> the handler raises itself carries its
  message; the text of the interpreter's and of pydantic's (a \<^verbatim>\<open>ValidationError\<close> is a
  \<^verbatim>\<open>ValueError\<close>) is a parameter.
\<close>

datatype failure = Raised exn | Type_error | Value_error "string option"

definition lift_exn :: "exn + 'a \<Rightarrow> failure + 'a" where
  "lift_exn r = (case r of Inl e \<Rightarrow> Inl (Raised e) | Inr x \<Rightarrow> Inr x)"

fun truthy :: "arg \<Rightarrow> bool" where
  "truthy ANull = False"
| "truthy (ABool b) = b"
| "truthy (AInt n) = (n \<noteq> 0)"
| "truthy (AFloat x) = (x \<noteq> 0)"
| "truthy (AStr s) = (s \<noteq> [])"
| "truthy (AList xs) = (xs \<noteq> [])"
| "truthy (AObj kvs) = (kvs \<noteq> [])"

text \<open>
  A parameter of the call: its value, when it \<^verbatim>\<open>is not None\<close>, and when it is true.
\<close>

definition given :: "string \<Rightarrow> kwargs \<Rightarrow> arg option" where
  "given k kw = (case map_of kw k of None \<Rightarrow> None | Some a \<Rightarrow> if a = ANull then None else Some a)"

definition if_true :: "string \<Rightarrow> kwargs \<Rightarrow> arg option" where
  "if_true k kw = (case map_of kw k of None \<Rightarrow> None | Some a \<Rightarrow> if truthy a then Some a else None)"

definition flag :: "string \<Rightarrow> kwargs \<Rightarrow> bool" where
  "flag k kw = (if_true k kw \<noteq> None)"

definition required :: "string \<Rightarrow> kwargs \<Rightarrow> arg" where
  "required k kw = (case map_of kw k of None \<Rightarrow> ANull | Some a \<Rightarrow> a)"

fun conv :: "(arg \<Rightarrow> failure + 'a) \<Rightarrow> arg option \<Rightarrow> failure + 'a option" where
  "conv f None = Inr None"
| "conv f (Some a) = bindR (f a) (\<lambda>x. Inr (Some x))"

fun conv_all :: "(arg \<Rightarrow> failure + 'a) \<Rightarrow> arg list \<Rightarrow> failure + 'a list" where
  "conv_all f [] = Inr []"
| "conv_all f (a # as) = bindR (f a) (\<lambda>x. bindR (conv_all f as) (\<lambda>xs. Inr (x # xs)))"

text \<open>
  \<^verbatim>\<open>uuid.UUID(text)\<close>: it drops \<^verbatim>\<open>urn:\<close>, \<^verbatim>\<open>uuid:\<close>, outer braces and
  dashes, wants 32 characters and reads them as \<^verbatim>\<open>int(hex, 16)\<close>, which takes a sign, a prefix
  and single underscores. On a value that is no string \<^verbatim>\<open>.replace\<close> is an
  \<^verbatim>\<open>AttributeError\<close>; no value at all is a \<^verbatim>\<open>TypeError\<close>.
\<close>

fun replace_all :: "string \<Rightarrow> string \<Rightarrow> nat \<Rightarrow> string \<Rightarrow> string" where
  "replace_all old new k [] = []"
| "replace_all old new (Suc k) (c # cs) = replace_all old new k cs"
| "replace_all old new 0 (c # cs) =
     (if take (length old) (c # cs) = old then new @ replace_all old new (length old - 1) cs
      else c # replace_all old new 0 cs)"

definition strip_braces :: "string \<Rightarrow> string" where
  "strip_braces s = (let b = (\<lambda>c. c = CHR 0x7B \<or> c = CHR 0x7D) in rev (dropWhile b (rev (dropWhile b s))))"

text \<open>The digits, with whether an underscore may come next.\<close>

fun hex_digits :: "bool \<Rightarrow> nat \<Rightarrow> string \<Rightarrow> nat option" where
  "hex_digits us acc [] = (if us then Some acc else None)"
| "hex_digits us acc (c # cs) =
     (if c = CHR ''_'' then (if us then hex_digits False acc cs else None)
      else case hex_value c of None \<Rightarrow> None | Some v \<Rightarrow> hex_digits True (16 * acc + v) cs)"

definition hex_int :: "string \<Rightarrow> int option" where
  "hex_int s =
     (let t = strip s;
          neg = (t \<noteq> [] \<and> hd t = CHR ''-'');
          u = (if t \<noteq> [] \<and> (hd t = CHR ''-'' \<or> hd t = CHR ''+'') then tl t else t);
          prefixed = (2 < length u \<and> lower (take 2 u) = ''0x'') in
      map_option (\<lambda>n. if neg then - int n else int n)
        (if prefixed then hex_digits True 0 (drop 2 u) else hex_digits False 0 u))"

definition uuid_of_text :: "string \<Rightarrow> uuid option" where
  "uuid_of_text s =
     (let hex = filter (\<lambda>c. c \<noteq> CHR ''-'') (strip_braces (replace_all ''uuid:'' [] 0 (replace_all ''urn:'' [] 0 s))) in
      if length hex \<noteq> 32 then None
      else case hex_int hex of None \<Rightarrow> None | Some n \<Rightarrow> if n < 0 then None else Some (nat n))"

fun uuid_arg :: "arg \<Rightarrow> failure + uuid" where
  "uuid_arg (AStr s) = some_or (Value_error None) (uuid_of_text s)"
| "uuid_arg ANull = Inl Type_error"
| "uuid_arg _ = Inl (Raised (Crash ''AttributeError''))"

fun date_arg :: "arg \<Rightarrow> failure + date" where
  "date_arg (AStr s) = some_or (Value_error None) (date_fromisoformat s)"
| "date_arg _ = Inl Type_error"

definition enum_arg :: "('e \<Rightarrow> string) \<Rightarrow> 'e list \<Rightarrow> arg \<Rightarrow> failure + 'e" where
  "enum_arg val members a =
     (case a of AStr s \<Rightarrow> some_or (Value_error None) (enum_parse val members s) | _ \<Rightarrow> Inl (Value_error None))"

definition all_statuses :: "task_status list" where
  "all_statuses = [Task_todo, Task_in_progress, Task_blocked, Task_done]"

definition all_priorities :: "task_priority list" where
  "all_priorities = [Priority_low, Priority_medium, Priority_high, Priority_urgent]"

definition all_categories :: "task_category list" where
  "all_categories = [Cat_strategy, Cat_creative, Cat_ads, Cat_content, Cat_analytics, Cat_compliance, Cat_admin]"

definition all_client_statuses :: "client_status list" where
  "all_client_statuses = [Client_draft, Client_active, Client_inactive, Client_paused, Client_onboarding,
     Client_archived]"

definition all_roles :: "user_role list" where
  "all_roles = [Role_admin, Role_manager, Role_user]"

interpretation task_status_enum: str_enum task_status_value all_statuses
proof
  fix x y :: task_status
  show "task_status_value x = task_status_value y \<Longrightarrow> x = y" by (cases x; cases y) simp_all
  show "x \<in> set all_statuses" by (cases x) (simp_all add: all_statuses_def)
qed (simp add: all_statuses_def)

interpretation task_priority_enum: str_enum task_priority_value all_priorities
proof
  fix x y :: task_priority
  show "task_priority_value x = task_priority_value y \<Longrightarrow> x = y" by (cases x; cases y) simp_all
  show "x \<in> set all_priorities" by (cases x) (simp_all add: all_priorities_def)
qed (simp add: all_priorities_def)

interpretation task_category_enum: str_enum task_category_value all_categories
proof
  fix x y :: task_category
  show "task_category_value x = task_category_value y \<Longrightarrow> x = y" by (cases x; cases y) simp_all
  show "x \<in> set all_categories" by (cases x) (simp_all add: all_categories_def)
qed (simp add: all_categories_def)

interpretation client_status_enum: str_enum client_status_value all_client_statuses
proof
  fix x y :: client_status
  show "client_status_value x = client_status_value y \<Longrightarrow> x = y" by (cases x; cases y) simp_all
  show "x \<in> set all_client_statuses" by (cases x) (simp_all add: all_client_statuses_def)
qed (simp add: all_client_statuses_def)

abbreviation status_arg :: "arg \<Rightarrow> failure + task_status" where
  "status_arg \<equiv> enum_arg task_status_value all_statuses"

abbreviation priority_arg :: "arg \<Rightarrow> failure + task_priority" where
  "priority_arg \<equiv> enum_arg task_priority_value all_priorities"

abbreviation category_arg :: "arg \<Rightarrow> failure + task_category" where
  "category_arg \<equiv> enum_arg task_category_value all_categories"

text \<open>
  A request schema's fields: a string within its bounds; a boolean, which pydantic also reads from 0, 1
  and the usual words; anything else is a \<^verbatim>\<open>ValidationError\<close>.
\<close>

fun str_field :: "nat \<Rightarrow> nat \<Rightarrow> arg \<Rightarrow> failure + string" where
  "str_field lo hi (AStr s) = (if lo \<le> length s \<and> length s \<le> hi then Inr s else Inl (Value_error None))"
| "str_field lo hi _ = Inl (Value_error None)"

definition opt_str :: "nat \<Rightarrow> nat \<Rightarrow> string \<Rightarrow> kwargs \<Rightarrow> failure + string option" where
  "opt_str lo hi k kw = conv (str_field lo hi) (given k kw)"

fun bool_field :: "arg \<Rightarrow> failure + bool" where
  "bool_field (ABool b) = Inr b"
| "bool_field (AInt n) = (if n = 0 then Inr False else if n = 1 then Inr True else Inl (Value_error None))"
| "bool_field (AFloat x) = (if x = 0 then Inr False else if x = 1 then Inr True else Inl (Value_error None))"
| "bool_field (AStr s) =
     (if lower s \<in> {''0'', ''off'', ''f'', ''false'', ''n'', ''no''} then Inr False
      else if lower s \<in> {''1'', ''on'', ''t'', ''true'', ''y'', ''yes''} then Inr True else Inl (Value_error None))"
| "bool_field _ = Inl (Value_error None)"

text \<open>What a \<^verbatim>\<open>for\<close> loop draws from a value, and a slice \<^verbatim>\<open>rows[:min(limit, n)]\<close>.\<close>

fun iter_arg :: "arg \<Rightarrow> failure + arg list" where
  "iter_arg (AList xs) = Inr xs"
| "iter_arg (AStr s) = Inr (map (\<lambda>c. AStr [c]) s)"
| "iter_arg (AObj kvs) = Inr (map (\<lambda>(k, _). AStr k) kvs)"
| "iter_arg _ = Inl Type_error"

definition take_py :: "int \<Rightarrow> 'a list \<Rightarrow> 'a list" where
  "take_py n xs = (if 0 \<le> n then take (nat n) xs else take (length xs - nat (- n)) xs)"

fun first_upto :: "arg \<Rightarrow> int \<Rightarrow> 'a list \<Rightarrow> failure + 'a list" where
  "first_upto (AInt n) cap xs = Inr (take_py (min n cap) xs)"
| "first_upto (ABool b) cap xs = Inr (take_py (min (if b then 1 else 0) cap) xs)"
| "first_upto (AFloat x) cap xs = (if of_int cap < x then Inr (take_py cap xs) else Inl Type_error)"
| "first_upto _ cap xs = Inl Type_error"

text \<open>\<^verbatim>\<open>q in s\<close>, and \<^verbatim>\<open>query.lower()\<close>.\<close>

fun str_in :: "string \<Rightarrow> string \<Rightarrow> bool" where
  "str_in q [] \<longleftrightarrow> q = []"
| "str_in q (c # cs) \<longleftrightarrow> take (length q) (c # cs) = q \<or> str_in q cs"

fun lower_arg :: "arg \<Rightarrow> failure + string" where
  "lower_arg (AStr s) = Inr (lower s)"
| "lower_arg _ = Inl (Raised (Crash ''AttributeError''))"

section \<open>What a tool returns, and what it reaches\<close>

record staged_batch =
  sb_operations :: "staged_operation list"
  sb_skipped :: "(uuid \<times> string) list"

datatype tool_result = Tool_dict jval | Tool_op staged_operation | Tool_batch staged_batch

text \<open>
  The request's environment, the time zones the system knows, retrieval over the client's index
  (\<^verbatim>\<open>ContextService\<close> over the vector store), the performance figures
  (\<^verbatim>\<open>AnalyticsService.summary\<close>), the text of an exception Python or pydantic raised, and
  \<^verbatim>\<open>str\<close> of a value that is no string. The two readers return what the tool hands back.
\<close>

record tool_world =
  tw_env :: env
  tw_timezones :: "string list"
  tw_snippets :: "db \<Rightarrow> uuid \<Rightarrow> arg \<Rightarrow> failure + string list"
  tw_performance :: "db \<Rightarrow> uuid \<Rightarrow> kwargs \<Rightarrow> failure + jval"
  tw_message :: "failure \<Rightarrow> string"
  tw_str :: "arg \<Rightarrow> string"

type_synonym handler = "tool_world \<Rightarrow> uuid \<Rightarrow> user \<Rightarrow> kwargs \<Rightarrow> db \<Rightarrow> failure + tool_result"

definition staged :: "exn + staged_operation \<Rightarrow> failure + tool_result" where
  "staged r = bindR (lift_exn r) (\<lambda>s. Inr (Tool_op s))"

definition MAX_SEARCH_RESULTS :: int where
  "MAX_SEARCH_RESULTS = 10"

definition MAX_BULK_MATCHES :: nat where
  "MAX_BULK_MATCHES = 100"

definition user_brief :: "user \<Rightarrow> jval" where
  "user_brief u = JObj [(''id'', JUuid (u_id u)), (''name'', JStr (u_name u)), (''email'', JStr (u_email u)),
     (''role'', JStr (role_value (u_role u)))]"

definition task_brief :: "plan_task \<Rightarrow> jval" where
  "task_brief t = JObj [(''id'', JUuid (t_id t)), (''title'', jopt JStr (t_title t)),
     (''status'', jstatus (t_status t)), (''category'', jcategory (t_category t)),
     (''priority'', jopt (JStr \<circ> task_priority_value) (t_priority t)),
     (''assignee_id'', jopt JUuid (t_assignee_id t)), (''start_date'', jopt JDate (t_start_date t)),
     (''due_date'', jopt JDate (t_due_date t)), (''archived'', jopt JBool (t_archived t))]"

definition client_brief :: "client \<Rightarrow> jval" where
  "client_brief c = JObj [(''id'', JUuid (c_id c)), (''name'', jopt JStr (c_name c)),
     (''business_type'', jopt JStr (c_business_type c)), (''industry'', jopt JStr (c_industry c)),
     (''website'', jopt JStr (c_website c)), (''location'', jopt JStr (c_location c)),
     (''language'', jopt JStr (c_language c)), (''timezone'', jopt JStr (c_timezone c)),
     (''markets'', jopt JStr (c_markets c)), (''status'', jopt (JStr \<circ> client_status_value) (c_status c)),
     (''brand'', JObj [(''about_brand'', jopt JStr (c_about_brand c)), (''brand_voice'', jopt JStr (c_brand_voice c)),
        (''color_guidelines'', jopt JStr (c_color_guidelines c)), (''logo_url'', jopt JStr (c_logo_url c)),
        (''colors'', JList (map (\<lambda>(hex, label, pos). JObj [(''hex'', JStr hex), (''label'', jopt JStr label)]) (c_colors c))),
        (''fonts'', JList (map JStr (c_fonts c)))])]"

section \<open>Read tools\<close>

text \<open>\<^verbatim>\<open>_resolve_date_window\<close>: a single day, a range with both edges, or no window.\<close>

definition both_edges :: string where
  "both_edges = ''Provide both start_date and end_date together for a range.''"

definition resolve_date_window ::
    "arg option \<Rightarrow> arg option \<Rightarrow> arg option \<Rightarrow> failure + (date \<times> date) option" where
  "resolve_date_window on_date start_date end_date =
     (case on_date of
        Some a \<Rightarrow> bindR (date_arg a) (\<lambda>d. Inr (Some (d, d)))
      | None \<Rightarrow>
          (case (start_date, end_date) of
             (None, None) \<Rightarrow> Inr None
           | (Some a, Some b) \<Rightarrow>
               bindR (date_arg a) (\<lambda>s. bindR (date_arg b) (\<lambda>e.
                 if e < s then Inl (Value_error (Some ''end_date must be on or after start_date.''))
                 else Inr (Some (s, e))))
           | _ \<Rightarrow> Inl (Value_error (Some both_edges))))"

definition assigned_to :: "uuid \<Rightarrow> plan_task \<Rightarrow> bool" where
  "assigned_to uid t \<longleftrightarrow> t_assignee_id t = Some uid"

definition apply_assignee_filter :: "arg option \<Rightarrow> bool \<Rightarrow> plan_task list \<Rightarrow> failure + plan_task list" where
  "apply_assignee_filter assignee assigned_only rows =
     (case assignee of
        Some a \<Rightarrow> bindR (uuid_arg a) (\<lambda>uid. Inr (filter (assigned_to uid) rows))
      | None \<Rightarrow> Inr (if assigned_only then filter (\<lambda>t. t_assignee_id t \<noteq> None) rows else rows))"

text \<open>Titles are never \<^verbatim>\<open>NULL\<close> in a stored row.\<close>

definition title_matches :: "string \<Rightarrow> plan_task \<Rightarrow> bool" where
  "title_matches q t \<longleftrightarrow> str_in q (lower (case t_title t of None \<Rightarrow> [] | Some s \<Rightarrow> s))"

definition narrow_by_title :: "arg option \<Rightarrow> plan_task list \<Rightarrow> failure + plan_task list" where
  "narrow_by_title query rows =
     (case query of None \<Rightarrow> Inr rows | Some a \<Rightarrow> bindR (lower_arg a) (\<lambda>q. Inr (filter (title_matches q) rows)))"

definition tool_query :: "task_status option \<Rightarrow> (date \<times> date) option \<Rightarrow> bool \<Rightarrow> bool \<Rightarrow> task_query" where
  "tool_query status window undated archived =
     \<lparr>tq_status = status, tq_category = None, tq_priority = None, tq_assignee = None,
      tq_start = map_option fst window, tq_end = map_option snd window, tq_include_undated = undated,
      tq_include_archived = archived\<rparr>"

definition search_plan_tasks :: handler where
  "search_plan_tasks w cid user kw d =
     bindR (resolve_date_window (if_true ''on_date'' kw) (if_true ''start_date'' kw) (if_true ''end_date'' kw)) (\<lambda>window.
     bindR (conv status_arg (if_true ''status'' kw)) (\<lambda>status.
     let (rows, total) = list_tasks_for_client cid
           (tool_query status window (window = None) (flag ''include_archived'' kw)) 0 (Some (MAX_BULK_MATCHES + 1)) d in
     bindR (narrow_by_title (if_true ''query'' kw) rows) (\<lambda>titled.
     bindR (apply_assignee_filter (if_true ''assignee_id'' kw) (flag ''assigned_only'' kw) titled) (\<lambda>found.
     bindR (first_upto (case map_of kw ''limit'' of None \<Rightarrow> AInt 10 | Some a \<Rightarrow> a) MAX_SEARCH_RESULTS found) (\<lambda>capped.
     let narrowed = (flag ''query'' kw \<or> window \<noteq> None \<or> flag ''assignee_id'' kw \<or> flag ''assigned_only'' kw) in
     Inr (Tool_dict (JObj [(''total_matching'', JInt (int (if narrowed then length found else total))),
       (''tasks'', JList (map task_brief capped))])))))))"

definition get_plan_task :: handler where
  "get_plan_task w cid user kw d =
     bindR (uuid_arg (required ''task_id'' kw)) (\<lambda>tid.
     bindR (lift_exn (get_task cid tid d)) (\<lambda>t. Inr (Tool_dict (task_brief t))))"

definition assigned_users :: "uuid \<Rightarrow> db \<Rightarrow> user list" where
  "assigned_users cid d = List.map_filter (\<lambda>a. user_get (a_user_id a) d) (list_for_client_rows cid d)"

definition user_matches :: "string \<Rightarrow> user \<Rightarrow> bool" where
  "user_matches q u \<longleftrightarrow> str_in q (lower (u_name u)) \<or> str_in q (lower (u_email u))"

definition find_users :: "uuid \<Rightarrow> arg option \<Rightarrow> arg \<Rightarrow> db \<Rightarrow> failure + user list" where
  "find_users cid query limit d =
     bindR (case query of None \<Rightarrow> Inr (assigned_users cid d)
            | Some a \<Rightarrow> bindR (lower_arg a) (\<lambda>q. Inr (filter (user_matches q) (assigned_users cid d))))
       (first_upto limit MAX_SEARCH_RESULTS)"

definition search_users :: handler where
  "search_users w cid user kw d =
     bindR (find_users cid (if_true ''query'' kw) (case map_of kw ''limit'' of None \<Rightarrow> AInt 10 | Some a \<Rightarrow> a) d) (\<lambda>us.
       Inr (Tool_dict (JObj [(''users'', JList (map user_brief us))])))"

text \<open>Not a registered tool, like the handlers of the last section.\<close>

definition get_client_assignments :: handler where
  "get_client_assignments w cid user kw d =
     bindR (lift_exn (assignments_for_client cid d)) (\<lambda>rows.
       Inr (Tool_dict (JObj [(''assignments'', JList (List.map_filter (\<lambda>(a, caps).
         map_option (\<lambda>u. JObj [(''user'', user_brief u), (''capabilities'', JList (map (JStr \<circ> cap_value) caps))])
           (user_get (a_user_id a) d)) rows))])))"

definition get_client_tool :: handler where
  "get_client_tool w cid user kw d =
     bindR (lift_exn (get_client d user cid)) (\<lambda>c. Inr (Tool_dict (client_brief c)))"

definition get_editable_schema :: handler where
  "get_editable_schema w cid user kw d =
     Inr (Tool_dict (JObj
       [(''plan_task'', JObj [(''category'', JList (map (JStr \<circ> task_category_value) all_categories)),
           (''status'', JList (map (JStr \<circ> task_status_value) all_statuses)),
           (''priority'', JList (map (JStr \<circ> task_priority_value) all_priorities))]),
        (''client'', JObj [(''status'', JList (map (JStr \<circ> client_status_value) all_client_statuses))])]))"

definition search_knowledge_base :: handler where
  "search_knowledge_base w cid user kw d =
     bindR (tw_snippets w d cid (required ''query'' kw)) (\<lambda>snippets.
       Inr (Tool_dict (if snippets = []
         then JObj [(''snippets'', JList []), (''note'', JStr ''No indexed knowledge matched this query.'')]
         else JObj [(''snippets'', JList (map JStr snippets))])))"

definition get_performance_summary :: handler where
  "get_performance_summary w cid user kw d = bindR (tw_performance w d cid kw) (\<lambda>j. Inr (Tool_dict j))"

section \<open>Write tools: each stages a change\<close>

definition or_default :: "(arg \<Rightarrow> failure + 'a) \<Rightarrow> 'a \<Rightarrow> arg option \<Rightarrow> failure + 'a" where
  "or_default f dflt a = (case a of None \<Rightarrow> Inr dflt | Some x \<Rightarrow> f x)"

definition propose_create_plan_task :: handler where
  "propose_create_plan_task w cid user kw d =
     bindR (or_default category_arg Cat_strategy (if_true ''category'' kw)) (\<lambda>category.
     bindR (or_default status_arg Task_todo (if_true ''status'' kw)) (\<lambda>status.
     bindR (or_default priority_arg Priority_medium (if_true ''priority'' kw)) (\<lambda>priority.
     bindR (conv uuid_arg (if_true ''assignee_id'' kw)) (\<lambda>assignee.
     bindR (conv date_arg (if_true ''start_date'' kw)) (\<lambda>start.
     bindR (conv date_arg (if_true ''due_date'' kw)) (\<lambda>due.
     bindR (str_field 1 200 (required ''title'' kw)) (\<lambda>title.
     bindR (opt_str 0 MAX_TEXT ''description'' kw) (\<lambda>description.
     bindR (opt_str 0 MAX_TEXT ''requirements'' kw) (\<lambda>requirements.
       if \<not> ranges_ok start due None None then Inl (Value_error None)
       else staged (stage_plan_task_create (tw_env w) cid user
         \<lparr>tc_title = title, tc_description = description, tc_requirements = requirements, tc_category = category,
          tc_status = status, tc_priority = priority, tc_assignee_id = assignee, tc_start_date = start,
          tc_due_date = due, tc_start_time = None, tc_end_time = None\<rparr> d))))))))))"

definition empty_update :: plan_task_update where
  "empty_update = \<lparr>tu_fields = [], tu_title = None, tu_description = None, tu_requirements = None, tu_category = None,
     tu_status = None, tu_priority = None, tu_assignee_id = None, tu_start_date = None, tu_due_date = None,
     tu_start_time = None, tu_end_time = None, tu_archived = None\<rparr>"

text \<open>The fields the tool sets: those that came with a value.\<close>

definition sent_fields :: "kwargs \<Rightarrow> (string \<times> 'f) list \<Rightarrow> 'f list" where
  "sent_fields kw fs = List.map_filter (\<lambda>(k, f). if given k kw \<noteq> None then Some f else None) fs"

definition propose_update_plan_task :: handler where
  "propose_update_plan_task w cid user kw d =
     bindR (conv category_arg (given ''category'' kw)) (\<lambda>category.
     bindR (conv status_arg (given ''status'' kw)) (\<lambda>status.
     bindR (conv priority_arg (given ''priority'' kw)) (\<lambda>priority.
     bindR (conv date_arg (given ''start_date'' kw)) (\<lambda>start.
     bindR (conv date_arg (given ''due_date'' kw)) (\<lambda>due.
     bindR (opt_str 1 200 ''title'' kw) (\<lambda>title.
     bindR (opt_str 0 MAX_TEXT ''description'' kw) (\<lambda>description.
     bindR (opt_str 0 MAX_TEXT ''requirements'' kw) (\<lambda>requirements.
     bindR (conv bool_field (given ''archived'' kw)) (\<lambda>archived.
       if \<not> ranges_ok start due None None then Inl (Value_error None)
       else bindR (uuid_arg (required ''task_id'' kw)) (\<lambda>tid.
         staged (stage_plan_task_update (tw_env w) cid user tid
           (empty_update\<lparr>tu_fields := sent_fields kw [(''title'', TF_title), (''description'', TF_description),
                (''requirements'', TF_requirements), (''category'', TF_category), (''status'', TF_status),
                (''priority'', TF_priority), (''start_date'', TF_start_date), (''due_date'', TF_due_date),
                (''archived'', TF_archived)],
              tu_title := title, tu_description := description, tu_requirements := requirements,
              tu_category := category, tu_status := status, tu_priority := priority, tu_start_date := start,
              tu_due_date := due, tu_archived := archived\<rparr>) d)))))))))))"

definition propose_assign_user_to_plan_task :: handler where
  "propose_assign_user_to_plan_task w cid user kw d =
     bindR (uuid_arg (required ''assignee_id'' kw)) (\<lambda>assignee.
     bindR (uuid_arg (required ''task_id'' kw)) (\<lambda>tid.
       staged (stage_plan_task_update (tw_env w) cid user tid
         (empty_update\<lparr>tu_fields := [TF_assignee_id], tu_assignee_id := Some assignee\<rparr>) d)))"

definition propose_unassign_plan_task :: handler where
  "propose_unassign_plan_task w cid user kw d =
     bindR (uuid_arg (required ''task_id'' kw)) (\<lambda>tid.
       staged (stage_plan_task_update (tw_env w) cid user tid (empty_update\<lparr>tu_fields := [TF_assignee_id]\<rparr>) d))"

definition propose_archive_plan_task :: handler where
  "propose_archive_plan_task w cid user kw d =
     bindR (uuid_arg (required ''task_id'' kw)) (\<lambda>tid.
       staged (stage_plan_task_update (tw_env w) cid user tid
         (empty_update\<lparr>tu_fields := [TF_archived], tu_archived := Some True\<rparr>) d))"

definition propose_delete_plan_task :: handler where
  "propose_delete_plan_task w cid user kw d =
     bindR (uuid_arg (required ''task_id'' kw)) (\<lambda>tid. staged (stage_plan_task_delete cid user tid d))"

definition propose_duplicate_plan_task :: handler where
  "propose_duplicate_plan_task w cid user kw d =
     bindR (uuid_arg (required ''task_id'' kw)) (\<lambda>tid.
       staged (stage_plan_task_duplicate (tw_env w) cid user tid d))"

definition propose_add_plan_task_note :: handler where
  "propose_add_plan_task_note w cid user kw d =
     bindR (uuid_arg (required ''task_id'' kw)) (\<lambda>tid.
     bindR (str_field 1 MAX_TEXT (required ''body'' kw)) (\<lambda>body.
       staged (stage_plan_task_add_note (tw_env w) cid user tid body d)))"

text \<open>
  \<^verbatim>\<open>_resolve_bulk_task_ids\<close>: the identifiers the call lists, or the tasks of a window, of which
  the query fetches at most 101 before the title and the assignee narrow them.
\<close>

definition too_many :: "nat \<Rightarrow> string" where
  "too_many n = ''That scope matches '' @ digits n @ '' tasks, more than the '' @ digits MAX_BULK_MATCHES @
     ''-task bulk-operation limit'' @ '' -- narrow the date range or add a query/status/assignee filter, then try again.''"

definition resolve_bulk_task_ids :: "uuid \<Rightarrow> kwargs \<Rightarrow> db \<Rightarrow> failure + uuid list" where
  "resolve_bulk_task_ids cid kw d =
     (case if_true ''task_ids'' kw of
        Some ids \<Rightarrow> bindR (iter_arg ids) (conv_all uuid_arg)
      | None \<Rightarrow>
          bindR (resolve_date_window None (if_true ''start_date'' kw) (if_true ''end_date'' kw)) (\<lambda>window.
          if window = None
          then Inl (Value_error (Some ''Provide either task_ids or both start_date and end_date.''))
          else bindR (conv status_arg (if_true ''status'' kw)) (\<lambda>status.
            let rows = fst (list_tasks_for_client cid
                  (tool_query status window False (flag ''include_archived'' kw)) 0 (Some (MAX_BULK_MATCHES + 1)) d) in
            bindR (narrow_by_title (if_true ''query'' kw) rows) (\<lambda>titled.
            bindR (apply_assignee_filter (if_true ''assignee_id'' kw) (flag ''assigned_only'' kw) titled) (\<lambda>found.
              if MAX_BULK_MATCHES < length found then Inl (Value_error (Some (too_many (length found))))
              else Inr (map t_id found))))))"

text \<open>The loop that stages each task, and skips the ones an application error refuses.\<close>

fun stage_each :: "(uuid \<Rightarrow> exn + staged_operation) \<Rightarrow> uuid list \<Rightarrow> staged_batch \<Rightarrow> failure + staged_batch" where
  "stage_each stage [] b = Inr b"
| "stage_each stage (tid # tids) b =
     (case stage tid of
        Inr s \<Rightarrow> stage_each stage tids (b\<lparr>sb_operations := sb_operations b @ [s]\<rparr>)
      | Inl (AppError c msg) \<Rightarrow> stage_each stage tids (b\<lparr>sb_skipped := sb_skipped b @ [(tid, msg)]\<rparr>)
      | Inl (Crash m) \<Rightarrow> Inl (Raised (Crash m)))"

definition stage_all :: "(uuid \<Rightarrow> exn + staged_operation) \<Rightarrow> uuid list \<Rightarrow> failure + tool_result" where
  "stage_all stage tids =
     bindR (stage_each stage tids \<lparr>sb_operations = [], sb_skipped = []\<rparr>) (\<lambda>b. Inr (Tool_batch b))"

definition propose_bulk_update_plan_tasks :: handler where
  "propose_bulk_update_plan_tasks w cid user kw d =
     bindR (conv status_arg (given ''new_status'' kw)) (\<lambda>status.
     bindR (conv priority_arg (given ''priority'' kw)) (\<lambda>priority.
     bindR (conv category_arg (given ''category'' kw)) (\<lambda>category.
     let fields = sent_fields kw [(''new_status'', TF_status), (''priority'', TF_priority),
           (''category'', TF_category), (''archived'', TF_archived)] in
     if fields = [] then Inl (Value_error (Some
       ''Provide at least one field to change: new_status, priority, category, or archived.''))
     else bindR (resolve_bulk_task_ids cid kw d) (\<lambda>ids.
       if ids = [] then Inl (Value_error (Some ''No tasks matched that scope -- nothing to change.''))
       else bindR (conv bool_field (given ''archived'' kw)) (\<lambda>archived.
         stage_all (\<lambda>tid. stage_plan_task_update (tw_env w) cid user tid
             (empty_update\<lparr>tu_fields := fields, tu_status := status, tu_priority := priority,
                tu_category := category, tu_archived := archived\<rparr>) d) ids)))))"

definition propose_bulk_delete_plan_tasks :: handler where
  "propose_bulk_delete_plan_tasks w cid user kw d =
     bindR (resolve_bulk_task_ids cid kw d) (\<lambda>ids.
       if ids = [] then Inl (Value_error (Some ''No tasks matched that scope -- nothing to delete.''))
       else stage_all (\<lambda>tid. stage_plan_task_delete cid user tid d) ids)"

text \<open>\<^verbatim>\<open>validate_timezone\<close>: a known zone, or blank for none.\<close>

definition timezone_field :: "string list \<Rightarrow> string option \<Rightarrow> failure + string option" where
  "timezone_field zones tz =
     (case tz of
        None \<Rightarrow> Inr None
      | Some s \<Rightarrow> if strip s = [] then Inr None
          else if strip s \<in> set zones then Inr (Some (strip s)) else Inl (Value_error None))"

definition propose_update_client :: handler where
  "propose_update_client w cid user kw d =
     bindR (conv (enum_arg client_status_value all_client_statuses) (given ''status'' kw)) (\<lambda>status.
     bindR (opt_str 1 200 ''name'' kw) (\<lambda>name.
     bindR (opt_str 0 120 ''business_type'' kw) (\<lambda>business_type.
     bindR (opt_str 0 120 ''industry'' kw) (\<lambda>industry.
     bindR (opt_str 0 255 ''website'' kw) (\<lambda>website.
     bindR (opt_str 0 160 ''location'' kw) (\<lambda>location.
     bindR (opt_str 0 60 ''language'' kw) (\<lambda>language.
     bindR (bindR (opt_str 0 60 ''timezone'' kw) (timezone_field (tw_timezones w))) (\<lambda>timezone.
     bindR (opt_str 0 2000 ''markets'' kw) (\<lambda>markets.
       staged (stage_update_client (tw_env w) cid user
         \<lparr>cu_fields = sent_fields kw [(''name'', CF_name), (''business_type'', CF_business_type),
             (''industry'', CF_industry), (''website'', CF_website), (''location'', CF_location),
             (''language'', CF_language), (''timezone'', CF_timezone), (''markets'', CF_markets), (''status'', CF_status)],
          cu_name = name, cu_business_type = business_type, cu_industry = industry, cu_website = website,
          cu_location = location, cu_language = language, cu_timezone = timezone, cu_markets = markets,
          cu_status = status\<rparr> d))))))))))"

definition hex_color :: "string \<Rightarrow> bool" where
  "hex_color s \<longleftrightarrow> s \<noteq> [] \<and> hd s = CHR ''#'' \<and> length (tl s) \<in> {3, 4, 6, 8} \<and> list_all is_hex (tl s)"

text \<open>\<^verbatim>\<open>BrandColorIn(hex=c["hex"], label=c.get("label"))\<close>\<close>

fun color_arg :: "arg \<Rightarrow> failure + string \<times> string option" where
  "color_arg (AObj kvs) =
     (case map_of kvs ''hex'' of
        None \<Rightarrow> Inl (Raised (Crash ''KeyError''))
      | Some (AStr s) \<Rightarrow>
          if \<not> hex_color s then Inl (Value_error None)
          else bindR (opt_str 0 60 ''label'' kvs) (\<lambda>label. Inr (s, label))
      | Some _ \<Rightarrow> Inl (Value_error None))"
| "color_arg _ = Inl Type_error"

definition fonts_field :: "arg \<Rightarrow> failure + string list" where
  "fonts_field a = (case a of
       AList xs \<Rightarrow> if length xs \<le> 12 then conv_all (\<lambda>x. case x of AStr s \<Rightarrow> Inr s | _ \<Rightarrow> Inl (Value_error None)) xs
         else Inl (Value_error None)
     | _ \<Rightarrow> Inl (Value_error None))"

definition at_most :: "nat \<Rightarrow> 'a list option \<Rightarrow> failure + 'a list option" where
  "at_most n xs = (case xs of None \<Rightarrow> Inr None | Some ys \<Rightarrow> if length ys \<le> n then Inr (Some ys) else Inl (Value_error None))"

definition propose_update_brand :: handler where
  "propose_update_brand w cid user kw d =
     bindR (conv (\<lambda>a. bindR (iter_arg a) (conv_all color_arg)) (given ''colors'' kw)) (\<lambda>listed.
     bindR (opt_str 0 MAX_TEXT ''about_brand'' kw) (\<lambda>about_brand.
     bindR (opt_str 0 2000 ''brand_voice'' kw) (\<lambda>brand_voice.
     bindR (at_most 24 listed) (\<lambda>colors.
     bindR (conv fonts_field (given ''fonts'' kw)) (\<lambda>fonts.
     bindR (opt_str 0 MAX_TEXT ''color_guidelines'' kw) (\<lambda>color_guidelines.
     bindR (opt_str 0 1024 ''logo_url'' kw) (\<lambda>logo_url.
       staged (stage_update_brand (tw_env w) cid user
         \<lparr>bu_fields = sent_fields kw [(''about_brand'', BF_about_brand), (''brand_voice'', BF_brand_voice),
             (''color_guidelines'', BF_color_guidelines), (''logo_url'', BF_logo_url), (''colors'', BF_colors),
             (''fonts'', BF_fonts)],
          bu_about_brand = about_brand, bu_brand_voice = brand_voice, bu_brand_extracted = None,
          bu_colors = colors, bu_fonts = fonts, bu_color_guidelines = color_guidelines, bu_logo_url = logo_url\<rparr> d))))))))"

section \<open>Handlers that no tool reaches\<close>

definition propose_assign_user_to_client :: handler where
  "propose_assign_user_to_client w cid user kw d =
     bindR (conv (\<lambda>a. bindR (iter_arg a) (conv_all (enum_arg cap_value all_caps))) (if_true ''capabilities'' kw)) (\<lambda>caps.
     bindR (uuid_arg (required ''user_id'' kw)) (\<lambda>uid.
       staged (stage_assignment_assign (tw_env w) cid user uid caps d)))"

definition propose_set_client_capabilities :: handler where
  "propose_set_client_capabilities w cid user kw d =
     bindR (bindR (iter_arg (required ''capabilities'' kw)) (conv_all (enum_arg cap_value all_caps))) (\<lambda>caps.
     bindR (uuid_arg (required ''user_id'' kw)) (\<lambda>uid.
       staged (stage_assignment_set_capabilities cid user uid caps d)))"

definition propose_unassign_user_from_client :: handler where
  "propose_unassign_user_from_client w cid user kw d =
     bindR (uuid_arg (required ''user_id'' kw)) (\<lambda>uid. staged (stage_assignment_unassign cid user uid d))"

section \<open>The registry\<close>

datatype tool_kind = Kind_read | Kind_write | Kind_clarify

record tool_spec =
  ts_name :: string
  ts_kind :: tool_kind
  ts_params :: "string list"
  ts_required :: "string list"
  ts_handler :: "handler option"
  ts_label :: string

definition REQUEST_CLARIFICATION :: string where
  "REQUEST_CLARIFICATION = ''request_clarification''"

abbreviation read_tool :: "string \<Rightarrow> string list \<Rightarrow> string list \<Rightarrow> handler \<Rightarrow> string \<Rightarrow> tool_spec" where
  "read_tool n ps rs h l \<equiv> \<lparr>ts_name = n, ts_kind = Kind_read, ts_params = ps, ts_required = rs, ts_handler = Some h, ts_label = l\<rparr>"

abbreviation write_tool :: "string \<Rightarrow> string list \<Rightarrow> string list \<Rightarrow> handler \<Rightarrow> string \<Rightarrow> tool_spec" where
  "write_tool n ps rs h l \<equiv> \<lparr>ts_name = n, ts_kind = Kind_write, ts_params = ps, ts_required = rs, ts_handler = Some h, ts_label = l\<rparr>"

definition READ_TOOLS :: "tool_spec list" where
  "READ_TOOLS =
    [read_tool ''search_plan_tasks'' [''query'', ''status'', ''on_date'', ''start_date'', ''end_date'', ''assignee_id'',
       ''assigned_only'', ''include_archived'', ''limit''] [] search_plan_tasks ''Searching plan tasks'',
     read_tool ''get_plan_task'' [''task_id''] [''task_id''] get_plan_task ''Looking up the task'',
     read_tool ''search_users'' [''query'', ''limit''] [] search_users ''Searching users'',
     read_tool ''search_knowledge_base'' [''query''] [''query''] search_knowledge_base ''Searching client knowledge'',
     read_tool ''get_performance_summary'' [''days''] [] get_performance_summary ''Checking performance data'',
     read_tool ''get_client'' [] [] get_client_tool ''Reading client settings'',
     read_tool ''get_editable_schema'' [] [] get_editable_schema ''Checking valid field values'']"

definition WRITE_TOOLS :: "tool_spec list" where
  "WRITE_TOOLS =
    [write_tool ''propose_create_plan_task'' [''title'', ''description'', ''requirements'', ''category'', ''status'',
       ''priority'', ''assignee_id'', ''start_date'', ''due_date''] [''title''] propose_create_plan_task
       ''Drafting a new task'',
     write_tool ''propose_update_plan_task'' [''task_id'', ''title'', ''description'', ''requirements'', ''category'',
       ''status'', ''priority'', ''start_date'', ''due_date'', ''archived''] [''task_id''] propose_update_plan_task
       ''Drafting task changes'',
     write_tool ''propose_assign_user_to_plan_task'' [''task_id'', ''assignee_id''] [''task_id'', ''assignee_id'']
       propose_assign_user_to_plan_task ''Drafting the assignment'',
     write_tool ''propose_unassign_plan_task'' [''task_id''] [''task_id''] propose_unassign_plan_task
       ''Drafting the removal'',
     write_tool ''propose_archive_plan_task'' [''task_id''] [''task_id''] propose_archive_plan_task
       ''Drafting the archive'',
     write_tool ''propose_delete_plan_task'' [''task_id''] [''task_id''] propose_delete_plan_task ''Drafting the delete'',
     write_tool ''propose_duplicate_plan_task'' [''task_id''] [''task_id''] propose_duplicate_plan_task
       ''Drafting a duplicate'',
     write_tool ''propose_add_plan_task_note'' [''task_id'', ''body''] [''task_id'', ''body''] propose_add_plan_task_note
       ''Drafting the note'',
     write_tool ''propose_bulk_update_plan_tasks'' [''task_ids'', ''start_date'', ''end_date'', ''query'', ''status'',
       ''assignee_id'', ''assigned_only'', ''include_archived'', ''new_status'', ''priority'', ''category'', ''archived'']
       [] propose_bulk_update_plan_tasks ''Drafting bulk changes'',
     write_tool ''propose_bulk_delete_plan_tasks'' [''task_ids'', ''start_date'', ''end_date'', ''query'', ''status'',
       ''assignee_id'', ''assigned_only'', ''include_archived''] [] propose_bulk_delete_plan_tasks
       ''Drafting the bulk delete'',
     write_tool ''propose_update_client'' [''name'', ''business_type'', ''industry'', ''website'', ''location'',
       ''language'', ''timezone'', ''markets'', ''status''] [] propose_update_client ''Drafting client changes'',
     write_tool ''propose_update_brand'' [''about_brand'', ''brand_voice'', ''color_guidelines'', ''logo_url'',
       ''colors'', ''fonts''] [] propose_update_brand ''Drafting brand changes'']"

definition TOOLS :: "tool_spec list" where
  "TOOLS = READ_TOOLS @ WRITE_TOOLS @
     [\<lparr>ts_name = REQUEST_CLARIFICATION, ts_kind = Kind_clarify, ts_params = [''question''],
       ts_required = [''question''], ts_handler = None, ts_label = []\<rparr>]"

definition tool_named :: "string \<Rightarrow> tool_spec option" where
  "tool_named name = find_by ts_name name TOOLS"

definition progress_label_for :: "string \<Rightarrow> string" where
  "progress_label_for name =
     (case tool_named name of None \<Rightarrow> ''Working'' | Some spec \<Rightarrow> if ts_label spec = [] then ''Working'' else ts_label spec)"

text \<open>The tools the model is offered, by name.\<close>

definition openai_tool_definitions :: "bool \<Rightarrow> string list" where
  "openai_tool_definitions include_write =
     map ts_name (filter (\<lambda>t. include_write \<or> ts_kind t \<noteq> Kind_write) TOOLS)"

text \<open>\<^verbatim>\<open>spec.handler(db, client_id, user, **arguments)\<close>: the names must fit the signature.\<close>

definition call_handler :: "tool_spec \<Rightarrow> handler \<Rightarrow> tool_world \<Rightarrow> uuid \<Rightarrow> user \<Rightarrow> arg \<Rightarrow> db \<Rightarrow> failure + tool_result" where
  "call_handler spec h w cid user args d =
     (case args of
        AObj kw \<Rightarrow> if set (map fst kw) \<subseteq> set (ts_params spec) \<and> set (ts_required spec) \<subseteq> set (map fst kw)
          then h w cid user kw d else Inl Type_error
      | _ \<Rightarrow> Inl Type_error)"

section \<open>What the tools may stage\<close>

text \<open>
  The changes a chat of one client may stage: on its own tasks, with the snapshot approval will check,
  and by an administrator on the client itself. No assignment and no user.
\<close>

definition stageable :: "uuid \<Rightarrow> user \<Rightarrow> db \<Rightarrow> staged_operation \<Rightarrow> bool" where
  "stageable cid user d s \<longleftrightarrow> (\<exists>c. get_client d user cid = Inr c) \<and>
     (so_entity_type s = ''plan_task'' \<and>
        (so_entity_id s = None \<and> so_operation_type s = Op_create \<or>
         so_operation_type s \<in> {Op_update, Op_delete} \<and>
         (\<exists>t. get_for_client cid (t_id t) d = Some t \<and> so_entity_id s = Some (t_id t) \<and>
            so_base_snapshot s = Some (t_updated_at t))) \<or>
      so_entity_type s = ''plan_task_note'' \<and> so_operation_type s = Op_create \<or>
      so_entity_type s \<in> {''client'', ''client_brand''} \<and> so_operation_type s = Op_update \<and>
        so_entity_id s = Some cid \<and> u_role user = Role_admin \<and> so_requires_admin s)"

definition result_ok :: "uuid \<Rightarrow> user \<Rightarrow> db \<Rightarrow> tool_result \<Rightarrow> bool" where
  "result_ok cid user d r = (case r of Tool_dict j \<Rightarrow> True | Tool_op s \<Rightarrow> stageable cid user d s
     | Tool_batch b \<Rightarrow> list_all (stageable cid user d) (sb_operations b))"

lemma lift_exn_Inr [result_simps]: "lift_exn r = Inr x \<longleftrightarrow> r = Inr x"
  by (cases r) (auto simp: lift_exn_def)

lemma bindR_InrE:
  assumes "bindR m f = Inr r"
  obtains x where "m = Inr x" "f x = Inr r"
  using assms by (auto simp: bindR_eq_Inr)

lemma stage_create_ok: "stage_plan_task_create e cid user tc d = Inr s \<Longrightarrow> stageable cid user d s"
  unfolding stage_plan_task_create_def by (elim bindR_InrE) (auto simp: stageable_def split: prod.splits)

lemma get_task_own: "get_task cid tid d = Inr t \<Longrightarrow> t_id t = tid \<and> get_for_client cid (t_id t) d = Some t"
  using get_for_client_Some [of cid tid d t] by (simp add: get_task_Inr)

lemma stage_update_ok: "stage_plan_task_update e cid user tid u d = Inr s \<Longrightarrow> stageable cid user d s"
  unfolding stage_plan_task_update_def
  by (elim bindR_InrE, drule get_task_own) (auto simp: stageable_def split: prod.splits)

lemma stage_delete_ok: "stage_plan_task_delete cid user tid d = Inr s \<Longrightarrow> stageable cid user d s"
  unfolding stage_plan_task_delete_def
  by (elim bindR_InrE, drule get_task_own) (auto simp: stageable_def split: prod.splits)

lemma stage_duplicate_ok: "stage_plan_task_duplicate e cid user tid d = Inr s \<Longrightarrow> stageable cid user d s"
  unfolding stage_plan_task_duplicate_def by (elim bindR_InrE) (auto simp: stageable_def split: prod.splits)

lemma stage_note_ok: "stage_plan_task_add_note e cid user tid body d = Inr s \<Longrightarrow> stageable cid user d s"
  unfolding stage_plan_task_add_note_def by (elim bindR_InrE) (auto simp: stageable_def split: prod.splits)

lemma stage_client_ok: "stage_update_client e cid user cu d = Inr s \<Longrightarrow> stageable cid user d s"
  unfolding stage_update_client_def
  by (elim bindR_InrE) (auto simp: stageable_def split: prod.splits if_splits elim!: bindR_InrE)

lemma stage_brand_ok: "stage_update_brand e cid user bu d = Inr s \<Longrightarrow> stageable cid user d s"
  unfolding stage_update_brand_def
  by (elim bindR_InrE) (auto simp: stageable_def split: prod.splits if_splits elim!: bindR_InrE)

lemmas stage_ok = stage_create_ok stage_update_ok stage_delete_ok stage_duplicate_ok stage_note_ok
  stage_client_ok stage_brand_ok

lemma staged_Inr [result_simps]: "staged r = Inr x \<longleftrightarrow> (\<exists>s. r = Inr s \<and> x = Tool_op s)"
  by (auto simp: staged_def result_simps)

lemma stage_each_ok:
  assumes "stage_each stage tids b = Inr b'" "list_all P (sb_operations b)" "\<And>tid s. stage tid = Inr s \<Longrightarrow> P s"
  shows "list_all P (sb_operations b')"
  using assms
proof (induction stage tids b rule: stage_each.induct)
  case (2 stage tid tids b)
  show ?case
  proof (cases "stage tid")
    case (Inl e)
    with 2 show ?thesis by (cases e) auto
  next
    case (Inr s)
    with 2 have "P s" by blast
    with 2 Inr show ?thesis by simp
  qed
qed simp

lemma stage_all_ok:
  assumes "stage_all stage tids = Inr r" "\<And>tid s. stage tid = Inr s \<Longrightarrow> stageable cid user d s"
  shows "result_ok cid user d r"
  using assms(1) stage_each_ok [of stage tids _ _ "stageable cid user d"] assms(2)
  by (auto simp: stage_all_def result_ok_def result_simps)

lemma read_tools_stage_nothing:
  "spec \<in> set READ_TOOLS \<Longrightarrow> ts_handler spec = Some h \<Longrightarrow> h w cid user kw d = Inr r \<Longrightarrow> \<exists>j. r = Tool_dict j"
  by (auto simp: READ_TOOLS_def search_plan_tasks_def get_plan_task_def search_users_def get_client_tool_def
      get_editable_schema_def search_knowledge_base_def get_performance_summary_def Let_def split_beta
      elim!: bindR_InrE)

lemma staged_ok: "staged r = Inr x \<Longrightarrow> (\<And>s. r = Inr s \<Longrightarrow> stageable cid user d s) \<Longrightarrow> result_ok cid user d x"
  by (auto simp: staged_Inr result_ok_def)

lemma single_write_ok:
  "propose_create_plan_task w cid user kw d = Inr r \<Longrightarrow> result_ok cid user d r"
  "propose_update_plan_task w cid user kw d = Inr r \<Longrightarrow> result_ok cid user d r"
  "propose_assign_user_to_plan_task w cid user kw d = Inr r \<Longrightarrow> result_ok cid user d r"
  "propose_unassign_plan_task w cid user kw d = Inr r \<Longrightarrow> result_ok cid user d r"
  "propose_archive_plan_task w cid user kw d = Inr r \<Longrightarrow> result_ok cid user d r"
  "propose_delete_plan_task w cid user kw d = Inr r \<Longrightarrow> result_ok cid user d r"
  "propose_duplicate_plan_task w cid user kw d = Inr r \<Longrightarrow> result_ok cid user d r"
  "propose_add_plan_task_note w cid user kw d = Inr r \<Longrightarrow> result_ok cid user d r"
  "propose_update_client w cid user kw d = Inr r \<Longrightarrow> result_ok cid user d r"
  "propose_update_brand w cid user kw d = Inr r \<Longrightarrow> result_ok cid user d r"
  unfolding propose_create_plan_task_def propose_update_plan_task_def propose_assign_user_to_plan_task_def
      propose_unassign_plan_task_def propose_archive_plan_task_def propose_delete_plan_task_def
      propose_duplicate_plan_task_def propose_add_plan_task_note_def propose_update_client_def
      propose_update_brand_def
  by (elim bindR_InrE, (simp split: if_splits)?, (elim bindR_InrE)?, erule staged_ok, erule stage_ok)+

lemma bulk_write_ok:
  "propose_bulk_update_plan_tasks w cid user kw d = Inr r \<Longrightarrow> result_ok cid user d r"
  "propose_bulk_delete_plan_tasks w cid user kw d = Inr r \<Longrightarrow> result_ok cid user d r"
  unfolding propose_bulk_update_plan_tasks_def propose_bulk_delete_plan_tasks_def Let_def
  by (elim bindR_InrE, simp split: if_splits, (elim bindR_InrE)?, (simp split: if_splits)?, (elim bindR_InrE)?,
      erule stage_all_ok, erule stage_ok)+

lemma write_tools_ok:
  assumes "spec \<in> set WRITE_TOOLS" "ts_handler spec = Some h" "h w cid user kw d = Inr r"
  shows "result_ok cid user d r"
  using assms single_write_ok bulk_write_ok by (auto simp: WRITE_TOOLS_def)

section \<open>The scope of a bulk change\<close>

text \<open>The tasks a range call is about, and the rows of its window in the order the query returns them.\<close>

definition bulk_query :: "kwargs \<Rightarrow> date \<times> date \<Rightarrow> task_status option \<Rightarrow> task_query" where
  "bulk_query kw win status = tool_query status (Some win) False (flag ''include_archived'' kw)"

definition narrowed_to :: "kwargs \<Rightarrow> plan_task \<Rightarrow> bool" where
  "narrowed_to kw t \<longleftrightarrow>
     (case if_true ''query'' kw of None \<Rightarrow> True | Some a \<Rightarrow>
        (case lower_arg a of Inl f \<Rightarrow> False | Inr q \<Rightarrow> title_matches q t)) \<and>
     (case if_true ''assignee_id'' kw of
        Some a \<Rightarrow> (case uuid_arg a of Inl f \<Rightarrow> False | Inr uid \<Rightarrow> assigned_to uid t)
      | None \<Rightarrow> flag ''assigned_only'' kw \<longrightarrow> t_assignee_id t \<noteq> None)"

definition window_rows :: "uuid \<Rightarrow> task_query \<Rightarrow> db \<Rightarrow> plan_task list" where
  "window_rows cid q d = fst (list_tasks_for_client cid q 0 None d)"

definition bulk_scope :: "uuid \<Rightarrow> kwargs \<Rightarrow> date \<times> date \<Rightarrow> task_status option \<Rightarrow> db \<Rightarrow> uuid set" where
  "bulk_scope cid kw win status d =
     t_id ` {t \<in> set (d_tasks d). task_matches cid (bulk_query kw win status) t \<and> narrowed_to kw t}"

text \<open>A call by range, with its window and status as they parse.\<close>

definition range_call :: "kwargs \<Rightarrow> date \<times> date \<Rightarrow> task_status option \<Rightarrow> bool" where
  "range_call kw win status \<longleftrightarrow> if_true ''task_ids'' kw = None \<and>
     resolve_date_window None (if_true ''start_date'' kw) (if_true ''end_date'' kw) = Inr (Some win) \<and>
     conv status_arg (if_true ''status'' kw) = Inr status"

lemma set_window_rows: "set (window_rows cid q d) = {t \<in> set (d_tasks d). task_matches cid q t}"
  by (simp add: window_rows_def list_tasks_for_client_def Let_def)

lemma first_window_rows:
  "fst (list_tasks_for_client cid q 0 (Some n) d) = take n (window_rows cid q d)"
  by (simp add: window_rows_def list_tasks_for_client_def Let_def page_of_def)

lemma narrow_both:
  assumes "narrow_by_title (if_true ''query'' kw) rows = Inr titled"
    "apply_assignee_filter (if_true ''assignee_id'' kw) (flag ''assigned_only'' kw) titled = Inr found"
  shows "found = filter (narrowed_to kw) rows"
proof -
  have "titled = filter (\<lambda>t. case if_true ''query'' kw of None \<Rightarrow> True | Some a \<Rightarrow>
        (case lower_arg a of Inl f \<Rightarrow> False | Inr q \<Rightarrow> title_matches q t)) rows"
    using assms(1) by (auto simp: narrow_by_title_def bindR_def split: option.splits sum.splits)
  moreover have "found = filter (\<lambda>t. case if_true ''assignee_id'' kw of
        Some a \<Rightarrow> (case uuid_arg a of Inl f \<Rightarrow> False | Inr uid \<Rightarrow> assigned_to uid t)
      | None \<Rightarrow> flag ''assigned_only'' kw \<longrightarrow> t_assignee_id t \<noteq> None) titled"
    using assms(2) by (auto simp: apply_assignee_filter_def bindR_def split: option.splits sum.splits if_splits)
  ultimately show ?thesis unfolding narrowed_to_def [abs_def] by simp
qed

lemma resolve_range:
  assumes "range_call kw win status" "resolve_bulk_task_ids cid kw d = Inr ids"
  shows "ids = map t_id (filter (narrowed_to kw) (take 101 (window_rows cid (bulk_query kw win status) d)))"
    "length ids \<le> 100"
proof -
  let ?rows = "take 101 (window_rows cid (bulk_query kw win status) d)"
  have "bindR (narrow_by_title (if_true ''query'' kw) ?rows) (\<lambda>titled.
        bindR (apply_assignee_filter (if_true ''assignee_id'' kw) (flag ''assigned_only'' kw) titled) (\<lambda>found.
          if MAX_BULK_MATCHES < length found then Inl (Value_error (Some (too_many (length found))))
          else Inr (map t_id found))) = Inr ids"
    using assms by (simp add: range_call_def resolve_bulk_task_ids_def bulk_query_def [symmetric] first_window_rows
        Let_def MAX_BULK_MATCHES_def)
  then obtain titled found where f: "narrow_by_title (if_true ''query'' kw) ?rows = Inr titled"
      "apply_assignee_filter (if_true ''assignee_id'' kw) (flag ''assigned_only'' kw) titled = Inr found"
      "length found \<le> MAX_BULK_MATCHES" "ids = map t_id found"
    by (elim bindR_InrE) (auto split: if_splits)
  with narrow_both [OF f(1,2)]
  show "ids = map t_id (filter (narrowed_to kw) ?rows)" "length ids \<le> 100"
    by (simp_all add: MAX_BULK_MATCHES_def)
qed

lemma stage_each_covers:
  assumes "stage_each stage tids b = Inr b'" "\<And>tid s. stage tid = Inr s \<Longrightarrow> so_entity_id s = Some tid"
  shows "so_entity_id ` set (sb_operations b') \<union> Some ` fst ` set (sb_skipped b') =
    so_entity_id ` set (sb_operations b) \<union> Some ` fst ` set (sb_skipped b) \<union> Some ` set tids"
  using assms(1)
proof (induction tids arbitrary: b)
  case (Cons tid tids)
  show ?case
  proof (cases "stage tid")
    case (Inl e)
    then obtain c msg where "e = AppError c msg" using Cons.prems by (cases e) auto
    with Cons.IH [of "b\<lparr>sb_skipped := sb_skipped b @ [(tid, msg)]\<rparr>"] Cons.prems Inl show ?thesis by simp
  next
    case (Inr s)
    with Cons.IH [of "b\<lparr>sb_operations := sb_operations b @ [s]\<rparr>"] Cons.prems assms(2) [OF Inr]
    show ?thesis by simp
  qed
qed simp

lemma stage_delete_id: "stage_plan_task_delete cid user tid d = Inr s \<Longrightarrow> so_entity_id s = Some tid"
  unfolding stage_plan_task_delete_def by (elim bindR_InrE) (auto split: prod.splits)

text \<open>A bulk delete by range covers its scope: when the window holds at most 101 tasks, every task in
  the window that the title and the assignee narrow to is either staged for deletion or reported as
  skipped, and nothing else is.\<close>

theorem bulk_delete_covers_scope:
  assumes "range_call kw win status" "propose_bulk_delete_plan_tasks w cid user kw d = Inr (Tool_batch b)"
    "length (window_rows cid (bulk_query kw win status) d) \<le> 101"
  shows "so_entity_id ` set (sb_operations b) \<union> Some ` fst ` set (sb_skipped b) =
    Some ` bulk_scope cid kw win status d"
proof -
  obtain ids where ids: "resolve_bulk_task_ids cid kw d = Inr ids"
    and st: "stage_each (\<lambda>tid. stage_plan_task_delete cid user tid d) ids \<lparr>sb_operations = [], sb_skipped = []\<rparr> = Inr b"
    using assms(2) unfolding propose_bulk_delete_plan_tasks_def stage_all_def
    by (elim bindR_InrE) (auto split: if_splits elim!: bindR_InrE)
  have "set ids = bulk_scope cid kw win status d"
    using resolve_range(1) [OF assms(1) ids] assms(3) by (auto simp: bulk_scope_def set_window_rows)
  moreover have "so_entity_id ` set (sb_operations b) \<union> Some ` fst ` set (sb_skipped b) = Some ` set ids"
    using stage_each_covers [OF st stage_delete_id] by simp
  ultimately show ?thesis by simp
qed

text \<open>The cut comes before the narrowing: when the window holds more than 101 tasks and none of the
  first 101 is in scope, the tool answers that nothing matched, whatever the later ones are.\<close>

theorem bulk_cut_hides_matches:
  assumes "range_call kw win status" "resolve_bulk_task_ids cid kw d = Inr ids"
    "list_all (\<lambda>t. \<not> narrowed_to kw t) (take 101 (window_rows cid (bulk_query kw win status) d))"
  shows "propose_bulk_delete_plan_tasks w cid user kw d =
    Inl (Value_error (Some ''No tasks matched that scope -- nothing to delete.''))"
proof -
  have "ids = []" using resolve_range(1) [OF assms(1,2)] assms(3) by (simp add: list_all_iff)
  with assms(2) show ?thesis by (simp add: propose_bulk_delete_plan_tasks_def)
qed

text \<open>A board of 102 tasks in one month, of which the last in order is called Launch.\<close>

definition crowded_task :: "nat \<Rightarrow> plan_task" where
  "crowded_task i = (sample_task i 1)\<lparr>t_title := Some (if i = 101 then ''Launch'' else ''Post'')\<rparr>"

definition crowded_db :: db where
  "crowded_db = empty_db\<lparr>d_clients := [sample_client 1], d_users := [sample_user 2 Role_admin],
     d_tasks := map crowded_task [0..<102]\<rparr>"

definition launch_call :: kwargs where
  "launch_call = [(''start_date'', AStr ''0001-01-01''), (''end_date'', AStr ''0001-01-31''), (''query'', AStr ''launch'')]"

lemma launch_range: "range_call launch_call (1, 31) None"
  by (simp add: range_call_def launch_call_def if_true_def) code_simp

lemma crowded_window: "window_rows 1 (bulk_query launch_call (1, 31) None) crowded_db = map crowded_task [0..<102]"
proof -
  have m: "task_matches 1 (bulk_query launch_call (1, 31) None) (crowded_task i)" for i
    by (simp add: task_matches_def bulk_query_def tool_query_def crowded_task_def sample_task_def eq_filter_def
        windowed_def in_window_def sql_le_def span_start_def span_end_def coalesce_date_def flag_def if_true_def launch_call_def)
  have k: "(nulls_last (span_start (crowded_task i)), t_id (crowded_task i)) = ((0, 10), i)" for i
    by (simp add: crowded_task_def sample_task_def span_start_def coalesce_date_def nulls_last_def)
  have "sorted (map (\<lambda>t. (nulls_last (span_start t), t_id t)) (map crowded_task [0..<102]))"
    by (simp add: comp_def k sorted_iff_nth_mono del: upt_conv_Cons)
  then have "sort_key (\<lambda>t. (nulls_last (span_start t), t_id t)) (map crowded_task [0..<102]) = map crowded_task [0..<102]"
    by (rule sort_key_id_if_sorted)
  moreover have "filter (task_matches 1 (bulk_query launch_call (1, 31) None)) (map crowded_task [0..<102]) =
      map crowded_task [0..<102]"
    by (rule filter_True) (use m in auto)
  moreover have "windowed (bulk_query launch_call (1, 31) None)"
    by (simp add: windowed_def bulk_query_def tool_query_def)
  ultimately show ?thesis
    by (simp add: window_rows_def list_tasks_for_client_def crowded_db_def Let_def del: upt_conv_Cons)
qed

lemma launch_narrows: "narrowed_to launch_call (crowded_task i) \<longleftrightarrow> i = 101"
proof -
  have q: "if_true ''query'' launch_call = Some (AStr ''launch'')" "if_true ''assignee_id'' launch_call = None"
      "flag ''assigned_only'' launch_call = False"
    by (simp_all add: launch_call_def if_true_def flag_def)
  have "title_matches (lower ''launch'') (t\<lparr>t_title := Some ''Launch''\<rparr>)"
    "\<not> title_matches (lower ''launch'') (t\<lparr>t_title := Some ''Post''\<rparr>)" for t
    unfolding title_matches_def by (simp, code_simp)+
  with q show ?thesis by (simp add: narrowed_to_def crowded_task_def)
qed

definition no_world :: tool_world where
  "no_world = \<lparr>tw_env = sample_env, tw_timezones = [''UTC''], tw_snippets = (\<lambda>d cid a. Inr []),
     tw_performance = (\<lambda>d cid kw. Inr JNull), tw_message = (\<lambda>f. []), tw_str = (\<lambda>a. [])\<rparr>"

lemma launch_ids: "resolve_bulk_task_ids 1 launch_call crowded_db = Inr []"
proof -
  let ?rows = "map crowded_task [0..<101]"
  have t: "take 101 (map crowded_task [0..<102]) = ?rows" by (simp add: take_map del: upt_conv_Cons)
  have q: "if_true ''task_ids'' launch_call = None" "if_true ''status'' launch_call = None"
      "if_true ''query'' launch_call = Some (AStr ''launch'')" "if_true ''assignee_id'' launch_call = None"
      "flag ''assigned_only'' launch_call = False" "flag ''include_archived'' launch_call = False"
    by (simp_all add: launch_call_def if_true_def flag_def)
  have w: "resolve_date_window None (if_true ''start_date'' launch_call) (if_true ''end_date'' launch_call) = Inr (Some (1, 31))"
    using launch_range by (simp add: range_call_def)
  have rows: "fst (list_tasks_for_client 1 (tool_query None (Some (1, 31)) False False) 0 (Some (MAX_BULK_MATCHES + 1)) crowded_db) = ?rows"
    using first_window_rows [of 1 "tool_query None (Some (1, 31)) False False" 101 crowded_db] crowded_window
    by (simp add: bulk_query_def q MAX_BULK_MATCHES_def t del: upt_conv_Cons)
  have none: "filter (title_matches (lower ''launch'')) ?rows = []"
  proof (rule filter_False, rule ballI)
    fix x assume "x \<in> set ?rows"
    then obtain i where i: "x = crowded_task i" "i < 101" by auto
    with launch_narrows [of i] show "\<not> title_matches (lower ''launch'') x"
      by (simp add: narrowed_to_def q)
  qed
  show ?thesis
    unfolding resolve_bulk_task_ids_def
    by (simp only: q w rows option.case bindR_Inr option.distinct conv.simps if_False Let_def narrow_by_title_def
        lower_arg.simps none apply_assignee_filter_def) simp
qed

lemma bulk_cut_hides_matches_witness:
  "101 \<in> bulk_scope 1 launch_call (1, 31) None crowded_db \<and>
   propose_bulk_delete_plan_tasks no_world 1 (sample_user 2 Role_admin) launch_call crowded_db =
     Inl (Value_error (Some ''No tasks matched that scope -- nothing to delete.''))"
proof
  have "crowded_task 101 \<in> set (window_rows 1 (bulk_query launch_call (1, 31) None) crowded_db)"
    unfolding crowded_window by (simp del: upt_conv_Cons)
  moreover have "narrowed_to launch_call (crowded_task 101)" by (simp add: launch_narrows)
  moreover have "t_id (crowded_task 101) = 101" by (simp add: crowded_task_def sample_task_def)
  ultimately show "101 \<in> bulk_scope 1 launch_call (1, 31) None crowded_db"
    by (force simp: bulk_scope_def set_window_rows)
  have "list_all (\<lambda>t. \<not> narrowed_to launch_call t) (take 101 (map crowded_task [0..<102]))"
    by (simp add: take_map list_all_iff launch_narrows del: upt_conv_Cons)
  then show "propose_bulk_delete_plan_tasks no_world 1 (sample_user 2 Role_admin) launch_call crowded_db =
     Inl (Value_error (Some ''No tasks matched that scope -- nothing to delete.''))"
    by (intro bulk_cut_hides_matches [OF launch_range launch_ids]) (simp only: crowded_window)
qed

definition month_call :: kwargs where
  "month_call = [(''start_date'', AStr ''0001-01-01''), (''end_date'', AStr ''0001-01-31'')]"

lemma month_range: "range_call month_call (1, 31) None"
  by (simp add: range_call_def month_call_def if_true_def) code_simp

lemma bulk_delete_covers_scope_witness:
  "\<exists>b. propose_bulk_delete_plan_tasks no_world 7 (sample_user 1 Role_admin) month_call board_db = Inr (Tool_batch b) \<and>
     so_entity_id ` set (sb_operations b) \<union> Some ` fst ` set (sb_skipped b) =
       Some ` bulk_scope 7 month_call (1, 31) None board_db \<and> length (sb_operations b) = 1"
proof -
  have r: "case propose_bulk_delete_plan_tasks no_world 7 (sample_user 1 Role_admin) month_call board_db of
      Inr (Tool_batch b) \<Rightarrow> length (sb_operations b) = 1 | _ \<Rightarrow> False"
    by code_simp
  then obtain b where b: "propose_bulk_delete_plan_tasks no_world 7 (sample_user 1 Role_admin) month_call board_db =
      Inr (Tool_batch b)" "length (sb_operations b) = 1"
    by (auto split: sum.splits tool_result.splits)
  have "length (window_rows 7 (bulk_query month_call (1, 31) None) board_db) \<le> 101" by code_simp
  from bulk_delete_covers_scope [OF month_range b(1) this] b show ?thesis by blast
qed

end
