(* ===== verification/Command_Agent.thy ===== *)
theory Command_Agent
  imports Command_Tools
begin

text \<open>
  The tool-calling loop of one chat turn: \<^verbatim>\<open>app/ai/command_agent.py\<close>. The language model is a
  parameter: what it answers to a conversation and the tools it is offered, at once or as a stream. Every
  call of a tool may see another state of the database, since other requests commit while the turn waits
  for the model: \<open>ag_view\<close> gives the state by the length of the conversation.
\<close>

section \<open>The conversation\<close>

record tool_call =
  ca_id :: string
  ca_name :: string
  ca_args :: arg

text \<open>
  The system message is a template filled with the client's name, the day and the read-only notice; the
  others carry what the code puts into them, tool results as the JSON that is dumped.
\<close>

datatype chat_message = Msg_system string date string | Msg_said string string
  | Msg_calls "string option" "tool_call list" | Msg_tool string jval

record stream_delta =
  sd_text :: "string option"
  sd_tool_call :: "tool_call option"

record llm =
  llm_configured :: bool
  llm_complete :: "chat_message list \<Rightarrow> string list \<Rightarrow> exn + string option \<times> tool_call list"
  llm_stream :: "chat_message list \<Rightarrow> string list \<Rightarrow> stream_delta list \<times> exn option"

record agent =
  ag_world :: tool_world
  ag_client :: uuid
  ag_user :: user
  ag_view :: "nat \<Rightarrow> db"
  ag_llm :: llm

record turn_result =
  tr_reply :: string
  tr_operations :: "staged_operation list"

record turn_state =
  st_messages :: "chat_message list"
  st_staged :: "staged_operation list"
  st_question :: "string option"

definition MAX_ROUNDS :: nat where
  "MAX_ROUNDS = 6"

definition MAX_HISTORY_MESSAGES :: nat where
  "MAX_HISTORY_MESSAGES = 20"

definition NOT_CONFIGURED_REPLY :: string where
  "NOT_CONFIGURED_REPLY = ''The AI command assistant isn'' @ CHR 0x27 # ''t configured yet -- ask an administrator '' @
     ''to set up the AI provider before natural-language commands will work.''"

definition PROVIDER_ERROR_REPLY :: string where
  "PROVIDER_ERROR_REPLY = ''Sorry, I couldn'' @ CHR 0x27 # ''t reach the AI provider just now -- please try again.''"

definition ROUND_CAP_REPLY :: string where
  "ROUND_CAP_REPLY = ''I wasn'' @ CHR 0x27 # ''t able to finish working through that in one go -- could you narrow down '' @
     ''the request a little?''"

definition READ_ONLY_SYSTEM_NOTICE :: string where
  "READ_ONLY_SYSTEM_NOTICE =
     ''IMPORTANT: this user'' @ CHR 0x27 # ''s account has READ-ONLY access on this client. They can chat, '' @
     ''ask questions, and see any information you can look up, but they cannot create, '' @
     ''update, delete, assign, approve, or reject anything -- there are no such tools '' @
     ''available in this conversation at all. If they ask you to make any change, do not '' @
     ''attempt it or search for a way around it -- just clearly and politely explain that '' @
     ''their account has read-only access and that an admin or manager on this client '' @
     ''needs to make that change, then offer to help with anything read-only instead.''"

definition READ_ONLY_TOOL_ERROR :: jval where
  "READ_ONLY_TOOL_ERROR = JObj [(''error'', JStr (''This account has read-only access and cannot make this change. '' @
     ''An admin or manager on this client needs to do this instead.''))]"

definition is_read_only :: "agent \<Rightarrow> bool" where
  "is_read_only ag \<longleftrightarrow> u_role (ag_user ag) = Role_user"

definition offered_tools :: "agent \<Rightarrow> string list" where
  "offered_tools ag = openai_tool_definitions (\<not> is_read_only ag)"

text \<open>\<open>today\<close> is the client's local day.\<close>

definition last_n :: "nat \<Rightarrow> 'a list \<Rightarrow> 'a list" where
  "last_n n xs = drop (length xs - n) xs"

definition build_messages :: "agent \<Rightarrow> date \<Rightarrow> string \<Rightarrow> (string \<times> string) list \<Rightarrow> chat_message list" where
  "build_messages ag today content history =
     (let name = (case client_get (ag_client ag) (ag_view ag 0) of
            None \<Rightarrow> ''this client'' | Some c \<Rightarrow> (case c_name c of None \<Rightarrow> ''None'' | Some n \<Rightarrow> n)) in
      [Msg_system name today (if is_read_only ag then READ_ONLY_SYSTEM_NOTICE else [])] @
      map (\<lambda>(role, text). Msg_said role text) (last_n MAX_HISTORY_MESSAGES history) @ [Msg_said ''user'' content])"

section \<open>Dispatching one call\<close>

definition error_dict :: "string \<Rightarrow> tool_result" where
  "error_dict msg = Tool_dict (JObj [(''error'', JStr msg)])"

definition failure_text :: "tool_world \<Rightarrow> failure \<Rightarrow> string" where
  "failure_text w f = (case f of Value_error (Some msg) \<Rightarrow> msg | _ \<Rightarrow> tw_message w f)"

definition dispatch :: "agent \<Rightarrow> string \<Rightarrow> arg \<Rightarrow> db \<Rightarrow> exn + tool_result" where
  "dispatch ag name args d =
     (case tool_named name of
        None \<Rightarrow> Inr (error_dict (''Unknown tool '' @ CHR 0x27 # name @ CHR 0x27 # ''.''))
      | Some spec \<Rightarrow>
          (case ts_handler spec of
             None \<Rightarrow> Inr (error_dict (''Unknown tool '' @ CHR 0x27 # name @ CHR 0x27 # ''.''))
           | Some h \<Rightarrow>
               if ts_kind spec = Kind_write \<and> is_read_only ag then Inr (Tool_dict READ_ONLY_TOOL_ERROR)
               else (case call_handler spec h (ag_world ag) (ag_client ag) (ag_user ag) args d of
                       Inr r \<Rightarrow> Inr r
                     | Inl (Raised (AppError c msg)) \<Rightarrow> Inr (error_dict msg)
                     | Inl (Raised (Crash m)) \<Rightarrow> Inl (Crash m)
                     | Inl f \<Rightarrow> Inr (error_dict (''Invalid arguments for '' @ name @ '': '' @ failure_text (ag_world ag) f)))))"

definition staged_tool_result :: "staged_operation \<Rightarrow> jval" where
  "staged_tool_result s = JObj [(''staged'', JBool True), (''summary'', JStr (''Drafted: '' @
     (case so_entity_label s of None \<Rightarrow> so_entity_type s | Some l \<Rightarrow> if l = [] then so_entity_type s else l) @
     '' (pending human approval, not yet applied)''))]"

definition staged_batch_tool_result :: "staged_batch \<Rightarrow> jval" where
  "staged_batch_tool_result b =
     (let n = length (sb_operations b) in
      JObj ([(''staged'', JBool True), (''summary'', JStr (''Drafted '' @ digits n @
              '' change(s) across the matched items (pending human approval, not yet applied '' @
              ''-- all in the same proposal).'')), (''staged_count'', JInt (int n))] @
        (if sb_skipped b = [] then []
         else [(''skipped'', JList (map (\<lambda>(tid, reason). JObj [(''task_id'', JUuid tid), (''reason'', JStr reason)]) (sb_skipped b))),
               (''skipped_count'', JInt (int (length (sb_skipped b))))])))"

definition say :: "string \<Rightarrow> jval \<Rightarrow> turn_state \<Rightarrow> turn_state" where
  "say call_id payload st = st\<lparr>st_messages := st_messages st @ [Msg_tool call_id payload]\<rparr>"

text \<open>\<^verbatim>\<open>str(call.arguments.get("question") or "Could you clarify that?")\<close>\<close>

definition clarification :: "tool_world \<Rightarrow> arg \<Rightarrow> exn + string" where
  "clarification w args =
     (case args of
        AObj kw \<Rightarrow> (case if_true ''question'' kw of
            None \<Rightarrow> Inr ''Could you clarify that?'' | Some (AStr s) \<Rightarrow> Inr s | Some a \<Rightarrow> Inr (tw_str w a))
      | _ \<Rightarrow> Inl (Crash ''AttributeError''))"

definition call_step :: "agent \<Rightarrow> tool_call \<Rightarrow> turn_state \<Rightarrow> exn + turn_state" where
  "call_step ag call st =
     (if ca_name call = REQUEST_CLARIFICATION
      then bindR (clarification (ag_world ag) (ca_args call)) (\<lambda>q.
        Inr (say (ca_id call) (JObj [(''acknowledged'', JBool True)]) (st\<lparr>st_question := Some q\<rparr>)))
      else bindR (dispatch ag (ca_name call) (ca_args call) (ag_view ag (length (st_messages st)))) (\<lambda>r.
        Inr (case r of
            Tool_batch b \<Rightarrow> say (ca_id call) (staged_batch_tool_result b) (st\<lparr>st_staged := st_staged st @ sb_operations b\<rparr>)
          | Tool_op s \<Rightarrow> say (ca_id call) (staged_tool_result s) (st\<lparr>st_staged := st_staged st @ [s]\<rparr>)
          | Tool_dict j \<Rightarrow> say (ca_id call) j st)))"

fun run_calls :: "agent \<Rightarrow> tool_call list \<Rightarrow> turn_state \<Rightarrow> exn + turn_state" where
  "run_calls ag [] st = Inr st"
| "run_calls ag (call # calls) st = bindR (call_step ag call st) (run_calls ag calls)"

section \<open>A turn\<close>

definition or_empty :: "string option \<Rightarrow> string" where
  "or_empty s = (case s of None \<Rightarrow> [] | Some x \<Rightarrow> x)"

definition asked :: "string option \<Rightarrow> tool_call list \<Rightarrow> turn_state \<Rightarrow> turn_state" where
  "asked content calls st = st\<lparr>st_messages := st_messages st @ [Msg_calls content calls]\<rparr>"

fun turn_rounds :: "agent \<Rightarrow> nat \<Rightarrow> turn_state \<Rightarrow> exn + turn_result" where
  "turn_rounds ag 0 st = Inr \<lparr>tr_reply = ROUND_CAP_REPLY, tr_operations = st_staged st\<rparr>"
| "turn_rounds ag (Suc n) st =
     (case llm_complete (ag_llm ag) (st_messages st) (offered_tools ag) of
        Inl (AppError c m) \<Rightarrow> Inr \<lparr>tr_reply = PROVIDER_ERROR_REPLY, tr_operations = st_staged st\<rparr>
      | Inl (Crash m) \<Rightarrow> Inl (Crash m)
      | Inr (content, calls) \<Rightarrow>
          if calls = [] then Inr \<lparr>tr_reply = or_empty content, tr_operations = st_staged st\<rparr>
          else bindR (run_calls ag calls (asked content calls st)) (\<lambda>st'.
            case st_question st' of
              Some q \<Rightarrow> Inr \<lparr>tr_reply = q, tr_operations = []\<rparr>
            | None \<Rightarrow> turn_rounds ag n st'))"

definition start_turn :: "agent \<Rightarrow> date \<Rightarrow> string \<Rightarrow> (string \<times> string) list \<Rightarrow> turn_state" where
  "start_turn ag today content history =
     \<lparr>st_messages = build_messages ag today content history, st_staged = [], st_question = None\<rparr>"

definition run_turn :: "agent \<Rightarrow> date \<Rightarrow> string \<Rightarrow> (string \<times> string) list \<Rightarrow> exn + turn_result" where
  "run_turn ag today content history =
     (if \<not> llm_configured (ag_llm ag) then Inr \<lparr>tr_reply = NOT_CONFIGURED_REPLY, tr_operations = []\<rparr>
      else turn_rounds ag MAX_ROUNDS (start_turn ag today content history))"

section \<open>The streamed turn\<close>

datatype stream_event = Ev_delta string | Ev_progress string | Ev_result turn_result

definition delta_texts :: "stream_delta list \<Rightarrow> string list" where
  "delta_texts ds = filter (\<lambda>s. s \<noteq> []) (List.map_filter sd_text ds)"

definition delta_calls :: "stream_delta list \<Rightarrow> tool_call list" where
  "delta_calls ds = List.map_filter sd_tool_call ds"

definition joined :: "string list \<Rightarrow> string option" where
  "joined parts = (if concat parts = [] then None else Some (concat parts))"

fun stream_calls :: "agent \<Rightarrow> tool_call list \<Rightarrow> turn_state \<Rightarrow> stream_event list \<times> (exn + turn_state)" where
  "stream_calls ag [] st = ([], Inr st)"
| "stream_calls ag (call # calls) st =
     (let shown = (if ca_name call = REQUEST_CLARIFICATION then [] else [Ev_progress (progress_label_for (ca_name call))]) in
      case call_step ag call st of
        Inl e \<Rightarrow> (shown, Inl e)
      | Inr st' \<Rightarrow> (case stream_calls ag calls st' of (evs, r) \<Rightarrow> (shown @ evs, r)))"

fun stream_rounds :: "agent \<Rightarrow> nat \<Rightarrow> turn_state \<Rightarrow> stream_event list \<times> exn option" where
  "stream_rounds ag 0 st = ([Ev_result \<lparr>tr_reply = ROUND_CAP_REPLY, tr_operations = st_staged st\<rparr>], None)"
| "stream_rounds ag (Suc n) st =
     (case llm_stream (ag_llm ag) (st_messages st) (offered_tools ag) of (ds, err) \<Rightarrow>
        let shown = map Ev_delta (delta_texts ds); content = joined (delta_texts ds); calls = delta_calls ds in
        case err of
          Some (AppError c m) \<Rightarrow> (shown @ [Ev_result \<lparr>tr_reply = PROVIDER_ERROR_REPLY, tr_operations = st_staged st\<rparr>], None)
        | Some (Crash m) \<Rightarrow> (shown, Some (Crash m))
        | None \<Rightarrow>
            if calls = [] then (shown @ [Ev_result \<lparr>tr_reply = or_empty content, tr_operations = st_staged st\<rparr>], None)
            else (case stream_calls ag calls (asked content calls st) of
                (evs, Inl e) \<Rightarrow> (shown @ evs, Some e)
              | (evs, Inr st') \<Rightarrow>
                  (case st_question st' of
                     Some q \<Rightarrow> (shown @ evs @ [Ev_result \<lparr>tr_reply = q, tr_operations = []\<rparr>], None)
                   | None \<Rightarrow> (case stream_rounds ag n st' of (evs', e) \<Rightarrow> (shown @ evs @ evs', e)))))"

definition run_turn_stream :: "agent \<Rightarrow> date \<Rightarrow> string \<Rightarrow> (string \<times> string) list \<Rightarrow> stream_event list \<times> exn option" where
  "run_turn_stream ag today content history =
     (if \<not> llm_configured (ag_llm ag) then ([Ev_result \<lparr>tr_reply = NOT_CONFIGURED_REPLY, tr_operations = []\<rparr>], None)
      else stream_rounds ag MAX_ROUNDS (start_turn ag today content history))"

section \<open>What a turn stages\<close>

text \<open>An operation this chat may stage, at some state the turn saw.\<close>

definition turn_stageable :: "agent \<Rightarrow> staged_operation \<Rightarrow> bool" where
  "turn_stageable ag s \<longleftrightarrow> u_role (ag_user ag) \<noteq> Role_user \<and>
     (\<exists>n. stageable (ag_client ag) (ag_user ag) (ag_view ag n) s)"

definition staged_well :: "agent \<Rightarrow> turn_state \<Rightarrow> bool" where
  "staged_well ag st \<longleftrightarrow> list_all (turn_stageable ag) (st_staged st)"

lemma tool_named_kinds:
  assumes "tool_named name = Some spec" "ts_handler spec = Some h"
  shows "spec \<in> set READ_TOOLS \<or> spec \<in> set WRITE_TOOLS \<and> ts_kind spec = Kind_write"
proof -
  have "spec \<in> set TOOLS" using assms(1) by (auto simp: tool_named_def dest: find_by_in_set)
  moreover have "spec \<in> set WRITE_TOOLS \<Longrightarrow> ts_kind spec = Kind_write" by (auto simp: WRITE_TOOLS_def)
  ultimately show ?thesis using assms(2) by (auto simp: TOOLS_def)
qed

lemma dispatch_ok:
  assumes "dispatch ag name args d = Inr r"
  shows "(\<exists>j. r = Tool_dict j) \<or> u_role (ag_user ag) \<noteq> Role_user \<and> result_ok (ag_client ag) (ag_user ag) d r"
proof (cases "tool_named name")
  case (Some spec)
  show ?thesis
  proof (cases "ts_handler spec")
    case h: (Some h)
    show ?thesis
    proof (cases "call_handler spec h (ag_world ag) (ag_client ag) (ag_user ag) args d")
      case (Inl f)
      with assms Some h show ?thesis
        by (cases f) (auto simp: dispatch_def error_dict_def split: if_splits exn.splits)
    next
      case (Inr r')
      then obtain kw where kw: "h (ag_world ag) (ag_client ag) (ag_user ag) kw d = Inr r'"
        by (auto simp: call_handler_def split: arg.splits if_splits)
      from tool_named_kinds [OF Some h] show ?thesis
      proof
        assume "spec \<in> set READ_TOOLS"
        from read_tools_stage_nothing [OF this h kw] assms Some h Inr show ?thesis
          by (auto simp: dispatch_def split: if_splits)
      next
        assume "spec \<in> set WRITE_TOOLS \<and> ts_kind spec = Kind_write"
        then show ?thesis using write_tools_ok [OF _ h kw] assms Some h Inr
          by (auto simp: dispatch_def is_read_only_def split: if_splits)
      qed
    qed
  qed (use assms Some in \<open>auto simp: dispatch_def error_dict_def\<close>)
qed (use assms in \<open>auto simp: dispatch_def error_dict_def\<close>)

lemma call_step_well:
  assumes "call_step ag call st = Inr st'" "staged_well ag st"
  shows "staged_well ag st'"
proof (cases "ca_name call = REQUEST_CLARIFICATION")
  case True
  with assms show ?thesis by (auto simp: call_step_def say_def staged_well_def elim!: bindR_InrE)
next
  case False
  then obtain r where r: "dispatch ag (ca_name call) (ca_args call) (ag_view ag (length (st_messages st))) = Inr r"
    using assms(1) by (auto simp: call_step_def elim!: bindR_InrE)
  with False assms dispatch_ok [OF r] show ?thesis
    by (cases r) (auto simp: call_step_def say_def staged_well_def result_ok_def turn_stageable_def list_all_iff)
qed

lemma run_calls_well: "run_calls ag calls st = Inr st' \<Longrightarrow> staged_well ag st \<Longrightarrow> staged_well ag st'"
  by (induction calls arbitrary: st) (auto elim!: bindR_InrE dest: call_step_well)

lemma turn_rounds_well:
  "turn_rounds ag n st = Inr r \<Longrightarrow> staged_well ag st \<Longrightarrow> list_all (turn_stageable ag) (tr_operations r)"
proof (induction n arbitrary: st)
  case (Suc n)
  show ?case
  proof (cases "llm_complete (ag_llm ag) (st_messages st) (offered_tools ag)")
    case (Inl e)
    with Suc.prems show ?thesis by (cases e) (auto simp: staged_well_def)
  next
    case (Inr a)
    obtain content calls where a: "a = (content, calls)" by (cases a)
    show ?thesis
    proof (cases "calls = []")
      case True
      with Suc.prems Inr a show ?thesis by (auto simp: staged_well_def)
    next
      case False
      then obtain st' where st': "run_calls ag calls (asked content calls st) = Inr st'"
          "(case st_question st' of Some q \<Rightarrow> Inr \<lparr>tr_reply = q, tr_operations = []\<rparr>
            | None \<Rightarrow> turn_rounds ag n st') = Inr r"
        using Suc.prems(1) Inr a by (auto elim!: bindR_InrE)
      have "staged_well ag (asked content calls st)" using Suc.prems(2) by (simp add: staged_well_def asked_def)
      from run_calls_well [OF st'(1) this] Suc.IH st'(2) show ?thesis by (auto split: option.splits)
    qed
  qed
qed (auto simp: staged_well_def)

lemma run_turn_well: "run_turn ag today content history = Inr r \<Longrightarrow> list_all (turn_stageable ag) (tr_operations r)"
  unfolding run_turn_def
  by (auto split: if_splits elim!: turn_rounds_well simp: staged_well_def start_turn_def)


section \<open>The two forms of a turn agree\<close>

text \<open>A stream that carries what the completion answers.\<close>

definition streams_completion :: "llm \<Rightarrow> bool" where
  "streams_completion m \<longleftrightarrow> (\<forall>ms ts. case llm_complete m ms ts of
     Inl e \<Rightarrow> snd (llm_stream m ms ts) = Some e
   | Inr (content, calls) \<Rightarrow> snd (llm_stream m ms ts) = None \<and> delta_calls (fst (llm_stream m ms ts)) = calls \<and>
       joined (delta_texts (fst (llm_stream m ms ts))) = content)"

definition is_result :: "stream_event \<Rightarrow> bool" where
  "is_result ev \<longleftrightarrow> (case ev of Ev_result r \<Rightarrow> True | _ \<Rightarrow> False)"

text \<open>The stream ends as the turn does: with its result as the one last event, or with its exception.\<close>

definition ends_as :: "exn + turn_result \<Rightarrow> stream_event list \<times> exn option \<Rightarrow> bool" where
  "ends_as t ss \<longleftrightarrow> (case t of
     Inr r \<Rightarrow> snd ss = None \<and> (\<exists>evs. fst ss = evs @ [Ev_result r] \<and> list_all (\<lambda>ev. \<not> is_result ev) evs)
   | Inl e \<Rightarrow> snd ss = Some e \<and> list_all (\<lambda>ev. \<not> is_result ev) (fst ss))"

lemma deltas_no_result [simp]: "list_all (\<lambda>ev. \<not> is_result ev) (map Ev_delta ts)"
  by (simp add: list_all_iff is_result_def)

lemma ends_as_prefix:
  "ends_as t (evs, e) \<Longrightarrow> list_all (\<lambda>ev. \<not> is_result ev) pre \<Longrightarrow> ends_as t (pre @ evs, e)"
  by (cases t) (auto simp: ends_as_def)

lemma ends_as_result: "list_all (\<lambda>ev. \<not> is_result ev) pre \<Longrightarrow> ends_as (Inr r) (pre @ [Ev_result r], None)"
  by (auto simp: ends_as_def)

lemma stream_calls_run:
  "stream_calls ag calls st = (evs, r) \<Longrightarrow> r = run_calls ag calls st \<and> list_all (\<lambda>ev. \<not> is_result ev) evs"
  by (induction calls arbitrary: st evs r)
    (auto simp: Let_def is_result_def split: sum.splits prod.splits if_splits)

lemma stream_rounds_agree:
  assumes "streams_completion (ag_llm ag)"
  shows "ends_as (turn_rounds ag n st) (stream_rounds ag n st)"
proof (induction n arbitrary: st)
  case 0 then show ?case using ends_as_result [of "[]"] by simp
next
  case (Suc n)
  obtain ds err where s: "llm_stream (ag_llm ag) (st_messages st) (offered_tools ag) = (ds, err)"
    by (cases "llm_stream (ag_llm ag) (st_messages st) (offered_tools ag)")
  have c: "case llm_complete (ag_llm ag) (st_messages st) (offered_tools ag) of
     Inl e \<Rightarrow> err = Some e
   | Inr (content, calls) \<Rightarrow> err = None \<and> delta_calls ds = calls \<and> joined (delta_texts ds) = content"
    using assms s unfolding streams_completion_def by (metis fst_conv snd_conv)
  show ?case
  proof (cases "llm_complete (ag_llm ag) (st_messages st) (offered_tools ag)")
    case (Inl e)
    with c s show ?thesis by (cases e) (auto simp: Let_def ends_as_def)
  next
    case (Inr a)
    obtain content calls where a: "a = (content, calls)" by (cases a)
    with c Inr have e: "err = None" "delta_calls ds = calls" "joined (delta_texts ds) = content" by auto
    show ?thesis
    proof (cases "calls = []")
      case True
      with s e Inr a show ?thesis by (auto simp: Let_def intro: ends_as_result)
    next
      case False
      obtain evs r where sc: "stream_calls ag calls (asked content calls st) = (evs, r)"
        by (cases "stream_calls ag calls (asked content calls st)")
      from stream_calls_run [OF sc] have r: "r = run_calls ag calls (asked content calls st)"
        and evs: "list_all (\<lambda>ev. \<not> is_result ev) evs" by simp_all
      show ?thesis
      proof (cases r)
        case (Inl x)
        then have "run_calls ag calls (asked content calls st) = Inl x" using r by simp
        with s e Inr a False sc Inl evs show ?thesis by (simp add: Let_def ends_as_def)
      next
        case st': (Inr st')
        then have rc: "run_calls ag calls (asked content calls st) = Inr st'" using r by simp
        obtain evs' e' where ih: "stream_rounds ag n st' = (evs', e')" by (cases "stream_rounds ag n st'")
        have "ends_as (turn_rounds ag n st') ((map Ev_delta (delta_texts ds) @ evs) @ evs', e')"
          using Suc.IH [of st'] evs by (intro ends_as_prefix) (simp_all add: ih)
        with ends_as_result [of "map Ev_delta (delta_texts ds) @ evs"] s e Inr a False sc rc evs st' ih
        show ?thesis by (auto simp: Let_def split: option.splits)
      qed
    qed
  qed
qed

lemma run_turn_streams:
  "streams_completion (ag_llm ag) \<Longrightarrow>
    ends_as (run_turn ag today content history) (run_turn_stream ag today content history)"
  using stream_rounds_agree ends_as_result [of "[]"] by (auto simp: run_turn_def run_turn_stream_def)

text \<open>The streamed turn and the plain one agree: when the provider's stream carries what its completion
  would answer, the events end with the very result the plain turn returns, once, or break off with the
  exception it raises.\<close>

theorem streamed_turn_agrees:
  assumes "streams_completion (ag_llm ag)"
  shows "ends_as (run_turn ag today content history) (run_turn_stream ag today content history)"
  by (rule run_turn_streams [OF assms])

section \<open>A turn ends\<close>

definition is_calls :: "chat_message \<Rightarrow> bool" where
  "is_calls m \<longleftrightarrow> (case m of Msg_calls c cs \<Rightarrow> True | _ \<Rightarrow> False)"

text \<open>The rounds of tools a conversation has been through.\<close>

definition rounds_of :: "chat_message list \<Rightarrow> nat" where
  "rounds_of ms = length (filter is_calls ms)"

text \<open>Two models that answer alike every conversation of at most five rounds of tools.\<close>

definition alike_for_six :: "llm \<Rightarrow> llm \<Rightarrow> bool" where
  "alike_for_six m m' \<longleftrightarrow> llm_configured m = llm_configured m' \<and>
     (\<forall>ms ts. rounds_of ms < MAX_ROUNDS \<longrightarrow> llm_complete m ms ts = llm_complete m' ms ts)"

lemma call_step_rounds: "call_step ag call st = Inr st' \<Longrightarrow> rounds_of (st_messages st') = rounds_of (st_messages st)"
  by (auto simp: call_step_def say_def rounds_of_def is_calls_def split: if_splits tool_result.splits elim!: bindR_InrE)

lemma run_calls_rounds: "run_calls ag calls st = Inr st' \<Longrightarrow> rounds_of (st_messages st') = rounds_of (st_messages st)"
  by (induction calls arbitrary: st) (auto elim!: bindR_InrE dest: call_step_rounds)

lemma agent_llm_irrelevant [simp]:
  "call_step (ag\<lparr>ag_llm := m\<rparr>) call st = call_step ag call st"
  "run_calls (ag\<lparr>ag_llm := m\<rparr>) calls st = run_calls ag calls st"
  "offered_tools (ag\<lparr>ag_llm := m\<rparr>) = offered_tools ag"
  "start_turn (ag\<lparr>ag_llm := m\<rparr>) today content history = start_turn ag today content history"
proof -
  have "dispatch (ag\<lparr>ag_llm := m\<rparr>) name args d = dispatch ag name args d" for name args d
  proof -
    have "ag_world (ag\<lparr>ag_llm := m\<rparr>) = ag_world ag" "ag_client (ag\<lparr>ag_llm := m\<rparr>) = ag_client ag"
        "ag_user (ag\<lparr>ag_llm := m\<rparr>) = ag_user ag"
      by simp_all
    then show ?thesis unfolding dispatch_def is_read_only_def by (simp only:)
  qed
  then show c: "call_step (ag\<lparr>ag_llm := m\<rparr>) call st = call_step ag call st" for call st
    by (simp add: call_step_def)
  show "run_calls (ag\<lparr>ag_llm := m\<rparr>) calls st = run_calls ag calls st"
    by (induction calls arbitrary: st) (simp_all add: c bindR_def split: sum.split)
qed (simp_all add: offered_tools_def is_read_only_def start_turn_def build_messages_def)

lemma turn_rounds_alike:
  assumes "alike_for_six m m'" "rounds_of (st_messages st) + n = MAX_ROUNDS"
  shows "turn_rounds (ag\<lparr>ag_llm := m\<rparr>) n st = turn_rounds (ag\<lparr>ag_llm := m'\<rparr>) n st"
  using assms(2)
proof (induction n arbitrary: st)
  case (Suc n)
  have l: "llm_complete m (st_messages st) (offered_tools ag) = llm_complete m' (st_messages st) (offered_tools ag)"
    using assms(1) Suc.prems by (simp add: alike_for_six_def)
  have ih: "turn_rounds (ag\<lparr>ag_llm := m\<rparr>) n st' = turn_rounds (ag\<lparr>ag_llm := m'\<rparr>) n st'"
    if "run_calls ag calls (asked content calls st) = Inr st'" for content calls st'
  proof (rule Suc.IH)
    have "rounds_of (st_messages (asked content calls st)) = Suc (rounds_of (st_messages st))"
      by (simp add: rounds_of_def asked_def is_calls_def)
    with run_calls_rounds [OF that] Suc.prems show "rounds_of (st_messages st') + n = MAX_ROUNDS" by simp
  qed
  show ?case
  proof (cases "llm_complete m' (st_messages st) (offered_tools ag)")
    case (Inl x)
    with l show ?thesis by (cases x) simp_all
  next
    case (Inr a)
    obtain content calls where a: "a = (content, calls)" by (cases a)
    show ?thesis
      using l Inr a ih [of calls content]
      by (cases "run_calls ag calls (asked content calls st)") (simp_all split: option.split)
  qed
qed simp

lemma start_rounds: "rounds_of (st_messages (start_turn ag today content history)) = 0"
  by (auto simp: rounds_of_def start_turn_def build_messages_def is_calls_def Let_def filter_empty_conv)

lemma first_prompt_bounded: "length (build_messages ag today content history) \<le> 22"
  by (simp add: build_messages_def last_n_def MAX_HISTORY_MESSAGES_def Let_def)


section \<open>An exception a turn does not survive\<close>

text \<open>An argument of the wrong type is not always turned into a tool result: an identifier the model
  writes as a number raises an \<^verbatim>\<open>AttributeError\<close>, which the dispatcher does not catch, and
  the whole turn fails with it.\<close>

theorem numeric_identifier_kills_turn:
  assumes "llm_configured (ag_llm ag)"
    "llm_complete (ag_llm ag) (build_messages ag today content history) (offered_tools ag) =
      Inr (text, [\<lparr>ca_id = i, ca_name = ''get_plan_task'', ca_args = AObj [(''task_id'', AInt n)]\<rparr>])"
  shows "run_turn ag today content history = Inl (Crash ''AttributeError'')"
proof -
  have "tool_named ''get_plan_task'' =
      Some (read_tool ''get_plan_task'' [''task_id''] [''task_id''] get_plan_task ''Looking up the task'')"
    by (simp add: tool_named_def TOOLS_def READ_TOOLS_def)
  then have "dispatch ag ''get_plan_task'' (AObj [(''task_id'', AInt n)]) d = Inl (Crash ''AttributeError'')" for d
    by (simp add: dispatch_def call_handler_def get_plan_task_def required_def)
  then have "run_calls ag [\<lparr>ca_id = i, ca_name = ''get_plan_task'', ca_args = AObj [(''task_id'', AInt n)]\<rparr>] st =
      Inl (Crash ''AttributeError'')" for st
    by (simp add: call_step_def REQUEST_CLARIFICATION_def)
  with assms show ?thesis
    by (simp add: run_turn_def MAX_ROUNDS_def eval_nat_numeral start_turn_def asked_def)
qed

section \<open>Witnesses\<close>

text \<open>A model that makes the calls it is given and then says it is done, and an agent of an administrator.\<close>

definition scripted :: "tool_call list \<Rightarrow> llm" where
  "scripted calls = \<lparr>llm_configured = True,
     llm_complete = (\<lambda>ms ts. if length ms \<le> 2 \<and> calls \<noteq> [] then Inr (None, calls) else Inr (Some ''Done.'', [])),
     llm_stream = (\<lambda>ms ts. if length ms \<le> 2 \<and> calls \<noteq> []
       then (map (\<lambda>c. \<lparr>sd_text = None, sd_tool_call = Some c\<rparr>) calls, None)
       else ([\<lparr>sd_text = Some ''Do'', sd_tool_call = None\<rparr>, \<lparr>sd_text = Some ''ne.'', sd_tool_call = None\<rparr>], None))\<rparr>"

definition board_agent :: "tool_call list \<Rightarrow> agent" where
  "board_agent calls = \<lparr>ag_world = no_world, ag_client = 7, ag_user = sample_user 1 Role_admin, ag_view = (\<lambda>n. board_db),
     ag_llm = scripted calls\<rparr>"

definition delete_call :: tool_call where
  "delete_call = \<lparr>ca_id = ''c1'', ca_name = ''propose_delete_plan_task'',
     ca_args = AObj [(''task_id'', AStr ''00000000-0000-0000-0000-000000000014'')]\<rparr>"

definition staged_count :: "exn + turn_result \<Rightarrow> nat" where
  "staged_count t = (case t of Inl e \<Rightarrow> 0 | Inr r \<Rightarrow> length (tr_operations r))"

lemma delete_turn: "staged_count (run_turn (board_agent [delete_call]) 10 ''Delete it'' []) = 1"
  by code_simp


lemma scripted_streams: "streams_completion (scripted calls)"
  by (auto simp: streams_completion_def scripted_def delta_calls_def delta_texts_def joined_def List.map_filter_def comp_def)

lemma streamed_turn_agrees_witness:
  "ends_as (run_turn (board_agent [delete_call]) 10 ''Delete it'' [])
     (run_turn_stream (board_agent [delete_call]) 10 ''Delete it'' [])"
  by (rule streamed_turn_agrees) (simp add: board_agent_def scripted_streams)

text \<open>A model that never stops.\<close>

definition tireless :: "tool_call \<Rightarrow> llm" where
  "tireless c = \<lparr>llm_configured = True, llm_complete = (\<lambda>ms ts. Inr (None, [c])), llm_stream = (\<lambda>ms ts. ([], None))\<rparr>"

definition tires :: "tool_call \<Rightarrow> llm" where
  "tires c = (tireless c)\<lparr>llm_complete := (\<lambda>ms ts. if rounds_of ms < MAX_ROUNDS then Inr (None, [c]) else Inr (Some ''Done.'', []))\<rparr>"


definition numeric_call :: tool_call where
  "numeric_call = \<lparr>ca_id = ''c1'', ca_name = ''get_plan_task'', ca_args = AObj [(''task_id'', AInt 20)]\<rparr>"

lemma numeric_identifier_kills_turn_witness:
  "run_turn (board_agent [numeric_call]) 10 ''Show it'' [] = Inl (Crash ''AttributeError'')"
  by (rule numeric_identifier_kills_turn)
    (auto simp: board_agent_def scripted_def numeric_call_def build_messages_def last_n_def Let_def)

end
