(* ===== verification/Desk.thy ===== *)
theory Desk
  imports Complex_Main Access
begin

text \<open>
  The rows of an account manager's desk: campaigns (\<^verbatim>\<open>models/campaign.py\<close>), KPI alerts
  (\<^verbatim>\<open>models/alert.py\<close>), notifications and their preferences
  (\<^verbatim>\<open>models/notification.py\<close>), calendar events (\<^verbatim>\<open>models/event.py\<close>) and the
  log of generated plans (\<^verbatim>\<open>models/auto_plan_generation_log.py\<close>), beside the database of the
  shared tables.
\<close>

datatype campaign_status = Campaign_draft | Campaign_active | Campaign_paused | Campaign_ended

record campaign =
  cp_id :: uuid
  cp_client_id :: uuid
  cp_name :: string
  cp_objective :: string
  cp_status :: campaign_status
  cp_start_date :: "date option"
  cp_end_date :: "date option"
  cp_budget_usd :: rat
  cp_notes :: "string option"
  cp_target_cpl :: "rat option"
  cp_target_ctr :: "rat option"
  cp_target_conversion_rate :: "rat option"
  cp_impressions :: nat
  cp_clicks :: nat
  cp_conversions :: nat
  cp_leads :: nat
  cp_spend :: rat
  cp_revenue :: rat
  cp_created_by :: "uuid option"
  cp_created_at :: datetime

datatype alert_kind = Kind_alert | Kind_opportunity
datatype severity = Sev_low | Sev_medium | Sev_high
datatype alert_status = Alert_open | Alert_acknowledged | Alert_resolved

record alert =
  al_id :: uuid
  al_client_id :: uuid
  al_campaign_id :: "uuid option"
  al_kind :: alert_kind
  al_severity :: severity
  al_status :: alert_status
  al_title :: string
  al_detail :: "string option"
  al_metric :: "string option"
  al_threshold :: "rat option"
  al_actual :: "rat option"
  al_rec_key :: "string option"
  al_acknowledged_by :: "uuid option"
  al_resolved_by :: "uuid option"
  al_created_at :: datetime

datatype level = Level_info | Level_warning | Level_critical

record notification =
  no_id :: uuid
  no_user_id :: uuid
  no_client_id :: "uuid option"
  no_kind :: string
  no_level :: level
  no_title :: string
  no_body :: "string option"
  no_link :: "string option"
  no_rec_key :: "string option"
  no_read_at :: "datetime option"
  no_emailed_at :: "datetime option"
  no_created_at :: datetime

record preference =
  pr_user_id :: uuid
  pr_email_enabled :: bool
  pr_muted_client_ids :: "string list"

datatype event_stage = Stage_draft | Stage_scheduled | Stage_published | Stage_archived
datatype approval_status = Approval_approved | Approval_pending | Approval_changes_requested | Approval_rejected

record event_post =
  ep_image_url :: "string option"
  ep_caption :: "string option"
  ep_hashtags :: "string option"
  ep_content_format :: "string option"
  ep_cta_label :: "string option"
  ep_cta_url :: "string option"

record event_ad =
  ea_budget_usd :: rat
  ea_objective :: string
  ea_audience :: "string option"
  ea_bid_strategy :: "string option"
  ea_duration_days :: "nat option"

record event_activity =
  ac_user_id :: "uuid option"
  ac_action :: string
  ac_note :: "string option"

record marketing_event =
  ev_id :: uuid
  ev_client_id :: uuid
  ev_campaign_id :: "uuid option"
  ev_title :: "string option"
  ev_type :: "string option"
  ev_platform :: "string option"
  ev_event_date :: "date option"
  ev_event_time :: "time option"
  ev_description :: "string option"
  ev_strategy :: "string option"
  ev_stage :: "event_stage option"
  ev_approval_status :: approval_status
  ev_approved_by :: "uuid option"
  ev_approval_note :: "string option"
  ev_created_by :: "uuid option"
  ev_post :: "event_post option"
  ev_ad :: "event_ad option"
  ev_activity :: "event_activity list"

record plan_log =
  gl_client_id :: uuid
  gl_period :: string
  gl_item_count :: nat
  gl_generated_at :: datetime

record desk =
  dk_db :: db
  dk_campaigns :: "campaign list"
  dk_alerts :: "alert list"
  dk_notifications :: "notification list"
  dk_preferences :: "preference list"
  dk_events :: "marketing_event list"
  dk_plan_logs :: "plan_log list"

type_synonym 'a desk_op = "desk \<Rightarrow> exn + ('a \<times> desk)"

definition empty_desk :: "db \<Rightarrow> desk" where
  "empty_desk d = \<lparr>dk_db = d, dk_campaigns = [], dk_alerts = [], dk_notifications = [], dk_preferences = [],
     dk_events = [], dk_plan_logs = []\<rparr>"

section \<open>Constraints\<close>

definition alert_row_ok :: "alert \<Rightarrow> bool" where
  "alert_row_ok a \<longleftrightarrow> length (al_title a) \<le> 200 \<and> len_ok 40 (al_metric a) \<and> len_ok 120 (al_rec_key a)"

definition notification_row_ok :: "notification \<Rightarrow> bool" where
  "notification_row_ok n \<longleftrightarrow> length (no_title n) \<le> 200 \<and> length (no_kind n) \<le> 24 \<and> len_ok 512 (no_link n) \<and>
     len_ok 120 (no_rec_key n)"

definition post_row_ok :: "event_post \<Rightarrow> bool" where
  "post_row_ok p \<longleftrightarrow> len_ok 30 (ep_content_format p) \<and> len_ok 80 (ep_cta_label p)"

definition event_row_ok :: "marketing_event \<Rightarrow> bool" where
  "event_row_ok ev \<longleftrightarrow> ev_title ev \<noteq> None \<and> ev_type ev \<noteq> None \<and> ev_platform ev \<noteq> None \<and>
     ev_event_date ev \<noteq> None \<and> ev_event_time ev \<noteq> None \<and> ev_stage ev \<noteq> None \<and> len_ok 200 (ev_title ev) \<and>
     (case ev_post ev of None \<Rightarrow> True | Some p \<Rightarrow> post_row_ok p) \<and>
     (case ev_ad ev of None \<Rightarrow> True | Some a \<Rightarrow> len_ok 60 (ea_bid_strategy a))"

text \<open>The tables of the desk and, for the shared ones, \<open>db_constraints\<close>.\<close>

definition desk_constraints :: "desk \<Rightarrow> bool" where
  "desk_constraints k \<longleftrightarrow> db_constraints (dk_db k) \<and>
     distinct (map cp_id (dk_campaigns k)) \<and> list_all (\<lambda>c. length (cp_name c) \<le> 200) (dk_campaigns k) \<and>
     distinct (map al_id (dk_alerts k)) \<and> list_all alert_row_ok (dk_alerts k) \<and>
     distinct (map no_id (dk_notifications k)) \<and> list_all notification_row_ok (dk_notifications k) \<and>
     list_all (\<lambda>n. no_user_id n \<in> u_id ` set (d_users (dk_db k))) (dk_notifications k) \<and>
     distinct (map pr_user_id (dk_preferences k)) \<and>
     distinct (map ev_id (dk_events k)) \<and> list_all event_row_ok (dk_events k) \<and>
     list_all (\<lambda>ev. ev_client_id ev \<in> c_id ` set (d_clients (dk_db k)) \<and>
       fk_ok (cp_id ` set (dk_campaigns k)) (ev_campaign_id ev)) (dk_events k) \<and>
     list_all (\<lambda>t. fk_ok (ev_id ` set (dk_events k)) (t_event_id t)) (d_tasks (dk_db k)) \<and>
     distinct (map (\<lambda>g. (gl_client_id g, gl_period g)) (dk_plan_logs k)) \<and>
     list_all (\<lambda>g. length (gl_period g) \<le> 7) (dk_plan_logs k)"

definition desk_flush :: "unit desk_op" where
  "desk_flush k = (if desk_constraints k then Inr ((), k) else Inl (Crash ''DBAPIError''))"

lemma desk_flush_Inr [result_simps]: "desk_flush k = Inr (u, k') \<longleftrightarrow> desk_constraints k \<and> k' = k"
  by (auto simp: desk_flush_def)

lemma desk_flush_Inl [result_simps]: "desk_flush k = Inl e \<longleftrightarrow> \<not> desk_constraints k \<and> e = Crash ''DBAPIError''"
  by (auto simp: desk_flush_def)

definition next_id :: "desk \<Rightarrow> uuid" where
  "next_id k = d_next_id (dk_db k)"

definition use_id :: "desk \<Rightarrow> desk" where
  "use_id k = k\<lparr>dk_db := (dk_db k)\<lparr>d_next_id := Suc (d_next_id (dk_db k))\<rparr>\<rparr>"

end
