(* ===== verification/Doubles.thy ===== *)
theory Doubles
  imports Complex_Main "HOL-Library.Log_Nat" Prelude
begin

text \<open>
  Python's \<^verbatim>\<open>float\<close> on the rationals: an IEEE double is the rational it stands for, and an
  operation is the exact one, rounded to the nearest number with 53 significant bits, ties to even. The
  figures of the services are amounts of at most fourteen digits and their quotients, so the exponent stays
  far from the ends of its range and no operation overflows or goes subnormal.
\<close>

definition pow2 :: "int \<Rightarrow> rat" where
  "pow2 k = (if 0 \<le> k then 2 ^ nat k else 1 / 2 ^ nat (- k))"

definition round_half_even :: "rat \<Rightarrow> int" where
  "round_half_even x = (let f = \<lfloor>x\<rfloor>; r = x - of_int f in
     if r < 1 / 2 then f else if 1 / 2 < r then f + 1 else if even f then f else f + 1)"

text \<open>The exponent of a positive number: the power of two it lies above.\<close>

definition exponent :: "rat \<Rightarrow> int" where
  "exponent x = (case quotient_of x of (n, d) \<Rightarrow>
     let e = bitlen n - bitlen d in if pow2 e \<le> x then e else e - 1)"

definition fl :: "rat \<Rightarrow> rat" where
  "fl x = (if x = 0 then 0 else let u = pow2 (exponent \<bar>x\<bar> - 52) in of_int (round_half_even (x / u)) * u)"

definition fl_div :: "rat \<Rightarrow> rat \<Rightarrow> rat" where
  "fl_div x y = fl (x / y)"

definition fl_mult :: "rat \<Rightarrow> rat \<Rightarrow> rat" where
  "fl_mult x y = fl (x * y)"

definition fl_sub :: "rat \<Rightarrow> rat \<Rightarrow> rat" where
  "fl_sub x y = fl (x - y)"

definition fl_add :: "rat \<Rightarrow> rat \<Rightarrow> rat" where
  "fl_add x y = fl (x + y)"

text \<open>\<^verbatim>\<open>round(x, k)\<close>, and the text of \<^verbatim>\<open>f"{x:.kf}"\<close>: both round the exact value.\<close>

definition py_round :: "nat \<Rightarrow> rat \<Rightarrow> rat" where
  "py_round k x = fl (of_int (round_half_even (x * 10 ^ k)) / 10 ^ k)"

definition pad_zeros :: "nat \<Rightarrow> string \<Rightarrow> string" where
  "pad_zeros k s = replicate (k - length s) CHR ''0'' @ s"

definition fixed :: "nat \<Rightarrow> rat \<Rightarrow> string" where
  "fixed k x =
     (let n = round_half_even (x * 10 ^ k); m = nat \<bar>n\<bar>; sign = (if x < 0 then ''-'' else []) in
      sign @ digits (m div 10 ^ k) @ (if k = 0 then [] else CHR ''.'' # pad_zeros k (digits (m mod 10 ^ k))))"

lemma round_half_even_int [simp]: "round_half_even (of_int n) = n"
  by (simp add: round_half_even_def Let_def)

lemma round_half_even_mono:
  assumes "x \<le> y"
  shows "round_half_even x \<le> round_half_even y"
proof (cases "\<lfloor>x\<rfloor> = \<lfloor>y\<rfloor>")
  case True
  with assms show ?thesis by (auto simp: round_half_even_def Let_def)
next
  case False
  then have "\<lfloor>x\<rfloor> + 1 \<le> \<lfloor>y\<rfloor>" using floor_mono [OF assms] by simp
  moreover have "round_half_even x \<le> \<lfloor>x\<rfloor> + 1" "\<lfloor>y\<rfloor> \<le> round_half_even y"
    by (auto simp: round_half_even_def Let_def)
  ultimately show ?thesis by simp
qed

end
