(* ===== verification/Alerts.thy ===== *)
theory Alerts
  imports Desk Doubles
begin

text \<open>
  KPI alerts and the notifications that carry them: \<^verbatim>\<open>alert_service.py\<close>,
  \<^verbatim>\<open>notification_service.py\<close>, \<^verbatim>\<open>notification_email_service.py\<close>, their
  repositories, and the watchdog sweep of \<^verbatim>\<open>scheduler_service.py\<close>.
\<close>

section \<open>The checks of one campaign\<close>

record finding =
  fi_campaign_id :: uuid
  fi_kind :: alert_kind
  fi_severity :: severity
  fi_title :: string
  fi_detail :: string
  fi_metric :: string
  fi_threshold :: rat
  fi_actual :: rat
  fi_rec_key :: string

definition severity_for :: "rat \<Rightarrow> severity" where
  "severity_for overshoot = (if fl (5/10) \<le> overshoot then Sev_high else if fl (2/10) \<le> overshoot then Sev_medium else Sev_low)"

text \<open>The ratios, \<^verbatim>\<open>None\<close> where a divisor is zero. A \<^verbatim>\<open>Decimal\<close> column goes through \<^verbatim>\<open>float\<close>.\<close>

definition cpl_of :: "campaign \<Rightarrow> rat option" where
  "cpl_of c = (if cp_leads c = 0 then None else Some (fl_div (fl (cp_spend c)) (fl (of_nat (cp_leads c)))))"

definition ctr_of :: "campaign \<Rightarrow> rat option" where
  "ctr_of c = (if cp_impressions c = 0 then None
     else Some (fl_mult (fl_div (of_nat (cp_clicks c)) (of_nat (cp_impressions c))) 100))"

definition roas_of :: "campaign \<Rightarrow> rat option" where
  "roas_of c = (if cp_spend c = 0 then None else Some (fl_div (fl (cp_revenue c)) (fl (cp_spend c))))"

definition target_of :: "rat option \<Rightarrow> rat option" where
  "target_of t = (case t of None \<Rightarrow> None | Some x \<Rightarrow> if x = 0 then None else Some (fl x))"

definition cpl_finding :: "campaign \<Rightarrow> finding list" where
  "cpl_finding c = (case (target_of (cp_target_cpl c), cpl_of c) of
     (Some target, Some cpl) \<Rightarrow>
       if target < cpl then
         (let overshoot = fl_div (fl_sub cpl target) target in
          [\<lparr>fi_campaign_id = cp_id c, fi_kind = Kind_alert, fi_severity = severity_for overshoot,
            fi_title = cp_name c @ '': CPL above target'',
            fi_detail = ''Cost per lead is $'' @ fixed 2 cpl @ '' vs the $'' @ fixed 2 target @ '' target ('' @
              fixed 0 (fl_mult overshoot 100) @ ''% over). Review targeting or creative.'',
            fi_metric = ''cpl'', fi_threshold = target, fi_actual = py_round 2 cpl,
            fi_rec_key = ''cpl:'' @ uuid_str (cp_id c)\<rparr>])
       else []
   | _ \<Rightarrow> [])"

definition ctr_finding :: "campaign \<Rightarrow> finding list" where
  "ctr_finding c = (case (target_of (cp_target_ctr c), ctr_of c) of
     (Some target, Some ctr) \<Rightarrow>
       if ctr < target then
         (let shortfall = fl_div (fl_sub target ctr) target in
          [\<lparr>fi_campaign_id = cp_id c, fi_kind = Kind_alert, fi_severity = severity_for shortfall,
            fi_title = cp_name c @ '': CTR below target'',
            fi_detail = ''Click-through rate is '' @ fixed 2 ctr @ ''% vs the '' @ fixed 2 target @ ''% '' @
              ''target. Consider refreshing the creative or headline.'',
            fi_metric = ''ctr'', fi_threshold = target, fi_actual = py_round 2 ctr,
            fi_rec_key = ''ctr:'' @ uuid_str (cp_id c)\<rparr>])
       else []
   | _ \<Rightarrow> [])"

definition budget_finding :: "campaign \<Rightarrow> finding list" where
  "budget_finding c =
     (let spend = fl (cp_spend c); budget = fl (cp_budget_usd c); over = budget \<le> spend in
      if cp_budget_usd c \<noteq> 0 \<and> fl_mult budget (fl (9/10)) \<le> spend then
        [\<lparr>fi_campaign_id = cp_id c, fi_kind = Kind_alert, fi_severity = (if over then Sev_high else Sev_medium),
          fi_title = cp_name c @ '': budget '' @ (if over then ''exceeded'' else ''nearly spent''),
          fi_detail = ''Spend $'' @ fixed 2 spend @ '' of $'' @ fixed 2 budget @ '' budget.'',
          fi_metric = ''budget'', fi_threshold = budget, fi_actual = py_round 2 spend,
          fi_rec_key = ''budget:'' @ uuid_str (cp_id c)\<rparr>]
      else [])"

definition roas_finding :: "campaign \<Rightarrow> finding list" where
  "roas_finding c = (case roas_of c of
     None \<Rightarrow> []
   | Some roas \<Rightarrow>
       if 3 \<le> roas then
         [\<lparr>fi_campaign_id = cp_id c, fi_kind = Kind_opportunity, fi_severity = Sev_medium,
           fi_title = cp_name c @ '': strong ROAS - consider scaling'',
           fi_detail = ''Return on ad spend is '' @ fixed 1 roas @ ''x. Increasing budget here may '' @
             ''capture more of the same return.'',
           fi_metric = ''roas'', fi_threshold = 3, fi_actual = py_round 2 roas,
           fi_rec_key = ''roas:'' @ uuid_str (cp_id c)\<rparr>]
       else [])"

definition findings_for :: "campaign \<Rightarrow> finding list" where
  "findings_for c = cpl_finding c @ ctr_finding c @ budget_finding c @ roas_finding c"

section \<open>The alerts of a client\<close>

definition campaigns_for_client :: "uuid \<Rightarrow> desk \<Rightarrow> campaign list" where
  "campaigns_for_client cid k = sort_key (\<lambda>c. - cp_created_at c) (filter (\<lambda>c. cp_client_id c = cid) (dk_campaigns k))"

definition alert_for_client :: "uuid \<Rightarrow> uuid \<Rightarrow> desk \<Rightarrow> alert option" where
  "alert_for_client cid aid k = find (\<lambda>a. al_id a = aid \<and> al_client_id a = cid) (dk_alerts k)"

definition list_alerts_for_client :: "uuid \<Rightarrow> alert_status option \<Rightarrow> severity option \<Rightarrow> alert_kind option \<Rightarrow>
    nat \<Rightarrow> nat option \<Rightarrow> desk \<Rightarrow> alert list \<times> nat" where
  "list_alerts_for_client cid status sev kind offset limit k =
     (let rows = filter (\<lambda>a. al_client_id a = cid \<and> (case status of None \<Rightarrow> True | Some s \<Rightarrow> al_status a = s) \<and>
            (case sev of None \<Rightarrow> True | Some s \<Rightarrow> al_severity a = s) \<and>
            (case kind of None \<Rightarrow> True | Some s \<Rightarrow> al_kind a = s)) (dk_alerts k);
          ordered = sort_key (\<lambda>a. - al_created_at a) rows in
      (case limit of None \<Rightarrow> drop offset ordered | Some l \<Rightarrow> page_of offset l ordered, length rows))"

definition open_alert_counts :: "uuid list option \<Rightarrow> desk \<Rightarrow> (uuid \<times> nat) list" where
  "open_alert_counts cids k =
     (let rows = filter (\<lambda>a. al_status a = Alert_open \<and> (case cids of None \<Rightarrow> True | Some ids \<Rightarrow> al_client_id a \<in> set ids))
            (dk_alerts k) in
      map (\<lambda>c. (c, length (filter (\<lambda>a. al_client_id a = c) rows))) (remdups (map al_client_id rows)))"

definition is_live :: "alert \<Rightarrow> bool" where
  "is_live a \<longleftrightarrow> al_status a = Alert_open \<or> al_status a = Alert_acknowledged"

definition live_for_client :: "uuid \<Rightarrow> desk \<Rightarrow> alert list" where
  "live_for_client cid k = filter (\<lambda>a. al_client_id a = cid \<and> is_live a) (dk_alerts k)"

definition put_alert :: "uuid \<Rightarrow> (alert \<Rightarrow> alert) \<Rightarrow> desk \<Rightarrow> desk" where
  "put_alert aid f k = k\<lparr>dk_alerts := update_by al_id aid f (dk_alerts k)\<rparr>"

definition get_alert :: "uuid \<Rightarrow> uuid \<Rightarrow> desk \<Rightarrow> exn + alert" where
  "get_alert cid aid k = some_or (not_found ''Alert not found.'') (alert_for_client cid aid k)"

definition acknowledge :: "uuid \<Rightarrow> uuid \<Rightarrow> uuid \<Rightarrow> unit desk_op" where
  "acknowledge cid aid actor k =
     bindR (get_alert cid aid k) (\<lambda>_.
       desk_flush (put_alert aid (\<lambda>a. a\<lparr>al_status := Alert_acknowledged, al_acknowledged_by := Some actor\<rparr>) k))"

definition resolve_alert :: "uuid \<Rightarrow> uuid \<Rightarrow> uuid \<Rightarrow> unit desk_op" where
  "resolve_alert cid aid actor k =
     bindR (get_alert cid aid k) (\<lambda>_.
       desk_flush (put_alert aid (\<lambda>a. a\<lparr>al_status := Alert_resolved, al_resolved_by := Some actor\<rparr>) k))"

section \<open>The evaluation\<close>

text \<open>
  \<^verbatim>\<open>live = {a.rec_key: a for a in ... if a.rec_key}\<close>: of several rows with one key the dict holds the
  last.
\<close>

definition keyed :: "alert list \<Rightarrow> (string \<times> alert) list" where
  "keyed as = List.map_filter (\<lambda>a. case al_rec_key a of None \<Rightarrow> None | Some key \<Rightarrow>
     if key = [] then None else Some (key, a)) as"

definition live_dict :: "alert list \<Rightarrow> string \<Rightarrow> alert option" where
  "live_dict as = map_of (rev (keyed as))"

definition live_keys :: "alert list \<Rightarrow> string list" where
  "live_keys as = remdups (map fst (keyed as))"

definition update_from :: "finding \<Rightarrow> alert \<Rightarrow> alert" where
  "update_from f a = a\<lparr>al_severity := fi_severity f, al_title := fi_title f, al_detail := Some (fi_detail f),
     al_metric := Some (fi_metric f), al_threshold := Some (fi_threshold f), al_actual := Some (fi_actual f),
     al_kind := fi_kind f\<rparr>"

definition alert_from :: "datetime \<Rightarrow> uuid \<Rightarrow> uuid \<Rightarrow> finding \<Rightarrow> alert" where
  "alert_from now aid cid f = \<lparr>al_id = aid, al_client_id = cid, al_campaign_id = Some (fi_campaign_id f), al_kind = fi_kind f,
     al_severity = fi_severity f, al_status = Alert_open, al_title = fi_title f, al_detail = Some (fi_detail f),
     al_metric = Some (fi_metric f), al_threshold = Some (fi_threshold f), al_actual = Some (fi_actual f),
     al_rec_key = Some (fi_rec_key f), al_acknowledged_by = None, al_resolved_by = None, al_created_at = now\<rparr>"

record evaluation =
  er_evaluated :: nat
  er_opened :: nat
  er_updated :: nat
  er_auto_resolved :: nat
  er_alerts :: "alert list"

fun apply_findings :: "datetime \<Rightarrow> uuid \<Rightarrow> (string \<Rightarrow> alert option) \<Rightarrow> finding list \<Rightarrow> desk \<Rightarrow> desk" where
  "apply_findings now cid live [] k = k"
| "apply_findings now cid live (f # fs) k =
     (case live (fi_rec_key f) of
        Some a \<Rightarrow> apply_findings now cid live fs (put_alert (al_id a) (update_from f) k)
      | None \<Rightarrow> apply_findings now cid live fs
          ((use_id k)\<lparr>dk_alerts := dk_alerts k @ [alert_from now (next_id k) cid f]\<rparr>))"

fun auto_resolve :: "(string \<Rightarrow> alert option) \<Rightarrow> string list \<Rightarrow> desk \<Rightarrow> desk" where
  "auto_resolve live [] k = k"
| "auto_resolve live (key # ks) k =
     (case live key of
        None \<Rightarrow> auto_resolve live ks k
      | Some a \<Rightarrow> auto_resolve live ks (put_alert (al_id a) (\<lambda>a. a\<lparr>al_status := Alert_resolved\<rparr>) k))"

definition client_findings :: "uuid \<Rightarrow> desk \<Rightarrow> finding list" where
  "client_findings cid k = concat (map findings_for (campaigns_for_client cid k))"

definition gone_keys :: "uuid \<Rightarrow> desk \<Rightarrow> string list" where
  "gone_keys cid k = filter (\<lambda>key. key \<notin> fi_rec_key ` set (client_findings cid k)) (live_keys (live_for_client cid k))"

definition reconciled_alerts :: "datetime \<Rightarrow> uuid \<Rightarrow> desk \<Rightarrow> desk" where
  "reconciled_alerts now cid k =
     (let live = live_dict (live_for_client cid k) in
      auto_resolve live (gone_keys cid k) (apply_findings now cid live (client_findings cid k) k))"

definition evaluate :: "datetime \<Rightarrow> uuid \<Rightarrow> evaluation desk_op" where
  "evaluate now cid k =
     (let live = live_dict (live_for_client cid k); findings = client_findings cid k in
      bindR (desk_flush (reconciled_alerts now cid k)) (\<lambda>(_, k').
        Inr (\<lparr>er_evaluated = length (campaigns_for_client cid k),
              er_opened = length (filter (\<lambda>f. live (fi_rec_key f) = None) findings),
              er_updated = length (filter (\<lambda>f. live (fi_rec_key f) \<noteq> None) findings),
              er_auto_resolved = length (gone_keys cid k),
              er_alerts = fst (list_alerts_for_client cid (Some Alert_open) None None 0 None k')\<rparr>, k')))"

section \<open>Lemmas: the evaluation row by row\<close>

text \<open>A key of an alert; at most one alert of a list per key; the alerts that stand for the findings.\<close>

definition has_key :: "string \<Rightarrow> alert \<Rightarrow> bool" where
  "has_key key a \<longleftrightarrow> al_rec_key a = Some key \<and> key \<noteq> []"

definition one_per_key :: "alert list \<Rightarrow> bool" where
  "one_per_key as \<longleftrightarrow> (\<forall>a \<in> set as. \<forall>b \<in> set as. \<forall>key. has_key key a \<longrightarrow> has_key key b \<longrightarrow> a = b)"

definition mirrors :: "finding list \<Rightarrow> alert list \<Rightarrow> bool" where
  "mirrors fs as \<longleftrightarrow> one_per_key as \<and>
     (\<forall>f \<in> set fs. \<exists>a \<in> set as. has_key (fi_rec_key f) a \<and> update_from f a = a) \<and>
     (\<forall>a \<in> set as. \<forall>key. has_key key a \<longrightarrow> key \<in> fi_rec_key ` set fs)"

definition alert_ids_ok :: "desk \<Rightarrow> bool" where
  "alert_ids_ok k \<longleftrightarrow> distinct (map al_id (dk_alerts k)) \<and> (\<forall>a \<in> set (dk_alerts k). al_id a < next_id k)"

lemma in_keyed: "(key, a) \<in> set (keyed as) \<longleftrightarrow> a \<in> set as \<and> has_key key a"
  by (induction as) (auto simp: keyed_def has_key_def split: option.splits)

lemma live_dict_Some: "live_dict as key = Some a \<Longrightarrow> a \<in> set as \<and> has_key key a"
  using in_keyed [of key a as] by (auto simp: live_dict_def dest: map_of_SomeD)

lemma live_dict_None: "live_dict as key = None \<longleftrightarrow> (\<forall>a \<in> set as. \<not> has_key key a)"
  using in_keyed [of key _ as] by (force simp: live_dict_def map_of_eq_None_iff)

lemma live_dict_unique:
  assumes "one_per_key as"
  shows "live_dict as key = Some a \<longleftrightarrow> a \<in> set as \<and> has_key key a"
  using assms live_dict_Some [of as key] live_dict_None [of as key]
  by (cases "live_dict as key") (auto simp: one_per_key_def)

lemma set_live_keys: "set (live_keys as) = {key. \<exists>a \<in> set as. has_key key a}"
  using in_keyed [of _ _ as] by (force simp: live_keys_def)

lemma update_from_simps [simp]:
  "al_id (update_from f a) = al_id a" "al_client_id (update_from f a) = al_client_id a"
  "al_status (update_from f a) = al_status a" "al_rec_key (update_from f a) = al_rec_key a"
  "has_key key (update_from f a) = has_key key a" "is_live (update_from f a) = is_live a"
  "update_from f (update_from f a) = update_from f a"
  by (simp_all add: update_from_def has_key_def is_live_def)

lemma alert_from_simps [simp]:
  "al_id (alert_from now i cid f) = i" "al_client_id (alert_from now i cid f) = cid"
  "is_live (alert_from now i cid f)" "update_from f (alert_from now i cid f) = alert_from now i cid f"
  "al_rec_key (alert_from now i cid f) = Some (fi_rec_key f)"
  by (simp_all add: alert_from_def is_live_def update_from_def)

text \<open>The row a key of the dict stands for.\<close>

definition hits :: "(string \<Rightarrow> alert option) \<Rightarrow> string \<Rightarrow> alert \<Rightarrow> bool" where
  "hits live key a \<longleftrightarrow> map_option al_id (live key) = Some (al_id a)"

lemma hits_update_from [simp]: "hits live key (update_from f a) = hits live key a"
  by (simp add: hits_def)

text \<open>What the loop over the findings makes of an old row, and the rows it adds.\<close>

fun after_findings :: "(string \<Rightarrow> alert option) \<Rightarrow> finding list \<Rightarrow> alert \<Rightarrow> alert" where
  "after_findings live [] a = a"
| "after_findings live (f # fs) a =
     after_findings live fs (if hits live (fi_rec_key f) a then update_from f a else a)"

fun new_alerts :: "datetime \<Rightarrow> uuid \<Rightarrow> (string \<Rightarrow> alert option) \<Rightarrow> uuid \<Rightarrow> finding list \<Rightarrow> alert list" where
  "new_alerts now cid live i [] = []"
| "new_alerts now cid live i (f # fs) =
     (if live (fi_rec_key f) = None then alert_from now i cid f # new_alerts now cid live (Suc i) fs
      else new_alerts now cid live i fs)"

lemma after_findings_simps [simp]:
  "al_id (after_findings live fs a) = al_id a" "al_client_id (after_findings live fs a) = al_client_id a"
  "al_rec_key (after_findings live fs a) = al_rec_key a" "is_live (after_findings live fs a) = is_live a"
  by (induction fs arbitrary: a) simp_all

lemma after_findings_other:
  "\<forall>f \<in> set fs. \<not> hits live (fi_rec_key f) a \<Longrightarrow> after_findings live fs a = a"
  by (induction fs) auto

lemma apply_findings_rows:
  assumes "\<And>key b. live key = Some b \<Longrightarrow> al_id b < next_id k"
  shows "dk_alerts (apply_findings now cid live fs k) =
    map (after_findings live fs) (dk_alerts k) @ new_alerts now cid live (next_id k) fs"
  using assms
proof (induction fs arbitrary: k)
  case (Cons f fs)
  show ?case
  proof (cases "live (fi_rec_key f)")
    case None
    let ?k = "(use_id k)\<lparr>dk_alerts := dk_alerts k @ [alert_from now (next_id k) cid f]\<rparr>"
    have n: "next_id ?k = Suc (next_id k)" by (simp add: next_id_def use_id_def)
    have "dk_alerts (apply_findings now cid live fs ?k) =
        map (after_findings live fs) (dk_alerts ?k) @ new_alerts now cid live (next_id ?k) fs"
      by (rule Cons.IH) (use Cons.prems n less_SucI in metis)
    moreover have "after_findings live fs (alert_from now (next_id k) cid f) = alert_from now (next_id k) cid f"
      by (rule after_findings_other) (use Cons.prems in \<open>fastforce simp: hits_def\<close>)
    ultimately show ?thesis by (simp add: None n hits_def)
  next
    case (Some b)
    let ?k = "put_alert (al_id b) (update_from f) k"
    have n: "next_id ?k = next_id k" by (simp add: next_id_def put_alert_def)
    have rows: "map (after_findings live fs) (dk_alerts ?k) = map (after_findings live (f # fs)) (dk_alerts k)"
      unfolding put_alert_def update_by_def by (auto simp: Some hits_def)
    have "dk_alerts (apply_findings now cid live fs ?k) =
        map (after_findings live fs) (dk_alerts ?k) @ new_alerts now cid live (next_id ?k) fs"
      by (rule Cons.IH) (use Cons.prems n in simp)
    then show ?thesis by (simp only: rows n) (simp add: Some)
  qed
qed (simp add: map_idI)

lemma auto_resolve_rows:
  "dk_alerts (auto_resolve live ks k) =
    map (\<lambda>a. if \<exists>key \<in> set ks. hits live key a then a\<lparr>al_status := Alert_resolved\<rparr> else a)
      (dk_alerts k)"
proof (induction ks arbitrary: k)
  case (Cons key ks)
  show ?case
  proof (cases "live key")
    case None
    with Cons show ?thesis by (simp add: hits_def)
  next
    case (Some b)
    with Cons [of "put_alert (al_id b) (\<lambda>a. a\<lparr>al_status := Alert_resolved\<rparr>) k"] show ?thesis
      by (auto simp: put_alert_def update_by_def hits_def)
  qed
qed simp

lemma in_new_alerts:
  "a \<in> set (new_alerts now cid live i fs) \<Longrightarrow>
    i \<le> al_id a \<and> (\<exists>f \<in> set fs. live (fi_rec_key f) = None \<and> a = alert_from now (al_id a) cid f)"
  by (induction fs arbitrary: i) (fastforce split: if_splits)+

lemma new_alerts_cover:
  "f \<in> set fs \<Longrightarrow> live (fi_rec_key f) = None \<Longrightarrow> \<exists>j. alert_from now j cid f \<in> set (new_alerts now cid live i fs)"
  by (induction fs arbitrary: i) auto

lemma new_alerts_ids: "distinct (map al_id (new_alerts now cid live i fs))"
  by (induction fs arbitrary: i) (auto dest: in_new_alerts)

lemma new_alerts_one_per_key:
  assumes "distinct (map fi_rec_key fs)"
  shows "one_per_key (new_alerts now cid live i fs)"
  using assms
proof (induction fs arbitrary: i)
  case (Cons f fs)
  have "\<not> has_key (fi_rec_key f) a" if "a \<in> set (new_alerts now cid live j fs)" for a j
  proof -
    from that obtain g where "g \<in> set fs" "a = alert_from now (al_id a) cid g" by (blast dest: in_new_alerts)
    then have "g \<in> set fs" "al_rec_key a = Some (fi_rec_key g)" by (simp, metis alert_from_simps(5))
    then show ?thesis using Cons.prems by (simp add: has_key_def) (metis imageI)
  qed
  then show ?case using Cons by (auto simp: one_per_key_def has_key_def)
qed (simp add: one_per_key_def)

text \<open>The keys of the findings: a check and a campaign each, so no two findings of a client share one.\<close>

lemma finding_cases:
  "cpl_finding c = [] \<or> (\<exists>f. cpl_finding c = [f] \<and> fi_rec_key f = ''cpl:'' @ uuid_str (cp_id c))"
  "ctr_finding c = [] \<or> (\<exists>f. ctr_finding c = [f] \<and> fi_rec_key f = ''ctr:'' @ uuid_str (cp_id c))"
  "budget_finding c = [] \<or> (\<exists>f. budget_finding c = [f] \<and> fi_rec_key f = ''budget:'' @ uuid_str (cp_id c))"
  "roas_finding c = [] \<or> (\<exists>f. roas_finding c = [f] \<and> fi_rec_key f = ''roas:'' @ uuid_str (cp_id c))"
  by (auto simp: cpl_finding_def ctr_finding_def budget_finding_def roas_finding_def Let_def split: option.splits)

definition campaign_keys :: "campaign \<Rightarrow> string set" where
  "campaign_keys c = {''cpl:'' @ uuid_str (cp_id c), ''ctr:'' @ uuid_str (cp_id c), ''budget:'' @ uuid_str (cp_id c),
     ''roas:'' @ uuid_str (cp_id c)}"

lemma findings_for_keys:
  "distinct (map fi_rec_key (findings_for c))" "fi_rec_key ` set (findings_for c) \<subseteq> campaign_keys c"
  using finding_cases(1) [of c] finding_cases(2) [of c] finding_cases(3) [of c] finding_cases(4) [of c]
  by (auto simp: findings_for_def campaign_keys_def)

lemma finding_key: "f \<in> set (findings_for c) \<Longrightarrow> fi_rec_key f \<in> campaign_keys c"
  using findings_for_keys(2) [of c] by auto

lemma campaign_keys_disjoint: "cp_id c \<noteq> cp_id c' \<Longrightarrow> campaign_keys c \<inter> campaign_keys c' = {}"
  by (auto simp: campaign_keys_def)

lemma campaign_keys_nonempty: "[] \<notin> campaign_keys c"
  by (simp add: campaign_keys_def)

lemma findings_distinct:
  "distinct (map cp_id cs) \<Longrightarrow> distinct (map fi_rec_key (concat (map findings_for cs)))"
proof (induction cs)
  case (Cons c cs)
  have "fi_rec_key f \<noteq> fi_rec_key g" if "f \<in> set (findings_for c)" "c' \<in> set cs" "g \<in> set (findings_for c')" for f g c'
  proof -
    have "cp_id c \<noteq> cp_id c'" using Cons.prems that(2) by auto
    from campaign_keys_disjoint [OF this] finding_key [OF that(1)] finding_key [OF that(3)] show ?thesis by auto
  qed
  then have "fi_rec_key ` set (findings_for c) \<inter> fi_rec_key ` set (concat (map findings_for cs)) = {}" by auto
  with Cons findings_for_keys(1) [of c] show ?case by simp
qed simp

lemma client_findings_distinct:
  assumes "distinct (map cp_id (dk_campaigns k))"
  shows "distinct (map fi_rec_key (client_findings cid k))"
proof -
  have "distinct (map cp_id (campaigns_for_client cid k))"
    using assms by (auto simp: campaigns_for_client_def distinct_map inj_on_def)
  then show ?thesis by (simp only: client_findings_def findings_distinct)
qed

lemma client_findings_keys: "f \<in> set (client_findings cid k) \<Longrightarrow> fi_rec_key f \<noteq> []"
  by (auto simp: client_findings_def) (metis campaign_keys_nonempty finding_key)

lemma after_findings_hit:
  "distinct fs \<Longrightarrow> f \<in> set fs \<Longrightarrow>
    \<forall>g \<in> set fs. hits live (fi_rec_key g) a \<longleftrightarrow> g = f \<Longrightarrow>
    after_findings live fs a = update_from f a"
proof (induction fs arbitrary: a)
  case (Cons g fs)
  show ?case
  proof (cases "g = f")
    case True
    with Cons.prems have "\<forall>h \<in> set fs. \<not> hits live (fi_rec_key h) (update_from f a)"
      by auto
    from after_findings_other [OF this] Cons.prems True show ?thesis by simp
  next
    case False
    with Cons.prems Cons.IH [of a] show ?thesis by simp
  qed
qed simp

text \<open>The fate of one old row: kept, rewritten from its finding, or resolved.\<close>

definition fate :: "uuid \<Rightarrow> desk \<Rightarrow> alert \<Rightarrow> alert" where
  "fate cid k a = (if a \<notin> set (live_for_client cid k) then a
     else case find (\<lambda>f. has_key (fi_rec_key f) a) (client_findings cid k) of
       Some f \<Rightarrow> update_from f a
     | None \<Rightarrow> if \<exists>key. has_key key a then a\<lparr>al_status := Alert_resolved\<rparr> else a)"

definition loop_row :: "uuid \<Rightarrow> desk \<Rightarrow> alert \<Rightarrow> alert" where
  "loop_row cid k a =
     (let live = live_dict (live_for_client cid k); b = after_findings live (client_findings cid k) a in
      if \<exists>key \<in> set (gone_keys cid k). hits live key b then b\<lparr>al_status := Alert_resolved\<rparr>
      else b)"

lemma has_key_unique: "has_key key a \<Longrightarrow> has_key key' a \<Longrightarrow> key = key'"
  by (simp add: has_key_def)

lemma live_subset: "a \<in> set (live_for_client cid k) \<Longrightarrow> a \<in> set (dk_alerts k)"
  by (simp add: live_for_client_def)

lemma live_id:
  assumes "alert_ids_ok k" "one_per_key (live_for_client cid k)" "a \<in> set (dk_alerts k)"
  shows "hits (live_dict (live_for_client cid k)) key a \<longleftrightarrow>
    a \<in> set (live_for_client cid k) \<and> has_key key a"
proof -
  have inj: "al_id b = al_id a \<longleftrightarrow> b = a" if "b \<in> set (live_for_client cid k)" for b
    using assms(1,3) live_subset [OF that] by (auto simp: alert_ids_ok_def distinct_map inj_on_def)
  show ?thesis
  proof (cases "live_dict (live_for_client cid k) key")
    case None
    then show ?thesis using live_dict_None [of "live_for_client cid k" key] by (auto simp: hits_def)
  next
    case (Some b)
    then show ?thesis
      using live_dict_Some [OF Some] live_dict_unique [OF assms(2), of key a] inj [of b] by (auto simp: hits_def)
  qed
qed

lemma set_gone_keys:
  "key \<in> set (gone_keys cid k) \<longleftrightarrow>
    (\<exists>a \<in> set (live_for_client cid k). has_key key a) \<and> key \<notin> fi_rec_key ` set (client_findings cid k)"
  by (auto simp: gone_keys_def set_live_keys)

lemma loop_row_fate:
  assumes "alert_ids_ok k" "one_per_key (live_for_client cid k)" "distinct (map cp_id (dk_campaigns k))"
    "a \<in> set (dk_alerts k)"
  shows "loop_row cid k a = fate cid k a"
proof (cases "a \<in> set (live_for_client cid k)")
  case False
  then have "after_findings (live_dict (live_for_client cid k)) (client_findings cid k) a = a"
    by (intro after_findings_other) (simp add: live_id [OF assms(1,2,4)])
  with False show ?thesis by (simp add: loop_row_def fate_def live_id [OF assms(1,2,4)])
next
  case True
  note L = live_id [OF assms(1,2,4)]
  show ?thesis
  proof (cases "find (\<lambda>f. has_key (fi_rec_key f) a) (client_findings cid k)")
    case None
    then have no: "\<forall>f \<in> set (client_findings cid k). \<not> has_key (fi_rec_key f) a" by (simp add: find_None_iff)
    then have "after_findings (live_dict (live_for_client cid k)) (client_findings cid k) a = a"
      by (intro after_findings_other) (simp add: L)
    moreover have "key \<in> set (gone_keys cid k)" if "has_key key a" for key
      using no True that by (auto simp: set_gone_keys)
    then have "(\<exists>key \<in> set (gone_keys cid k). has_key key a) \<longleftrightarrow> (\<exists>key. has_key key a)" by blast
    ultimately show ?thesis using True None by (simp add: loop_row_def fate_def L)
  next
    case (Some f)
    then have f: "f \<in> set (client_findings cid k)" "has_key (fi_rec_key f) a" by (auto simp: find_Some_iff)
    have d: "distinct (map fi_rec_key (client_findings cid k))" by (rule client_findings_distinct [OF assms(3)])
    have "has_key (fi_rec_key g) a \<longleftrightarrow> g = f" if "g \<in> set (client_findings cid k)" for g
      using d f that has_key_unique [of _ a] by (auto simp: distinct_map inj_on_def)
    then have "after_findings (live_dict (live_for_client cid k)) (client_findings cid k) a = update_from f a"
      using d f by (intro after_findings_hit) (auto simp: L True distinct_map)
    moreover have "\<not> (\<exists>key \<in> set (gone_keys cid k). has_key key a)"
      using f by (auto simp: set_gone_keys dest: has_key_unique)
    ultimately show ?thesis using True Some by (simp add: loop_row_def fate_def L)
  qed
qed

lemma reconciled_rows:
  assumes "alert_ids_ok k" "one_per_key (live_for_client cid k)" "distinct (map cp_id (dk_campaigns k))"
  shows "dk_alerts (reconciled_alerts now cid k) =
    map (fate cid k) (dk_alerts k) @
    new_alerts now cid (live_dict (live_for_client cid k)) (next_id k) (client_findings cid k)"
proof -
  let ?live = "live_dict (live_for_client cid k)" and ?fs = "client_findings cid k"
  let ?r = "\<lambda>a. if \<exists>key \<in> set (gone_keys cid k). hits ?live key a
      then a\<lparr>al_status := Alert_resolved\<rparr> else a"
  have ids: "al_id b < next_id k" if "?live key = Some b" for key b
    using live_dict_Some [OF that] live_subset assms(1) by (auto simp: alert_ids_ok_def)
  have new: "?r a = a" if "a \<in> set (new_alerts now cid ?live (next_id k) ?fs)" for a
    using in_new_alerts [OF that] ids by (fastforce simp: hits_def)
  have "dk_alerts (reconciled_alerts now cid k) =
      map ?r (map (after_findings ?live ?fs) (dk_alerts k) @ new_alerts now cid ?live (next_id k) ?fs)"
    unfolding reconciled_alerts_def Let_def by (subst auto_resolve_rows, subst apply_findings_rows [OF ids]) auto
  also have "\<dots> = map (loop_row cid k) (dk_alerts k) @ new_alerts now cid ?live (next_id k) ?fs"
    using new by (auto simp: loop_row_def Let_def intro!: map_idI)
  also have "map (loop_row cid k) (dk_alerts k) = map (fate cid k) (dk_alerts k)"
    using loop_row_fate [OF assms] by simp
  finally show ?thesis .
qed

lemma reconciled_parts [simp]:
  "dk_campaigns (reconciled_alerts now cid k) = dk_campaigns k"
  "dk_notifications (reconciled_alerts now cid k) = dk_notifications k"
  "client_findings cid' (reconciled_alerts now cid k) = client_findings cid' k"
proof -
  have "dk_campaigns (apply_findings now cid live fs k) = dk_campaigns k \<and>
      dk_notifications (apply_findings now cid live fs k) = dk_notifications k" for live fs
    by (induction fs arbitrary: k) (simp_all add: put_alert_def use_id_def split: option.split)
  moreover have "dk_campaigns (auto_resolve live ks k) = dk_campaigns k \<and>
      dk_notifications (auto_resolve live ks k) = dk_notifications k" for live ks k
    by (induction ks arbitrary: k) (simp_all add: put_alert_def split: option.split)
  ultimately show "dk_campaigns (reconciled_alerts now cid k) = dk_campaigns k"
    "dk_notifications (reconciled_alerts now cid k) = dk_notifications k" by (simp_all add: reconciled_alerts_def Let_def)
  then show "client_findings cid' (reconciled_alerts now cid k) = client_findings cid' k"
    by (simp add: client_findings_def campaigns_for_client_def)
qed

lemma find_SomeD: "find P xs = Some x \<Longrightarrow> x \<in> set xs \<and> P x"
  by (auto simp: find_Some_iff)

lemma fate_live:
  assumes "a \<in> set (dk_alerts k)" "al_client_id (fate cid k a) = cid" "is_live (fate cid k a)"
  shows "a \<in> set (live_for_client cid k) \<and>
    ((\<exists>f \<in> set (client_findings cid k). has_key (fi_rec_key f) a \<and> fate cid k a = update_from f a) \<or>
     fate cid k a = a \<and> (\<forall>key. \<not> has_key key a))"
proof -
  have L: "a \<in> set (live_for_client cid k)"
  proof (rule ccontr)
    assume out: "a \<notin> set (live_for_client cid k)"
    with assms(2,3) have "al_client_id a = cid" "is_live a" by (simp_all add: fate_def)
    with out assms(1) show False by (simp add: live_for_client_def)
  qed
  show ?thesis
  proof (cases "find (\<lambda>f. has_key (fi_rec_key f) a) (client_findings cid k)")
    case None
    with L assms(3) show ?thesis by (auto simp: fate_def is_live_def split: if_splits)
  next
    case (Some f)
    with L find_SomeD [OF Some] show ?thesis by (auto simp: fate_def)
  qed
qed

lemma fate_keeps:
  assumes "a \<in> set (live_for_client cid k)" "f \<in> set (client_findings cid k)" "has_key (fi_rec_key f) a"
  shows "\<exists>g \<in> set (client_findings cid k). fi_rec_key g = fi_rec_key f \<and> fate cid k a = update_from g a"
proof -
  obtain g where g: "find (\<lambda>f. has_key (fi_rec_key f) a) (client_findings cid k) = Some g"
    using assms(2,3) by (cases "find (\<lambda>f. has_key (fi_rec_key f) a) (client_findings cid k)") (auto simp: find_None_iff)
  then have "g \<in> set (client_findings cid k)" "has_key (fi_rec_key g) a" by (auto simp: find_Some_iff)
  then show ?thesis using assms g has_key_unique [of _ a] by (auto simp: fate_def)
qed

lemma new_alerts_client: "x \<in> set (new_alerts now cid live i fs) \<Longrightarrow> al_client_id x = cid \<and> is_live x"
  using in_new_alerts [of x now cid live i fs] by (metis alert_from_simps(2,3))

lemma live_after:
  assumes "alert_ids_ok k" "one_per_key (live_for_client cid k)" "distinct (map cp_id (dk_campaigns k))"
  shows "x \<in> set (live_for_client cid (reconciled_alerts now cid k)) \<longleftrightarrow>
    (\<exists>a \<in> set (live_for_client cid k). x = fate cid k a \<and> is_live x) \<or>
    x \<in> set (new_alerts now cid (live_dict (live_for_client cid k)) (next_id k) (client_findings cid k))"
  (is "?lhs \<longleftrightarrow> ?old \<or> x \<in> set ?new")
proof -
  have client: "al_client_id (fate cid k a) = al_client_id a" for a
    by (simp add: fate_def split: option.split)
  have new: "al_client_id x = cid \<and> is_live x" if "x \<in> set ?new"
    using new_alerts_client [OF that] .
  have "?lhs \<longleftrightarrow> (x \<in> fate cid k ` set (dk_alerts k) \<or> x \<in> set ?new) \<and> al_client_id x = cid \<and> is_live x"
    by (simp only: live_for_client_def [of cid "reconciled_alerts now cid k"] reconciled_rows [OF assms]) auto
  also have "\<dots> \<longleftrightarrow> ?old \<or> x \<in> set ?new"
  proof
    assume l: "(x \<in> fate cid k ` set (dk_alerts k) \<or> x \<in> set ?new) \<and> al_client_id x = cid \<and> is_live x"
    then show "?old \<or> x \<in> set ?new" using fate_live [of _ k cid] by blast
  next
    assume "?old \<or> x \<in> set ?new"
    then show "(x \<in> fate cid k ` set (dk_alerts k) \<or> x \<in> set ?new) \<and> al_client_id x = cid \<and> is_live x"
    proof
      assume ?old
      then obtain a where "a \<in> set (live_for_client cid k)" "x = fate cid k a" "is_live x" by blast
      then show ?thesis using client [of a] live_subset [of a cid k] by (auto simp: live_for_client_def)
    qed (use new in blast)
  qed
  finally show ?thesis .
qed

lemma reconciled_mirrors:
  assumes "alert_ids_ok k" "one_per_key (live_for_client cid k)" "distinct (map cp_id (dk_campaigns k))"
  shows "mirrors (client_findings cid k) (live_for_client cid (reconciled_alerts now cid k))"
proof -
  let ?L = "live_for_client cid k" and ?fs = "client_findings cid k"
  let ?new = "new_alerts now cid (live_dict ?L) (next_id k) ?fs"
  note live = live_after [OF assms, of _ now]
  have d: "distinct (map fi_rec_key ?fs)" by (rule client_findings_distinct [OF assms(3)])
  have same: "f = g" if "f \<in> set ?fs" "g \<in> set ?fs" "fi_rec_key f = fi_rec_key g" for f g
    using d that by (auto simp: distinct_map inj_on_def)
  have origin: "(\<exists>a \<in> set ?L. \<exists>f \<in> set ?fs. fi_rec_key f = key \<and> has_key key a \<and> x = update_from f a) \<or>
      live_dict ?L key = None \<and> x \<in> set ?new \<and> key \<in> fi_rec_key ` set ?fs"
    if "x \<in> set (live_for_client cid (reconciled_alerts now cid k))" "has_key key x" for x key
    using that(1)[unfolded live]
  proof
    assume "\<exists>a \<in> set ?L. x = fate cid k a \<and> is_live x"
    then obtain a where a: "a \<in> set ?L" "x = fate cid k a" "is_live x" by blast
    from a have "al_client_id (fate cid k a) = cid"
      by (simp add: fate_def live_for_client_def split: option.split)
    with fate_live [of a k cid] live_subset [OF a(1)] a(2,3)
    have "(\<exists>f \<in> set ?fs. has_key (fi_rec_key f) a \<and> x = update_from f a) \<or> x = a \<and> (\<forall>key. \<not> has_key key a)" by metis
    with that(2) a(1) show ?thesis by (metis has_key_unique update_from_simps(5))
  next
    assume new: "x \<in> set ?new"
    then obtain f where f: "f \<in> set ?fs" "live_dict ?L (fi_rec_key f) = None" "x = alert_from now (al_id x) cid f"
      by (blast dest: in_new_alerts)
    then have "fi_rec_key f = key" using that(2) by (metis alert_from_simps(5) has_key_def option.inject)
    with f new show ?thesis by auto
  qed
  show ?thesis
    unfolding mirrors_def
  proof (intro conjI ballI allI impI)
    show "one_per_key (live_for_client cid (reconciled_alerts now cid k))"
      unfolding one_per_key_def
    proof (intro ballI allI impI)
      fix x y key
      assume xy: "x \<in> set (live_for_client cid (reconciled_alerts now cid k))"
        "y \<in> set (live_for_client cid (reconciled_alerts now cid k))" "has_key key x" "has_key key y"
      show "x = y"
        using origin [OF xy(1,3)] origin [OF xy(2,4)] new_alerts_one_per_key [OF d, of now cid "live_dict ?L" "next_id k"]
          assms(2) same live_dict_None [of ?L key] xy(3,4) unfolding one_per_key_def by metis
    qed
  next
    fix f assume f: "f \<in> set ?fs"
    then have key: "fi_rec_key f \<noteq> []" by (rule client_findings_keys)
    show "\<exists>a \<in> set (live_for_client cid (reconciled_alerts now cid k)). has_key (fi_rec_key f) a \<and> update_from f a = a"
    proof (cases "live_dict ?L (fi_rec_key f)")
      case None
      from new_alerts_cover [of f ?fs "live_dict ?L" now cid "next_id k", OF f None] obtain j where "alert_from now j cid f \<in> set ?new" by blast
      then show ?thesis using key by (intro bexI [of _ "alert_from now j cid f"]) (auto simp: live has_key_def)
    next
      case (Some a)
      then have a: "a \<in> set ?L" "has_key (fi_rec_key f) a" by (auto dest: live_dict_Some)
      from fate_keeps [OF a(1) f a(2)] same f have "fate cid k a = update_from f a" by metis
      moreover have "is_live a" using a(1) by (simp add: live_for_client_def)
      ultimately show ?thesis using a by (intro bexI [of _ "update_from f a"]) (auto simp: live intro!: bexI [of _ a])
    qed
  next
    fix a key assume "a \<in> set (live_for_client cid (reconciled_alerts now cid k))" "has_key key a"
    from origin [OF this] show "key \<in> fi_rec_key ` set ?fs" by auto
  qed
qed

section \<open>What an evaluation promises\<close>

lemma evaluate_parts:
  assumes "evaluate now cid k = Inr (r, k')"
  shows "k' = reconciled_alerts now cid k" "desk_constraints k'" "distinct (map cp_id (dk_campaigns k))"
proof -
  from assms show k': "k' = reconciled_alerts now cid k" and "desk_constraints k'"
    by (auto simp: evaluate_def desk_flush_def Let_def split: if_splits)
  then show "distinct (map cp_id (dk_campaigns k))" by (simp add: desk_constraints_def)
qed

lemma reconciled_others:
  assumes "alert_ids_ok k" "one_per_key (live_for_client cid k)" "distinct (map cp_id (dk_campaigns k))"
  shows "filter (\<lambda>a. al_client_id a \<noteq> cid) (dk_alerts (reconciled_alerts now cid k)) =
    filter (\<lambda>a. al_client_id a \<noteq> cid) (dk_alerts k)"
proof -
  have "filter (\<lambda>a. al_client_id a \<noteq> cid) (map (fate cid k) as) = filter (\<lambda>a. al_client_id a \<noteq> cid) as" for as
    by (induction as) (auto simp: fate_def live_for_client_def split: option.split)
  then show ?thesis by (simp add: reconciled_rows [OF assms] filter_empty_conv) (use new_alerts_client in blast)
qed


definition sample_campaign :: "uuid \<Rightarrow> uuid \<Rightarrow> rat \<Rightarrow> campaign" where
  "sample_campaign i cid spend = \<lparr>cp_id = i, cp_client_id = cid, cp_name = ''Spring'', cp_objective = ''leads'',
     cp_status = Campaign_active, cp_start_date = None, cp_end_date = None, cp_budget_usd = 2, cp_notes = None,
     cp_target_cpl = Some 10, cp_target_ctr = None, cp_target_conversion_rate = None, cp_impressions = 0, cp_clicks = 0,
     cp_conversions = 0, cp_leads = 0, cp_spend = spend, cp_revenue = 0, cp_created_by = None, cp_created_at = 0\<rparr>"

definition sample_alert :: "uuid \<Rightarrow> uuid \<Rightarrow> string \<Rightarrow> alert_status \<Rightarrow> alert" where
  "sample_alert i cid key s = \<lparr>al_id = i, al_client_id = cid, al_campaign_id = None, al_kind = Kind_alert,
     al_severity = Sev_low, al_status = s, al_title = ''old'', al_detail = None, al_metric = None, al_threshold = None,
     al_actual = None, al_rec_key = Some key, al_acknowledged_by = None, al_resolved_by = None, al_created_at = 0\<rparr>"

text \<open>Client 1 has spent its budget of two dollars; an alert of a check that no longer fails is still open.\<close>

definition sample_desk :: desk where
  "sample_desk = (empty_desk (empty_db\<lparr>d_next_id := 50\<rparr>))\<lparr>dk_campaigns := [sample_campaign 7 1 2],
     dk_alerts := [sample_alert 20 1 ''budget:7'' Alert_acknowledged, sample_alert 21 1 ''ctr:7'' Alert_open,
       sample_alert 22 2 ''budget:7'' Alert_open]\<rparr>"

lemma sample_desk_ok:
  "alert_ids_ok sample_desk" "one_per_key (live_for_client 1 sample_desk)"
  "desk_constraints (reconciled_alerts 9 1 sample_desk)"
proof -
  show "alert_ids_ok sample_desk" by code_simp
  show "desk_constraints (reconciled_alerts 9 1 sample_desk)" by code_simp
  show "one_per_key (live_for_client 1 sample_desk)"
    by (simp add: one_per_key_def live_for_client_def sample_desk_def sample_alert_def is_live_def has_key_def)
qed

lemma evaluate_Inr: "desk_constraints (reconciled_alerts now cid k) \<Longrightarrow> \<exists>r. evaluate now cid k = Inr (r, reconciled_alerts now cid k)"
  by (simp add: evaluate_def desk_flush_def Let_def)


text \<open>
  Acknowledging an alert that is already resolved puts it back among the live ones: no operation checks
  the status it starts from. If the breach has come back in the meantime and opened a new alert with the
  same key, the client now has two live alerts for one check, which is the state the evaluation relies on
  never seeing.
\<close>

theorem acknowledge_revives:
  assumes "a \<in> set (live_for_client cid k)" "has_key key a" "b \<in> set (dk_alerts k)" "al_client_id b = cid"
    "al_status b = Alert_resolved" "has_key key b" "alert_ids_ok k" "desk_constraints k"
  shows "\<exists>k'. acknowledge cid (al_id b) actor k = Inr ((), k') \<and> \<not> one_per_key (live_for_client cid k')"
proof -
  let ?f = "\<lambda>a. a\<lparr>al_status := Alert_acknowledged, al_acknowledged_by := Some actor\<rparr>"
  let ?k = "put_alert (al_id b) ?f k"
  have inj: "al_id x = al_id b \<longleftrightarrow> x = b" if "x \<in> set (dk_alerts k)" for x
    using assms(3,7) that by (auto simp: alert_ids_ok_def distinct_map inj_on_def)
  have ab: "a \<noteq> b" "a \<in> set (dk_alerts k)" using assms(1,5) by (auto simp: live_for_client_def is_live_def)
  have "alert_for_client cid (al_id b) k = Some b"
  proof (cases "alert_for_client cid (al_id b) k")
    case None
    with assms(3,4) show ?thesis by (auto simp: alert_for_client_def find_None_iff)
  next
    case (Some x)
    with find_SomeD [of _ "dk_alerts k" x] inj [of x] show ?thesis by (auto simp: alert_for_client_def)
  qed
  then have "acknowledge cid (al_id b) actor k = desk_flush ?k" by (simp add: acknowledge_def get_alert_def)
  moreover have "desk_constraints ?k"
    using assms(8) by (auto simp: desk_constraints_def put_alert_def update_by_def list_all_iff alert_row_ok_def comp_def
        if_distrib [of al_id] cong: if_cong)
  moreover have "a \<in> set (live_for_client cid ?k)"
    using assms(1) ab inj [of a] by (force simp: live_for_client_def put_alert_def update_by_def image_iff)
  moreover have "?f b \<in> set (live_for_client cid ?k)"
    using assms(3,4) by (force simp: live_for_client_def put_alert_def update_by_def is_live_def image_iff)
  moreover have "has_key key (?f b)" "?f b \<noteq> a" using assms(6) inj [of a] ab by (auto simp: has_key_def)
  ultimately show ?thesis using assms(2) by (auto simp: desk_flush_def one_per_key_def)
qed

theorem acknowledge_revives_witness:
  "\<exists>k'. acknowledge 1 21 5 (sample_desk\<lparr>dk_alerts := [sample_alert 20 1 ''cpl:7'' Alert_open, sample_alert 21 1 ''cpl:7'' Alert_resolved]\<rparr>) =
      Inr ((), k') \<and> \<not> one_per_key (live_for_client 1 k')"
proof -
  let ?k = "sample_desk\<lparr>dk_alerts := [sample_alert 20 1 ''cpl:7'' Alert_open, sample_alert 21 1 ''cpl:7'' Alert_resolved]\<rparr>"
  have "alert_ids_ok ?k" "desk_constraints ?k" by code_simp+
  moreover have "al_id (sample_alert 21 1 ''cpl:7'' Alert_resolved) = 21" by (simp add: sample_alert_def)
  ultimately show ?thesis
    using acknowledge_revives [of "sample_alert 20 1 ''cpl:7'' Alert_open" 1 ?k "''cpl:7''" "sample_alert 21 1 ''cpl:7'' Alert_resolved" 5]
    by (simp add: live_for_client_def sample_alert_def is_live_def has_key_def)
qed

text \<open>A title is the campaign's name and a suffix, and its column is as wide as the name's.\<close>

lemma long_name_stops_evaluation:
  assumes "alert_ids_ok k" "one_per_key (live_for_client cid k)" "f \<in> set (client_findings cid k)" "200 < length (fi_title f)"
  shows "evaluate now cid k = Inl (Crash ''DBAPIError'')"
proof (rule ccontr)
  assume no: "\<not> ?thesis"
  then obtain r k' where e: "evaluate now cid k = Inr (r, k')"
    by (auto simp: evaluate_def desk_flush_def Let_def split: if_splits)
  from reconciled_mirrors [OF assms(1,2) evaluate_parts(3) [OF e], of now] assms(3) evaluate_parts(1) [OF e]
  obtain a where a: "a \<in> set (live_for_client cid k')" "update_from f a = a" by (auto simp: mirrors_def)
  have "al_title (update_from f a) = fi_title f" by (simp add: update_from_def)
  with a(2) have "al_title a = fi_title f" by simp
  moreover have "length (al_title a) \<le> 200"
    using a(1) evaluate_parts(2) [OF e] by (auto simp: desk_constraints_def list_all_iff alert_row_ok_def live_for_client_def)
  ultimately show False using assms(4) by simp
qed

end
