(* ===== verification/Notifications.thy ===== *)
theory Notifications
  imports Complex_Main Alerts Report_Mail
begin

text \<open>
  The notification centre (\<^verbatim>\<open>notification_service.py\<close> and its repositories), the e-mail
  digest (\<^verbatim>\<open>notification_email_service.py\<close>) and the KPI watchdog sweep of
  \<^verbatim>\<open>scheduler_service.py\<close>, which evaluates every active client's alerts and
  notifies its team.
\<close>

section \<open>Delivering a notification\<close>

text \<open>The keyword arguments of \<^verbatim>\<open>notify\<close>.\<close>

record notice =
  nt_title :: string
  nt_kind :: string
  nt_level :: level
  nt_body :: "string option"
  nt_client_id :: "uuid option"
  nt_link :: "string option"
  nt_rec_key :: "string option"

definition find_unread_by_reckey :: "uuid \<Rightarrow> string \<Rightarrow> desk \<Rightarrow> notification option" where
  "find_unread_by_reckey uid key k =
     find (\<lambda>n. no_user_id n = uid \<and> no_rec_key n = Some key \<and> no_read_at n = None) (dk_notifications k)"

definition unread_with_key :: "uuid \<Rightarrow> notice \<Rightarrow> desk \<Rightarrow> notification option" where
  "unread_with_key uid nt k = (case nt_rec_key nt of
     None \<Rightarrow> None | Some key \<Rightarrow> if key = [] then None else find_unread_by_reckey uid key k)"

definition refreshed :: "notice \<Rightarrow> notification \<Rightarrow> notification" where
  "refreshed nt n = n\<lparr>no_title := nt_title nt, no_body := nt_body nt, no_level := nt_level nt, no_kind := nt_kind nt,
     no_link := nt_link nt, no_client_id := nt_client_id nt\<rparr>"

definition notification_from :: "datetime \<Rightarrow> uuid \<Rightarrow> uuid \<Rightarrow> notice \<Rightarrow> notification" where
  "notification_from now i uid nt = \<lparr>no_id = i, no_user_id = uid, no_client_id = nt_client_id nt, no_kind = nt_kind nt,
     no_level = nt_level nt, no_title = nt_title nt, no_body = nt_body nt, no_link = nt_link nt,
     no_rec_key = nt_rec_key nt, no_read_at = None, no_emailed_at = None, no_created_at = now\<rparr>"

definition put_notification :: "uuid \<Rightarrow> (notification \<Rightarrow> notification) \<Rightarrow> desk \<Rightarrow> desk" where
  "put_notification i f k = k\<lparr>dk_notifications := update_by no_id i f (dk_notifications k)\<rparr>"

definition deliver_notice :: "datetime \<Rightarrow> uuid \<Rightarrow> notice \<Rightarrow> desk \<Rightarrow> uuid \<times> desk" where
  "deliver_notice now uid nt k = (case unread_with_key uid nt k of
     Some n \<Rightarrow> (no_id n, put_notification (no_id n) (refreshed nt) k)
   | None \<Rightarrow> (next_id k, (use_id k)\<lparr>dk_notifications := dk_notifications k @ [notification_from now (next_id k) uid nt]\<rparr>))"

definition notify :: "datetime \<Rightarrow> uuid \<Rightarrow> notice \<Rightarrow> uuid desk_op" where
  "notify now uid nt k =
     (let (i, k') = deliver_notice now uid nt k in bindR (desk_flush k') (\<lambda>(_, k''). Inr (i, k'')))"

definition notify_client_team :: "datetime \<Rightarrow> uuid \<Rightarrow> notice \<Rightarrow> nat desk_op" where
  "notify_client_team now cid nt k =
     (let assigned = list_for_client_rows cid (dk_db k);
          k' = foldl (\<lambda>k a. snd (deliver_notice now (a_user_id a) (nt\<lparr>nt_client_id := Some cid\<rparr>) k)) k assigned in
      bindR (desk_flush k') (\<lambda>(_, k''). Inr (length assigned, k'')))"

section \<open>The notification centre of a user\<close>

definition user_rows :: "uuid \<Rightarrow> bool \<Rightarrow> desk \<Rightarrow> notification list" where
  "user_rows uid unread_only k =
     sort_key (\<lambda>n. - no_created_at n)
       (filter (\<lambda>n. no_user_id n = uid \<and> (unread_only \<longrightarrow> no_read_at n = None)) (dk_notifications k))"

definition notifications_unread_count :: "uuid \<Rightarrow> desk \<Rightarrow> nat" where
  "notifications_unread_count uid k =
     length (filter (\<lambda>n. no_user_id n = uid \<and> no_read_at n = None) (dk_notifications k))"

definition list_for_user :: "uuid \<Rightarrow> pagination \<Rightarrow> bool \<Rightarrow> desk \<Rightarrow> notification list \<times> nat \<times> nat" where
  "list_for_user uid p unread_only k =
     (let rows = user_rows uid unread_only k in
      (page_of (pg_offset p) (pg_page_size p) rows, length rows, notifications_unread_count uid k))"

definition notification_get_for_user :: "uuid \<Rightarrow> uuid \<Rightarrow> desk \<Rightarrow> notification option" where
  "notification_get_for_user uid i k = find (\<lambda>n. no_id n = i \<and> no_user_id n = uid) (dk_notifications k)"

definition mark_read :: "datetime \<Rightarrow> uuid \<Rightarrow> uuid \<Rightarrow> uuid desk_op" where
  "mark_read now uid i k =
     bindR (some_or (not_found ''Notification not found.'') (notification_get_for_user uid i k)) (\<lambda>n.
       if no_read_at n = None then
         bindR (desk_flush (put_notification i (\<lambda>n. n\<lparr>no_read_at := Some now\<rparr>) k)) (\<lambda>(_, k'). Inr (i, k'))
       else Inr (i, k))"

definition mark_all_read :: "datetime \<Rightarrow> uuid \<Rightarrow> nat desk_op" where
  "mark_all_read now uid k =
     (let rows = user_rows uid True k in
      bindR (desk_flush (k\<lparr>dk_notifications :=
          map (\<lambda>n. if n \<in> set rows then n\<lparr>no_read_at := Some now\<rparr> else n) (dk_notifications k)\<rparr>))
        (\<lambda>(_, k'). Inr (length rows, k')))"

definition preference_for_user :: "uuid \<Rightarrow> desk \<Rightarrow> preference option" where
  "preference_for_user uid k = find_by pr_user_id uid (dk_preferences k)"

definition get_preferences :: "uuid \<Rightarrow> preference desk_op" where
  "get_preferences uid k = (case preference_for_user uid k of
     Some p \<Rightarrow> Inr (p, k)
   | None \<Rightarrow>
       (let p = \<lparr>pr_user_id = uid, pr_email_enabled = False, pr_muted_client_ids = []\<rparr> in
        bindR (desk_flush (k\<lparr>dk_preferences := dk_preferences k @ [p]\<rparr>)) (\<lambda>(_, k'). Inr (p, k'))))"

text \<open>
  \<open>None\<close> stands for a field that is absent or null: \<^verbatim>\<open>set_preferences\<close> treats both
  alike.
\<close>

definition set_preferences :: "uuid \<Rightarrow> bool option \<Rightarrow> uuid list option \<Rightarrow> preference desk_op" where
  "set_preferences uid email muted k =
     bindR (get_preferences uid k) (\<lambda>(p, k').
       let p' = p\<lparr>pr_email_enabled := (case email of None \<Rightarrow> pr_email_enabled p | Some b \<Rightarrow> b),
                  pr_muted_client_ids := (case muted of None \<Rightarrow> pr_muted_client_ids p | Some ids \<Rightarrow> map uuid_str ids)\<rparr> in
       bindR (desk_flush (k'\<lparr>dk_preferences := update_by pr_user_id uid (\<lambda>_. p') (dk_preferences k')\<rparr>))
         (\<lambda>(_, k''). Inr (p', k'')))"

section \<open>The e-mail digest\<close>

definition BATCH_LIMIT :: nat where
  "BATCH_LIMIT = 200"

definition list_pending_email :: "nat \<Rightarrow> desk \<Rightarrow> notification list" where
  "list_pending_email limit k = take limit (sort_key no_created_at
     (filter (\<lambda>n. no_emailed_at n = None \<and> no_level n \<in> {Level_warning, Level_critical}) (dk_notifications k)))"

text \<open>The keys of a dict filled from a list: in the order of their first appearance.\<close>

definition first_seen :: "'a list \<Rightarrow> 'a list" where
  "first_seen xs = rev (remdups (rev xs))"

definition by_user :: "notification list \<Rightarrow> (uuid \<times> notification list) list" where
  "by_user ns = map (\<lambda>u. (u, filter (\<lambda>n. no_user_id n = u) ns)) (first_seen (map no_user_id ns))"

definition html_escape_char :: "char \<Rightarrow> string" where
  "html_escape_char c = (if c = CHR ''&'' then ''&amp;'' else if c = CHR ''<'' then ''&lt;''
     else if c = CHR ''>'' then ''&gt;'' else if c = CHR 0x22 then ''&quot;'' else if c = CHR 0x27 then ''&#x27;'' else [c])"

definition html_escape :: "string \<Rightarrow> string" where
  "html_escape s = concat (map html_escape_char s)"

record digest_mail =
  dm_email :: string
  dm_name :: string
  dm_subject :: string
  dm_html :: string

definition digest_row :: "notification \<Rightarrow> string" where
  "digest_row n = ''<li><strong>'' @ html_escape (no_title n) @ ''</strong>'' @
     (case no_body n of None \<Rightarrow> [] | Some b \<Rightarrow> if b = [] then [] else '' -- '' @ html_escape b) @ ''</li>''"

definition digest_for :: "user \<Rightarrow> notification list \<Rightarrow> digest_mail" where
  "digest_for u items = \<lparr>dm_email = u_email u, dm_name = u_name u,
     dm_subject = ''InWork MarketingOS -- '' @ digits (length items) @ '' new notification(s)'',
     dm_html = ''<p>You have '' @ digits (length items) @ '' new notification(s):</p><ul>'' @ concat (map digest_row items) @ ''</ul>''\<rparr>"

text \<open>What a user is mailed of a batch: \<open>None\<close> when the user is skipped.\<close>

definition mail_items :: "desk \<Rightarrow> uuid \<Rightarrow> notification list \<Rightarrow> (user \<times> notification list) option" where
  "mail_items k uid items =
     (case (preference_for_user uid k, find_by u_id uid (filter u_is_active (d_users (dk_db k)))) of
        (Some p, Some u) \<Rightarrow>
          if pr_email_enabled p then
            (let eligible = filter (\<lambda>n. case no_client_id n of None \<Rightarrow> True
                   | Some c \<Rightarrow> uuid_str c \<notin> set (pr_muted_client_ids p)) items in
             if eligible = [] then None else Some (u, eligible))
          else None
      | _ \<Rightarrow> None)"

text \<open>
  The loop over the users of a batch. The e-mail provider is the parameter \<open>mailer\<close>, true where it
  accepts a mail; \<open>now\<close> is the clock after the mail of a user. Preferences and users were read before
  the loop. The result lists the mails the provider was handed, beside the desk as committed so far.
\<close>

fun send_digests :: "(uuid \<Rightarrow> datetime) \<Rightarrow> (digest_mail \<Rightarrow> bool) \<Rightarrow> desk \<Rightarrow> (uuid \<times> notification list) list \<Rightarrow> desk \<Rightarrow>
    (exn + nat) \<times> digest_mail list \<times> desk" where
  "send_digests now mailer k0 [] k = (Inr 0, [], k)"
| "send_digests now mailer k0 ((uid, items) # rest) k = (case mail_items k0 uid items of
     None \<Rightarrow> send_digests now mailer k0 rest k
   | Some (u, eligible) \<Rightarrow>
       (let mail = digest_for u eligible in
        if mailer mail then
          (case desk_flush (k\<lparr>dk_notifications :=
               map (\<lambda>n. if no_id n \<in> no_id ` set eligible then n\<lparr>no_emailed_at := Some (now uid)\<rparr> else n) (dk_notifications k)\<rparr>) of
             Inl e \<Rightarrow> (Inl e, [mail], k)
           | Inr (_, k') \<Rightarrow>
               (let (r, mails, k'') = send_digests now mailer k0 rest k' in
                (case r of Inl e \<Rightarrow> Inl e | Inr n \<Rightarrow> Inr (Suc n), mail # mails, k'')))
        else
          (let (r, mails, k'') = send_digests now mailer k0 rest k in (r, mail # mails, k''))))"

definition send_pending_emails :: "(uuid \<Rightarrow> datetime) \<Rightarrow> (digest_mail \<Rightarrow> bool) \<Rightarrow> bool \<Rightarrow> nat \<Rightarrow> desk \<Rightarrow>
    (exn + nat) \<times> digest_mail list \<times> desk" where
  "send_pending_emails now mailer configured limit k =
     (let pending = list_pending_email limit k in
      if \<not> configured \<or> pending = [] then (Inr 0, [], k) else send_digests now mailer k (by_user pending) k)"

section \<open>The KPI watchdog sweep\<close>

definition watchdog_notice :: "uuid \<Rightarrow> string \<Rightarrow> evaluation \<Rightarrow> notice" where
  "watchdog_notice cid name r = \<lparr>
     nt_title = name @ '': '' @ digits (er_opened r + er_updated r) @ '' KPI alert(s) need attention'',
     nt_kind = ''alert'', nt_level = Level_warning,
     nt_body = Some ''Open the alerts view to acknowledge or resolve them.'', nt_client_id = None,
     nt_link = Some (''/clients/'' @ uuid_str cid @ ''/alerts''), nt_rec_key = Some (''watchdog:'' @ uuid_str cid)\<rparr>"

text \<open>
  One client, in a session of its own: \<open>None\<close> when anything failed, with what was committed before
  the failure kept. A name that is NULL prints as \<^verbatim>\<open>None\<close>, but the column forbids it.
\<close>

definition evaluate_one :: "datetime \<Rightarrow> uuid \<Rightarrow> string \<Rightarrow> desk \<Rightarrow> evaluation option \<times> desk" where
  "evaluate_one now cid name k = (case evaluate now cid k of
     Inl _ \<Rightarrow> (None, k)
   | Inr (r, k') \<Rightarrow>
       if er_opened r \<noteq> 0 \<or> er_updated r \<noteq> 0 then
         (case notify_client_team now cid (watchdog_notice cid name r) k' of
            Inl _ \<Rightarrow> (None, k') | Inr (_, k'') \<Rightarrow> (Some r, k''))
       else (Some r, k'))"

record sweep_row =
  wr_client_id :: uuid
  wr_client_name :: string
  wr_opened :: nat
  wr_updated :: nat
  wr_auto_resolved :: nat

definition watchdog_row :: "client \<Rightarrow> evaluation \<Rightarrow> sweep_row" where
  "watchdog_row c r = \<lparr>wr_client_id = c_id c, wr_client_name = the (c_name c), wr_opened = er_opened r,
     wr_updated = er_updated r, wr_auto_resolved = er_auto_resolved r\<rparr>"

text \<open>
  The sweep runs \<^verbatim>\<open>sweep_concurrency\<close> clients at a time; each touches only its own client's
  alerts, and the model takes them one after the other, which is what the code does on SQLite.
\<close>

fun watchdog_clients :: "datetime \<Rightarrow> client list \<Rightarrow> desk \<Rightarrow> sweep_row list \<times> desk" where
  "watchdog_clients now [] k = ([], k)"
| "watchdog_clients now (c # cs) k =
     (let (result, k') = evaluate_one now (c_id c) (the (c_name c)) k;
          (rows, k'') = watchdog_clients now cs k' in
      (case result of None \<Rightarrow> rows | Some r \<Rightarrow> watchdog_row c r # rows, k''))"

record watchdog_result =
  wd_clients :: nat
  wd_opened :: nat
  wd_updated :: nat
  wd_auto_resolved :: nat
  wd_per_client :: "sweep_row list"

definition run_watchdog_sweep :: "datetime \<Rightarrow> desk \<Rightarrow> watchdog_result \<times> desk" where
  "run_watchdog_sweep now k =
     (let (rows, k') = watchdog_clients now (active_clients (dk_db k)) k in
      (\<lparr>wd_clients = length rows, wd_opened = sum_list (map wr_opened rows), wd_updated = sum_list (map wr_updated rows),
        wd_auto_resolved = sum_list (map wr_auto_resolved rows), wd_per_client = rows\<rparr>, k'))"

section \<open>The sweep keeps the board reconciled\<close>

text \<open>Distinct alert ids below the next one, and at most one live alert per client and key.\<close>

definition board_ok :: "desk \<Rightarrow> bool" where
  "board_ok k \<longleftrightarrow> alert_ids_ok k \<and> (\<forall>cid. one_per_key (live_for_client cid k))"

definition mirrored :: "desk \<Rightarrow> uuid \<Rightarrow> bool" where
  "mirrored k cid \<longleftrightarrow> mirrors (client_findings cid k) (live_for_client cid k)"

lemma new_alerts_below: "a \<in> set (new_alerts now cid live i fs) \<Longrightarrow> al_id a < i + length (new_alerts now cid live i fs)"
  by (induction fs arbitrary: i) (fastforce split: if_splits)+

lemma next_id_apply_findings:
  "next_id (apply_findings now cid live fs k) = next_id k + length (new_alerts now cid live (next_id k) fs)"
proof (induction fs arbitrary: k)
  case (Cons f fs)
  have "next_id (put_alert i g k) = next_id k" "next_id ((use_id k)\<lparr>dk_alerts := as\<rparr>) = Suc (next_id k)" for i g as
    by (simp_all add: next_id_def put_alert_def use_id_def)
  with Cons show ?case by (simp split: option.split)
qed simp

lemma next_id_auto_resolve: "next_id (auto_resolve live ks k) = next_id k"
  by (induction ks arbitrary: k) (simp_all add: next_id_def put_alert_def split: option.split)

lemma evaluate_keeps:
  assumes "board_ok k" "evaluate now cid k = Inr (r, k')"
  shows "board_ok k'" "mirrored k' cid" "cid' \<noteq> cid \<Longrightarrow> live_for_client cid' k' = live_for_client cid' k"
    "client_findings cid' k' = client_findings cid' k"
proof -
  have pre: "alert_ids_ok k" "one_per_key (live_for_client cid k)" "distinct (map cp_id (dk_campaigns k))"
    using assms evaluate_parts(3) [OF assms(2)] by (simp_all add: board_ok_def)
  note k' = evaluate_parts(1) [OF assms(2)] and ok = evaluate_parts(2) [OF assms(2)]
  show m: "mirrored k' cid"
    using reconciled_mirrors [OF pre, of now] by (simp add: mirrored_def k')
  have other: "live_for_client cid' k' = live_for_client cid' k" if "cid' \<noteq> cid" for cid'
  proof -
    have "live_for_client cid' k = filter (\<lambda>a. al_client_id a = cid' \<and> is_live a) (filter (\<lambda>a. al_client_id a \<noteq> cid) (dk_alerts k))"
      for k using that by (auto simp: live_for_client_def intro!: filter_cong)
    then show ?thesis using reconciled_others [OF pre, of now] by (simp only: k')
  qed
  then show "cid' \<noteq> cid \<Longrightarrow> live_for_client cid' k' = live_for_client cid' k" .
  show "client_findings cid' k' = client_findings cid' k" by (simp add: k')
  have "al_id a < next_id k'" if "a \<in> set (dk_alerts k')" for a
  proof -
    have n: "next_id k' = next_id k + length (new_alerts now cid (live_dict (live_for_client cid k)) (next_id k) (client_findings cid k))"
      by (simp add: k' reconciled_alerts_def Let_def next_id_auto_resolve next_id_apply_findings)
    have "al_id (fate cid k a) = al_id a" for a by (simp add: fate_def split: option.split)
    with that n pre(1) new_alerts_below [of a now cid "live_dict (live_for_client cid k)" "next_id k" "client_findings cid k"]
    show ?thesis by (auto simp: k' reconciled_rows [OF pre] alert_ids_ok_def)
  qed
  then have "alert_ids_ok k'" using ok by (simp add: alert_ids_ok_def desk_constraints_def)
  moreover have "one_per_key (live_for_client cid' k')" for cid'
    using other [of cid'] m assms(1) by (cases "cid' = cid") (auto simp: mirrored_def mirrors_def board_ok_def)
  ultimately show "board_ok k'" by (simp add: board_ok_def)
qed

text \<open>Notifying a team leaves alerts and campaigns alone and only uses up ids.\<close>

lemma deliver_notice_parts:
  "dk_alerts (snd (deliver_notice now uid nt k)) = dk_alerts k" "dk_campaigns (snd (deliver_notice now uid nt k)) = dk_campaigns k"
  "next_id k \<le> next_id (snd (deliver_notice now uid nt k))"
  by (simp_all add: deliver_notice_def put_notification_def use_id_def next_id_def split: option.split)

lemma notify_client_team_parts:
  assumes "notify_client_team now cid nt k = Inr (n, k')"
  shows "dk_alerts k' = dk_alerts k" "dk_campaigns k' = dk_campaigns k" "next_id k \<le> next_id k'"
proof -
  let ?step = "\<lambda>k a. snd (deliver_notice now (a_user_id a) (nt\<lparr>nt_client_id := Some cid\<rparr>) k)"
  have "dk_alerts (foldl ?step k as) = dk_alerts k \<and> dk_campaigns (foldl ?step k as) = dk_campaigns k \<and>
      next_id k \<le> next_id (foldl ?step k as)" for as
    by (induction as arbitrary: k) (auto simp: deliver_notice_parts intro: le_trans [OF deliver_notice_parts(3)])
  moreover have "k' = foldl ?step k (list_for_client_rows cid (dk_db k))"
    using assms by (auto simp: notify_client_team_def Let_def desk_flush_def split: if_splits)
  ultimately show "dk_alerts k' = dk_alerts k" "dk_campaigns k' = dk_campaigns k" "next_id k \<le> next_id k'" by auto
qed

lemma board_cong:
  assumes "dk_alerts k' = dk_alerts k" "dk_campaigns k' = dk_campaigns k" "next_id k \<le> next_id k'"
  shows "board_ok k \<Longrightarrow> board_ok k'" "mirrored k' = mirrored k"
  using assms by (auto simp: board_ok_def alert_ids_ok_def mirrored_def live_for_client_def client_findings_def
      campaigns_for_client_def fun_eq_iff)

lemma evaluate_one_keeps:
  assumes "board_ok k"
  shows "board_ok (snd (evaluate_one now cid name k)) \<and>
    (\<forall>cid'. mirrored k cid' \<or> cid' = cid \<and> fst (evaluate_one now cid name k) \<noteq> None \<longrightarrow>
      mirrored (snd (evaluate_one now cid name k)) cid')"
proof (cases "evaluate now cid k")
  case (Inl e)
  then show ?thesis using assms by (simp add: evaluate_one_def)
next
  case (Inr rk)
  obtain r k' where "rk = (r, k')" by fastforce
  with Inr have e: "evaluate now cid k = Inr (r, k')" by simp
  note keep = evaluate_keeps [OF assms e]
  have m: "mirrored k' cid'" if "mirrored k cid' \<or> cid' = cid" for cid'
    using that keep(2) keep(3,4) [of cid'] by (cases "cid' = cid") (auto simp: mirrored_def)
  show ?thesis
  proof (cases "notify_client_team now cid (watchdog_notice cid name r) k'")
    case (Inl x)
    then show ?thesis using m keep(1) by (auto simp: evaluate_one_def e)
  next
    case (Inr p)
    obtain n k'' where "p = (n, k'')" by fastforce
    with Inr have n: "notify_client_team now cid (watchdog_notice cid name r) k' = Inr (n, k'')" by simp
    note parts = board_cong [OF notify_client_team_parts [OF n]]
    show ?thesis using m keep(1) parts by (auto simp: evaluate_one_def e n)
  qed
qed

lemma watchdog_clients_keeps:
  assumes "board_ok k" "watchdog_clients now cs k = (rows, k')" "\<forall>cid \<in> S. mirrored k cid"
  shows "board_ok k' \<and> (\<forall>cid \<in> S \<union> wr_client_id ` set rows. mirrored k' cid)"
  using assms
proof (induction cs arbitrary: k rows S)
  case (Cons c cs)
  obtain result k1 where one: "evaluate_one now (c_id c) (the (c_name c)) k = (result, k1)" by fastforce
  obtain rows1 where rest: "watchdog_clients now cs k1 = (rows1, k')"
    using Cons.prems(2) one by (auto split: prod.splits)
  let ?S = "S \<union> (if result = None then {} else {c_id c})"
  have "board_ok k1" "\<forall>cid \<in> ?S. mirrored k1 cid"
    using evaluate_one_keeps [OF Cons.prems(1), of now "c_id c" "the (c_name c)"] one Cons.prems(3) by auto
  from Cons.IH [OF this(1) rest this(2)] Cons.prems(2) one rest show ?case
    by (auto simp: watchdog_row_def split: option.splits if_splits)
qed simp



text \<open>Client 2 has a campaign whose name is as long as the column allows: its evaluation fails every time.\<close>

definition sweep_desk :: desk where
  "sweep_desk = sample_desk\<lparr>dk_db := empty_db\<lparr>d_clients := [sample_client 1, sample_client 2], d_next_id := 50\<rparr>,
     dk_campaigns := [sample_campaign 7 1 2, (sample_campaign 8 2 2)\<lparr>cp_name := replicate 200 CHR ''x''\<rparr>]\<rparr>"

lemma sweep_desk_ok: "board_ok sweep_desk"
proof -
  have "alert_ids_ok sweep_desk" by code_simp
  then show ?thesis
    by (auto simp: board_ok_def sweep_desk_def one_per_key_def live_for_client_def sample_desk_def sample_alert_def is_live_def has_key_def)
qed

lemma notify_nobody: "list_for_client_rows cid (dk_db k) = [] \<Longrightarrow> desk_constraints k \<Longrightarrow> notify_client_team now cid nt k = Inr (0, k)"
  by (simp add: notify_client_team_def desk_flush_def)

lemma dk_db_put_alert [simp]: "dk_db (put_alert i f k) = dk_db k"
  by (simp add: put_alert_def)

lemma sweep_desk_rows: "map wr_client_id (wd_per_client (fst (run_watchdog_sweep 9 sweep_desk))) = [1]"
proof -
  let ?k = "reconciled_alerts 9 1 sweep_desk"
  have active: "active_clients (dk_db sweep_desk) = [sample_client 1, sample_client 2]" by code_simp
  have ok: "desk_constraints ?k" by code_simp
  then obtain r where e1: "evaluate 9 1 sweep_desk = Inr (r, ?k)" using evaluate_Inr by blast
  have nobody: "list_for_client_rows 1 (dk_db ?k) = []" by code_simp
  have "list_ex (\<lambda>f. 200 < length (fi_title f)) (client_findings 2 sweep_desk)" by code_simp
  then obtain f where f: "f \<in> set (client_findings 2 ?k)" "200 < length (fi_title f)" by (auto simp: list_ex_iff)
  have "alert_ids_ok ?k" "one_per_key (live_for_client 2 ?k)"
    using evaluate_keeps(1) [OF sweep_desk_ok e1] by (simp_all add: board_ok_def)
  from long_name_stops_evaluation [OF this f, of 9] have e2: "evaluate 9 2 ?k = Inl (Crash ''DBAPIError'')" .
  have "evaluate_one 9 1 name sweep_desk = (Some r, ?k)" for name
    unfolding evaluate_one_def e1 by (simp add: notify_nobody [OF nobody ok, unfolded One_nat_def])
  moreover have "evaluate_one 9 2 name ?k = (None, ?k)" for name
    unfolding evaluate_one_def e2 by simp
  moreover have "c_id (sample_client i) = i" for i by (simp add: sample_client_def)
  ultimately show ?thesis
    by (simp add: run_watchdog_sweep_def active watchdog_row_def del: One_nat_def)
qed


section \<open>What a digest sweep does, row by row\<close>

text \<open>The mails of a batch, and what they make of a row: marked where the provider accepted its user's mail.\<close>

definition mails_of :: "desk \<Rightarrow> (uuid \<times> notification list) list \<Rightarrow> digest_mail list" where
  "mails_of k0 groups = concat (map (\<lambda>(uid, items). case mail_items k0 uid items of
     None \<Rightarrow> [] | Some (u, eligible) \<Rightarrow> [digest_for u eligible]) groups)"

fun marks :: "(uuid \<Rightarrow> datetime) \<Rightarrow> (digest_mail \<Rightarrow> bool) \<Rightarrow> desk \<Rightarrow> (uuid \<times> notification list) list \<Rightarrow> notification \<Rightarrow> notification" where
  "marks now mailer k0 [] n = n"
| "marks now mailer k0 ((uid, items) # rest) n = marks now mailer k0 rest (case mail_items k0 uid items of
     None \<Rightarrow> n
   | Some (u, eligible) \<Rightarrow> if mailer (digest_for u eligible) \<and> no_id n \<in> no_id ` set eligible
       then n\<lparr>no_emailed_at := Some (now uid)\<rparr> else n)"

lemma desk_constraints_rows:
  assumes "\<And>n. no_id (f n) = no_id n" "\<And>n. no_user_id (f n) = no_user_id n" "\<And>n. notification_row_ok (f n) = notification_row_ok n"
  shows "desk_constraints (k\<lparr>dk_notifications := map f (dk_notifications k)\<rparr>) = desk_constraints k"
proof -
  have "no_id \<circ> f = no_id" "(\<lambda>n. no_user_id (f n)) = no_user_id" using assms by auto
  then show ?thesis using assms by (simp add: desk_constraints_def list_all_iff)
qed

lemma send_digests_run:
  assumes "desk_constraints k"
  shows "send_digests now mailer k0 groups k =
    (Inr (length (filter mailer (mails_of k0 groups))), mails_of k0 groups,
     k\<lparr>dk_notifications := map (marks now mailer k0 groups) (dk_notifications k)\<rparr>)"
  using assms
proof (induction groups arbitrary: k)
  case Nil
  have "marks now mailer k0 [] = (\<lambda>n. n)" by (simp add: fun_eq_iff)
  then show ?case by (simp add: mails_of_def)
next
  case (Cons g groups)
  obtain uid items where g: "g = (uid, items)" by fastforce
  show ?case
  proof (cases "mail_items k0 uid items")
    case None
    have "marks now mailer k0 (g # groups) = marks now mailer k0 groups" by (simp add: fun_eq_iff g None)
    with Cons None show ?thesis by (simp add: g mails_of_def)
  next
    case (Some p)
    obtain u eligible where p: "p = (u, eligible)" by fastforce
    let ?mail = "digest_for u eligible"
    let ?f = "\<lambda>n. if no_id n \<in> no_id ` set eligible then n\<lparr>no_emailed_at := Some (now uid)\<rparr> else n"
    have mails: "mails_of k0 (g # groups) = ?mail # mails_of k0 groups" by (simp add: mails_of_def g Some p)
    show ?thesis
    proof (cases "mailer ?mail")
      case True
      have "desk_constraints (k\<lparr>dk_notifications := map ?f (dk_notifications k)\<rparr>)"
        using Cons.prems by (subst desk_constraints_rows) (auto simp: notification_row_ok_def)
      moreover have "marks now mailer k0 (g # groups) = marks now mailer k0 groups \<circ> ?f"
        by (auto simp: fun_eq_iff g Some p True)
      ultimately show ?thesis
        using Cons.IH [of "k\<lparr>dk_notifications := map ?f (dk_notifications k)\<rparr>"] True
        by (simp add: g Some p desk_flush_def mails [unfolded g])
    next
      case False
      have "marks now mailer k0 (g # groups) = marks now mailer k0 groups" by (simp add: fun_eq_iff g Some p False)
      with Cons False show ?thesis by (simp add: g Some p mails [unfolded g])
    qed
  qed
qed

text \<open>The row as the sweep leaves it, from the batch alone.\<close>

definition mailed :: "(uuid \<Rightarrow> datetime) \<Rightarrow> (digest_mail \<Rightarrow> bool) \<Rightarrow> nat \<Rightarrow> desk \<Rightarrow> notification \<Rightarrow> notification" where
  "mailed now mailer limit k n =
     (case mail_items k (no_user_id n) (filter (\<lambda>m. no_user_id m = no_user_id n) (list_pending_email limit k)) of
        None \<Rightarrow> n
      | Some (u, eligible) \<Rightarrow> if n \<in> set eligible \<and> mailer (digest_for u eligible)
          then n\<lparr>no_emailed_at := Some (now (no_user_id n))\<rparr> else n)"

lemma set_first_seen [simp]: "set (first_seen xs) = set xs"
  by (simp add: first_seen_def)

lemma distinct_first_seen [simp]: "distinct (first_seen xs)"
  by (simp add: first_seen_def)

lemma mail_items_Some:
  assumes "mail_items k uid items = Some (u, eligible)"
  shows "u \<in> set (d_users (dk_db k)) \<and> u_is_active u \<and> u_id u = uid \<and> eligible \<noteq> [] \<and> set eligible \<subseteq> set items \<and>
    (\<exists>p. preference_for_user uid k = Some p \<and> pr_email_enabled p \<and>
      (\<forall>n \<in> set eligible. \<forall>c. no_client_id n = Some c \<longrightarrow> uuid_str c \<notin> set (pr_muted_client_ids p)))"
  using assms
  by (auto simp: mail_items_def Let_def split: option.splits if_splits dest: find_by_key find_by_in_set)

lemma pending_subset: "set (list_pending_email limit k) \<subseteq> set (dk_notifications k)"
  by (auto simp: list_pending_email_def dest: in_set_takeD)

lemma marks_other:
  "\<forall>(uid, items) \<in> set groups. no_id n \<notin> no_id ` set items \<Longrightarrow> marks now mailer k0 groups n = n"
proof (induction groups)
  case (Cons g groups)
  obtain uid items where g: "g = (uid, items)" by fastforce
  have "no_id n \<notin> no_id ` set eligible" if "mail_items k0 uid items = Some (u, eligible)" for u eligible
    using mail_items_Some [OF that] Cons.prems by (auto simp: g)
  with Cons show ?case by (auto simp: g split: option.split)
qed simp

lemma marks_by_user:
  assumes "distinct (map no_id (dk_notifications k))" "n \<in> set (dk_notifications k)" "distinct us"
    "set us \<supseteq> no_user_id ` set (list_pending_email limit k)"
  shows "marks now mailer k (map (\<lambda>u. (u, filter (\<lambda>m. no_user_id m = u) (list_pending_email limit k))) us) n =
    mailed now mailer limit k n"
proof -
  let ?P = "list_pending_email limit k"
  let ?g = "\<lambda>u. (u, filter (\<lambda>m. no_user_id m = u) ?P)"
  have same: "m = n" if "m \<in> set ?P" "no_id m = no_id n" for m
    using that assms(1,2) pending_subset [of limit k] by (auto simp: distinct_map inj_on_def)
  have other: "marks now mailer k (map ?g vs) x = x" if "no_user_id n \<notin> set vs" "no_id x = no_id n" for vs x
    using that same by (intro marks_other) force
  show ?thesis
  proof (cases "no_user_id n \<in> set us")
    case False
    then have "n \<notin> set ?P" using assms(4) by auto
    then have "mailed now mailer limit k n = n"
      using mail_items_Some [of k "no_user_id n"] by (fastforce simp: mailed_def split: option.split)
    with other [OF False, of n] show ?thesis by simp
  next
    case True
    then obtain vs ws where us: "us = vs @ no_user_id n # ws" by (auto dest: split_list)
    have append: "marks now mailer k (g1 @ g2) x = marks now mailer k g2 (marks now mailer k g1 x)" for g1 g2 x
      by (induction g1 arbitrary: x) auto
    have "no_user_id n \<notin> set vs" "no_user_id n \<notin> set ws" using assms(3) by (auto simp: us)
    note skip = other [OF this(1)] other [OF this(2)]
    show ?thesis
    proof (cases "mail_items k (no_user_id n) (filter (\<lambda>m. no_user_id m = no_user_id n) ?P)")
      case None
      then show ?thesis using skip by (simp add: us append mailed_def)
    next
      case (Some p)
      obtain u eligible where p: "p = (u, eligible)" by fastforce
      have "no_id n \<in> no_id ` set eligible \<longleftrightarrow> n \<in> set eligible"
        using mail_items_Some [OF Some [unfolded p]] same by fastforce
      then show ?thesis using skip by (auto simp: us append mailed_def Some p)
    qed
  qed
qed


text \<open>
  Nobody is mailed without consent: every mail handed to the provider is the digest of an active user
  who switched e-mail on, made of that user's own pending warnings, none of them about a client the user
  has muted.
\<close>

theorem digest_consent:
  assumes "desk_constraints k" "send_pending_emails now mailer configured limit k = (r, mails, k')" "m \<in> set mails"
  shows "\<exists>u p items. m = digest_for u items \<and> u \<in> set (d_users (dk_db k)) \<and> u_is_active u \<and>
    preference_for_user (u_id u) k = Some p \<and> pr_email_enabled p \<and> items \<noteq> [] \<and>
    list_all (\<lambda>n. n \<in> set (list_pending_email limit k) \<and> no_user_id n = u_id u \<and>
      (case no_client_id n of None \<Rightarrow> True | Some c \<Rightarrow> uuid_str c \<notin> set (pr_muted_client_ids p))) items"
proof -
  have "m \<in> set (mails_of k (by_user (list_pending_email limit k)))"
    using assms send_digests_run [OF assms(1), of now mailer k "by_user (list_pending_email limit k)"]
    by (auto simp: send_pending_emails_def Let_def split: if_splits)
  then obtain uid u items where
      m: "mail_items k uid (filter (\<lambda>n. no_user_id n = uid) (list_pending_email limit k)) = Some (u, items)" "m = digest_for u items"
    by (auto simp: mails_of_def by_user_def split: option.splits dest: sym)
  from mail_items_Some [OF m(1)] obtain p where
      "u \<in> set (d_users (dk_db k))" "u_is_active u" "u_id u = uid" "items \<noteq> []" "preference_for_user uid k = Some p" "pr_email_enabled p"
      "set items \<subseteq> set (filter (\<lambda>n. no_user_id n = uid) (list_pending_email limit k))"
      "\<forall>n \<in> set items. \<forall>c. no_client_id n = Some c \<longrightarrow> uuid_str c \<notin> set (pr_muted_client_ids p)"
    by blast
  then show ?thesis using m(2) by (intro exI [of _ u] exI [of _ p] exI [of _ items]) (auto simp: list_all_iff split: option.split)
qed

text \<open>Would this row ever be mailed, as preferences and users stand?\<close>

definition would_mail :: "desk \<Rightarrow> notification \<Rightarrow> bool" where
  "would_mail k n = (case mail_items k (no_user_id n) [n] of None \<Rightarrow> False | Some _ \<Rightarrow> True)"

lemma mail_items_none:
  assumes "\<forall>n \<in> set items. no_user_id n = uid \<and> \<not> would_mail k n"
  shows "mail_items k uid items = None"
proof (rule ccontr)
  assume "mail_items k uid items \<noteq> None"
  then obtain u eligible where s: "mail_items k uid items = Some (u, eligible)" by auto
  then obtain n where n: "n \<in> set eligible" using mail_items_Some [OF s] by (cases eligible) auto
  with s have "mail_items k uid [n] \<noteq> None" "n \<in> set items"
    by (auto simp: mail_items_def Let_def split: option.splits if_splits)
  with assms show False by (auto simp: would_mail_def split: option.splits)
qed

lemma insort_key_append: "\<forall>y \<in> set ys. f x \<le> f y \<Longrightarrow> insort_key f x (xs @ ys) = insort_key f x xs @ ys"
proof (induction xs)
  case Nil
  then show ?case by (cases ys) auto
qed simp

lemma sort_key_append:
  "\<forall>x \<in> set xs. \<forall>y \<in> set ys. f x \<le> f y \<Longrightarrow> sort_key f (xs @ ys) = sort_key f xs @ sort_key f ys"
proof (induction xs)
  case (Cons x xs)
  then show ?case using insort_key_append [of "sort_key f ys" f x "sort_key f xs"] by simp
qed simp

lemma mail_items_later [simp]: "mail_items (k\<lparr>dk_notifications := ns\<rparr>) = mail_items k"
  by (simp add: mail_items_def preference_for_user_def fun_eq_iff)

text \<open>
  The digest can stall for good. A pending row that is not mailed stays pending and stays among the
  oldest, and a batch takes only the oldest rows: once a batch is full of rows whose users are inactive, have
  not opted in (which is the default) or have muted the client, no sweep mails anybody, whatever
  notifications are written later and for whomever.
\<close>

theorem digest_stalls:
  assumes "list_all (\<lambda>n. \<not> would_mail k n) (list_pending_email limit k)" "length (list_pending_email limit k) = limit"
    "\<forall>n \<in> set (dk_notifications k). \<forall>l \<in> set later. no_created_at n \<le> no_created_at l"
  shows "send_pending_emails now mailer configured limit (k\<lparr>dk_notifications := dk_notifications k @ later\<rparr>) =
    (Inr 0, [], k\<lparr>dk_notifications := dk_notifications k @ later\<rparr>)"
proof -
  let ?k = "k\<lparr>dk_notifications := dk_notifications k @ later\<rparr>"
  let ?p = "\<lambda>n. no_emailed_at n = None \<and> no_level n \<in> {Level_warning, Level_critical}"
  let ?old = "sort_key no_created_at (filter ?p (dk_notifications k))"
  have "list_pending_email limit ?k = take limit (?old @ sort_key no_created_at (filter ?p later))"
    using assms(3) by (simp add: list_pending_email_def sort_key_append)
  moreover have "limit \<le> length ?old" using assms(2) by (simp add: list_pending_email_def)
  ultimately have same: "list_pending_email limit ?k = list_pending_email limit k" by (simp add: list_pending_email_def)
  have "mail_items k uid (filter (\<lambda>n. no_user_id n = uid) (list_pending_email limit k)) = None" for uid
    using assms(1) by (intro mail_items_none) (auto simp: list_all_iff)
  then have "send_digests now mailer ?k (map (\<lambda>u. (u, filter (\<lambda>n. no_user_id n = u) (list_pending_email limit k))) us) ?k =
      (Inr 0, [], ?k)" for us
    by (induction us) simp_all
  then show ?thesis by (simp add: send_pending_emails_def same by_user_def Let_def)
qed

definition sample_notification :: "uuid \<Rightarrow> uuid \<Rightarrow> datetime \<Rightarrow> notification" where
  "sample_notification i uid now = \<lparr>no_id = i, no_user_id = uid, no_client_id = Some 1, no_kind = ''alert'', no_level = Level_warning,
     no_title = ''T'', no_body = None, no_link = None, no_rec_key = None, no_read_at = None, no_emailed_at = None, no_created_at = now\<rparr>"

text \<open>User 1 has opted in and user 2 never did; user 2's rows are the older ones.\<close>

definition digest_desk :: desk where
  "digest_desk = (empty_desk (empty_db\<lparr>d_users := [sample_user 1 Role_manager, sample_user 2 Role_user]\<rparr>))\<lparr>
     dk_preferences := [\<lparr>pr_user_id = 1, pr_email_enabled = True, pr_muted_client_ids = []\<rparr>],
     dk_notifications := [sample_notification 30 2 5, sample_notification 31 2 6]\<rparr>"

theorem digest_stalls_witness:
  "send_pending_emails (\<lambda>_. 9) (\<lambda>_. True) True 2 (digest_desk\<lparr>dk_notifications := dk_notifications digest_desk @ [sample_notification 32 1 7]\<rparr>) =
    (Inr 0, [], digest_desk\<lparr>dk_notifications := dk_notifications digest_desk @ [sample_notification 32 1 7]\<rparr>)"
proof (rule digest_stalls)
  show "list_all (\<lambda>n. \<not> would_mail digest_desk n) (list_pending_email 2 digest_desk)" by code_simp
  show "length (list_pending_email 2 digest_desk) = 2" by code_simp
  show "\<forall>n \<in> set (dk_notifications digest_desk). \<forall>l \<in> set [sample_notification 32 1 7]. no_created_at n \<le> no_created_at l"
    by code_simp
qed

lemma digest_desk_mails:
  "desk_constraints (digest_desk\<lparr>dk_notifications := dk_notifications digest_desk @ [sample_notification 32 1 7]\<rparr>)"
  "map dm_email (fst (snd (send_pending_emails (\<lambda>_. 9) (\<lambda>_. True) True 3
      (digest_desk\<lparr>dk_notifications := dk_notifications digest_desk @ [sample_notification 32 1 7]\<rparr>)))) = [u_email (sample_user 1 Role_manager)]"
  by code_simp+


theorem digest_consent_witness:
  "\<exists>u. u \<in> set (d_users (dk_db digest_desk)) \<and> u_is_active u \<and> u_email u = u_email (sample_user 1 Role_manager)"
proof -
  let ?k = "digest_desk\<lparr>dk_notifications := dk_notifications digest_desk @ [sample_notification 32 1 7]\<rparr>"
  obtain r mails k' where run: "send_pending_emails (\<lambda>_. 9) (\<lambda>_. True) True 3 ?k = (r, mails, k')" by (metis prod_cases3)
  then obtain m where m: "m \<in> set mails" "dm_email m = u_email (sample_user 1 Role_manager)"
    using digest_desk_mails(2) by (cases mails) auto
  from digest_consent [OF digest_desk_mails(1) run m(1)] m(2) show ?thesis by (auto simp: digest_for_def)
qed

end
