(* ===== verification/Calendar.thy ===== *)
theory Calendar
  imports Complex_Main Desk Dates Plan
begin

text \<open>
  The marketing calendar: \<^verbatim>\<open>calendar_service.py\<close> and
  \<^verbatim>\<open>event_repository.py\<close>, with the bodies of \<^verbatim>\<open>schemas/event.py\<close>.
  Event types, platforms and objectives are kept as the text of their enumeration.
\<close>

section \<open>Repository\<close>

definition event_get_for_client :: "uuid \<Rightarrow> uuid \<Rightarrow> desk \<Rightarrow> marketing_event option" where
  "event_get_for_client cid eid k = find (\<lambda>ev. ev_id ev = eid \<and> ev_client_id ev = cid) (dk_events k)"

record event_query =
  eq_start :: "date option"
  eq_end :: "date option"
  eq_stage :: "event_stage option"
  eq_platform :: "string option"
  eq_type :: "string option"
  eq_approval :: "approval_status option"

definition event_matches :: "uuid \<Rightarrow> event_query \<Rightarrow> marketing_event \<Rightarrow> bool" where
  "event_matches cid q ev \<longleftrightarrow> ev_client_id ev = cid \<and>
     (eq_start q \<noteq> None \<longrightarrow> sql_le (eq_start q) (ev_event_date ev)) \<and>
     (eq_end q \<noteq> None \<longrightarrow> sql_le (ev_event_date ev) (eq_end q)) \<and>
     eq_filter (eq_stage q) (ev_stage ev) \<and> eq_filter (eq_platform q) (ev_platform ev) \<and>
     eq_filter (eq_type q) (ev_type ev) \<and> eq_filter (eq_approval q) (Some (ev_approval_status ev))"

definition list_events_for_client :: "uuid \<Rightarrow> event_query \<Rightarrow> nat \<Rightarrow> nat option \<Rightarrow> desk \<Rightarrow> marketing_event list \<times> nat" where
  "list_events_for_client cid q offset limit k =
     (let rows = filter (event_matches cid q) (dk_events k);
          ordered = sort_key (\<lambda>ev. (the (ev_event_date ev), the (ev_event_time ev))) rows in
      (case limit of None \<Rightarrow> drop offset ordered | Some l \<Rightarrow> page_of offset l ordered, length rows))"

definition pending_approval_counts :: "uuid list option \<Rightarrow> desk \<Rightarrow> (uuid \<times> nat) list" where
  "pending_approval_counts cids k =
     group_count ev_client_id
       (filter (\<lambda>ev. ev_approval_status ev = Approval_pending \<and>
          (case cids of None \<Rightarrow> True | Some ids \<Rightarrow> ev_client_id ev \<in> set ids)) (dk_events k))"

section \<open>Reads\<close>

text \<open>
  \<^verbatim>\<open>_month_range\<close>: the router admits months 1 to 12; a year Python has no date for is a
  \<^verbatim>\<open>ValueError\<close>.
\<close>

definition month_range :: "int option \<Rightarrow> int option \<Rightarrow> exn + (date \<times> date) option" where
  "month_range year month = (case (year, month) of
     (Some y, Some m) \<Rightarrow> (case month_window y m of None \<Rightarrow> Inl (Crash ''ValueError'') | Some w \<Rightarrow> Inr (Some w))
   | _ \<Rightarrow> Inr None)"

definition event_not_found :: exn where
  "event_not_found = not_found ''Event not found.''"

definition list_events :: "uuid \<Rightarrow> pagination \<Rightarrow> int option \<Rightarrow> int option \<Rightarrow> event_query \<Rightarrow> desk \<Rightarrow>
    exn + marketing_event list \<times> nat" where
  "list_events cid p year month q k =
     bindR (month_range year month) (\<lambda>w.
       Inr (list_events_for_client cid (q\<lparr>eq_start := map_option fst w, eq_end := map_option snd w\<rparr>)
              (pg_offset p) (Some (pg_page_size p)) k))"

definition get_event :: "uuid \<Rightarrow> uuid \<Rightarrow> desk \<Rightarrow> exn + marketing_event" where
  "get_event cid eid k = some_or event_not_found (event_get_for_client cid eid k)"

section \<open>Writes\<close>

record event_create =
  ec_title :: string
  ec_type :: string
  ec_platform :: string
  ec_event_date :: date
  ec_event_time :: time
  ec_description :: "string option"
  ec_strategy :: "string option"
  ec_stage :: event_stage
  ec_campaign_id :: "uuid option"
  ec_post :: "event_post option"
  ec_ad :: "event_ad option"

datatype event_field = EF_title | EF_type | EF_platform | EF_event_date | EF_event_time | EF_description
  | EF_strategy | EF_stage | EF_campaign_id | EF_post | EF_ad

text \<open>A patch: the fields the body names, and their values, \<open>None\<close> for null.\<close>

record event_update =
  eu_fields :: "event_field list"
  eu_title :: "string option"
  eu_type :: "string option"
  eu_platform :: "string option"
  eu_event_date :: "date option"
  eu_event_time :: "time option"
  eu_description :: "string option"
  eu_strategy :: "string option"
  eu_stage :: "event_stage option"
  eu_campaign_id :: "uuid option"
  eu_post :: "event_post option"
  eu_ad :: "event_ad option"

definition put_event :: "uuid \<Rightarrow> (marketing_event \<Rightarrow> marketing_event) \<Rightarrow> desk \<Rightarrow> desk" where
  "put_event eid f k = k\<lparr>dk_events := update_by ev_id eid f (dk_events k)\<rparr>"

definition log_event :: "string \<Rightarrow> string option \<Rightarrow> uuid option \<Rightarrow> marketing_event \<Rightarrow> marketing_event" where
  "log_event action note uid ev =
     ev\<lparr>ev_activity := ev_activity ev @ [\<lparr>ac_user_id = uid, ac_action = action, ac_note = note\<rparr>]\<rparr>"

definition new_event :: "uuid \<Rightarrow> uuid \<Rightarrow> event_create \<Rightarrow> uuid \<Rightarrow> marketing_event" where
  "new_event eid cid data created_by = \<lparr>ev_id = eid, ev_client_id = cid, ev_campaign_id = ec_campaign_id data,
     ev_title = Some (ec_title data), ev_type = Some (ec_type data), ev_platform = Some (ec_platform data),
     ev_event_date = Some (ec_event_date data), ev_event_time = Some (ec_event_time data),
     ev_description = ec_description data, ev_strategy = ec_strategy data, ev_stage = Some (ec_stage data),
     ev_approval_status = Approval_pending, ev_approved_by = None, ev_approval_note = None,
     ev_created_by = Some created_by, ev_post = ec_post data, ev_ad = ec_ad data, ev_activity = []\<rparr>"

definition create_event :: "uuid \<Rightarrow> event_create \<Rightarrow> uuid \<Rightarrow> marketing_event desk_op" where
  "create_event cid data created_by k =
     (let eid = next_id k; ev = new_event eid cid data created_by;
          k1 = (use_id k)\<lparr>dk_events := dk_events k @ [ev]\<rparr> in
      bindR (desk_flush k1) (\<lambda>(_, k2).
      bindR (desk_flush (put_event eid (log_event ''created'' None (Some created_by)) k2)) (\<lambda>(_, k3).
      bindR (get_event cid eid k3) (\<lambda>ev'. Inr (ev', k3)))))"

text \<open>
  \<^verbatim>\<open>if attr in fields: setattr(...)\<close>; a post or an ad is built or overwritten column by
  column, which in the row comes to the same.
\<close>

definition patch_event :: "event_update \<Rightarrow> marketing_event \<Rightarrow> marketing_event" where
  "patch_event u ev =
     (let sent = (\<lambda>f. f \<in> set (eu_fields u)) in
      ev\<lparr>ev_title := (if sent EF_title then eu_title u else ev_title ev),
         ev_type := (if sent EF_type then eu_type u else ev_type ev),
         ev_platform := (if sent EF_platform then eu_platform u else ev_platform ev),
         ev_event_date := (if sent EF_event_date then eu_event_date u else ev_event_date ev),
         ev_event_time := (if sent EF_event_time then eu_event_time u else ev_event_time ev),
         ev_description := (if sent EF_description then eu_description u else ev_description ev),
         ev_strategy := (if sent EF_strategy then eu_strategy u else ev_strategy ev),
         ev_stage := (if sent EF_stage then eu_stage u else ev_stage ev),
         ev_campaign_id := (if sent EF_campaign_id then eu_campaign_id u else ev_campaign_id ev),
         ev_post := (if sent EF_post \<and> eu_post u \<noteq> None then eu_post u else ev_post ev),
         ev_ad := (if sent EF_ad \<and> eu_ad u \<noteq> None then eu_ad u else ev_ad ev)\<rparr>)"

definition update_event :: "uuid \<Rightarrow> uuid \<Rightarrow> event_update \<Rightarrow> uuid \<Rightarrow> marketing_event desk_op" where
  "update_event cid eid u actor k =
     bindR (get_event cid eid k) (\<lambda>_.
     bindR (desk_flush (put_event eid (log_event ''edit'' None (Some actor) \<circ> patch_event u) k)) (\<lambda>(_, k').
     bindR (get_event cid eid k') (\<lambda>ev. Inr (ev, k'))))"

definition approval_value :: "approval_status \<Rightarrow> string" where
  "approval_value s = (case s of Approval_approved \<Rightarrow> ''approved'' | Approval_pending \<Rightarrow> ''pending''
     | Approval_changes_requested \<Rightarrow> ''changes_requested'' | Approval_rejected \<Rightarrow> ''rejected'')"

definition decide :: "approval_status \<Rightarrow> string option \<Rightarrow> uuid \<Rightarrow> marketing_event \<Rightarrow> marketing_event" where
  "decide status note actor ev =
     log_event ''status_change''
       (Some (approval_value status @ (case note of None \<Rightarrow> [] | Some n \<Rightarrow> if n = [] then [] else '': '' @ n))) (Some actor)
       (ev\<lparr>ev_approval_status := status, ev_approval_note := note,
           ev_approved_by := (if status = Approval_approved then Some actor else None)\<rparr>)"

definition decide_approval :: "uuid \<Rightarrow> uuid \<Rightarrow> approval_status \<Rightarrow> string option \<Rightarrow> uuid \<Rightarrow> marketing_event desk_op" where
  "decide_approval cid eid status note actor k =
     bindR (get_event cid eid k) (\<lambda>_.
     bindR (desk_flush (put_event eid (decide status note actor) k)) (\<lambda>(_, k').
     bindR (get_event cid eid k') (\<lambda>ev. Inr (ev, k'))))"

text \<open>Deleting an event clears the tasks that point to it (\<^verbatim>\<open>ON DELETE SET NULL\<close>).\<close>

definition unlink_event :: "uuid \<Rightarrow> plan_task \<Rightarrow> plan_task" where
  "unlink_event eid t = (if t_event_id t = Some eid then t\<lparr>t_event_id := None\<rparr> else t)"

definition delete_event :: "uuid \<Rightarrow> uuid \<Rightarrow> unit desk_op" where
  "delete_event cid eid k =
     bindR (get_event cid eid k) (\<lambda>_.
       desk_flush (k\<lparr>dk_events := delete_by ev_id eid (dk_events k),
         dk_db := (dk_db k)\<lparr>d_tasks := map (unlink_event eid) (d_tasks (dk_db k))\<rparr>\<rparr>))"

section \<open>The month view\<close>

text \<open>What a month view is about: the client's events of that month that pass the other filters.\<close>

definition month_events :: "uuid \<Rightarrow> int \<Rightarrow> int \<Rightarrow> event_query \<Rightarrow> desk \<Rightarrow> marketing_event list" where
  "month_events cid y m q k =
     sort_key (\<lambda>ev. (the (ev_event_date ev), the (ev_event_time ev)))
       (filter (\<lambda>ev. (case ev_event_date ev of None \<Rightarrow> False | Some d \<Rightarrow> year_of d = y \<and> month_of d = m) \<and>
          event_matches cid (q\<lparr>eq_start := None, eq_end := None\<rparr>) ev) (dk_events k))"

definition dated :: "desk \<Rightarrow> bool" where
  "dated k \<longleftrightarrow> list_all (\<lambda>ev. case ev_event_date ev of None \<Rightarrow> True | Some d \<Rightarrow> 1 \<le> d \<and> d \<le> MAX_ORDINAL) (dk_events k)"

lemma month_window_ok: "1 \<le> y \<Longrightarrow> y \<le> 9999 \<Longrightarrow> 1 \<le> m \<Longrightarrow> m \<le> 12 \<Longrightarrow> \<exists>w. month_window y m = Some w"
  by (auto simp: month_window_def mk_date_def valid_ymd_def days_in_month_def)

text \<open>
  The month view of the calendar: its pages, one after the other, show exactly the client's events
  whose date lies in that month and that pass the other filters, by date and time, and the total is their
  number. Leap years and the length of the month are those of the calendar.
\<close>

theorem month_view_exact:
  assumes "1 \<le> y" "y \<le> 9999" "1 \<le> m" "m \<le> 12" "dated k"
  shows "list_events cid p (Some y) (Some m) q k =
    Inr (page_of (pg_offset p) (pg_page_size p) (month_events cid y m q k), length (month_events cid y m q k))"
proof -
  obtain a b where w: "month_window y m = Some (a, b)" using month_window_ok [OF assms(1-4)] by fastforce
  have "event_matches cid (q\<lparr>eq_start := Some a, eq_end := Some b\<rparr>) ev \<longleftrightarrow>
      (case ev_event_date ev of None \<Rightarrow> False | Some d \<Rightarrow> year_of d = y \<and> month_of d = m) \<and>
      event_matches cid (q\<lparr>eq_start := None, eq_end := None\<rparr>) ev" if "ev \<in> set (dk_events k)" for ev
    using assms(5) that month_window_exact [OF w]
    by (auto simp: event_matches_def sql_le_def dated_def list_all_iff split: option.splits)
  then have "filter (event_matches cid (q\<lparr>eq_start := Some a, eq_end := Some b\<rparr>)) (dk_events k) =
      filter (\<lambda>ev. (case ev_event_date ev of None \<Rightarrow> False | Some d \<Rightarrow> year_of d = y \<and> month_of d = m) \<and>
        event_matches cid (q\<lparr>eq_start := None, eq_end := None\<rparr>) ev) (dk_events k)"
    by (intro filter_cong) auto
  then show ?thesis by (simp add: list_events_def month_range_def w list_events_for_client_def month_events_def Let_def)
qed

definition sample_event :: "uuid \<Rightarrow> uuid \<Rightarrow> date \<Rightarrow> marketing_event" where
  "sample_event i cid day = \<lparr>ev_id = i, ev_client_id = cid, ev_campaign_id = None, ev_title = Some ''Post'',
     ev_type = Some ''content'', ev_platform = Some ''instagram'', ev_event_date = Some day, ev_event_time = Some 540,
     ev_description = None, ev_strategy = None, ev_stage = Some Stage_draft, ev_approval_status = Approval_pending,
     ev_approved_by = None, ev_approval_note = None, ev_created_by = None, ev_post = None, ev_ad = None, ev_activity = []\<rparr>"

text \<open>The last day of February 2024 and the first of March: days 738945 and 738946.\<close>

definition leap_desk :: desk where
  "leap_desk = (empty_desk empty_db)\<lparr>dk_events := [sample_event 1 7 738946, sample_event 2 7 738945, sample_event 3 8 738945]\<rparr>"

theorem month_view_exact_witness:
  "list_events 7 \<lparr>pg_page = 1, pg_page_size = 20\<rparr> (Some 2024) (Some 2) \<lparr>eq_start = None, eq_end = None, eq_stage = None,
      eq_platform = None, eq_type = None, eq_approval = None\<rparr> leap_desk = Inr ([sample_event 2 7 738945], 1)"
proof -
  let ?q = "\<lparr>eq_start = None, eq_end = None, eq_stage = None, eq_platform = None, eq_type = None, eq_approval = None\<rparr>"
  have "dated leap_desk" by (simp add: dated_def leap_desk_def sample_event_def MAX_ORDINAL_def)
  moreover have "month_events 7 2024 2 ?q leap_desk = [sample_event 2 7 738945]" by code_simp
  ultimately show ?thesis
    using month_view_exact [of 2024 2 leap_desk 7 "\<lparr>pg_page = 1, pg_page_size = 20\<rparr>" ?q] by (simp add: page_of_def pg_offset_def)
qed

end
