(* ===== verification/Plan_Generation.thy ===== *)
theory Plan_Generation
  imports Complex_Main Calendar Notifications Command_Tools
begin

text \<open>
  Drafting a content calendar: what \<^verbatim>\<open>ai/plan_generation.py\<close> accepts of a language
  model's answer, \<^verbatim>\<open>plan_generation_service.py\<close>, which stores the drafts as events with
  linked tasks and reviews them, and the automatic monthly sweep of
  \<^verbatim>\<open>scheduler_service.py\<close>. The model's answer is the JSON object it parses to, as the
  values of \<^verbatim>\<open>Command_Tools\<close>; nothing is assumed of it. Strings are ASCII, with
  \<open>--\<close> for a dash.
\<close>

section \<open>Reading a model's answer\<close>

record proposed_item =
  pi_title :: string
  pi_event_date :: date
  pi_platform :: string
  pi_category :: string
  pi_content_format :: "string option"
  pi_caption :: "string option"
  pi_hashtags :: "string option"
  pi_suggested_role :: "string option"

text \<open>The provider is not configured, or the call failed, or it answered with an object (an answer that is none counts as empty).\<close>

datatype ai_answer = Ai_off | Ai_failed | Ai_payload kwargs

definition VALID_PLATFORMS :: "string list" where
  "VALID_PLATFORMS = [''instagram'', ''facebook'', ''youtube'', ''tiktok'', ''linkedin'', ''google'', ''google_lsa'',
     ''ga4'', ''seo'', ''influencer'', ''ghl'', ''other'', ''x'', ''pinterest'', ''email'']"

definition VALID_CATEGORIES :: "string list" where
  "VALID_CATEGORIES = map task_category_value all_categories"

definition DEFAULT_PLATFORM :: string where
  "DEFAULT_PLATFORM = ''instagram''"

definition DEFAULT_CATEGORY :: string where
  "DEFAULT_CATEGORY = task_category_value Cat_content"

definition MAX_RANGE_ITEMS :: nat where
  "MAX_RANGE_ITEMS = 40"

definition clean_str :: "nat \<Rightarrow> arg option \<Rightarrow> string option" where
  "clean_str max_length v = (case v of
     Some (AStr s) \<Rightarrow> (let t = strip s in if t = [] then None else Some (take max_length t))
   | _ \<Rightarrow> None)"

text \<open>
  \<^verbatim>\<open>value if value in VALID else DEFAULT\<close>: looking a list or an object up in a set is a
  \<^verbatim>\<open>TypeError\<close>, for it cannot be hashed.
\<close>

definition member_or :: "string list \<Rightarrow> string \<Rightarrow> arg option \<Rightarrow> exn + string" where
  "member_or valid dflt v = (case v of
     Some (AList _) \<Rightarrow> Inl (Crash ''TypeError'')
   | Some (AObj _) \<Rightarrow> Inl (Crash ''TypeError'')
   | Some (AStr s) \<Rightarrow> Inr (if s \<in> set valid then s else dflt)
   | _ \<Rightarrow> Inr dflt)"

definition parse_one_item :: "kwargs \<Rightarrow> date \<Rightarrow> exn + proposed_item option" where
  "parse_one_item payload day = (case clean_str 200 (map_of payload ''title'') of
     None \<Rightarrow> Inr None
   | Some title \<Rightarrow>
       bindR (member_or VALID_PLATFORMS DEFAULT_PLATFORM (map_of payload ''platform'')) (\<lambda>platform.
       bindR (member_or VALID_CATEGORIES DEFAULT_CATEGORY (map_of payload ''category'')) (\<lambda>category.
         Inr (Some \<lparr>pi_title = title, pi_event_date = day, pi_platform = platform, pi_category = category,
           pi_content_format = clean_str 30 (map_of payload ''content_format''),
           pi_caption = clean_str 100000 (map_of payload ''caption''),
           pi_hashtags = clean_str 2000 (map_of payload ''hashtags''),
           pi_suggested_role = clean_str 80 (map_of payload ''suggested_role'')\<rparr>))))"

definition parse_and_clamp_date :: "arg option \<Rightarrow> date \<Rightarrow> date \<Rightarrow> date" where
  "parse_and_clamp_date raw start_date end_date =
     (let midpoint = start_date + (end_date - start_date) div 2 in
      case raw of
        Some (AStr s) \<Rightarrow> (case date_fromisoformat s of
            Some d \<Rightarrow> if start_date \<le> d \<and> d \<le> end_date then d else midpoint
          | None \<Rightarrow> midpoint)
      | _ \<Rightarrow> midpoint)"

fun parse_items_loop :: "date \<Rightarrow> date \<Rightarrow> arg list \<Rightarrow> exn + proposed_item list" where
  "parse_items_loop s e [] = Inr []"
| "parse_items_loop s e (AObj raw # rest) =
     bindR (parse_one_item raw (parse_and_clamp_date (map_of raw ''event_date'') s e)) (\<lambda>item.
     bindR (parse_items_loop s e rest) (\<lambda>items. Inr (case item of None \<Rightarrow> items | Some i \<Rightarrow> i # items)))"
| "parse_items_loop s e (_ # rest) = parse_items_loop s e rest"

definition parse_items :: "arg list \<Rightarrow> date \<Rightarrow> date \<Rightarrow> exn + proposed_item list" where
  "parse_items raw s e = parse_items_loop s e (take MAX_RANGE_ITEMS raw)"

text \<open>\<^verbatim>\<open>range(0, span, step)\<close>, then the fallback plan.\<close>

definition py_range :: "int \<Rightarrow> int \<Rightarrow> int list" where
  "py_range stop step = map (\<lambda>i. int i * step) [0..<nat ((stop + step - 1) div step)]"

definition fallback_offsets :: "date \<Rightarrow> date \<Rightarrow> int list" where
  "fallback_offsets start_date end_date =
     (let days = end_date - start_date + 1;
          step = (if 10 < days then 5 else max 1 (if days div 6 = 0 then 1 else days div 6));
          offsets = take 6 (py_range days step) in
      if offsets = [] then [0] else offsets)"

definition fallback_range :: "date \<Rightarrow> date \<Rightarrow> proposed_item list" where
  "fallback_range start_date end_date =
     (let offsets = fallback_offsets start_date end_date in
      map (\<lambda>(i, offset). \<lparr>
          pi_title = ''Content idea #'' @ digits (i + 1) @ '' (draft -- AI unavailable, edit before approving)'',
          pi_event_date = start_date + offset, pi_platform = DEFAULT_PLATFORM, pi_category = DEFAULT_CATEGORY,
          pi_content_format = Some ''static'', pi_caption = None, pi_hashtags = None,
          pi_suggested_role = Some ''content creator''\<rparr>)
        (zip [0..<length offsets] offsets))"

definition fallback_item :: "date \<Rightarrow> string \<Rightarrow> proposed_item" where
  "fallback_item day instructions = \<lparr>
     pi_title = ''Revised per request (draft -- AI unavailable, edit before approving): '' @ take 100 instructions,
     pi_event_date = day, pi_platform = DEFAULT_PLATFORM, pi_category = DEFAULT_CATEGORY, pi_content_format = None,
     pi_caption = None, pi_hashtags = None, pi_suggested_role = None\<rparr>"

definition generate_range :: "ai_answer \<Rightarrow> date \<Rightarrow> date \<Rightarrow> exn + proposed_item list" where
  "generate_range answer start_date end_date = (case answer of
     Ai_payload payload \<Rightarrow>
       bindR (case map_of payload ''items'' of Some (AList raw) \<Rightarrow> parse_items raw start_date end_date | _ \<Rightarrow> Inr []) (\<lambda>items.
         Inr (if items = [] then fallback_range start_date end_date else items))
   | _ \<Rightarrow> Inr (fallback_range start_date end_date))"

definition regenerated :: "ai_answer \<Rightarrow> date \<Rightarrow> string \<Rightarrow> exn + proposed_item" where
  "regenerated answer day instructions = (case answer of
     Ai_payload payload \<Rightarrow>
       bindR (parse_one_item payload day) (\<lambda>item.
         Inr (case item of None \<Rightarrow> fallback_item day instructions | Some i \<Rightarrow> i))
   | _ \<Rightarrow> Inr (fallback_item day instructions))"

section \<open>Storing drafts\<close>

text \<open>
  What the generation asks the provider: the client, the instructions (or their stand-in), the range and
  the titles already planned there; \<open>planner\<close> is the provider with the prompts.
\<close>

record plan_request =
  rq_client_id :: uuid
  rq_prompt :: string
  rq_start_date :: date
  rq_end_date :: date
  rq_existing_titles :: "string list"

type_synonym planner = "plan_request \<Rightarrow> db \<Rightarrow> ai_answer"

definition NO_PROMPT_TEXT :: string where
  "NO_PROMPT_TEXT = ''(No specific instructions were given -- use the client's brand voice, goals, and active campaign strategy above to decide what to post.)''"

definition existing_titles :: "uuid \<Rightarrow> date \<Rightarrow> date \<Rightarrow> db \<Rightarrow> string list" where
  "existing_titles cid s e d =
     map (\<lambda>t. the (t_title t))
       (fst (list_tasks_for_client cid \<lparr>tq_status = None, tq_category = None, tq_priority = None, tq_assignee = None,
          tq_start = Some s, tq_end = Some e, tq_include_undated = False, tq_include_archived = False\<rparr> 0 (Some 200) d))"

text \<open>Nine o'clock, in microseconds of the day.\<close>

definition NINE :: time where
  "NINE = 9 * 60 * 60 * 1000000"

definition draft_event :: "uuid \<Rightarrow> uuid \<Rightarrow> uuid option \<Rightarrow> proposed_item \<Rightarrow> marketing_event" where
  "draft_event eid cid created_by p = \<lparr>ev_id = eid, ev_client_id = cid, ev_campaign_id = None, ev_title = Some (pi_title p),
     ev_type = Some ''content'', ev_platform = Some (pi_platform p), ev_event_date = Some (pi_event_date p),
     ev_event_time = Some NINE, ev_description = None, ev_strategy = None, ev_stage = Some Stage_draft,
     ev_approval_status = Approval_pending, ev_approved_by = None, ev_approval_note = None, ev_created_by = created_by,
     ev_post = Some \<lparr>ep_image_url = None, ep_caption = pi_caption p, ep_hashtags = pi_hashtags p,
       ep_content_format = pi_content_format p, ep_cta_label = None, ep_cta_url = None\<rparr>,
     ev_ad = None, ev_activity = []\<rparr>"

definition draft_task :: "datetime \<Rightarrow> uuid \<Rightarrow> uuid \<Rightarrow> uuid \<Rightarrow> uuid option \<Rightarrow> uuid option \<Rightarrow> task_category \<Rightarrow> proposed_item \<Rightarrow> plan_task" where
  "draft_task now tid eid cid created_by assignee category p = \<lparr>t_id = tid, t_client_id = cid, t_title = Some (pi_title p),
     t_description = pi_caption p, t_requirements = None, t_category = Some category, t_status = Some Task_todo,
     t_priority = Some Priority_medium, t_assignee_id = assignee, t_event_id = Some eid,
     t_start_date = Some (pi_event_date p), t_due_date = Some (pi_event_date p), t_start_time = None, t_end_time = None,
     t_created_by = created_by, t_archived = Some False, t_created_at = now, t_updated_at = now\<rparr>"

definition category_of :: "string \<Rightarrow> exn + task_category" where
  "category_of s = some_or (Crash ''ValueError'') (enum_parse task_category_value all_categories s)"

text \<open>A task with its linked event, which is what the service returns of each item.\<close>

type_synonym drafted = "plan_task \<times> marketing_event option"

definition add_draft :: "datetime \<Rightarrow> uuid \<Rightarrow> uuid option \<Rightarrow> uuid option \<Rightarrow> proposed_item \<Rightarrow> drafted desk_op" where
  "add_draft now cid created_by assignee p k =
     (let eid = next_id k; ev = draft_event eid cid created_by p;
          k1 = (use_id k)\<lparr>dk_events := dk_events k @ [ev]\<rparr> in
      bindR (desk_flush k1) (\<lambda>(_, k2).
      bindR (category_of (pi_category p)) (\<lambda>category.
        let tid = next_id k2; t = draft_task now tid eid cid created_by assignee category p; k3 = use_id k2 in
        bindR (desk_flush (k3\<lparr>dk_db := task_add t (dk_db k3)\<rparr>)) (\<lambda>(_, k4). Inr ((t, Some ev), k4)))))"

fun add_drafts :: "datetime \<Rightarrow> uuid \<Rightarrow> uuid option \<Rightarrow> uuid option \<Rightarrow> proposed_item list \<Rightarrow> drafted list desk_op" where
  "add_drafts now cid created_by assignee [] k = Inr ([], k)"
| "add_drafts now cid created_by assignee (p # ps) k =
     bindR (add_draft now cid created_by assignee p k) (\<lambda>(x, k1).
     bindR (add_drafts now cid created_by assignee ps k1) (\<lambda>(xs, k2). Inr (x # xs, k2)))"

definition propose_range :: "datetime \<Rightarrow> planner \<Rightarrow> uuid \<Rightarrow> string \<Rightarrow> date \<Rightarrow> date \<Rightarrow> uuid option \<Rightarrow> uuid option \<Rightarrow>
    drafted list desk_op" where
  "propose_range now planner cid prompt start_date end_date user assignee k =
     (if end_date < start_date then Inl (bad_request ''End date must be on or after the start date.'')
      else
        let request = \<lparr>rq_client_id = cid, rq_prompt = (if strip prompt = [] then NO_PROMPT_TEXT else strip prompt),
              rq_start_date = start_date, rq_end_date = end_date,
              rq_existing_titles = take 100 (existing_titles cid start_date end_date (dk_db k))\<rparr> in
        bindR (generate_range (planner request (dk_db k)) start_date end_date) (\<lambda>items.
          add_drafts now cid user assignee items k))"

text \<open>\<^verbatim>\<open>propose_month\<close>: \<open>today\<close> is the client's own day; a month that is running is drafted from today.\<close>

definition propose_month :: "datetime \<Rightarrow> planner \<Rightarrow> date \<Rightarrow> uuid \<Rightarrow> string \<Rightarrow> int \<Rightarrow> int \<Rightarrow> uuid \<Rightarrow> drafted list desk_op" where
  "propose_month now planner today cid prompt year mon user k =
     bindR (some_or (Crash ''ValueError'') (month_window year mon)) (\<lambda>(month_start, month_end).
       propose_range now planner cid prompt (if today \<le> month_end then max month_start today else month_start) month_end
         (Some user) None k)"

section \<open>Reviewing drafts\<close>

definition require_task :: "uuid \<Rightarrow> uuid \<Rightarrow> desk \<Rightarrow> exn + plan_task" where
  "require_task cid tid k = some_or task_not_found (get_for_client cid tid (dk_db k))"

text \<open>The relationship \<^verbatim>\<open>task.event\<close>.\<close>

definition event_of :: "plan_task \<Rightarrow> desk \<Rightarrow> marketing_event option" where
  "event_of t k = (case t_event_id t of None \<Rightarrow> None | Some eid \<Rightarrow> find_by ev_id eid (dk_events k))"

definition put_task :: "datetime \<Rightarrow> uuid \<Rightarrow> (plan_task \<Rightarrow> plan_task) \<Rightarrow> desk \<Rightarrow> desk" where
  "put_task now tid f k =
     k\<lparr>dk_db := (dk_db k)\<lparr>d_tasks := update_by t_id tid (\<lambda>t. touch_task now t (f t)) (d_tasks (dk_db k))\<rparr>\<rparr>"

definition put_linked :: "plan_task \<Rightarrow> (marketing_event \<Rightarrow> marketing_event) \<Rightarrow> desk \<Rightarrow> desk" where
  "put_linked t f k = (case event_of t k of None \<Rightarrow> k | Some ev \<Rightarrow> put_event (ev_id ev) f k)"

definition drafted_of :: "uuid \<Rightarrow> uuid \<Rightarrow> desk \<Rightarrow> exn + drafted" where
  "drafted_of cid tid k = bindR (require_task cid tid k) (\<lambda>t. Inr (t, event_of t k))"

definition approved_event :: "string \<Rightarrow> uuid \<Rightarrow> marketing_event \<Rightarrow> marketing_event" where
  "approved_event note actor ev = log_event ''status_change'' (Some note) (Some actor)
     (ev\<lparr>ev_approval_status := Approval_approved, ev_approved_by := Some actor, ev_stage := Some Stage_scheduled\<rparr>)"

definition rejected_event :: "string \<Rightarrow> string \<Rightarrow> uuid \<Rightarrow> marketing_event \<Rightarrow> marketing_event" where
  "rejected_event prefix reason actor ev = log_event ''status_change'' (Some (prefix @ reason)) (Some actor)
     (ev\<lparr>ev_approval_status := Approval_rejected, ev_approval_note := Some reason\<rparr>)"

record plan_assign =
  as_assignee_id :: uuid
  as_priority :: "task_priority option"
  as_due_date :: "date option"

definition assigned_task :: "plan_assign \<Rightarrow> plan_task \<Rightarrow> plan_task" where
  "assigned_task data t =
     (let t1 = t\<lparr>t_assignee_id := Some (as_assignee_id data)\<rparr>;
          t2 = (case as_priority data of None \<Rightarrow> t1 | Some p \<Rightarrow> t1\<lparr>t_priority := Some p\<rparr>);
          t3 = (case as_due_date data of None \<Rightarrow> t2
            | Some due \<Rightarrow> t2\<lparr>t_due_date := Some due,
                t_start_date := (case t_start_date t2 of None \<Rightarrow> Some due | Some s \<Rightarrow> Some s)\<rparr>) in
      t3\<lparr>t_status := Some Task_in_progress\<rparr>)"

definition assignment_notice :: "uuid \<Rightarrow> plan_task \<Rightarrow> notice" where
  "assignment_notice cid t = \<lparr>nt_title = ''New task assigned: '' @ the (t_title t), nt_kind = ''info'', nt_level = Level_info,
     nt_body = None, nt_client_id = Some cid, nt_link = Some (''/clients/'' @ uuid_str cid @ ''/plan''),
     nt_rec_key = Some (''task_assigned:'' @ uuid_str (t_id t))\<rparr>"

text \<open>Assigning commits before it notifies, so a notification that fails leaves the assignment behind.\<close>

definition assign_draft :: "datetime \<Rightarrow> uuid \<Rightarrow> uuid \<Rightarrow> plan_assign \<Rightarrow> uuid \<Rightarrow> desk \<Rightarrow> (exn + drafted) \<times> desk" where
  "assign_draft now cid tid data actor k = (case require_task cid tid k of
     Inl e \<Rightarrow> (Inl e, k)
   | Inr t \<Rightarrow>
       (case desk_flush (put_linked t (approved_event ''approved via assignment'' actor)
               (put_task now tid (assigned_task data) k)) of
          Inl e \<Rightarrow> (Inl e, k)
        | Inr (_, k1) \<Rightarrow>
            (case notify now (as_assignee_id data) (assignment_notice cid t) k1 of
               Inl e \<Rightarrow> (Inl e, k1)
             | Inr (_, k2) \<Rightarrow> (drafted_of cid tid k2, k2))))"

definition reject_task :: "string \<Rightarrow> datetime \<Rightarrow> uuid \<Rightarrow> string \<Rightarrow> plan_task \<Rightarrow> desk \<Rightarrow> desk" where
  "reject_task prefix now actor reason t k =
     put_linked t (rejected_event prefix reason actor) (put_task now (t_id t) (\<lambda>t. t\<lparr>t_status := Some Task_blocked\<rparr>) k)"

definition reject_draft :: "datetime \<Rightarrow> uuid \<Rightarrow> uuid \<Rightarrow> string \<Rightarrow> uuid \<Rightarrow> drafted desk_op" where
  "reject_draft now cid tid reason actor k =
     bindR (require_task cid tid k) (\<lambda>t.
     bindR (desk_flush (reject_task ''rejected: '' now actor reason t k)) (\<lambda>(_, k').
     bindR (drafted_of cid tid k') (\<lambda>x. Inr (x, k'))))"

text \<open>A batch: the tasks one by one, and one commit at the end.\<close>

fun review_each :: "uuid \<Rightarrow> (plan_task \<Rightarrow> desk \<Rightarrow> desk) \<Rightarrow> uuid list \<Rightarrow> desk \<Rightarrow> exn + desk" where
  "review_each cid f [] k = Inr k"
| "review_each cid f (tid # tids) k = bindR (require_task cid tid k) (\<lambda>t. review_each cid f tids (f t k))"

definition review_batch :: "uuid \<Rightarrow> (plan_task \<Rightarrow> desk \<Rightarrow> desk) \<Rightarrow> uuid list \<Rightarrow> unit desk_op" where
  "review_batch cid f tids k = bindR (review_each cid f tids k) desk_flush"

definition approve_batch :: "uuid \<Rightarrow> uuid list \<Rightarrow> uuid \<Rightarrow> unit desk_op" where
  "approve_batch cid tids actor = review_batch cid (\<lambda>t. put_linked t (approved_event ''approved via chat'' actor)) tids"

definition reject_batch :: "datetime \<Rightarrow> uuid \<Rightarrow> uuid list \<Rightarrow> string \<Rightarrow> uuid \<Rightarrow> unit desk_op" where
  "reject_batch now cid tids reason actor = review_batch cid (reject_task ''rejected via chat: '' now actor reason) tids"

text \<open>Re-running the generation of one item; \<open>answer\<close> is what the provider says to the change request.\<close>

definition regenerated_task :: "task_category \<Rightarrow> proposed_item \<Rightarrow> plan_task \<Rightarrow> plan_task" where
  "regenerated_task category p t = t\<lparr>t_title := Some (pi_title p), t_description := pi_caption p,
     t_category := Some category, t_status := Some Task_todo\<rparr>"

definition regenerated_post :: "proposed_item \<Rightarrow> event_post option \<Rightarrow> event_post" where
  "regenerated_post p post = (case post of
     None \<Rightarrow> \<lparr>ep_image_url = None, ep_caption = pi_caption p, ep_hashtags = pi_hashtags p,
       ep_content_format = pi_content_format p, ep_cta_label = None, ep_cta_url = None\<rparr>
   | Some x \<Rightarrow> x\<lparr>ep_caption := pi_caption p, ep_hashtags := pi_hashtags p, ep_content_format := pi_content_format p\<rparr>)"

definition regenerated_event :: "proposed_item \<Rightarrow> string \<Rightarrow> uuid \<Rightarrow> marketing_event \<Rightarrow> marketing_event" where
  "regenerated_event p reason actor ev = log_event ''edit'' (Some (''regenerated: '' @ reason)) (Some actor)
     (ev\<lparr>ev_title := Some (pi_title p), ev_platform := Some (pi_platform p), ev_stage := Some Stage_draft,
         ev_approval_status := Approval_pending, ev_approval_note := None, ev_approved_by := None,
         ev_post := Some (regenerated_post p (ev_post ev))\<rparr>)"

definition regenerate_item :: "datetime \<Rightarrow> (plan_task \<Rightarrow> marketing_event \<Rightarrow> ai_answer) \<Rightarrow> uuid \<Rightarrow> uuid \<Rightarrow> string \<Rightarrow> string \<Rightarrow> uuid \<Rightarrow>
    drafted desk_op" where
  "regenerate_item now answer cid tid instructions reason actor k =
     bindR (require_task cid tid k) (\<lambda>t.
     bindR (some_or (bad_request ''This task has no linked calendar item to regenerate.'') (event_of t k)) (\<lambda>ev.
     bindR (regenerated (answer t ev) (the (ev_event_date ev)) instructions) (\<lambda>p.
     bindR (category_of (pi_category p)) (\<lambda>category.
     bindR (desk_flush (put_event (ev_id ev) (regenerated_event p reason actor)
             (put_task now tid (regenerated_task category p) k))) (\<lambda>(_, k').
     bindR (drafted_of cid tid k') (\<lambda>x. Inr (x, k')))))))"

section \<open>What a generation can return\<close>

definition item_ok :: "date \<Rightarrow> date \<Rightarrow> proposed_item \<Rightarrow> bool" where
  "item_ok s e p \<longleftrightarrow> s \<le> pi_event_date p \<and> pi_event_date p \<le> e \<and> 1 \<le> length (pi_title p) \<and> length (pi_title p) \<le> 200 \<and>
     pi_platform p \<in> set VALID_PLATFORMS \<and> pi_category p \<in> set VALID_CATEGORIES \<and> len_ok 30 (pi_content_format p)"

lemma clean_str_Some: "clean_str n v = Some t \<Longrightarrow> t \<noteq> [] \<and> length t \<le> n \<or> n = 0"
  by (auto simp: clean_str_def Let_def split: option.splits arg.splits if_splits)

lemma clean_str_len: "len_ok n (clean_str n v)"
  by (auto simp: clean_str_def len_ok_def Let_def split: option.splits arg.splits)

lemma member_or_in: "dflt \<in> set valid \<Longrightarrow> member_or valid dflt v = Inr s \<Longrightarrow> s \<in> set valid"
  by (auto simp: member_or_def split: option.splits arg.splits if_splits)

lemma defaults_valid: "DEFAULT_PLATFORM \<in> set VALID_PLATFORMS" "DEFAULT_CATEGORY \<in> set VALID_CATEGORIES"
  by (simp_all add: DEFAULT_PLATFORM_def VALID_PLATFORMS_def DEFAULT_CATEGORY_def VALID_CATEGORIES_def all_categories_def)

lemma clamp_in_range:
  assumes "s \<le> e"
  shows "s \<le> parse_and_clamp_date raw s e \<and> parse_and_clamp_date raw s e \<le> e"
  using assms by (auto simp: parse_and_clamp_date_def Let_def split: option.splits arg.splits)

lemma parse_one_item_ok:
  assumes "parse_one_item payload day = Inr (Some p)"
  shows "pi_event_date p = day \<and> item_ok day day p"
proof -
  obtain title where t: "clean_str 200 (map_of payload ''title'') = Some title"
    using assms by (cases "clean_str 200 (map_of payload ''title'')") (auto simp: parse_one_item_def)
  from assms t obtain platform category where
    m: "member_or VALID_PLATFORMS DEFAULT_PLATFORM (map_of payload ''platform'') = Inr platform"
      "member_or VALID_CATEGORIES DEFAULT_CATEGORY (map_of payload ''category'') = Inr category"
    and p: "pi_event_date p = day" "pi_title p = title" "pi_platform p = platform" "pi_category p = category"
      "pi_content_format p = clean_str 30 (map_of payload ''content_format'')"
    by (auto simp: parse_one_item_def result_simps)
  from clean_str_Some [OF t] have "1 \<le> length title" "length title \<le> 200" by (auto simp: Suc_le_eq)
  with p m member_or_in [OF defaults_valid(1)] member_or_in [OF defaults_valid(2)] clean_str_len
  show ?thesis by (simp add: item_ok_def)
qed

lemma item_ok_widen: "item_ok d d p \<Longrightarrow> pi_event_date p = d \<Longrightarrow> s \<le> d \<Longrightarrow> d \<le> e \<Longrightarrow> item_ok s e p"
  by (simp add: item_ok_def)

lemma parse_items_ok:
  assumes "s \<le> e" "parse_items_loop s e raw = Inr items"
  shows "length items \<le> length raw \<and> (\<forall>p \<in> set items. item_ok s e p)"
  using assms(2)
proof (induction raw arbitrary: items)
  case (Cons a raw)
  show ?case
  proof (cases "\<exists>obj. a = AObj obj")
    case True
    then obtain obj where a: "a = AObj obj" by blast
    let ?d = "parse_and_clamp_date (map_of obj ''event_date'') s e"
    from Cons.prems obtain item rest where
      i: "parse_one_item obj ?d = Inr item" "parse_items_loop s e raw = Inr rest"
        "items = (case item of None \<Rightarrow> rest | Some i \<Rightarrow> i # rest)"
      by (auto simp: a result_simps)
    have "item_ok s e p" if "item = Some p" for p
      using parse_one_item_ok [of obj ?d p] i(1) that clamp_in_range [OF assms(1), of "map_of obj ''event_date''"] item_ok_widen [of ?d p s e]
      by simp
    with Cons.IH [OF i(2)] i(3) show ?thesis by (auto split: option.splits)
  next
    case False
    then have "parse_items_loop s e raw = Inr items" using Cons.prems by (cases a) auto
    with Cons.IH [OF this] show ?thesis by simp
  qed
qed simp

lemma py_range_below: "0 < step \<Longrightarrow> x \<in> set (py_range stop step) \<Longrightarrow> 0 \<le> x \<and> x < stop"
proof -
  assume step: "0 < step" and "x \<in> set (py_range stop step)"
  then obtain i where i: "x = int i * step" "i < nat ((stop + step - 1) div step)" by (auto simp: py_range_def)
  then have "int i + 1 \<le> (stop + step - 1) div step" by linarith
  then have "(int i + 1) * step \<le> (stop + step - 1) div step * step" using step by (simp add: mult_right_mono)
  also have "\<dots> \<le> stop + step - 1"
    using step by (metis div_mult_mod_eq le_add_same_cancel1 pos_mod_sign)
  finally show ?thesis using i(1) step by (simp add: algebra_simps)
qed

lemma fallback_offsets_ok:
  assumes "s \<le> e"
  shows "fallback_offsets s e \<noteq> [] \<and> length (fallback_offsets s e) \<le> 6 \<and> (\<forall>x \<in> set (fallback_offsets s e). 0 \<le> x \<and> x \<le> e - s)"
proof -
  define step where "step = (if 10 < e - s + 1 then 5 else max 1 (if (e - s + 1) div 6 = 0 then 1 else (e - s + 1) div 6))"
  have step: "0 < step" by (simp add: step_def)
  have "fallback_offsets s e = (let offsets = take 6 (py_range (e - s + 1) step) in if offsets = [] then [0] else offsets)"
    by (simp add: fallback_offsets_def step_def Let_def)
  then show ?thesis
    using assms py_range_below [OF step, of _ "e - s + 1"] by (auto simp: Let_def dest!: in_set_takeD)
qed

lemma fallback_range_ok:
  assumes "s \<le> e"
  shows "fallback_range s e \<noteq> [] \<and> length (fallback_range s e) \<le> 6 \<and> (\<forall>p \<in> set (fallback_range s e). item_ok s e p)"
proof -
  note o = fallback_offsets_ok [OF assms]
  have len: "length (digits (Suc i)) = 1" if "i < 6" for i
    using that by (auto simp: digits.simps)
  have "item_ok s e p" if "p \<in> set (fallback_range s e)" for p
  proof -
    from that obtain i x where ix: "(i, x) \<in> set (zip [0..<length (fallback_offsets s e)] (fallback_offsets s e))"
      and p: "p = \<lparr>pi_title = ''Content idea #'' @ digits (i + 1) @ '' (draft -- AI unavailable, edit before approving)'',
          pi_event_date = s + x, pi_platform = DEFAULT_PLATFORM, pi_category = DEFAULT_CATEGORY,
          pi_content_format = Some ''static'', pi_caption = None, pi_hashtags = None,
          pi_suggested_role = Some ''content creator''\<rparr>" by (auto simp: fallback_range_def Let_def)
    have "i < 6" using set_zip_leftD [OF ix] o by auto
    moreover have "0 \<le> x" "x \<le> e - s" using set_zip_rightD [OF ix] o by auto
    ultimately show ?thesis using defaults_valid len [of i] by (simp add: item_ok_def p len_ok_def)
  qed
  then show ?thesis using o by (auto simp: fallback_range_def Let_def)
qed

lemma generated_items_in_bounds':
  assumes "s \<le> e" "generate_range answer s e = Inr items"
  shows "1 \<le> length items \<and> length items \<le> 40 \<and> list_all (item_ok s e) items"
proof -
  note fb = fallback_range_ok [OF assms(1)]
  have "items = fallback_range s e \<or> (items \<noteq> [] \<and> (\<exists>raw. parse_items raw s e = Inr items))"
    using assms(2) by (auto simp: generate_range_def result_simps split: ai_answer.splits option.splits arg.splits if_splits)
  then show ?thesis
  proof
    assume "items = fallback_range s e"
    with fb show ?thesis by (auto simp: list_all_iff Suc_le_eq)
  next
    assume "items \<noteq> [] \<and> (\<exists>raw. parse_items raw s e = Inr items)"
    then obtain raw where "items \<noteq> []" "parse_items_loop s e (take MAX_RANGE_ITEMS raw) = Inr items"
      by (auto simp: parse_items_def)
    with parse_items_ok [OF assms(1)] show ?thesis by (fastforce simp: list_all_iff MAX_RANGE_ITEMS_def Suc_le_eq)
  qed
qed

text \<open>
  Whatever the language model answers, a generation that returns gives between one and forty items, each
  dated within the requested range, with a title of 1 to 200 characters and a platform and a category of
  the enumerations; so no draft lands in the past of the range or fails to fit its columns.
\<close>

theorem generated_items_in_bounds:
  assumes "s \<le> e" "generate_range answer s e = Inr items"
  shows "1 \<le> length items \<and> length items \<le> 40 \<and> list_all (item_ok s e) items"
  by (rule generated_items_in_bounds' [OF assms])

definition messy_answer :: ai_answer where
  "messy_answer = Ai_payload [(''items'', AList [AStr ''x'', AObj [(''title'', AStr ''  Launch ''), (''event_date'', AStr ''soon''),
     (''platform'', AStr ''myspace'')], AObj [(''title'', AInt 3)]])]"

theorem generated_items_in_bounds_witness:
  "case generate_range messy_answer 100 110 of Inl e \<Rightarrow> False
     | Inr items \<Rightarrow> map pi_title items = [''Launch''] \<and> map pi_event_date items = [105] \<and> list_all (item_ok 100 110) items"
proof -
  have none: "clean_str n None = None" for n by (simp add: clean_str_def)
  have title: "clean_str 200 (Some (AStr ''  Launch '')) = Some ''Launch''" "clean_str 200 (Some (AInt 3)) = None" by code_simp+
  have day: "parse_and_clamp_date (Some (AStr ''soon'')) 100 110 = 105" by code_simp
  have platform: "member_or VALID_PLATFORMS DEFAULT_PLATFORM (Some (AStr ''myspace'')) = Inr DEFAULT_PLATFORM" by code_simp
  have category: "member_or VALID_CATEGORIES DEFAULT_CATEGORY None = Inr DEFAULT_CATEGORY" by code_simp
  have "\<exists>items. generate_range messy_answer 100 110 = Inr items \<and> map pi_title items = [''Launch''] \<and> map pi_event_date items = [105]"
    by (simp add: messy_answer_def generate_range_def parse_items_def MAX_RANGE_ITEMS_def parse_one_item_def none title day platform category)
  then obtain items where i: "generate_range messy_answer 100 110 = Inr items" "map pi_title items = [''Launch'']"
    "map pi_event_date items = [105]" by (elim exE conjE) (rule that)
  have "100 \<le> (110 :: date)" by simp
  from generated_items_in_bounds [OF this i(1)] i(2,3) show ?thesis unfolding i(1) sum.case by (intro conjI) simp_all
qed

text \<open>
  The agent is documented never to raise, but it looks the platform and the category of an item up in a
  set: an item that names them as a list or an object, as models do, raises a TypeError and no plan is
  drafted, not even the fallback.
\<close>

theorem listed_platform_raises:
  assumes "map_of payload ''items'' = Some (AList (AObj item # rest))" "clean_str 200 (map_of item ''title'') \<noteq> None"
    "map_of item ''platform'' = Some (AList xs)" "s \<le> e"
  shows "propose_range now (\<lambda>_ _. Ai_payload payload) cid prompt s e user assignee k = Inl (Crash ''TypeError'')"
proof -
  have "parse_one_item item d = Inl (Crash ''TypeError'')" for d
    using assms(2,3) by (auto simp: parse_one_item_def member_or_def)
  then have "generate_range (Ai_payload payload) s e = Inl (Crash ''TypeError'')"
    using assms(1) by (simp add: generate_range_def parse_items_def MAX_RANGE_ITEMS_def)
  then show ?thesis using assms(4) by (simp add: propose_range_def Let_def)
qed

theorem listed_platform_raises_witness:
  "propose_range 0 (\<lambda>_ _. Ai_payload [(''items'', AList [AObj [(''title'', AStr ''Reel''), (''platform'', AList [AStr ''instagram''])]])])
     7 [] 100 110 None None (empty_desk empty_db) = Inl (Crash ''TypeError'')"
proof (rule listed_platform_raises)
  show "clean_str 200 (map_of [(''title'', AStr ''Reel''), (''platform'', AList [AStr ''instagram''])] ''title'') \<noteq> None" by code_simp
qed simp_all

section \<open>What drafting stores\<close>

text \<open>A fresh draft: a task to do and its linked event, both pending, of one client, title and day.\<close>

definition is_draft :: "uuid \<Rightarrow> uuid option \<Rightarrow> uuid option \<Rightarrow> proposed_item \<Rightarrow> drafted \<Rightarrow> bool" where
  "is_draft cid created_by assignee p x \<longleftrightarrow> (case snd x of
     None \<Rightarrow> False
   | Some ev \<Rightarrow> t_event_id (fst x) = Some (ev_id ev) \<and> t_client_id (fst x) = cid \<and> ev_client_id ev = cid \<and>
       t_title (fst x) = Some (pi_title p) \<and> ev_title ev = Some (pi_title p) \<and>
       t_start_date (fst x) = Some (pi_event_date p) \<and> t_due_date (fst x) = Some (pi_event_date p) \<and>
       ev_event_date ev = Some (pi_event_date p) \<and> t_status (fst x) = Some Task_todo \<and>
       t_assignee_id (fst x) = assignee \<and> ev_stage ev = Some Stage_draft \<and> ev_approval_status ev = Approval_pending \<and>
       t_created_by (fst x) = created_by \<and> ev_created_by ev = created_by)"

text \<open>Everything of a desk but events, tasks and the next identifier.\<close>

definition same_elsewhere :: "desk \<Rightarrow> desk \<Rightarrow> bool" where
  "same_elsewhere k k' \<longleftrightarrow>
     k'\<lparr>dk_events := dk_events k, dk_db := (dk_db k')\<lparr>d_tasks := d_tasks (dk_db k), d_next_id := d_next_id (dk_db k)\<rparr>\<rparr> = k"

lemma same_elsewhere_refl [simp]: "same_elsewhere k k"
  by (simp add: same_elsewhere_def)

lemma same_elsewhere_trans: "same_elsewhere k k1 \<Longrightarrow> same_elsewhere k1 k2 \<Longrightarrow> same_elsewhere k k2"
  unfolding same_elsewhere_def by (cases k; cases k1; cases k2; cases "dk_db k"; cases "dk_db k1"; cases "dk_db k2") auto

lemma add_draft_stores:
  assumes "add_draft now cid u a p k = Inr (x, k')"
  shows "is_draft cid u a p x \<and> d_tasks (dk_db k') = d_tasks (dk_db k) @ [fst x] \<and>
    dk_events k' = dk_events k @ [the (snd x)] \<and> same_elsewhere k k' \<and> desk_constraints k'"
  using assms
  by (auto simp: add_draft_def Let_def result_simps is_draft_def draft_event_def draft_task_def use_id_def task_add_def
      same_elsewhere_def)

lemma add_drafts_stores:
  "add_drafts now cid u a ps k = Inr (xs, k') \<Longrightarrow>
    list_all2 (is_draft cid u a) ps xs \<and> d_tasks (dk_db k') = d_tasks (dk_db k) @ map fst xs \<and>
    dk_events k' = dk_events k @ map (the \<circ> snd) xs \<and> same_elsewhere k k'"
proof (induction ps arbitrary: k xs)
  case (Cons p ps)
  from Cons.prems obtain x k1 xs1 where
    one: "add_draft now cid u a p k = Inr (x, k1)" and rest: "add_drafts now cid u a ps k1 = Inr (xs1, k')" and xs: "xs = x # xs1"
    by (auto simp: result_simps)
  from add_draft_stores [OF one] Cons.IH [OF rest] same_elsewhere_trans [of k k1 k'] show ?case by (simp add: xs)
qed simp

lemma propose_range_stores:
  assumes "propose_range now planner cid prompt s e user assignee k = Inr (xs, k')"
  shows "1 \<le> length xs \<and> length xs \<le> 40 \<and> d_tasks (dk_db k') = d_tasks (dk_db k) @ map fst xs \<and>
    dk_events k' = dk_events k @ map (the \<circ> snd) xs \<and> same_elsewhere k k' \<and>
    (\<exists>items. list_all (item_ok s e) items \<and> list_all2 (is_draft cid user assignee) items xs)"
proof -
  have se: "s \<le> e" using assms by (auto simp: propose_range_def split: if_splits)
  then obtain answer items where
    gen: "generate_range answer s e = Inr items" and add: "add_drafts now cid user assignee items k = Inr (xs, k')"
    using assms by (auto simp: propose_range_def Let_def result_simps)
  from generated_items_in_bounds' [OF se gen] add_drafts_stores [OF add] list_all2_lengthD [of "is_draft cid user assignee" items xs]
  show ?thesis by auto
qed

text \<open>
  Drafting a range stores the whole plan and nothing else: between one and forty drafts, each a task with
  its own linked event, unapproved, of this client and dated within the range; all of them together, for an
  error leaves nothing behind, and no other row of the desk moves.
\<close>

theorem plan_drafted_in_full:
  assumes "propose_range now planner cid prompt s e user assignee k = Inr (xs, k')"
  shows "1 \<le> length xs \<and> length xs \<le> 40 \<and> d_tasks (dk_db k') = d_tasks (dk_db k) @ map fst xs \<and>
    dk_events k' = dk_events k @ map (the \<circ> snd) xs \<and> same_elsewhere k k' \<and>
    (\<exists>items. list_all (item_ok s e) items \<and> list_all2 (is_draft cid user assignee) items xs)"
  by (rule propose_range_stores [OF assms])

definition plan_desk :: desk where
  "plan_desk = empty_desk (empty_db\<lparr>d_users := [sample_user 1 Role_manager], d_clients := [sample_client 7]\<rparr>)"

lemma plan_desk_drafts:
  "\<exists>x y k'. propose_range 0 (\<lambda>_ _. Ai_off) 7 ''posts'' 100 101 (Some 1) None plan_desk = Inr ([x, y], k')"
proof -
  have "(case propose_range 0 (\<lambda>_ _. Ai_off) 7 ''posts'' 100 101 (Some 1) None plan_desk of Inl e \<Rightarrow> 0 | Inr (xs, k') \<Rightarrow> length xs) = 2"
    by code_simp
  then show ?thesis by (auto split: sum.splits prod.splits simp: length_Suc_conv numeral_2_eq_2)
qed

theorem plan_drafted_in_full_witness:
  "case propose_range 0 (\<lambda>_ _. Ai_off) 7 ''posts'' 100 101 (Some 1) None plan_desk of
     Inl e \<Rightarrow> False | Inr (xs, k') \<Rightarrow> length (dk_events k') = 2 \<and> d_tasks (dk_db k') = map fst xs"
proof -
  obtain x y k' where run: "propose_range 0 (\<lambda>_ _. Ai_off) 7 ''posts'' 100 101 (Some 1) None plan_desk = Inr ([x, y], k')"
    using plan_desk_drafts by blast
  have "dk_events plan_desk = []" "d_tasks (dk_db plan_desk) = []" by (simp_all add: plan_desk_def empty_desk_def empty_db_def)
  with plan_drafted_in_full [OF run] show ?thesis unfolding run by simp
qed

section \<open>Assigning a draft\<close>

lemma put_linked_task [simp]: "dk_db (put_linked t f k) = dk_db k"
  by (simp add: put_linked_def put_event_def split: option.split)

lemma get_for_client_put_task:
  assumes "\<And>t. t_id (f t) = t_id t" "\<And>t. t_client_id (f t) = t_client_id t"
  shows "get_for_client cid tid (dk_db (put_task now tid f k)) =
    map_option (\<lambda>t. touch_task now t (f t)) (get_for_client cid tid (dk_db k))"
proof -
  have "find (\<lambda>t. t_id t = tid \<and> t_client_id t = cid) (update_by t_id tid (\<lambda>t. touch_task now t (f t)) rows) =
      map_option (\<lambda>t. touch_task now t (f t)) (find (\<lambda>t. t_id t = tid \<and> t_client_id t = cid) rows)" for rows
    using assms by (induction rows) auto
  then show ?thesis by (simp add: get_for_client_def put_task_def)
qed

lemma assigned_task_simps [simp]:
  "t_id (assigned_task data t) = t_id t" "t_client_id (assigned_task data t) = t_client_id t"
  "t_title (assigned_task data t) = t_title t" "t_status (assigned_task data t) = Some Task_in_progress"
  "t_assignee_id (assigned_task data t) = Some (as_assignee_id data)"
  by (simp_all add: assigned_task_def Let_def split: option.split)

lemma touched_task_columns [simp]:
  "t_start_date (touch_task now old new) = t_start_date new" "t_due_date (touch_task now old new) = t_due_date new"
  "t_status (touch_task now old new) = t_status new" "t_assignee_id (touch_task now old new) = t_assignee_id new"
  by (simp_all add: touch_task_def)

lemma notify_tasks:
  assumes "notify now uid nt k = Inr (i, k')"
  shows "d_tasks (dk_db k') = d_tasks (dk_db k)" "dk_events k' = dk_events k"
  using assms
  by (auto simp: notify_def Let_def result_simps deliver_notice_def put_notification_def use_id_def split: option.splits prod.splits)

lemma assign_draft_Inr:
  assumes "assign_draft now cid tid data actor k = (Inr (t', ev), k')" "get_for_client cid tid (dk_db k) = Some t"
  shows "t' = touch_task now t (assigned_task data t) \<and> get_for_client cid tid (dk_db k') = Some t'"
proof -
  let ?k1 = "put_linked t (approved_event ''approved via assignment'' actor) (put_task now tid (assigned_task data) k)"
  have t: "require_task cid tid k = Inr t" using assms(2) by (simp add: require_task_def)
  from assms(1) t obtain i where
    n: "notify now (as_assignee_id data) (assignment_notice cid t) ?k1 = Inr (i, k')" and d: "drafted_of cid tid k' = Inr (t', ev)"
    by (auto simp: assign_draft_def result_simps desk_flush_def split: sum.splits if_splits)
  have "get_for_client cid tid (dk_db k') = get_for_client cid tid (dk_db ?k1)"
    using notify_tasks(1) [OF n] by (simp add: get_for_client_def)
  also have "\<dots> = Some (touch_task now t (assigned_task data t))"
    using assms(2) by (simp add: get_for_client_put_task)
  finally show ?thesis using d by (auto simp: drafted_of_def require_task_def result_simps)
qed

text \<open>
  Assigning a draft can invert its dates. The board refuses a due date before the start date, on the
  body and on the merged row; the assignment of a draft takes a new due date and keeps the start, so the
  task ends up due before it starts.
\<close>

theorem assignment_inverts_dates:
  assumes "assign_draft now cid tid data actor k = (Inr (t', ev), k')" "get_for_client cid tid (dk_db k) = Some t"
    "t_start_date t = Some s" "as_due_date data = Some due" "due < s"
  shows "get_for_client cid tid (dk_db k') = Some t' \<and> t_start_date t' = Some s \<and> t_due_date t' = Some due \<and>
    apply_update_task e cid tid (empty_update\<lparr>tu_fields := [TF_due_date], tu_due_date := Some due\<rparr>) (dk_db k) =
      Inl (bad_request ''start_date must be on or before due_date'')"
proof -
  from assign_draft_Inr [OF assms(1,2)] have "t' = touch_task now t (assigned_task data t)" "get_for_client cid tid (dk_db k') = Some t'"
    by auto
  then show ?thesis
    using assms(2-5)
    by (simp add: assigned_task_def Let_def apply_update_task_def get_task_def empty_update_def inverted_def merged_def
        split: option.split)
qed

text \<open>A draft of the model and the manager who assigns it with an earlier due date.\<close>

definition assign_desk :: desk where
  "assign_desk = plan_desk\<lparr>dk_db := (dk_db plan_desk)\<lparr>d_tasks := [(sample_task 30 7)\<lparr>t_start_date := Some 20, t_due_date := Some 20\<rparr>]\<rparr>\<rparr>"

lemma assign_desk_run:
  "\<exists>t' k'. assign_draft 5 7 30 \<lparr>as_assignee_id = 1, as_priority = None, as_due_date = Some 12\<rparr> 1 assign_desk = (Inr (t', None), k')"
proof -
  have "(case assign_draft 5 7 30 \<lparr>as_assignee_id = 1, as_priority = None, as_due_date = Some 12\<rparr> 1 assign_desk of
      (Inr (t', None), k') \<Rightarrow> True | _ \<Rightarrow> False)" by code_simp
  then show ?thesis by (auto split: prod.splits sum.splits option.splits)
qed

theorem assignment_inverts_dates_witness:
  "case assign_draft 5 7 30 \<lparr>as_assignee_id = 1, as_priority = None, as_due_date = Some 12\<rparr> 1 assign_desk of
     (r, k') \<Rightarrow> map_option t_start_date (get_for_client 7 30 (dk_db k')) = Some (Some 20) \<and>
       map_option t_due_date (get_for_client 7 30 (dk_db k')) = Some (Some 12)"
proof -
  obtain t' k' where run: "assign_draft 5 7 30 \<lparr>as_assignee_id = 1, as_priority = None, as_due_date = Some 12\<rparr> 1 assign_desk =
      (Inr (t', None), k')" using assign_desk_run by blast
  have "get_for_client 7 30 (dk_db assign_desk) = Some ((sample_task 30 7)\<lparr>t_start_date := Some 20, t_due_date := Some 20\<rparr>)"
    by (simp add: get_for_client_def assign_desk_def sample_task_def)
  from assignment_inverts_dates [OF run this, of 20 12] run show ?thesis by simp
qed

lemma long_notice_refused:
  assumes "n \<in> set (dk_notifications k)" "200 < length (no_title n)"
  shows "\<not> desk_constraints k"
proof
  assume "desk_constraints k"
  then have "list_all notification_row_ok (dk_notifications k)" by (simp add: desk_constraints_def)
  with assms show False by (auto simp: list_all_iff notification_row_ok_def)
qed

lemma delivered_title:
  "\<exists>n \<in> set (dk_notifications (snd (deliver_notice now uid nt k))). no_title n = nt_title nt"
proof (cases "unread_with_key uid nt k")
  case None
  then show ?thesis by (auto simp: deliver_notice_def notification_from_def)
next
  case (Some n)
  then have "n \<in> set (dk_notifications k)"
    by (auto simp: unread_with_key_def find_unread_by_reckey_def find_Some_iff split: option.splits if_splits)
  then have "refreshed nt n \<in> set (dk_notifications (snd (deliver_notice now uid nt k)))"
    using Some by (auto simp: deliver_notice_def put_notification_def set_update_by)
  then show ?thesis by (rule rev_bexI) (simp add: refreshed_def)
qed

lemma long_delivered_refused: "200 < length (nt_title nt) \<Longrightarrow> \<not> desk_constraints (snd (deliver_notice now uid nt k))"
  using delivered_title [of now uid nt k] long_notice_refused by metis

text \<open>A title the notification cannot hold: the request fails after the assignment was committed.\<close>

lemma assignment_half_done:
  assumes "require_task cid tid k = Inr t" "t_title t = Some title" "181 < length title"
    "desk_constraints (put_linked t (approved_event ''approved via assignment'' actor) (put_task now tid (assigned_task data) k))"
    "distinct (map no_id (dk_notifications k))"
  shows "fst (assign_draft now cid tid data actor k) = Inl (Crash ''DBAPIError'') \<and>
    map_option t_assignee_id (get_for_client cid tid (dk_db (snd (assign_draft now cid tid data actor k)))) =
      Some (Some (as_assignee_id data))"
proof -
  let ?k1 = "put_linked t (approved_event ''approved via assignment'' actor) (put_task now tid (assigned_task data) k)"
  let ?k2 = "snd (deliver_notice now (as_assignee_id data) (assignment_notice cid t) ?k1)"
  have long: "200 < length (nt_title (assignment_notice cid t))" using assms(2,3) by (simp add: assignment_notice_def)
  have "\<not> desk_constraints ?k2" using long_delivered_refused [OF long] by simp
  then have "notify now (as_assignee_id data) (assignment_notice cid t) ?k1 = Inl (Crash ''DBAPIError'')"
    by (simp add: notify_def desk_flush_def case_prod_beta Let_def)
  moreover have "get_for_client cid tid (dk_db k) = Some t" using assms(1) by (simp add: require_task_def result_simps)
  ultimately show ?thesis using assms(1,4) by (simp add: assign_draft_def desk_flush_def get_for_client_put_task)
qed

end
