(* ===== verification/Auto_Plan.thy ===== *)
theory Auto_Plan
  imports Complex_Main Plan_Generation
begin

text \<open>
  The automatic month-ahead content plan: \<^verbatim>\<open>auto_plan_generation_timing.py\<close>,
  \<^verbatim>\<open>auto_plan_generation_log_repository.py\<close> and the monthly sweep of
  \<^verbatim>\<open>scheduler_service.py\<close>. The wall clock of a zone is the parameter \<open>offset\<close> of
  \<open>Report_Mail.local_now\<close>; dates count in days from 1 January of the year 1.
\<close>

section \<open>When a plan is due, and for which month\<close>

definition EPOCH_ORDINAL :: int where
  "EPOCH_ORDINAL = 719163"

lemma epoch_ordinal: "ordinal 1970 1 1 = EPOCH_ORDINAL"
  by code_simp

definition client_local_today :: "(string \<Rightarrow> datetime \<Rightarrow> int) \<Rightarrow> string option \<Rightarrow> datetime \<Rightarrow> date" where
  "client_local_today offset tz now = local_now offset tz now div DAY + EPOCH_ORDINAL"

definition DUE_DAY_OF_MONTH :: int where
  "DUE_DAY_OF_MONTH = 15"

definition auto_generation_due :: "(string \<Rightarrow> datetime \<Rightarrow> int) \<Rightarrow> string option \<Rightarrow> datetime \<Rightarrow> bool" where
  "auto_generation_due offset tz now \<longleftrightarrow> DUE_DAY_OF_MONTH \<le> day_of (client_local_today offset tz now)"

text \<open>\<^verbatim>\<open>_next_month_range\<close>; the month after December 9999 is a \<^verbatim>\<open>ValueError\<close>.\<close>

definition next_month_range :: "date \<Rightarrow> exn + string \<times> date \<times> date" where
  "next_month_range today =
     (let (year, month) = (if month_of today = 12 then (year_of today + 1, 1) else (year_of today, month_of today + 1)) in
      (case month_window year month of
         None \<Rightarrow> Inl (Crash ''ValueError'')
       | Some (first, final) \<Rightarrow> Inr (field_text 4 year @ ''-'' @ field_text 2 month, first, final)))"

section \<open>The sweep\<close>

definition plan_log_exists :: "uuid \<Rightarrow> string \<Rightarrow> desk \<Rightarrow> bool" where
  "plan_log_exists cid period k \<longleftrightarrow> list_ex (\<lambda>g. gl_client_id g = cid \<and> gl_period g = period) (dk_plan_logs k)"

definition plan_log_add :: "plan_log \<Rightarrow> unit desk_op" where
  "plan_log_add g k = desk_flush (k\<lparr>dk_plan_logs := dk_plan_logs k @ [g]\<rparr>)"

datatype auto_status = Already_generated | Plan_generated nat | Plan_failed exn

record auto_row =
  ap_client_id :: uuid
  ap_client_name :: string
  ap_period :: string
  ap_status :: auto_status

text \<open>
  Drafting commits on its own, before the row of the log is added: an error of the second step leaves the
  drafts of the first.
\<close>

definition draft_and_log :: "datetime \<Rightarrow> planner \<Rightarrow> uuid \<Rightarrow> string \<Rightarrow> date \<Rightarrow> date \<Rightarrow> desk \<Rightarrow> (exn + nat) \<times> desk" where
  "draft_and_log now planner cid period s e k = (case propose_range now planner cid [] s e None None k of
     Inl err \<Rightarrow> (Inl err, k)
   | Inr (items, k1) \<Rightarrow>
       (case plan_log_add \<lparr>gl_client_id = cid, gl_period = period, gl_item_count = length items, gl_generated_at = now\<rparr> k1 of
          Inl err \<Rightarrow> (Inl err, k1) | Inr (_, k2) \<Rightarrow> (Inr (length items), k2)))"

definition plan_ready_notice :: "client \<Rightarrow> string \<Rightarrow> nat \<Rightarrow> notice" where
  "plan_ready_notice c period n = \<lparr>nt_title = the (c_name c) @ '': next month'' @ [CHR 0x27] @ ''s content plan is ready for review'',
     nt_kind = ''plan'', nt_level = Level_info,
     nt_body = Some (digits n @ '' draft item(s) were auto-generated for '' @ period @
       '' -- review, approve, and assign before next month starts.''),
     nt_client_id = Some (c_id c), nt_link = Some (''/clients/'' @ uuid_str (c_id c) @ ''/plan''),
     nt_rec_key = Some (''auto_plan_generated:'' @ uuid_str (c_id c) @ '':'' @ period)\<rparr>"

text \<open>One client whose log has no row for the period; telling the team is outside the isolation.\<close>

definition generate_month :: "datetime \<Rightarrow> planner \<Rightarrow> client \<Rightarrow> string \<Rightarrow> date \<Rightarrow> date \<Rightarrow> desk \<Rightarrow> (exn + auto_row) \<times> desk" where
  "generate_month now planner c period s e k =
     (let row = (\<lambda>st. \<lparr>ap_client_id = c_id c, ap_client_name = the (c_name c), ap_period = period, ap_status = st\<rparr>) in
      (case draft_and_log now planner (c_id c) period s e k of
         (Inl err, k1) \<Rightarrow> (Inr (row (Plan_failed err)), k1)
       | (Inr n, k1) \<Rightarrow>
           (case notify_client_team now (c_id c) (plan_ready_notice c period n) k1 of
              Inl err \<Rightarrow> (Inl err, k1)
            | Inr (_, k2) \<Rightarrow> (Inr (row (Plan_generated n)), k2))))"

definition auto_generate :: "(string \<Rightarrow> datetime \<Rightarrow> int) \<Rightarrow> datetime \<Rightarrow> planner \<Rightarrow> client \<Rightarrow> desk \<Rightarrow> (exn + auto_row option) \<times> desk" where
  "auto_generate offset now planner c k =
     (if \<not> auto_generation_due offset (c_timezone c) now then (Inr None, k)
      else (case next_month_range (client_local_today offset (c_timezone c) now) of
        Inl err \<Rightarrow> (Inl err, k)
      | Inr (period, s, e) \<Rightarrow>
          if plan_log_exists (c_id c) period k
          then (Inr (Some \<lparr>ap_client_id = c_id c, ap_client_name = the (c_name c), ap_period = period,
                  ap_status = Already_generated\<rparr>), k)
          else (case generate_month now planner c period s e k of
            (Inl err, k') \<Rightarrow> (Inl err, k') | (Inr row, k') \<Rightarrow> (Inr (Some row), k'))))"

text \<open>
  The clients one after the other, each in its own session. An exception that escapes a client does not stop
  the others, but \<^verbatim>\<open>asyncio.gather\<close> raises it and the sweep returns nothing.
\<close>

fun auto_clients :: "(string \<Rightarrow> datetime \<Rightarrow> int) \<Rightarrow> datetime \<Rightarrow> planner \<Rightarrow> client list \<Rightarrow> desk \<Rightarrow> (exn + auto_row list) \<times> desk" where
  "auto_clients offset now planner [] k = (Inr [], k)"
| "auto_clients offset now planner (c # cs) k =
     (let (r, k1) = auto_generate offset now planner c k; (rs, k2) = auto_clients offset now planner cs k1 in
      (bindR r (\<lambda>row. bindR rs (\<lambda>rows. Inr (case row of None \<Rightarrow> rows | Some x \<Rightarrow> x # rows))), k2))"

definition is_generated :: "auto_row \<Rightarrow> bool" where
  "is_generated r = (case ap_status r of Plan_generated _ \<Rightarrow> True | _ \<Rightarrow> False)"

definition is_failed :: "auto_row \<Rightarrow> bool" where
  "is_failed r = (case ap_status r of Plan_failed _ \<Rightarrow> True | _ \<Rightarrow> False)"

record auto_result =
  aw_clients :: nat
  aw_generated :: nat
  aw_skipped :: nat
  aw_failed :: nat
  aw_details :: "auto_row list"

definition run_auto_plan_generation_sweep :: "(string \<Rightarrow> datetime \<Rightarrow> int) \<Rightarrow> datetime \<Rightarrow> planner \<Rightarrow> desk \<Rightarrow>
    (exn + auto_result) \<times> desk" where
  "run_auto_plan_generation_sweep offset now planner k =
     (let clients = active_clients (dk_db k); (r, k') = auto_clients offset now planner clients k in
      (bindR r (\<lambda>rows.
         let generated = length (filter is_generated rows); failed = length (filter is_failed rows) in
         Inr \<lparr>aw_clients = length clients, aw_generated = generated, aw_skipped = length rows - generated - failed,
           aw_failed = failed, aw_details = rows\<rparr>), k'))"


section \<open>Which month, and when\<close>

lemma month_bounds: "1 \<le> n \<Longrightarrow> n \<le> MAX_ORDINAL \<Longrightarrow> 1 \<le> month_of n \<and> month_of n \<le> 12"
  using ordinal_of_ymd(1) [of n] by (simp add: valid_ymd_def)

text \<open>The last day of a month comes before the first of the next one, also across a new year.\<close>

lemma month_successor:
  assumes "1 \<le> m" "m \<le> 12"
  shows "ordinal y m (days_in_month y m) + 1 = (if m = 12 then ordinal (y + 1) 1 1 else ordinal y (m + 1) 1)"
proof -
  obtain k where k: "m = int (Suc k)" using assms(1) by (intro that [of "nat (m - 1)"]) simp
  then have n: "nat (m - 1) = k" "nat m = Suc k" by simp_all
  show ?thesis
  proof (cases "m = 12")
    case True
    then have "k = 11" using k by simp
    then show ?thesis
      using True year_days [of y] n(1) by (simp add: ordinal_def days_before_Suc_year k eval_nat_numeral)
  next
    case False
    then show ?thesis by (simp add: ordinal_def n) (simp add: k)
  qed
qed

lemma next_month_start:
  assumes "next_month_range today = Inr (period, s, e)"
  shows "month_window (year_of s) (month_of s) = Some (s, e) \<and> day_of s = 1 \<and>
    period = field_text 4 (year_of s) @ ''-'' @ field_text 2 (month_of s) \<and>
    s = (if month_of today = 12 then ordinal (year_of today + 1) 1 1 else ordinal (year_of today) (month_of today + 1) 1)"
proof -
  let ?y = "if month_of today = 12 then year_of today + 1 else year_of today"
  let ?m = "if month_of today = 12 then 1 else month_of today + 1"
  have w: "month_window ?y ?m = Some (s, e)" and p: "period = field_text 4 ?y @ ''-'' @ field_text 2 ?m"
    using assms by (auto simp: next_month_range_def Let_def split: if_splits option.splits)
  from w have v: "valid_ymd ?y ?m 1" and s: "s = ordinal ?y ?m 1"
    by (auto simp: month_window_def mk_date_def split: if_splits)
  have "year_of s = ?y" "month_of s = ?m" "day_of s = 1" unfolding s by (rule ymd_of_ordinal [OF v])+
  then show ?thesis using w p s by auto
qed

text \<open>
  The plan drafted is that of the month after the client's own: it starts on the day after the running
  month ends, and its window holds exactly the days of the month its period names.
\<close>

theorem next_month_follows:
  assumes "next_month_range today = Inr (period, s, e)" "1 \<le> today" "today \<le> MAX_ORDINAL"
  shows "today < s \<and> day_of s = 1 \<and> s - 1 = ordinal (year_of today) (month_of today) (days_in_month (year_of today) (month_of today)) \<and>
    {n \<in> {1..MAX_ORDINAL}. s \<le> n \<and> n \<le> e} =
      {n \<in> {1..MAX_ORDINAL}. year_of n = year_of s \<and> month_of n = month_of s} \<and>
    period = field_text 4 (year_of s) @ ''-'' @ field_text 2 (month_of s)"
proof -
  note start = next_month_start [OF assms(1)] and m = month_bounds [OF assms(2,3)]
  let ?y = "year_of today" and ?m = "month_of today"
  have final: "s - 1 = ordinal ?y ?m (days_in_month ?y ?m)"
    using month_successor [of ?m ?y] start m by (auto split: if_splits)
  have "day_of today \<le> days_in_month ?y ?m" "today = ordinal ?y ?m (day_of today)"
    using ordinal_of_ymd [OF assms(2,3)] by (simp_all add: valid_ymd_def)
  then have "today \<le> s - 1" unfolding final by (metis add_left_mono ordinal_def)
  then have "today < s" by simp
  moreover have "{n \<in> {1..MAX_ORDINAL}. s \<le> n \<and> n \<le> e} =
      {n \<in> {1..MAX_ORDINAL}. year_of n = year_of s \<and> month_of n = month_of s}"
    by (rule Collect_cong) (metis atLeastAtMost_iff month_window_exact [OF conjunct1 [OF start]])
  ultimately show ?thesis using start final by (elim conjE) (intro conjI; assumption)
qed

theorem next_month_follows_witness:
  "case next_month_range (ordinal 2026 12 17) of
     Inl err \<Rightarrow> False | Inr (period, s, e) \<Rightarrow> period = ''2027-01'' \<and> s - 1 = ordinal 2026 12 31 \<and> day_of s = 1"
proof -
  have run: "next_month_range (ordinal 2026 12 17) = Inr (''2027-01'', ordinal 2027 1 1, ordinal 2027 1 31)" by code_simp
  have "1 \<le> ordinal 2026 12 17" "ordinal 2026 12 17 \<le> MAX_ORDINAL" by code_simp+
  from next_month_follows [OF run this] have "day_of (ordinal 2027 1 1) = 1" by blast
  moreover have "ordinal 2027 1 1 - 1 = ordinal 2026 12 31" by code_simp
  ultimately show ?thesis by (simp add: run)
qed

section \<open>One plan a month\<close>

lemma drafting_elsewhere:
  assumes "propose_range now planner cid prompt s e user assignee k = Inr (xs, k')"
  shows "same_elsewhere k k'"
  using assms by (auto simp: propose_range_def Let_def result_simps dest!: add_drafts_stores split: if_splits)

lemma same_elsewhere_simps:
  assumes "same_elsewhere k k'"
  shows "dk_plan_logs k' = dk_plan_logs k" "d_clients (dk_db k') = d_clients (dk_db k)"
    "dk_notifications k' = dk_notifications k" "d_assignments (dk_db k') = d_assignments (dk_db k)"
  using assms unfolding same_elsewhere_def by (cases k; cases k'; cases "dk_db k"; cases "dk_db k'"; simp)+

lemma plan_log_exists_append [simp]:
  "plan_log_exists cid period (k\<lparr>dk_plan_logs := dk_plan_logs k @ [g]\<rparr>) \<longleftrightarrow>
    plan_log_exists cid period k \<or> gl_client_id g = cid \<and> gl_period g = period"
  by (auto simp: plan_log_exists_def)

lemma draft_and_log_Inr:
  assumes "draft_and_log now planner cid period s e k = (Inr n, k')"
  shows "\<exists>xs k1. propose_range now planner cid [] s e None None k = Inr (xs, k1) \<and> n = length xs \<and>
    k' = k1\<lparr>dk_plan_logs := dk_plan_logs k1 @ [\<lparr>gl_client_id = cid, gl_period = period, gl_item_count = n, gl_generated_at = now\<rparr>]\<rparr>"
  using assms by (auto simp: draft_and_log_def plan_log_add_def result_simps split: sum.splits prod.splits)

lemma draft_and_log_logs:
  assumes "draft_and_log now planner cid period s e k = (r, k')"
  shows "d_clients (dk_db k') = d_clients (dk_db k) \<and> (plan_log_exists c p k \<longrightarrow> plan_log_exists c p k') \<and>
    (case r of Inl _ \<Rightarrow> True | Inr _ \<Rightarrow> plan_log_exists cid period k')"
proof (cases r)
  case (Inl err)
  then show ?thesis
    using assms
    by (auto simp: draft_and_log_def plan_log_exists_def same_elsewhere_simps [OF drafting_elsewhere] split: sum.splits prod.splits)
next
  case (Inr n)
  then obtain xs k1 where d: "propose_range now planner cid [] s e None None k = Inr (xs, k1)"
    and k': "k' = k1\<lparr>dk_plan_logs := dk_plan_logs k1 @ [\<lparr>gl_client_id = cid, gl_period = period, gl_item_count = n, gl_generated_at = now\<rparr>]\<rparr>"
    using draft_and_log_Inr assms by blast
  have "plan_log_exists c p k1 \<longleftrightarrow> plan_log_exists c p k" by (simp add: plan_log_exists_def same_elsewhere_simps [OF drafting_elsewhere [OF d]])
  then show ?thesis using Inr same_elsewhere_simps(2) [OF drafting_elsewhere [OF d]] by (simp add: k')
qed

lemma notify_client_team_logs:
  assumes "notify_client_team now cid nt k = Inr (n, k')"
  shows "dk_plan_logs k' = dk_plan_logs k \<and> d_clients (dk_db k') = d_clients (dk_db k)"
proof -
  let ?step = "\<lambda>k a. snd (deliver_notice now (a_user_id a) (nt\<lparr>nt_client_id := Some cid\<rparr>) k)"
  have "dk_plan_logs (foldl ?step k as) = dk_plan_logs k \<and> d_clients (dk_db (foldl ?step k as)) = d_clients (dk_db k)" for as k
    by (induction as arbitrary: k) (auto simp: deliver_notice_def put_notification_def use_id_def split: option.split)
  then show ?thesis using assms by (auto simp: notify_client_team_def Let_def result_simps)
qed

text \<open>No row of the log is lost from one desk to the other.\<close>

definition logs_kept :: "desk \<Rightarrow> desk \<Rightarrow> bool" where
  "logs_kept k k' \<longleftrightarrow> d_clients (dk_db k') = d_clients (dk_db k) \<and>
     (\<forall>cid p. plan_log_exists cid p k \<longrightarrow> plan_log_exists cid p k')"

lemma logs_kept_refl [simp]: "logs_kept k k"
  by (simp add: logs_kept_def)

lemma logs_kept_trans: "logs_kept k k1 \<Longrightarrow> logs_kept k1 k2 \<Longrightarrow> logs_kept k k2"
  by (simp add: logs_kept_def)

lemma generate_month_logs:
  assumes "generate_month now planner c period s e k = (r, k')"
  shows "logs_kept k k' \<and> (case r of Inr row \<Rightarrow> is_failed row \<or> plan_log_exists (c_id c) period k' | Inl _ \<Rightarrow> True)"
proof -
  obtain x k1 where d: "draft_and_log now planner (c_id c) period s e k = (x, k1)" by (metis surj_pair)
  note d' = draft_and_log_logs [OF d]
  have kept: "logs_kept k k1" using d' by (auto simp: logs_kept_def)
  show ?thesis
  proof (cases x)
    case (Inl err)
    then show ?thesis using assms kept by (auto simp: generate_month_def Let_def d is_failed_def)
  next
    case (Inr n)
    then have log: "plan_log_exists (c_id c) period k1" using d' by simp
    show ?thesis
    proof (cases "notify_client_team now (c_id c) (plan_ready_notice c period n) k1")
      case (Inl err)
      then show ?thesis using assms kept Inr by (auto simp: generate_month_def Let_def d)
    next
      case r: (Inr y)
      then obtain m k2 where n: "notify_client_team now (c_id c) (plan_ready_notice c period n) k1 = Inr (m, k2)" by (cases y) simp
      have "k' = k2" using assms Inr n by (auto simp: generate_month_def Let_def d)
      moreover have "logs_kept k1 k2" "plan_log_exists (c_id c) period k2"
        using notify_client_team_logs [OF n] log by (auto simp: logs_kept_def plan_log_exists_def)
      ultimately show ?thesis using kept logs_kept_trans by (auto split: sum.split)
    qed
  qed
qed

lemma auto_generate_logs:
  assumes "auto_generate offset now planner c k = (r, k')"
  shows "logs_kept k k' \<and> (case r of
      Inr (Some row) \<Rightarrow> is_failed row \<or>
        (\<exists>period s e. next_month_range (client_local_today offset (c_timezone c) now) = Inr (period, s, e) \<and>
          plan_log_exists (c_id c) period k')
    | _ \<Rightarrow> True)"
  using assms generate_month_logs
  by (fastforce simp: auto_generate_def split: if_splits sum.splits prod.splits)

text \<open>Two instants at which the sweep sees the same month of the client, and the same side of its 15th.\<close>

definition same_turn :: "(string \<Rightarrow> datetime \<Rightarrow> int) \<Rightarrow> datetime \<Rightarrow> datetime \<Rightarrow> client \<Rightarrow> bool" where
  "same_turn offset now now' c \<longleftrightarrow>
     auto_generation_due offset (c_timezone c) now' = auto_generation_due offset (c_timezone c) now \<and>
     next_month_range (client_local_today offset (c_timezone c) now') = next_month_range (client_local_today offset (c_timezone c) now)"

lemma auto_generate_again:
  assumes "auto_generate offset now planner c k = (Inr r, k1)" "logs_kept k1 k'" "same_turn offset now now' c"
    "case r of None \<Rightarrow> True | Some row \<Rightarrow> \<not> is_failed row"
  shows "\<exists>r'. auto_generate offset now' planner' c k' = (Inr r', k') \<and> (r' = None \<longleftrightarrow> r = None) \<and>
    (case r' of None \<Rightarrow> True | Some row \<Rightarrow> ap_status row = Already_generated)"
proof (cases r)
  case None
  with assms(1) have "\<not> auto_generation_due offset (c_timezone c) now"
    by (auto simp: auto_generate_def split: if_splits sum.splits prod.splits)
  with assms(3) None show ?thesis by (simp add: auto_generate_def same_turn_def)
next
  case (Some row)
  then obtain period s e where
    m: "next_month_range (client_local_today offset (c_timezone c) now) = Inr (period, s, e)" "plan_log_exists (c_id c) period k1"
    using auto_generate_logs [OF assms(1)] assms(4) by auto
  moreover have "auto_generation_due offset (c_timezone c) now"
    using assms(1) Some by (auto simp: auto_generate_def split: if_splits)
  moreover have "plan_log_exists (c_id c) period k'" using m(2) assms(2) by (simp add: logs_kept_def)
  ultimately show ?thesis using assms(3) Some by (simp add: auto_generate_def same_turn_def)
qed

lemma auto_clients_logs: "auto_clients offset now planner cs k = (r, k') \<Longrightarrow> logs_kept k k'"
proof (induction cs arbitrary: k r)
  case (Cons c cs)
  obtain x k1 where one: "auto_generate offset now planner c k = (x, k1)" by (metis surj_pair)
  obtain y k2 where rest: "auto_clients offset now planner cs k1 = (y, k2)" by (metis surj_pair)
  have "k2 = k'" using Cons.prems by (simp add: one rest)
  with Cons.IH rest auto_generate_logs [OF one] logs_kept_trans show ?case by blast
qed simp

lemma auto_clients_again:
  assumes "auto_clients offset now planner cs k = (Inr rows, k1)" "logs_kept k1 k'" "list_all (same_turn offset now now') cs"
    "list_all (\<lambda>row. \<not> is_failed row) rows"
  shows "\<exists>rows'. auto_clients offset now' planner' cs k' = (Inr rows', k') \<and> length rows' = length rows \<and>
    list_all (\<lambda>row. ap_status row = Already_generated) rows'"
  using assms
proof (induction cs arbitrary: k rows)
  case (Cons c cs)
  obtain x ka where one: "auto_generate offset now planner c k = (x, ka)" by (metis surj_pair)
  obtain y kb where rest: "auto_clients offset now planner cs ka = (y, kb)" by (metis surj_pair)
  from Cons.prems(1) obtain r rest_rows where
    x: "x = Inr r" and y: "y = Inr rest_rows" and rows: "rows = (case r of None \<Rightarrow> rest_rows | Some z \<Rightarrow> z # rest_rows)" and "kb = k1"
    by (auto simp: one rest result_simps)
  have kept: "logs_kept ka k'"
    using auto_clients_logs [OF rest] Cons.prems(2) \<open>kb = k1\<close> logs_kept_trans by blast
  have ok: "case r of None \<Rightarrow> True | Some row \<Rightarrow> \<not> is_failed row" "list_all (\<lambda>row. \<not> is_failed row) rest_rows"
    using Cons.prems(4) rows by (auto split: option.splits)
  have turn: "same_turn offset now now' c" "list_all (same_turn offset now now') cs" using Cons.prems(3) by simp_all
  from auto_generate_again [OF one [unfolded x] kept turn(1) ok(1)] obtain r' where
    r': "auto_generate offset now' planner' c k' = (Inr r', k')" "r' = None \<longleftrightarrow> r = None"
      "case r' of None \<Rightarrow> True | Some row \<Rightarrow> ap_status row = Already_generated" by blast
  from Cons.IH [OF rest [unfolded y \<open>kb = k1\<close>] Cons.prems(2) turn(2) ok(2)] obtain rows' where
    "auto_clients offset now' planner' cs k' = (Inr rows', k')" "length rows' = length rest_rows"
      "list_all (\<lambda>row. ap_status row = Already_generated) rows'" by blast
  then show ?case using r' rows by (cases r; cases r') simp_all
qed simp


text \<open>A sweep in the middle of March, of one client and a provider that proposes one post.\<close>

definition mid_march :: datetime where
  "mid_march = 1773705600000000"

definition one_post :: planner where
  "one_post _ _ = Ai_payload [(''items'', AList [AObj [(''title'', AStr ''Spring'')]])]"

definition spring_item :: proposed_item where
  "spring_item = \<lparr>pi_title = ''Spring'', pi_event_date = 739721, pi_platform = DEFAULT_PLATFORM,
     pi_category = DEFAULT_CATEGORY, pi_content_format = None, pi_caption = None, pi_hashtags = None, pi_suggested_role = None\<rparr>"

lemma one_post_answer: "generate_range (one_post request d) 739707 739736 = Inr [spring_item]"
proof -
  have none: "clean_str n None = None" for n by (simp add: clean_str_def)
  have title: "clean_str 200 (Some (AStr ''Spring'')) = Some ''Spring''" by code_simp
  have day: "parse_and_clamp_date None 739707 739736 = 739721" by code_simp
  have "member_or VALID_PLATFORMS DEFAULT_PLATFORM None = Inr DEFAULT_PLATFORM"
      "member_or VALID_CATEGORIES DEFAULT_CATEGORY None = Inr DEFAULT_CATEGORY" by (simp_all add: member_or_def)
  then show ?thesis
    by (simp add: one_post_def generate_range_def parse_items_def MAX_RANGE_ITEMS_def parse_one_item_def none title day spring_item_def)
qed

lemma one_post_drafts:
  "propose_range now one_post cid [] 739707 739736 user assignee k = add_drafts now cid user assignee [spring_item] k"
  by (simp add: propose_range_def one_post_answer)

lemma march_today: "client_local_today (\<lambda>_ _. 0) None mid_march = ordinal 2026 3 17"
proof -
  have "ordinal 2026 3 17 = 739692" by code_simp
  then show ?thesis by (simp add: client_local_today_def local_now_def mid_march_def DAY_def EPOCH_ORDINAL_def)
qed

lemma march_turn:
  "auto_generation_due (\<lambda>_ _. 0) None mid_march"
  "next_month_range (client_local_today (\<lambda>_ _. 0) None mid_march) = Inr (''2026-04'', 739707, 739736)"
proof -
  have v: "valid_ymd 2026 3 17" by code_simp
  show "auto_generation_due (\<lambda>_ _. 0) None mid_march"
    by (simp add: auto_generation_due_def march_today ymd_of_ordinal [OF v] DUE_DAY_OF_MONTH_def)
  have "month_window 2026 4 = Some (739707, 739736)" by code_simp
  moreover have "field_text 4 2026 @ ''-'' @ field_text 2 4 = ''2026-04''" by code_simp
  ultimately show "next_month_range (client_local_today (\<lambda>_ _. 0) None mid_march) = Inr (''2026-04'', 739707, 739736)"
    by (simp add: next_month_range_def march_today ymd_of_ordinal [OF v])
qed

lemma march_sweep:
  "\<exists>row k'. run_auto_plan_generation_sweep (\<lambda>_ _. 0) mid_march one_post plan_desk =
     (Inr \<lparr>aw_clients = 1, aw_generated = 1, aw_skipped = 0, aw_failed = 0, aw_details = [row]\<rparr>, k')"
proof -
  let ?log = "\<lparr>gl_client_id = 7, gl_period = ''2026-04'', gl_item_count = 1, gl_generated_at = mid_march\<rparr>"
  have "case add_drafts mid_march 7 None None [spring_item] plan_desk of Inl err \<Rightarrow> False
      | Inr (xs, k1) \<Rightarrow> length xs = 1 \<and> list_for_client_rows 7 (dk_db k1) = [] \<and>
          desk_constraints (k1\<lparr>dk_plan_logs := dk_plan_logs k1 @ [?log]\<rparr>)" by code_simp
  then obtain xs k1 where a: "add_drafts mid_march 7 None None [spring_item] plan_desk = Inr (xs, k1)"
    and k1: "length xs = 1" "list_for_client_rows 7 (dk_db k1) = []" "desk_constraints (k1\<lparr>dk_plan_logs := dk_plan_logs k1 @ [?log]\<rparr>)"
    by (cases "add_drafts mid_march 7 None None [spring_item] plan_desk") auto
  define k' where "k' = k1\<lparr>dk_plan_logs := dk_plan_logs k1 @ [?log]\<rparr>"
  have d: "draft_and_log mid_march one_post 7 ''2026-04'' 739707 739736 plan_desk = (Inr 1, k')"
    using k1 unfolding draft_and_log_def one_post_drafts a by (simp add: plan_log_add_def desk_flush_def k'_def)
  have k': "list_for_client_rows 7 (dk_db k') = []" "desk_constraints k'" using k1 by (simp_all add: k'_def)
  then have "notify_client_team mid_march 7 (plan_ready_notice (sample_client 7) ''2026-04'' 1) k' = Inr (0, k')"
    by (simp add: notify_client_team_def desk_flush_def)
  then obtain row where g: "generate_month mid_march one_post (sample_client 7) ''2026-04'' 739707 739736 plan_desk = (Inr row, k')"
    and row: "is_generated row" "\<not> is_failed row"
    using d by (simp add: generate_month_def Let_def sample_client_def is_generated_def is_failed_def)
  have "\<not> plan_log_exists 7 ''2026-04'' plan_desk" "active_clients (dk_db plan_desk) = [sample_client 7]"
      "c_timezone (sample_client 7) = None" "c_id (sample_client 7) = 7" by code_simp+
  then have "auto_generate (\<lambda>_ _. 0) mid_march one_post (sample_client 7) plan_desk = (Inr (Some row), k')"
    by (simp add: auto_generate_def march_turn g)
  then show ?thesis
    using row \<open>active_clients (dk_db plan_desk) = [sample_client 7]\<close> by (simp add: run_auto_plan_generation_sweep_def)
qed


section \<open>Two ticks at once\<close>

text \<open>
  C40. The unique row of the log is no guard against two overlapping sweeps. When both have looked at the
  log before either wrote to it, the second drafts the whole month again, commits it, and only then is
  refused its row: its plan stays on the board beside the first.
\<close>

theorem overlapping_ticks_draft_twice:
  assumes "draft_and_log now planner cid period s e k = (Inr n, k1)"
    "propose_range now' planner' cid [] s e None None k1 = Inr (xs, k2)"
  shows "draft_and_log now' planner' cid period s e k1 = (Inl (Crash ''DBAPIError''), k2) \<and>
    1 \<le> n \<and> 1 \<le> length xs \<and> length (d_tasks (dk_db k2)) = length (d_tasks (dk_db k)) + n + length xs"
proof -
  from draft_and_log_Inr [OF assms(1)] obtain ys k0 where
    first: "propose_range now planner cid [] s e None None k = Inr (ys, k0)" "n = length ys"
    and k1: "k1 = k0\<lparr>dk_plan_logs := dk_plan_logs k0 @ [\<lparr>gl_client_id = cid, gl_period = period, gl_item_count = n, gl_generated_at = now\<rparr>]\<rparr>"
    by blast
  have tasks: "d_tasks (dk_db k1) = d_tasks (dk_db k) @ map fst ys" "1 \<le> length ys"
    using propose_range_stores [OF first(1)] by (auto simp: k1)
  have second: "d_tasks (dk_db k2) = d_tasks (dk_db k1) @ map fst xs" "1 \<le> length xs"
    using propose_range_stores [OF assms(2)] by auto
  have "dk_plan_logs k2 = dk_plan_logs k1" by (rule same_elsewhere_simps(1) [OF drafting_elsewhere [OF assms(2)]])
  then have "\<not> desk_constraints (k2\<lparr>dk_plan_logs := dk_plan_logs k2 @ [\<lparr>gl_client_id = cid, gl_period = period,
      gl_item_count = m, gl_generated_at = now'\<rparr>]\<rparr>)" for m
    by (simp add: k1 desk_constraints_def)
  then have "draft_and_log now' planner' cid period s e k1 = (Inl (Crash ''DBAPIError''), k2)"
    by (simp add: draft_and_log_def assms(2) plan_log_add_def desk_flush_def)
  with tasks second first(2) show ?thesis by simp
qed

lemma march_twice:
  "\<exists>k1 ys k2. draft_and_log mid_march one_post 7 ''2026-04'' 739707 739736 plan_desk = (Inr 1, k1) \<and>
     propose_range mid_march one_post 7 [] 739707 739736 None None k1 = Inr (ys, k2) \<and> length ys = 1"
proof -
  let ?log = "\<lparr>gl_client_id = 7, gl_period = ''2026-04'', gl_item_count = 1, gl_generated_at = mid_march\<rparr>"
  have "case add_drafts mid_march 7 None None [spring_item] plan_desk of Inl err \<Rightarrow> False
      | Inr (xs, k1) \<Rightarrow> length xs = 1 \<and> desk_constraints (k1\<lparr>dk_plan_logs := dk_plan_logs k1 @ [?log]\<rparr>) \<and>
          (case add_drafts mid_march 7 None None [spring_item] (k1\<lparr>dk_plan_logs := dk_plan_logs k1 @ [?log]\<rparr>) of
             Inl err \<Rightarrow> False | Inr (ys, k2) \<Rightarrow> length ys = 1)" by code_simp
  then obtain xs k1 where a: "add_drafts mid_march 7 None None [spring_item] plan_desk = Inr (xs, k1)"
    and k1: "length xs = 1" "desk_constraints (k1\<lparr>dk_plan_logs := dk_plan_logs k1 @ [?log]\<rparr>)"
      "case add_drafts mid_march 7 None None [spring_item] (k1\<lparr>dk_plan_logs := dk_plan_logs k1 @ [?log]\<rparr>) of
         Inl err \<Rightarrow> False | Inr (ys, k2) \<Rightarrow> length ys = 1"
    by (cases "add_drafts mid_march 7 None None [spring_item] plan_desk") auto
  have "draft_and_log mid_march one_post 7 ''2026-04'' 739707 739736 plan_desk = (Inr 1, k1\<lparr>dk_plan_logs := dk_plan_logs k1 @ [?log]\<rparr>)"
    using k1 unfolding draft_and_log_def one_post_drafts a by (simp add: plan_log_add_def desk_flush_def)
  then show ?thesis using k1(3) unfolding one_post_drafts by (auto split: sum.splits)
qed

theorem overlapping_ticks_draft_twice_witness:
  "case draft_and_log mid_march one_post 7 ''2026-04'' 739707 739736 plan_desk of
     (r, k1) \<Rightarrow> (case draft_and_log mid_march one_post 7 ''2026-04'' 739707 739736 k1 of
       (r', k2) \<Rightarrow> r = Inr 1 \<and> r' = Inl (Crash ''DBAPIError'') \<and> length (d_tasks (dk_db k2)) = 2)"
proof -
  obtain k1 ys k2 where run: "draft_and_log mid_march one_post 7 ''2026-04'' 739707 739736 plan_desk = (Inr 1, k1)"
    "propose_range mid_march one_post 7 [] 739707 739736 None None k1 = Inr (ys, k2)" and "length ys = 1"
    using march_twice by blast
  moreover have "d_tasks (dk_db plan_desk) = []" by (simp add: plan_desk_def empty_desk_def empty_db_def)
  ultimately show ?thesis using overlapping_ticks_draft_twice [OF run] unfolding run(1) prod.case by simp
qed

section \<open>A name too long to announce\<close>

text \<open>
  The plan of a client whose name is too long for the title of the notification is drafted and logged, and
  then the whole sweep fails; the log keeps later sweeps from telling the team.
\<close>

lemma team_notice_stops_sweep:
  assumes "generate_month now planner c period s e k = (r, k')" "draft_and_log now planner (c_id c) period s e k = (Inr n, k1)"
    "c_name c = Some name" "153 < length name" "list_for_client_rows (c_id c) (dk_db k1) \<noteq> []"
  shows "r = Inl (Crash ''DBAPIError'') \<and> k' = k1 \<and> plan_log_exists (c_id c) period k'"
proof -
  let ?nt = "(plan_ready_notice c period n)\<lparr>nt_client_id := Some (c_id c)\<rparr>"
  let ?step = "\<lambda>k a. snd (deliver_notice now (a_user_id a) ?nt k)"
  have "200 < length (nt_title ?nt)" using assms(3,4) by (simp add: plan_ready_notice_def)
  moreover obtain as a where "list_for_client_rows (c_id c) (dk_db k1) = as @ [a]"
    using assms(5) by (meson rev_exhaust)
  ultimately have "\<not> desk_constraints (foldl ?step k1 (list_for_client_rows (c_id c) (dk_db k1)))"
    using long_delivered_refused by simp
  then have "notify_client_team now (c_id c) (plan_ready_notice c period n) k1 = Inl (Crash ''DBAPIError'')"
    by (simp add: notify_client_team_def desk_flush_def)
  then show ?thesis
    using assms(1,2) draft_and_log_logs [OF assms(2)] by (simp add: generate_month_def Let_def)
qed

end
