(* ===== verification/Assistant.thy ===== *)
theory Assistant
  imports Complex_Main Auto_Plan Command_Agent
begin

text \<open>
  The chat of a client: \<^verbatim>\<open>ai_chat_repository.py\<close>, \<^verbatim>\<open>plan_chat_intent.py\<close> and
  \<^verbatim>\<open>assistant_service.py\<close>. A turn answers, drafts a content plan or stages a change proposal.
  The model behind the chat, the retrieval that grounds an answer and the storage of uploads are
  parameters, collected in \<open>chat_world\<close>.
\<close>

section \<open>Chats and messages\<close>

datatype ai_role = Air_user | Air_assistant | Air_system

fun ai_role_value :: "ai_role \<Rightarrow> string" where
  "ai_role_value Air_user = ''user''"
| "ai_role_value Air_assistant = ''assistant''"
| "ai_role_value Air_system = ''system''"

record attachment =
  at_upload_id :: uuid
  at_filename :: string
  at_content_type :: "string option"
  at_size_bytes :: nat
  at_storage_key :: string

datatype card_status = Card_pending | Card_approved | Card_rejected

record plan_action =
  pa_status :: card_status
  pa_start_date :: date
  pa_end_date :: date
  pa_task_ids :: "uuid list"
  pa_items :: "(uuid \<times> string \<times> date) list"

text \<open>The sidecar of a message, with the keys the service writes.\<close>

record message_meta =
  mm_attachments :: "attachment list"
  mm_action :: "plan_action option"
  mm_proposal_id :: "uuid option"

definition empty_meta :: message_meta where
  "empty_meta = \<lparr>mm_attachments = [], mm_action = None, mm_proposal_id = None\<rparr>"

record ai_chat =
  ch_id :: uuid
  ch_client_id :: uuid
  ch_user_id :: uuid
  ch_title :: "string option"
  ch_context_type :: "string option"
  ch_context_key :: "string option"
  ch_created_at :: datetime
  ch_updated_at :: datetime

record ai_message =
  ms_id :: uuid
  ms_chat_id :: uuid
  ms_role :: ai_role
  ms_content :: string
  ms_tokens :: "nat option"
  ms_meta :: message_meta
  ms_created_at :: datetime

record room =
  rm_desk :: desk
  rm_chats :: "ai_chat list"
  rm_messages :: "ai_message list"

type_synonym 'a room_op = "room \<Rightarrow> exn + ('a \<times> room)"

definition chat_row_ok :: "room \<Rightarrow> ai_chat \<Rightarrow> bool" where
  "chat_row_ok r c \<longleftrightarrow> ch_client_id c \<in> c_id ` set (d_clients (dk_db (rm_desk r))) \<and>
     ch_user_id c \<in> u_id ` set (d_users (dk_db (rm_desk r))) \<and>
     len_ok 200 (ch_title c) \<and> len_ok 40 (ch_context_type c) \<and> len_ok 80 (ch_context_key c)"

definition room_constraints :: "room \<Rightarrow> bool" where
  "room_constraints r \<longleftrightarrow> desk_constraints (rm_desk r) \<and> distinct (map ch_id (rm_chats r)) \<and>
     list_all (chat_row_ok r) (rm_chats r) \<and> distinct (map ms_id (rm_messages r)) \<and>
     list_all (\<lambda>m. ms_chat_id m \<in> ch_id ` set (rm_chats r)) (rm_messages r)"

definition room_flush :: "unit room_op" where
  "room_flush r = (if room_constraints r then Inr ((), r) else Inl (Crash ''DBAPIError''))"

lemma room_flush_Inr [result_simps]: "room_flush r = Inr (u, r') \<longleftrightarrow> room_constraints r \<and> r' = r"
  by (auto simp: room_flush_def)

definition room_id :: "room \<Rightarrow> uuid \<times> room" where
  "room_id r = (next_id (rm_desk r), r\<lparr>rm_desk := use_id (rm_desk r)\<rparr>)"

text \<open>An operation on the desk, as one on the room around it.\<close>

definition on_desk :: "'a desk_op \<Rightarrow> 'a room_op" where
  "on_desk f r = bindR (f (rm_desk r)) (\<lambda>(x, k). Inr (x, r\<lparr>rm_desk := k\<rparr>))"

section \<open>Repository\<close>

definition create_chat_row :: "datetime \<Rightarrow> uuid \<Rightarrow> uuid \<Rightarrow> string option \<Rightarrow> string option \<Rightarrow> string option \<Rightarrow> ai_chat room_op" where
  "create_chat_row now cid uid title context_type context_key r =
     (let (i, r1) = room_id r;
          c = \<lparr>ch_id = i, ch_client_id = cid, ch_user_id = uid, ch_title = title, ch_context_type = context_type,
            ch_context_key = context_key, ch_created_at = now, ch_updated_at = now\<rparr> in
      bindR (room_flush (r1\<lparr>rm_chats := rm_chats r1 @ [c]\<rparr>)) (\<lambda>(_, r2). Inr (c, r2)))"

definition chat_for_client :: "uuid \<Rightarrow> uuid \<Rightarrow> room \<Rightarrow> ai_chat option" where
  "chat_for_client cid chat_id r = find (\<lambda>c. ch_id c = chat_id \<and> ch_client_id c = cid) (rm_chats r)"

definition list_chats_for_client :: "uuid \<Rightarrow> string option \<Rightarrow> nat \<Rightarrow> nat \<Rightarrow> room \<Rightarrow> ai_chat list \<times> nat" where
  "list_chats_for_client cid context_type offset limit r =
     (let rows = filter (\<lambda>c. ch_client_id c = cid \<and>
            (case context_type of None \<Rightarrow> True | Some t \<Rightarrow> t = [] \<or> ch_context_type c = Some t)) (rm_chats r) in
      (page_of offset limit (sort_key (\<lambda>c. - ch_updated_at c) rows), length rows))"

definition add_message :: "datetime \<Rightarrow> uuid \<Rightarrow> ai_role \<Rightarrow> string \<Rightarrow> message_meta \<Rightarrow> uuid room_op" where
  "add_message now chat_id role content meta r =
     (let (i, r1) = room_id r;
          m = \<lparr>ms_id = i, ms_chat_id = chat_id, ms_role = role, ms_content = content, ms_tokens = None,
            ms_meta = meta, ms_created_at = now\<rparr> in
      bindR (room_flush (r1\<lparr>rm_messages := rm_messages r1 @ [m]\<rparr>)) (\<lambda>(_, r2). Inr (i, r2)))"

definition get_message :: "uuid \<Rightarrow> uuid \<Rightarrow> room \<Rightarrow> ai_message option" where
  "get_message chat_id message_id r = find (\<lambda>m. ms_id m = message_id \<and> ms_chat_id m = chat_id) (rm_messages r)"

text \<open>The newest \<open>limit\<close> messages, oldest first.\<close>

definition list_messages :: "uuid \<Rightarrow> nat \<Rightarrow> room \<Rightarrow> ai_message list" where
  "list_messages chat_id limit r =
     rev (take limit (sort_key (\<lambda>m. - ms_created_at m) (filter (\<lambda>m. ms_chat_id m = chat_id) (rm_messages r))))"

definition list_messages_page :: "uuid \<Rightarrow> nat \<Rightarrow> nat \<Rightarrow> room \<Rightarrow> ai_message list \<times> nat" where
  "list_messages_page chat_id offset limit r =
     (let rows = filter (\<lambda>m. ms_chat_id m = chat_id) (rm_messages r) in
      (page_of offset limit (sort_key ms_created_at rows), length rows))"

definition delete_chat_row :: "uuid \<Rightarrow> unit room_op" where
  "delete_chat_row chat_id r = room_flush (r\<lparr>rm_chats := filter (\<lambda>c. ch_id c \<noteq> chat_id) (rm_chats r),
     rm_messages := filter (\<lambda>m. ms_chat_id m \<noteq> chat_id) (rm_messages r)\<rparr>)"

section \<open>Does the message ask for a content plan?\<close>

record plan_intent =
  in_wants :: bool
  in_ready :: bool
  in_start_date :: "date option"
  in_end_date :: "date option"
  in_question :: "string option"
  in_instructions :: "string option"
  in_assignee_hint :: "string option"

definition NOT_A_PLAN_REQUEST :: plan_intent where
  "NOT_A_PLAN_REQUEST = \<lparr>in_wants = False, in_ready = False, in_start_date = None, in_end_date = None,
     in_question = None, in_instructions = None, in_assignee_hint = None\<rparr>"

definition DEFAULT_CLARIFYING_QUESTION :: string where
  "DEFAULT_CLARIFYING_QUESTION = ''Sure -- what date range should this cover?''"

definition date_on_or_after :: "arg option \<Rightarrow> date \<Rightarrow> date option" where
  "date_on_or_after raw today = (case raw of
     Some (AStr s) \<Rightarrow> (case date_fromisoformat s of
         None \<Rightarrow> None | Some d \<Rightarrow> if today \<le> d then Some d else None)
   | _ \<Rightarrow> None)"

definition clean_text :: "arg option \<Rightarrow> string option" where
  "clean_text raw = (case raw of
     Some (AStr s) \<Rightarrow> (let t = strip s in if t = [] then None else Some (take 500 t))
   | _ \<Rightarrow> None)"

definition parse_intent :: "kwargs \<Rightarrow> date \<Rightarrow> plan_intent" where
  "parse_intent payload today =
     (if \<not> flag ''wants_content_plan'' payload then NOT_A_PLAN_REQUEST
      else
        let s = date_on_or_after (map_of payload ''start_date'') today;
            e = date_on_or_after (map_of payload ''end_date'') today;
            question = clean_text (map_of payload ''clarifying_question'') in
        if flag ''ready'' payload \<and> s \<noteq> None \<and> e \<noteq> None \<and> the s \<le> the e
        then \<lparr>in_wants = True, in_ready = True, in_start_date = s, in_end_date = e, in_question = None,
          in_instructions = clean_text (map_of payload ''content_instructions''),
          in_assignee_hint = clean_text (map_of payload ''assignee_hint'')\<rparr>
        else \<lparr>in_wants = True, in_ready = False, in_start_date = None, in_end_date = None,
          in_question = Some (case question of None \<Rightarrow> DEFAULT_CLARIFYING_QUESTION | Some q \<Rightarrow> q),
          in_instructions = None, in_assignee_hint = None\<rparr>)"

definition classify :: "ai_answer \<Rightarrow> string \<Rightarrow> date \<Rightarrow> plan_intent" where
  "classify answer message today = (if strip message = [] then NOT_A_PLAN_REQUEST
     else (case answer of Ai_payload payload \<Rightarrow> parse_intent payload today | _ \<Rightarrow> NOT_A_PLAN_REQUEST))"

section \<open>What a chat turn relies on\<close>

text \<open>
  The clock and the client's own day (\<open>cw_env\<close>), the provider behind each agent, the grounded answer
  with the snippets it used, the same as a stream (\<open>None\<close> unconfigured, else the pieces and whether it
  ended well), the owner's uploads and the permanent link of one.
\<close>

record stream_answer =
  sa_sources :: "string list"
  sa_fallback :: string
  sa_error_fallback :: string
  sa_deltas :: "(string list \<times> bool) option"

record chat_world =
  cw_env :: env
  cw_intent :: "string \<Rightarrow> (string \<times> string) list \<Rightarrow> date \<Rightarrow> db \<Rightarrow> ai_answer"
  cw_planner :: planner
  cw_tools :: tool_world
  cw_llm :: llm
  cw_answer :: "string \<Rightarrow> (string \<times> string) list \<Rightarrow> attachment list \<Rightarrow> db \<Rightarrow> string \<times> string list"
  cw_stream :: "string \<Rightarrow> (string \<times> string) list \<Rightarrow> db \<Rightarrow> stream_answer"
  cw_upload :: "uuid \<Rightarrow> uuid \<Rightarrow> exn + attachment"
  cw_permalink :: "uuid \<Rightarrow> string"

definition MAX_LLM_HISTORY_MESSAGES :: nat where
  "MAX_LLM_HISTORY_MESSAGES = 40"

definition MAX_PREVIEW_ITEMS :: nat where
  "MAX_PREVIEW_ITEMS = 8"

definition MAX_ATTACHMENTS :: nat where
  "MAX_ATTACHMENTS = 4"

definition READ_ONLY_CONTENT_PLAN_REPLY :: string where
  "READ_ONLY_CONTENT_PLAN_REPLY =
     ''Your account has read-only access on this client, so I can'' @ CHR 0x27 # ''t draft or change '' @
     ''the content calendar -- an admin or manager needs to do that. I'' @ CHR 0x27 # ''m happy to look '' @
     ''up existing plans, performance, or anything else for you.''"

section \<open>The chats of a client\<close>

definition require_chat :: "uuid \<Rightarrow> uuid \<Rightarrow> room \<Rightarrow> exn + ai_chat" where
  "require_chat cid chat_id r = some_or (not_found ''Chat not found.'') (chat_for_client cid chat_id r)"

definition list_chats :: "uuid \<Rightarrow> pagination \<Rightarrow> string option \<Rightarrow> room \<Rightarrow> ai_chat list \<times> nat" where
  "list_chats cid p context_type r = list_chats_for_client cid context_type (pg_offset p) (pg_page_size p) r"

definition create_chat :: "datetime \<Rightarrow> uuid \<Rightarrow> uuid \<Rightarrow> string option \<Rightarrow> string option \<Rightarrow> string option \<Rightarrow> ai_chat room_op" where
  "create_chat now cid uid title context_type context_key =
     create_chat_row now cid uid title
       (Some (case context_type of None \<Rightarrow> ''project'' | Some t \<Rightarrow> if t = [] then ''project'' else t)) context_key"

definition delete_chat :: "uuid \<Rightarrow> uuid \<Rightarrow> unit room_op" where
  "delete_chat cid chat_id r = bindR (require_chat cid chat_id r) (\<lambda>_. delete_chat_row chat_id r)"

record attachment_read =
  ar_attachment :: attachment
  ar_is_image :: bool
  ar_download_url :: string

record message_read =
  mr_id :: uuid
  mr_role :: ai_role
  mr_content :: string
  mr_created_at :: datetime
  mr_attachments :: "attachment_read list"
  mr_action :: "plan_action option"
  mr_proposal_id :: "uuid option"

definition read_attachment :: "(uuid \<Rightarrow> string) \<Rightarrow> attachment \<Rightarrow> attachment_read" where
  "read_attachment link a =
     (let content_type = (case at_content_type a of None \<Rightarrow> [] | Some t \<Rightarrow> t) in
      \<lparr>ar_attachment = a\<lparr>at_filename := (if at_filename a = [] then ''attachment'' else at_filename a),
           at_content_type := (if content_type = [] then None else Some content_type)\<rparr>,
       ar_is_image = (take 6 content_type = ''image/''), ar_download_url = link (at_upload_id a)\<rparr>)"

definition read_message :: "(uuid \<Rightarrow> string) \<Rightarrow> ai_message \<Rightarrow> message_read" where
  "read_message link m = \<lparr>mr_id = ms_id m, mr_role = ms_role m, mr_content = ms_content m,
     mr_created_at = ms_created_at m, mr_attachments = map (read_attachment link) (mm_attachments (ms_meta m)),
     mr_action = mm_action (ms_meta m), mr_proposal_id = mm_proposal_id (ms_meta m)\<rparr>"

definition get_chat_detail :: "chat_world \<Rightarrow> uuid \<Rightarrow> uuid \<Rightarrow> pagination \<Rightarrow> room \<Rightarrow> exn + ai_chat \<times> message_read list \<times> nat" where
  "get_chat_detail w cid chat_id p r =
     bindR (require_chat cid chat_id r) (\<lambda>c.
       let (ms, n) = list_messages_page chat_id (pg_offset p) (pg_page_size p) r in
       Inr (c, map (read_message (cw_permalink w)) ms, n))"

section \<open>Drafting a content plan from the chat\<close>

fun comma_separated :: "string list \<Rightarrow> string" where
  "comma_separated [] = []"
| "comma_separated [x] = x"
| "comma_separated (x # xs) = x @ '', '' @ comma_separated xs"

definition resolve_chat_assignee :: "uuid \<Rightarrow> string option \<Rightarrow> db \<Rightarrow> exn + uuid option \<times> string option" where
  "resolve_chat_assignee cid hint d = (case hint of
     None \<Rightarrow> Inr (None, None)
   | Some q \<Rightarrow>
       if q = [] then Inr (None, None)
       else (case find_users cid (Some (AStr q)) (AInt 10) d of
         Inl _ \<Rightarrow> Inl (Crash ''TypeError'')
       | Inr [] \<Rightarrow> Inr (None, Some (''I couldn'' @ CHR 0x27 # ''t find '' @ CHR 0x22 # q @ CHR 0x22 # '' on this client'' @ CHR 0x27 #
           ''s team, so it'' @ CHR 0x27 # ''s unassigned for now -- assign it from the Plan board.''))
       | Inr [u] \<Rightarrow> Inr (Some (u_id u), Some (''Assigned to '' @ u_name u @ ''.''))
       | Inr us \<Rightarrow> Inr (None, Some (CHR 0x22 # q @ CHR 0x22 # '' matched more than one person ('' @ comma_separated (map u_name us) @
           ''), so I left it unassigned -- assign it from the Plan board.''))))"

definition plan_card :: "date \<Rightarrow> date \<Rightarrow> drafted list \<Rightarrow> plan_action" where
  "plan_card s e items = \<lparr>pa_status = Card_pending, pa_start_date = s, pa_end_date = e,
     pa_task_ids = map (t_id \<circ> fst) items,
     pa_items = List.map_filter (\<lambda>(t, _). map_option (\<lambda>due. (t_id t, the (t_title t), due)) (t_due_date t))
       (take MAX_PREVIEW_ITEMS items)\<rparr>"

definition plan_reply :: "date \<Rightarrow> date \<Rightarrow> nat \<Rightarrow> string option \<Rightarrow> string" where
  "plan_reply s e n note = ''I'' @ CHR 0x27 # ''ve drafted '' @ digits n @ '' post(s) for '' @ isoformat s @ '' to '' @ isoformat e @
     '' -- take a look below and approve it, or let me know what to change.'' @
     (case note of None \<Rightarrow> [] | Some t \<Rightarrow> if t = [] then [] else CHR '' '' # t)"

definition EMPTY_PLAN_REPLY :: string where
  "EMPTY_PLAN_REPLY = ''I wasn'' @ CHR 0x27 # ''t able to draft anything for that range -- try describing '' @
     ''what you'' @ CHR 0x27 # ''d like differently, or a different date range.''"

definition generate_plan_from_chat :: "chat_world \<Rightarrow> uuid \<Rightarrow> plan_intent \<Rightarrow> user \<Rightarrow> (string \<times> plan_action option) room_op" where
  "generate_plan_from_chat w cid intent actor r =
     (let s = the (in_start_date intent); e = the (in_end_date intent) in
      bindR (resolve_chat_assignee cid (in_assignee_hint intent) (dk_db (rm_desk r))) (\<lambda>(assignee, note).
      bindR (on_desk (propose_range (e_now (cw_env w)) (cw_planner w) cid
               (case in_instructions intent of None \<Rightarrow> [] | Some t \<Rightarrow> t) s e (Some (u_id actor)) assignee) r) (\<lambda>(items, r').
        if items = [] then Inr ((EMPTY_PLAN_REPLY, None), r')
        else Inr ((plan_reply s e (length items) note, Some (plan_card s e items)), r'))))"

text \<open>\<open>None\<close> when the message is no plan request and the turn goes on.\<close>

definition maybe_handle_plan_request :: "chat_world \<Rightarrow> uuid \<Rightarrow> string \<Rightarrow> (string \<times> string) list \<Rightarrow> user \<Rightarrow>
    (string \<times> plan_action option) option room_op" where
  "maybe_handle_plan_request w cid content history actor r =
     (let today = e_today (cw_env w);
          intent = classify (cw_intent w content history today (dk_db (rm_desk r))) content today in
      if \<not> in_wants intent then Inr (None, r)
      else if u_role actor = Role_user then Inr (Some (READ_ONLY_CONTENT_PLAN_REPLY, None), r)
      else if \<not> in_ready intent then Inr (Some (the (in_question intent), None), r)
      else bindR (generate_plan_from_chat w cid intent actor r) (\<lambda>(x, r'). Inr (Some x, r')))"

end
