(* ===== verification/Chat_Turns.thy ===== *)
theory Chat_Turns
  imports Complex_Main Assistant
begin

text \<open>
  The turns of a chat (\<^verbatim>\<open>assistant_service.py\<close>, with the gates of its router): the
  unified turn in its plain and its streamed form, the older question and its stream, and the card of a
  drafted plan. What is committed before an error stays, so a turn returns its result and the room it
  leaves.
\<close>

section \<open>Opening a turn\<close>

fun read_uploads :: "(uuid \<Rightarrow> exn + attachment) \<Rightarrow> uuid list \<Rightarrow> exn + attachment list" where
  "read_uploads f [] = Inr []"
| "read_uploads f (i # is) = bindR (f i) (\<lambda>a. bindR (read_uploads f is) (\<lambda>as. Inr (a # as)))"

definition resolve_attachments :: "chat_world \<Rightarrow> user \<Rightarrow> uuid list \<Rightarrow> exn + attachment list option" where
  "resolve_attachments w user ids = (if ids = [] then Inr None
     else bindR (read_uploads (cw_upload w (u_id user)) (take MAX_ATTACHMENTS ids)) (\<lambda>as. Inr (Some as)))"

definition chat_history :: "uuid \<Rightarrow> room \<Rightarrow> (string \<times> string) list" where
  "chat_history chat_id r =
     map (\<lambda>m. (ai_role_value (ms_role m), ms_content m)) (list_messages chat_id MAX_LLM_HISTORY_MESSAGES r)"

definition open_turn :: "chat_world \<Rightarrow> uuid \<Rightarrow> uuid \<Rightarrow> user \<Rightarrow> string \<Rightarrow> uuid list \<Rightarrow>
    ((string \<times> string) list \<times> attachment list option) room_op" where
  "open_turn w cid chat_id user content ids r =
     bindR (require_chat cid chat_id r) (\<lambda>_.
     bindR (resolve_attachments w user ids) (\<lambda>files.
     bindR (add_message (e_now (cw_env w)) chat_id Air_user content
              (empty_meta\<lparr>mm_attachments := (case files of None \<Rightarrow> [] | Some as \<Rightarrow> as)\<rparr>) r) (\<lambda>(_, r').
       Inr ((chat_history chat_id r, files), r'))))"

section \<open>Closing a turn\<close>

definition put_chat :: "uuid \<Rightarrow> (ai_chat \<Rightarrow> ai_chat) \<Rightarrow> room \<Rightarrow> room" where
  "put_chat i f r = r\<lparr>rm_chats := update_by ch_id i f (rm_chats r)\<rparr>"

definition put_message :: "uuid \<Rightarrow> (ai_message \<Rightarrow> ai_message) \<Rightarrow> room \<Rightarrow> room" where
  "put_message i f r = r\<lparr>rm_messages := update_by ms_id i f (rm_messages r)\<rparr>"

definition set_meta :: "(message_meta \<Rightarrow> message_meta) \<Rightarrow> ai_message \<Rightarrow> ai_message" where
  "set_meta f m = m\<lparr>ms_meta := f (ms_meta m)\<rparr>"

record turn_response =
  rs_message_id :: uuid
  rs_reply :: string
  rs_proposal :: "change_proposal option"

definition finalize_command_turn :: "chat_world \<Rightarrow> uuid \<Rightarrow> uuid \<Rightarrow> user \<Rightarrow> string \<Rightarrow> turn_result \<Rightarrow> plan_action option \<Rightarrow>
    turn_response room_op" where
  "finalize_command_turn w cid chat_id user content result action r =
     bindR (require_chat cid chat_id r) (\<lambda>_.
     bindR (add_message (e_now (cw_env w)) chat_id Air_assistant (tr_reply result) empty_meta r) (\<lambda>(mid, r1).
       let r2 = put_message mid (set_meta (\<lambda>mm. mm\<lparr>mm_action := action\<rparr>))
                  (put_chat chat_id (\<lambda>c. c\<lparr>ch_updated_at := e_now (cw_env w)\<rparr>) r1) in
       if tr_operations result = [] then
         bindR (room_flush r2) (\<lambda>(_, r3).
           Inr (\<lparr>rs_message_id = mid, rs_reply = tr_reply result, rs_proposal = None\<rparr>, r3))
       else
         bindR (create_proposal (cw_env w) cid (Some chat_id) (Some mid) (u_id user) content (tr_reply result)
                  (tr_operations result) DEFAULT_TTL_MINUTES (dk_db (rm_desk r2))) (\<lambda>(p, d).
         bindR (room_flush (put_message mid (set_meta (\<lambda>mm. mm\<lparr>mm_proposal_id := Some (p_id p)\<rparr>))
                  (r2\<lparr>rm_desk := (rm_desk r2)\<lparr>dk_db := d\<rparr>\<rparr>))) (\<lambda>(_, r3).
           Inr (\<lparr>rs_message_id = mid, rs_reply = tr_reply result, rs_proposal = Some p\<rparr>, r3)))))"

text \<open>An operation that commits at its end: an error leaves the room as it was.\<close>

definition atomically :: "'a room_op \<Rightarrow> room \<Rightarrow> (exn + 'a) \<times> room" where
  "atomically f r = (case f r of Inl e \<Rightarrow> (Inl e, r) | Inr (x, r') \<Rightarrow> (Inr x, r'))"

section \<open>The unified turn\<close>

definition chat_agent :: "chat_world \<Rightarrow> uuid \<Rightarrow> user \<Rightarrow> db \<Rightarrow> agent" where
  "chat_agent w cid user d = \<lparr>ag_world = cw_tools w, ag_client = cid, ag_user = user, ag_view = (\<lambda>_. d), ag_llm = cw_llm w\<rparr>"

definition plain_reply :: "string \<Rightarrow> turn_result" where
  "plain_reply reply = \<lparr>tr_reply = reply, tr_operations = []\<rparr>"

definition run_command_turn :: "chat_world \<Rightarrow> uuid \<Rightarrow> uuid \<Rightarrow> user \<Rightarrow> string \<Rightarrow> uuid list \<Rightarrow> room \<Rightarrow>
    (exn + turn_response) \<times> room" where
  "run_command_turn w cid chat_id user content ids r = (case open_turn w cid chat_id user content ids r of
     Inl e \<Rightarrow> (Inl e, r)
   | Inr ((history, files), r1) \<Rightarrow>
       (case maybe_handle_plan_request w cid content history user r1 of
          Inl e \<Rightarrow> (Inl e, r1)
        | Inr (Some (reply, action), r2) \<Rightarrow>
            atomically (finalize_command_turn w cid chat_id user content (plain_reply reply) action) r2
        | Inr (None, r2) \<Rightarrow>
            (case files of
               Some as \<Rightarrow> atomically (finalize_command_turn w cid chat_id user content
                   (plain_reply (fst (cw_answer w content history as (dk_db (rm_desk r2))))) None) r2
             | None \<Rightarrow>
                 (case run_turn (chat_agent w cid user (dk_db (rm_desk r2))) (e_today (cw_env w)) content history of
                    Inl e \<Rightarrow> (Inl e, r2)
                  | Inr result \<Rightarrow> atomically (finalize_command_turn w cid chat_id user content result None) r2))))"

section \<open>The unified turn as a stream\<close>

datatype sse = Sse_sources "string list" | Sse_delta string | Sse_progress string
  | Sse_done uuid string "plan_action option" "change_proposal option"

record command_stream =
  cs_history :: "(string \<times> string) list"
  cs_immediate :: "(turn_result \<times> plan_action option) option"

definition begin_command_stream :: "chat_world \<Rightarrow> uuid \<Rightarrow> uuid \<Rightarrow> user \<Rightarrow> string \<Rightarrow> uuid list \<Rightarrow> room \<Rightarrow>
    (exn + command_stream) \<times> room" where
  "begin_command_stream w cid chat_id user content ids r = (case open_turn w cid chat_id user content ids r of
     Inl e \<Rightarrow> (Inl e, r)
   | Inr ((history, files), r1) \<Rightarrow>
       (case maybe_handle_plan_request w cid content history user r1 of
          Inl e \<Rightarrow> (Inl e, r1)
        | Inr (Some (reply, action), r2) \<Rightarrow> (Inr \<lparr>cs_history = history, cs_immediate = Some (plain_reply reply, action)\<rparr>, r2)
        | Inr (None, r2) \<Rightarrow>
            (case files of
               Some as \<Rightarrow> (Inr \<lparr>cs_history = history, cs_immediate =
                   Some (plain_reply (fst (cw_answer w content history as (dk_db (rm_desk r2)))), None)\<rparr>, r2)
             | None \<Rightarrow> (Inr \<lparr>cs_history = history, cs_immediate = None\<rparr>, r2))))"

definition frame_of :: "stream_event \<Rightarrow> sse list" where
  "frame_of ev = (case ev of Ev_delta s \<Rightarrow> [Sse_delta s] | Ev_progress l \<Rightarrow> [Sse_progress l] | Ev_result _ \<Rightarrow> [])"

definition result_of :: "stream_event list \<Rightarrow> turn_result option" where
  "result_of evs = (case List.map_filter (\<lambda>ev. case ev of Ev_result t \<Rightarrow> Some t | _ \<Rightarrow> None) evs of
     [] \<Rightarrow> None | ts \<Rightarrow> Some (last ts))"

definition closing_frame :: "sse list \<Rightarrow> (exn + turn_response) \<times> room \<Rightarrow> (sse list \<times> exn option) \<times> room" where
  "closing_frame frames x = (case x of
     (Inl e, r) \<Rightarrow> ((frames, Some e), r)
   | (Inr resp, r) \<Rightarrow> ((frames @ [Sse_done (rs_message_id resp) (rs_reply resp) None (rs_proposal resp)], None), r))"

definition stream_command_events :: "chat_world \<Rightarrow> uuid \<Rightarrow> uuid \<Rightarrow> user \<Rightarrow> string \<Rightarrow> command_stream \<Rightarrow> room \<Rightarrow>
    (sse list \<times> exn option) \<times> room" where
  "stream_command_events w cid chat_id user content ctx r = (case cs_immediate ctx of
     Some (result, action) \<Rightarrow>
       closing_frame [Sse_delta (tr_reply result)]
         (atomically (finalize_command_turn w cid chat_id user content result action) r)
   | None \<Rightarrow>
       (case run_turn_stream (chat_agent w cid user (dk_db (rm_desk r))) (e_today (cw_env w)) content (cs_history ctx) of
          (evs, Some e) \<Rightarrow> ((concat (map frame_of evs), Some e), r)
        | (evs, None) \<Rightarrow>
            (case result_of evs of
               None \<Rightarrow> ((concat (map frame_of evs), Some (Crash ''AssertionError'')), r)
             | Some result \<Rightarrow> closing_frame (concat (map frame_of evs))
                 (atomically (finalize_command_turn w cid chat_id user content result None) r))))"

definition command_turn_stream :: "chat_world \<Rightarrow> uuid \<Rightarrow> uuid \<Rightarrow> user \<Rightarrow> string \<Rightarrow> uuid list \<Rightarrow> room \<Rightarrow>
    (sse list \<times> exn option) \<times> room" where
  "command_turn_stream w cid chat_id user content ids r = (case begin_command_stream w cid chat_id user content ids r of
     (Inl e, r1) \<Rightarrow> (([], Some e), r1)
   | (Inr ctx, r1) \<Rightarrow> stream_command_events w cid chat_id user content ctx r1)"

section \<open>The older question, plain and streamed\<close>

text \<open>Nothing of \<^verbatim>\<open>ask\<close> is committed before its end, unless a plan was drafted on the way.\<close>

definition save_answer :: "chat_world \<Rightarrow> uuid \<Rightarrow> string \<Rightarrow> plan_action option \<Rightarrow> uuid room_op" where
  "save_answer w chat_id reply action r =
     bindR (add_message (e_now (cw_env w)) chat_id Air_assistant reply (empty_meta\<lparr>mm_action := action\<rparr>) r) (\<lambda>(mid, r1).
     bindR (room_flush (put_chat chat_id (\<lambda>c. c\<lparr>ch_updated_at := e_now (cw_env w)\<rparr>) r1)) (\<lambda>(_, r2).
       Inr (mid, r2)))"

definition message_in :: "chat_world \<Rightarrow> uuid \<Rightarrow> uuid \<Rightarrow> room \<Rightarrow> exn + message_read" where
  "message_in w chat_id mid r =
     bindR (some_or (Crash ''InvalidRequestError'') (get_message chat_id mid r)) (\<lambda>m. Inr (read_message (cw_permalink w) m))"

definition ask :: "chat_world \<Rightarrow> uuid \<Rightarrow> uuid \<Rightarrow> user \<Rightarrow> string \<Rightarrow> uuid list \<Rightarrow> room \<Rightarrow>
    (exn + message_read \<times> string list) \<times> room" where
  "ask w cid chat_id user content ids r = (case open_turn w cid chat_id user content ids r of
     Inl e \<Rightarrow> (Inl e, r)
   | Inr ((history, files), r1) \<Rightarrow>
       (case maybe_handle_plan_request w cid content history user r1 of
          Inl e \<Rightarrow> (Inl e, r)
        | Inr (Some (reply, action), r2) \<Rightarrow>
            (case bindR (save_answer w chat_id reply action r2) (\<lambda>(mid, r3).
                    bindR (message_in w chat_id mid r3) (\<lambda>m. Inr (m, r3))) of
               Inl e \<Rightarrow> (Inl e, if action = None then r else r2)
             | Inr (m, r3) \<Rightarrow> (Inr (m, []), r3))
        | Inr (None, r2) \<Rightarrow>
            (let (answer, sources) = cw_answer w content history (case files of None \<Rightarrow> [] | Some as \<Rightarrow> as) (dk_db (rm_desk r2)) in
             (case bindR (save_answer w chat_id answer None r2) (\<lambda>(mid, r3).
                     bindR (message_in w chat_id mid r3) (\<lambda>m. Inr (m, r3))) of
                Inl e \<Rightarrow> (Inl e, r)
              | Inr (m, r3) \<Rightarrow> (Inr (m, sources), r3)))))"

record answer_stream =
  as_immediate :: "(string \<times> plan_action option) option"
  as_prep :: stream_answer

definition begin_stream :: "chat_world \<Rightarrow> uuid \<Rightarrow> uuid \<Rightarrow> user \<Rightarrow> string \<Rightarrow> uuid list \<Rightarrow> room \<Rightarrow>
    (exn + answer_stream) \<times> room" where
  "begin_stream w cid chat_id user content ids r =
     (if ids \<noteq> [] then (Inl (bad_request (''Attachments are not supported on the streaming endpoint -- '' @
         ''POST to /messages instead.'')), r)
      else (case open_turn w cid chat_id user content [] r of
        Inl e \<Rightarrow> (Inl e, r)
      | Inr ((history, _), r1) \<Rightarrow>
          (case maybe_handle_plan_request w cid content history user r1 of
             Inl e \<Rightarrow> (Inl e, r1)
           | Inr (immediate, r2) \<Rightarrow>
               (Inr \<lparr>as_immediate = immediate, as_prep = cw_stream w content history (dk_db (rm_desk r2))\<rparr>, r2))))"

text \<open>\<^verbatim>\<open>_finalize\<close>: a chat that is gone is not bumped, but its message is then refused.\<close>

definition closing_answer :: "chat_world \<Rightarrow> uuid \<Rightarrow> string \<Rightarrow> plan_action option \<Rightarrow> sse list \<Rightarrow> room \<Rightarrow> (sse list \<times> exn option) \<times> room" where
  "closing_answer w chat_id reply action frames r = (case save_answer w chat_id reply action r of
     Inl e \<Rightarrow> ((frames, Some e), r)
   | Inr (mid, r') \<Rightarrow> ((frames @ [Sse_done mid reply action None], None), r'))"

definition stream_events :: "chat_world \<Rightarrow> uuid \<Rightarrow> uuid \<Rightarrow> answer_stream \<Rightarrow> room \<Rightarrow> (sse list \<times> exn option) \<times> room" where
  "stream_events w cid chat_id ctx r = (case as_immediate ctx of
     Some (reply, action) \<Rightarrow> closing_answer w chat_id reply action [Sse_sources [], Sse_delta reply] r
   | None \<Rightarrow>
       (let prep = as_prep ctx;
            parts = (case sa_deltas prep of
                None \<Rightarrow> [sa_fallback prep]
              | Some (deltas, ended_well) \<Rightarrow>
                  (let ds = filter (\<lambda>s. s \<noteq> []) deltas in
                   if \<not> ended_well \<and> ds = [] then [sa_error_fallback prep] else ds));
            answer = (if strip (concat parts) = [] then sa_error_fallback prep else strip (concat parts)) in
        closing_answer w chat_id answer None (Sse_sources (sa_sources prep) # map Sse_delta parts) r))"

section \<open>The card of a drafted plan\<close>

definition plan_draft_not_found :: exn where
  "plan_draft_not_found = not_found ''Plan draft message not found.''"

definition require_pending_action :: "uuid \<Rightarrow> uuid \<Rightarrow> uuid \<Rightarrow> room \<Rightarrow> exn + ai_message \<times> uuid list" where
  "require_pending_action cid chat_id message_id r =
     bindR (require_chat cid chat_id r) (\<lambda>_.
     bindR (some_or plan_draft_not_found (get_message chat_id message_id r)) (\<lambda>m.
     bindR (some_or plan_draft_not_found (mm_action (ms_meta m))) (\<lambda>action.
       if pa_status action \<noteq> Card_pending then Inl (bad_request ''This plan draft has already been resolved.'')
       else Inr (m, pa_task_ids action))))"

definition set_action_status :: "uuid \<Rightarrow> card_status \<Rightarrow> room \<Rightarrow> room" where
  "set_action_status message_id st =
     put_message message_id (set_meta (\<lambda>mm. mm\<lparr>mm_action := map_option (\<lambda>a. a\<lparr>pa_status := st\<rparr>) (mm_action mm)\<rparr>))"

definition approve_plan_draft :: "chat_world \<Rightarrow> uuid \<Rightarrow> uuid \<Rightarrow> uuid \<Rightarrow> user \<Rightarrow> message_read room_op" where
  "approve_plan_draft w cid chat_id message_id actor r =
     (if u_role actor = Role_user then Inl (forbidden ''Your account has read-only access and cannot approve changes.'')
      else bindR (require_pending_action cid chat_id message_id r) (\<lambda>(_, tids).
        bindR (on_desk (approve_batch cid tids (u_id actor)) r) (\<lambda>(_, r1).
        let r2 = set_action_status message_id Card_approved r1 in
        bindR (message_in w chat_id message_id r2) (\<lambda>m. Inr (m, r2)))))"

definition reject_plan_draft :: "chat_world \<Rightarrow> uuid \<Rightarrow> uuid \<Rightarrow> uuid \<Rightarrow> string \<Rightarrow> user \<Rightarrow> message_read room_op" where
  "reject_plan_draft w cid chat_id message_id reason actor r =
     (if u_role actor = Role_user then Inl (forbidden ''Your account has read-only access and cannot reject changes.'')
      else bindR (require_pending_action cid chat_id message_id r) (\<lambda>(_, tids).
        bindR (on_desk (reject_batch (e_now (cw_env w)) cid tids reason (u_id actor)) r) (\<lambda>(_, r1).
        let r2 = set_action_status message_id Card_rejected r1 in
        bindR (message_in w chat_id message_id r2) (\<lambda>m. Inr (m, r2)))))"

section \<open>The routes\<close>

text \<open>The gate of the router in front of the service, on the session's view of the database.\<close>

definition turn_route :: "chat_world \<Rightarrow> uuid \<Rightarrow> uuid \<Rightarrow> user \<Rightarrow> string \<Rightarrow> uuid list \<Rightarrow> room \<Rightarrow> (exn + turn_response) \<times> room" where
  "turn_route w cid chat_id user content ids r = (case get_client (dk_db (rm_desk r)) user cid of
     Inl e \<Rightarrow> (Inl e, r) | Inr _ \<Rightarrow> run_command_turn w cid chat_id user content ids r)"

definition approve_plan_route :: "chat_world \<Rightarrow> uuid \<Rightarrow> uuid \<Rightarrow> uuid \<Rightarrow> user \<Rightarrow> message_read room_op" where
  "approve_plan_route w cid chat_id message_id user r =
     bindR (require_capability (dk_db (rm_desk r)) user cid Cap_manage_calendar) (\<lambda>_.
       approve_plan_draft w cid chat_id message_id user r)"

definition reject_plan_route :: "chat_world \<Rightarrow> uuid \<Rightarrow> uuid \<Rightarrow> uuid \<Rightarrow> string \<Rightarrow> user \<Rightarrow> message_read room_op" where
  "reject_plan_route w cid chat_id message_id reason user r =
     bindR (require_capability (dk_db (rm_desk r)) user cid Cap_manage_calendar) (\<lambda>_.
       reject_plan_draft w cid chat_id message_id reason user r)"

definition propose_route :: "chat_world \<Rightarrow> uuid \<Rightarrow> user \<Rightarrow> string \<Rightarrow> int \<Rightarrow> int \<Rightarrow> drafted list room_op" where
  "propose_route w cid user prompt year mon r =
     bindR (require_capability (dk_db (rm_desk r)) user cid Cap_manage_calendar) (\<lambda>_.
       on_desk (propose_month (e_now (cw_env w)) (cw_planner w) (e_today (cw_env w)) cid prompt year mon (u_id user)) r)"

end
