(* ===== verification/Chat_Safety.thy ===== *)
theory Chat_Safety
  imports Complex_Main Chat_Turns
begin

text \<open>
  What a turn of the chat may change: nothing for a read-only account, the drafted plan and its card for a
  plan request, and the same in the plain and the streamed form. The life of a card, and the gate a drafted
  plan does not pass.
\<close>

section \<open>What a turn may touch\<close>

text \<open>Everything of a desk but the next identifier.\<close>

definition desk_untouched :: "desk \<Rightarrow> desk \<Rightarrow> bool" where
  "desk_untouched k k' \<longleftrightarrow> k'\<lparr>dk_db := (dk_db k')\<lparr>d_next_id := d_next_id (dk_db k)\<rparr>\<rparr> = k"

lemma desk_untouched_use_id [simp]: "desk_untouched k (use_id k)" "desk_untouched k k"
  by (simp_all add: desk_untouched_def use_id_def)

lemma desk_untouched_trans: "desk_untouched k k1 \<Longrightarrow> desk_untouched k1 k2 \<Longrightarrow> desk_untouched k k2"
  unfolding desk_untouched_def by (cases k; cases k1; cases k2; cases "dk_db k"; cases "dk_db k1"; cases "dk_db k2") auto

text \<open>A turn of one chat: only messages of the chat are new, and they carry neither a card nor a proposal.\<close>

definition only_talk :: "uuid \<Rightarrow> ai_message list \<Rightarrow> bool" where
  "only_talk chat_id ms \<longleftrightarrow>
     list_all (\<lambda>m. ms_chat_id m = chat_id \<and> mm_action (ms_meta m) = None \<and> mm_proposal_id (ms_meta m) = None) ms"

lemma add_message_effect:
  assumes "add_message now chat_id role content meta r = Inr (i, r')"
  shows "i = next_id (rm_desk r) \<and> room_constraints r' \<and> rm_desk r' = use_id (rm_desk r) \<and> rm_chats r' = rm_chats r \<and>
    rm_messages r' = rm_messages r @ [\<lparr>ms_id = i, ms_chat_id = chat_id, ms_role = role, ms_content = content,
      ms_tokens = None, ms_meta = meta, ms_created_at = now\<rparr>]"
  using assms by (auto simp: add_message_def room_id_def Let_def result_simps)

lemma open_turn_effect:
  assumes "open_turn w cid chat_id user content ids r = Inr ((history, files), r')"
  shows "desk_untouched (rm_desk r) (rm_desk r') \<and> rm_desk r' = use_id (rm_desk r) \<and> rm_chats r' = rm_chats r \<and> room_constraints r' \<and>
    (\<exists>m. rm_messages r' = rm_messages r @ [m] \<and> only_talk chat_id [m]) \<and> history = chat_history chat_id r"
  using assms by (auto simp: open_turn_def result_simps only_talk_def empty_meta_def dest!: add_message_effect)

lemma update_last:
  assumes "i \<notin> key ` set xs" "key x = i"
  shows "update_by key i f (xs @ [x]) = xs @ [f x]"
  using assms by (induction xs) auto

lemma finalize_no_change:
  assumes "finalize_command_turn w cid chat_id user content result None r = Inr (resp, r')" "tr_operations result = []"
  shows "desk_untouched (rm_desk r) (rm_desk r') \<and> (\<exists>m. rm_messages r' = rm_messages r @ [m] \<and> only_talk chat_id [m])"
proof -
  from assms obtain mid r1 where
    add: "add_message (e_now (cw_env w)) chat_id Air_assistant (tr_reply result) empty_meta r = Inr (mid, r1)"
    and r': "r' = put_message mid (set_meta (\<lambda>mm. mm\<lparr>mm_action := None\<rparr>)) (put_chat chat_id (\<lambda>c. c\<lparr>ch_updated_at := e_now (cw_env w)\<rparr>) r1)"
    by (auto simp: finalize_command_turn_def Let_def result_simps)
  note a = add_message_effect [OF add]
  have "mid \<notin> ms_id ` set (rm_messages r)" using a by (auto simp: room_constraints_def)
  then show ?thesis
    using a by (simp add: r' put_message_def put_chat_def update_last only_talk_def set_meta_def empty_meta_def)
qed

lemma atomically_cases: "atomically f r = (x, r') \<longleftrightarrow> (case x of Inl e \<Rightarrow> f r = Inl e \<and> r' = r | Inr y \<Rightarrow> f r = Inr (y, r'))"
  by (auto simp: atomically_def split: sum.splits)

lemma read_only_plan_request:
  assumes "u_role user = Role_user" "maybe_handle_plan_request w cid content history user r = Inr (x, r')"
  shows "r' = r \<and> (x = None \<or> x = Some (READ_ONLY_CONTENT_PLAN_REPLY, None))"
  using assms by (auto simp: maybe_handle_plan_request_def Let_def split: if_splits)

lemma read_only_plan_request_total: "u_role user = Role_user \<Longrightarrow> maybe_handle_plan_request w cid content history user r \<noteq> Inl e"
  by (simp add: maybe_handle_plan_request_def Let_def)

lemma read_only_turn_stages_nothing:
  assumes "u_role user = Role_user" "run_turn (chat_agent w cid user d) today content history = Inr t"
  shows "tr_operations t = []"
  using run_turn_well [OF assms(2)] assms(1) by (cases "tr_operations t") (auto simp: turn_stageable_def chat_agent_def)

lemma only_talk_append [simp]: "only_talk c (xs @ ys) \<longleftrightarrow> only_talk c xs \<and> only_talk c ys"
  by (simp add: only_talk_def)

text \<open>Opening a turn and closing it without an operation: two messages at most.\<close>

lemma talk_twice:
  assumes "desk_untouched (rm_desk r) (rm_desk r1)" "\<exists>m. rm_messages r1 = rm_messages r @ [m] \<and> only_talk chat_id [m]"
    "atomically (finalize_command_turn w cid chat_id user content result None) r1 = (res, r')" "tr_operations result = []"
  shows "desk_untouched (rm_desk r) (rm_desk r') \<and>
    (\<exists>new. rm_messages r' = rm_messages r @ new \<and> length new \<le> 2 \<and> only_talk chat_id new)"
proof (cases res)
  case (Inl e)
  then have "r' = r1" using assms(3) by (simp add: atomically_cases)
  with assms(1,2) show ?thesis by auto
next
  case (Inr resp)
  then have f: "finalize_command_turn w cid chat_id user content result None r1 = Inr (resp, r')"
    using assms(3) by (simp add: atomically_cases)
  from finalize_no_change [OF f assms(4)] assms(1,2) obtain m m' where
    "rm_messages r' = rm_messages r @ [m, m']" "only_talk chat_id [m, m']" "desk_untouched (rm_desk r1) (rm_desk r')"
    by (auto simp: only_talk_def)
  then show ?thesis using desk_untouched_trans [OF assms(1)] by (intro conjI exI [of _ "[m, m']"]) simp_all
qed

lemma read_only_turn:
  assumes role: "u_role user = Role_user" and run: "run_command_turn w cid chat_id user content ids r = (res, r')"
  shows "desk_untouched (rm_desk r) (rm_desk r') \<and>
    (\<exists>new. rm_messages r' = rm_messages r @ new \<and> length new \<le> 2 \<and> only_talk chat_id new)"
proof (cases "open_turn w cid chat_id user content ids r")
  case (Inl e)
  then show ?thesis using run by (auto simp: run_command_turn_def only_talk_def)
next
  case (Inr y)
  then obtain history files r1 where o: "open_turn w cid chat_id user content ids r = Inr ((history, files), r1)" by (cases y) auto
  note opened = open_turn_effect [OF o]
  then have u: "desk_untouched (rm_desk r) (rm_desk r1)" "\<exists>m. rm_messages r1 = rm_messages r @ [m] \<and> only_talk chat_id [m]" by auto
  obtain x where p: "maybe_handle_plan_request w cid content history user r1 = Inr (x, r1)"
      "x = None \<or> x = Some (READ_ONLY_CONTENT_PLAN_REPLY, None)"
    using read_only_plan_request [OF role] read_only_plan_request_total [OF role]
    by (cases "maybe_handle_plan_request w cid content history user r1") auto
  note close = talk_twice [OF u]
  show ?thesis
  proof (cases "x = None \<and> files = None")
    case True
    then show ?thesis
    proof (cases "run_turn (chat_agent w cid user (dk_db (rm_desk r1))) (e_today (cw_env w)) content history")
      case (Inl e)
      then have "r' = r1" using run o p True by (auto simp: run_command_turn_def)
      then show ?thesis using u by auto
    next
      case (Inr t)
      then show ?thesis
        using run o p True close [of w cid user content t] read_only_turn_stages_nothing [OF role Inr] by (auto simp: run_command_turn_def)
    qed
  next
    case False
    then obtain reply where "atomically (finalize_command_turn w cid chat_id user content (plain_reply reply) None) r1 = (res, r')"
      using run o p by (cases files) (auto simp: run_command_turn_def)
    then show ?thesis using close by (simp add: plain_reply_def)
  qed
qed

text \<open>
  C33. A read-only account changes nothing by chatting, whatever the model behind the chat answers: after
  the turn, failed or not, every row of the desk is as before, and the chat has at most two new messages,
  without a plan card and without a proposal.
\<close>

theorem read_only_chat_only_talks:
  assumes "u_role user = Role_user" "run_command_turn w cid chat_id user content ids r = (res, r')"
  shows "desk_untouched (rm_desk r) (rm_desk r') \<and>
    (\<exists>new. rm_messages r' = rm_messages r @ new \<and> length new \<le> 2 \<and> only_talk chat_id new)"
  by (rule read_only_turn [OF assms])

section \<open>The streamed turn\<close>

lemma result_of_snoc: "list_all (\<lambda>ev. \<not> is_result ev) pre \<Longrightarrow> result_of (pre @ [Ev_result t]) = Some t"
proof -
  assume "list_all (\<lambda>ev. \<not> is_result ev) pre"
  then have "List.map_filter (\<lambda>ev. case ev of Ev_result t \<Rightarrow> Some t | _ \<Rightarrow> None) pre = []"
    by (induction pre) (auto simp: is_result_def List.map_filter_def split: stream_event.splits)
  then show ?thesis by (simp add: result_of_def List.map_filter_def)
qed

text \<open>A plain result and the frames and the room of a stream that says the same.\<close>

definition streamed_as :: "(exn + turn_response) \<times> room \<Rightarrow> (sse list \<times> exn option) \<times> room \<Rightarrow> bool" where
  "streamed_as x y \<longleftrightarrow> snd y = snd x \<and> (case fst x of
     Inl e \<Rightarrow> snd (fst y) = Some e
   | Inr resp \<Rightarrow> snd (fst y) = None \<and> fst (fst y) \<noteq> [] \<and>
       last (fst (fst y)) = Sse_done (rs_message_id resp) (rs_reply resp) None (rs_proposal resp))"

lemma streamed_as_closing: "streamed_as x (closing_frame frames x)"
  by (cases x; cases "fst x") (auto simp: streamed_as_def closing_frame_def)

lemma streamed_as_error: "streamed_as (Inl e, r) ((frames, Some e), r)"
  by (simp add: streamed_as_def)

lemma stream_answered_turn:
  assumes "streams_completion (cw_llm w)"
  shows "streamed_as
    (case run_turn (chat_agent w cid user (dk_db (rm_desk r))) (e_today (cw_env w)) content history of
       Inl e \<Rightarrow> (Inl e, r) | Inr result \<Rightarrow> atomically (finalize_command_turn w cid chat_id user content result None) r)
    (stream_command_events w cid chat_id user content \<lparr>cs_history = history, cs_immediate = None\<rparr> r)"
proof -
  let ?ag = "chat_agent w cid user (dk_db (rm_desk r))" and ?today = "e_today (cw_env w)"
  have "streams_completion (ag_llm ?ag)" using assms by (simp add: chat_agent_def)
  then have e: "ends_as (run_turn ?ag ?today content history) (run_turn_stream ?ag ?today content history)" by (rule run_turn_streams)
  show ?thesis
  proof (cases "run_turn ?ag ?today content history")
    case (Inl err)
    then show ?thesis using e streamed_as_error
      by (auto simp: ends_as_def stream_command_events_def split: prod.splits)
  next
    case (Inr t)
    obtain evs x where "run_turn_stream ?ag ?today content history = (evs, x)" by (metis surj_pair)
    with e Inr obtain pre where "run_turn_stream ?ag ?today content history = (pre @ [Ev_result t], None)" "list_all (\<lambda>ev. \<not> is_result ev) pre"
      by (auto simp: ends_as_def)
    then show ?thesis using Inr by (simp add: stream_command_events_def result_of_snoc streamed_as_closing)
  qed
qed

text \<open>
  C35. The streamed turn does what the plain one does: when the provider's stream carries what its completion
  would answer, the turn leaves the very same room, rows and messages and proposal alike, and its last frame
  names the message, the reply and the proposal the plain turn returns; or it breaks off with its error.
\<close>

theorem streamed_chat_turn_agrees:
  assumes "streams_completion (cw_llm w)"
  shows "streamed_as (run_command_turn w cid chat_id user content ids r) (command_turn_stream w cid chat_id user content ids r)"
proof (cases "open_turn w cid chat_id user content ids r")
  case (Inl e)
  then show ?thesis by (simp add: run_command_turn_def command_turn_stream_def begin_command_stream_def streamed_as_error)
next
  case (Inr y)
  then obtain history files r1 where o: "open_turn w cid chat_id user content ids r = Inr ((history, files), r1)" by (cases y) auto
  show ?thesis
  proof (cases "maybe_handle_plan_request w cid content history user r1")
    case (Inl e)
    then show ?thesis using o by (simp add: run_command_turn_def command_turn_stream_def begin_command_stream_def streamed_as_error)
  next
    case (Inr z)
    then obtain x r2 where p: "maybe_handle_plan_request w cid content history user r1 = Inr (x, r2)" by (cases z) auto
    show ?thesis
    proof (cases "x = None \<and> files = None")
      case True
      then show ?thesis using o p stream_answered_turn [OF assms]
        by (simp add: run_command_turn_def command_turn_stream_def begin_command_stream_def)
    next
      case False
      then obtain result action where
        "run_command_turn w cid chat_id user content ids r = atomically (finalize_command_turn w cid chat_id user content result action) r2"
        "command_turn_stream w cid chat_id user content ids r = stream_command_events w cid chat_id user content
          \<lparr>cs_history = history, cs_immediate = Some (result, action)\<rparr> r2"
        using o p by (cases x; cases files)
          (auto simp: run_command_turn_def command_turn_stream_def begin_command_stream_def split: prod.splits)
      then show ?thesis by (simp add: stream_command_events_def streamed_as_closing)
    qed
  qed
qed

section \<open>The card of a drafted plan\<close>

lemma preview_ids:
  "list_all2 (is_draft cid u a) items xs \<Longrightarrow>
    map (\<lambda>(i, _, _). i) (List.map_filter (\<lambda>(t, _). map_option (\<lambda>due. (t_id t, the (t_title t), due)) (t_due_date t)) xs) =
    map (t_id \<circ> fst) xs"
  by (induction rule: list_all2_induct) (auto simp: is_draft_def List.map_filter_def split: option.splits)

lemma on_desk_Inr: "on_desk f r = Inr (x, r') \<longleftrightarrow> (\<exists>k. f (rm_desk r) = Inr (x, k) \<and> r' = r\<lparr>rm_desk := k\<rparr>)"
  by (auto simp: on_desk_def result_simps)

lemma classified_ready:
  assumes "in_wants (classify answer message today)" "in_ready (classify answer message today)"
  shows "\<exists>s e. in_start_date (classify answer message today) = Some s \<and> in_end_date (classify answer message today) = Some e \<and>
    today \<le> s \<and> s \<le> e"
  using assms
  by (auto simp: classify_def parse_intent_def NOT_A_PLAN_REQUEST_def Let_def date_on_or_after_def
      split: if_splits ai_answer.splits option.splits arg.splits)

lemma chat_drafts:
  assumes "maybe_handle_plan_request w cid content history actor r = Inr (Some (reply, Some plan), r')"
  shows "u_role actor \<noteq> Role_user \<and> e_today (cw_env w) \<le> pa_start_date plan \<and> pa_start_date plan \<le> pa_end_date plan \<and>
    pa_status plan = Card_pending \<and> rm_messages r' = rm_messages r \<and> rm_chats r' = rm_chats r \<and>
    map (\<lambda>(i, _, _). i) (pa_items plan) = take 8 (pa_task_ids plan) \<and>
    (\<exists>xs items assignee. pa_task_ids plan = map (t_id \<circ> fst) xs \<and> 1 \<le> length xs \<and> length xs \<le> 40 \<and>
      d_tasks (dk_db (rm_desk r')) = d_tasks (dk_db (rm_desk r)) @ map fst xs \<and>
      same_elsewhere (rm_desk r) (rm_desk r') \<and>
      list_all (item_ok (pa_start_date plan) (pa_end_date plan)) items \<and>
      list_all2 (is_draft cid (Some (u_id actor)) assignee) items xs)"
proof -
  define intent where "intent = classify (cw_intent w content history (e_today (cw_env w)) (dk_db (rm_desk r))) content (e_today (cw_env w))"
  have wants: "in_wants intent" "in_ready intent" "u_role actor \<noteq> Role_user"
    and g: "generate_plan_from_chat w cid intent actor r = Inr ((reply, Some plan), r')"
    using assms by (auto simp: maybe_handle_plan_request_def Let_def result_simps intent_def split: if_splits)
  obtain s e where se: "in_start_date intent = Some s" "in_end_date intent = Some e" "e_today (cw_env w) \<le> s" "s \<le> e"
    using classified_ready wants(1,2) unfolding intent_def by blast
  from g obtain assignee prompt xs k where
    p: "propose_range (e_now (cw_env w)) (cw_planner w) cid prompt s e (Some (u_id actor)) assignee (rm_desk r) = Inr (xs, k)"
    and r': "r' = r\<lparr>rm_desk := k\<rparr>" and plan: "plan = plan_card s e xs"
    by (auto simp: generate_plan_from_chat_def Let_def result_simps on_desk_Inr se split: if_splits)
  from propose_range_stores [OF p] obtain items where
    st: "1 \<le> length xs" "length xs \<le> 40" "d_tasks (dk_db k) = d_tasks (dk_db (rm_desk r)) @ map fst xs" "same_elsewhere (rm_desk r) k"
      "list_all (item_ok s e) items" "list_all2 (is_draft cid (Some (u_id actor)) assignee) items xs" by blast
  have "list_all2 (is_draft cid (Some (u_id actor)) assignee) (take 8 items) (take 8 xs)" by (rule list_all2_takeI [OF st(6)])
  then have "map (\<lambda>(i, _, _). i) (pa_items plan) = take 8 (pa_task_ids plan)"
    using preview_ids by (simp add: plan plan_card_def MAX_PREVIEW_ITEMS_def take_map)
  then show ?thesis using wants(3) se(3,4) st by (auto simp: r' plan plan_card_def)
qed


text \<open>A draft that is approved, or has no event to approve.\<close>

definition approved_draft :: "uuid \<Rightarrow> desk \<Rightarrow> uuid \<Rightarrow> bool" where
  "approved_draft cid k tid \<longleftrightarrow> (case require_task cid tid k of
     Inl _ \<Rightarrow> False
   | Inr t \<Rightarrow> (case event_of t k of None \<Rightarrow> True
       | Some ev \<Rightarrow> ev_approval_status ev = Approval_approved \<and> ev_stage ev = Some Stage_scheduled))"

lemma approved_event_simps [simp]:
  "ev_id (approved_event note a ev) = ev_id ev" "ev_approval_status (approved_event note a ev) = Approval_approved"
  "ev_stage (approved_event note a ev) = Some Stage_scheduled"
  by (simp_all add: approved_event_def log_event_def)

lemma event_of_put_linked:
  assumes "event_of t k = Some ev"
  shows "event_of t' (put_linked t (approved_event note a) k) =
    (if t_event_id t' = Some (ev_id ev) then map_option (approved_event note a) (event_of t' k) else event_of t' k)"
proof -
  have "find_by ev_id i (dk_events (put_linked t (approved_event note a) k)) =
      (if i = ev_id ev then map_option (approved_event note a) (find_by ev_id i (dk_events k)) else find_by ev_id i (dk_events k))" for i
    using assms by (simp add: put_linked_def put_event_def find_by_update_by)
  then show ?thesis by (auto simp: event_of_def split: option.splits)
qed

lemma require_task_put_linked [simp]: "require_task cid tid (put_linked t f k) = require_task cid tid k"
  by (simp add: require_task_def)

lemma approved_draft_put_linked:
  assumes "require_task cid tid k = Inr t"
  shows "approved_draft cid (put_linked t (approved_event note a) k) tid" "approved_draft cid k tid' \<Longrightarrow> approved_draft cid (put_linked t (approved_event note a) k) tid'"
proof -
  have at: "t_event_id t = Some (ev_id ev)" if "event_of t k = Some ev" for ev
    using that by (auto simp: event_of_def dest: find_by_key split: option.splits)
  show "approved_draft cid (put_linked t (approved_event note a) k) tid"
    using assms by (cases "event_of t k") (auto simp: approved_draft_def event_of_put_linked at, auto simp: put_linked_def)
  show "approved_draft cid k tid' \<Longrightarrow> approved_draft cid (put_linked t (approved_event note a) k) tid'"
  proof (cases "event_of t k")
    case None
    then show "approved_draft cid k tid' \<Longrightarrow> ?thesis" by (simp add: put_linked_def)
  next
    case (Some ev)
    then show "approved_draft cid k tid' \<Longrightarrow> ?thesis"
      by (auto simp: approved_draft_def event_of_put_linked split: sum.splits option.splits)
  qed
qed

lemma review_each_approves:
  assumes "review_each cid (\<lambda>t. put_linked t (approved_event note a)) tids k = Inr k'"
  shows "dk_db k' = dk_db k \<and> list_all (approved_draft cid k') tids \<and> (\<forall>tid. approved_draft cid k tid \<longrightarrow> approved_draft cid k' tid)"
  using assms
proof (induction tids arbitrary: k)
  case (Cons tid tids)
  from Cons.prems obtain t where t: "require_task cid tid k = Inr t"
    and rest: "review_each cid (\<lambda>t. put_linked t (approved_event note a)) tids (put_linked t (approved_event note a) k) = Inr k'"
    by (auto simp: result_simps)
  show ?case using Cons.IH [OF rest] approved_draft_put_linked [OF t] by auto
qed simp

lemma get_message_put:
  assumes "\<And>m. ms_id (f m) = ms_id m" "\<And>m. ms_chat_id (f m) = ms_chat_id m"
  shows "get_message chat_id i (put_message i f r) = map_option f (get_message chat_id i r)"
proof -
  have "find (\<lambda>m. ms_id m = i \<and> ms_chat_id m = chat_id) (update_by ms_id i f ms) =
      map_option f (find (\<lambda>m. ms_id m = i \<and> ms_chat_id m = chat_id) ms)" for ms
    using assms by (induction ms) auto
  then show ?thesis by (simp add: get_message_def put_message_def)
qed

lemma get_message_status:
  "get_message chat_id i (set_action_status i st r) =
    map_option (set_meta (\<lambda>mm. mm\<lparr>mm_action := map_option (\<lambda>a. a\<lparr>pa_status := st\<rparr>) (mm_action mm)\<rparr>)) (get_message chat_id i r)"
  unfolding set_action_status_def by (rule get_message_put) (simp_all add: set_meta_def)

lemma require_chat_status [simp]: "require_chat cid chat_id (set_action_status i st r) = require_chat cid chat_id r"
  by (simp add: require_chat_def chat_for_client_def set_action_status_def put_message_def)


section \<open>A deleted draft blocks the card\<close>

lemma missing_put_task:
  assumes "get_for_client cid tid (dk_db k) = None"
  shows "get_for_client cid tid (dk_db (put_task now i (\<lambda>t. t\<lparr>t_status := st\<rparr>) k)) = None"
  using assms by (auto simp: get_for_client_def put_task_def find_None_iff set_update_by touch_task_def)

lemma review_each_missing:
  assumes "\<And>t k. get_for_client cid tid (dk_db k) = None \<Longrightarrow> get_for_client cid tid (dk_db (f t k)) = None"
    "get_for_client cid tid (dk_db k) = None" "tid \<in> set tids"
  shows "review_each cid f tids k = Inl task_not_found"
  using assms(2,3)
proof (induction tids arbitrary: k)
  case (Cons x tids)
  show ?case
  proof (cases "get_for_client cid x (dk_db k)")
    case None
    then show ?thesis by (simp add: require_task_def)
  next
    case (Some t)
    then have "tid \<in> set tids" using Cons.prems by auto
    with Some Cons.IH assms(1) Cons.prems(1) show ?thesis by (simp add: require_task_def)
  qed
qed simp

text \<open>
  C38. One deleted task blocks the card for good. When any task a pending card names is gone from the board,
  the card can be neither approved nor discarded: both end in the same error, and the card stays pending.
\<close>

theorem deleted_draft_blocks_card:
  assumes "require_pending_action cid chat_id i r = Inr (m, tids)" "tid \<in> set tids"
    "get_for_client cid tid (dk_db (rm_desk r)) = None" "u_role actor \<noteq> Role_user"
  shows "approve_plan_draft w cid chat_id i actor r = Inl task_not_found \<and>
    reject_plan_draft w cid chat_id i reason actor r = Inl task_not_found"
proof -
  have "review_each cid (\<lambda>t. put_linked t f) tids (rm_desk r) = Inl task_not_found" for f
    by (rule review_each_missing [OF _ assms(3,2)]) simp
  moreover have "review_each cid (reject_task p now a why) tids (rm_desk r) = Inl task_not_found" for p now a why
    by (rule review_each_missing [OF _ assms(3,2)]) (simp add: reject_task_def missing_put_task)
  ultimately show ?thesis
    using assms(1,4) by (simp add: approve_plan_draft_def reject_plan_draft_def on_desk_def approve_batch_def reject_batch_def review_batch_def)
qed

section \<open>The gate of the calendar\<close>

text \<open>
  C34. The chat opens no way around the capabilities. The turn's route asks only for access to the client, and
  yet whoever changes anything of the desk through it, by a drafted plan or a staged proposal, holds every
  capability on the client, that of managing its calendar, which the route of the manual generation asks
  for, among them.
\<close>

theorem chat_change_needs_capability:
  assumes "\<not> desk_untouched (rm_desk r) (rm_desk (snd (turn_route w cid chat_id user content ids r)))"
  shows "\<exists>c. require_capability (dk_db (rm_desk r)) user cid cap = Inr c"
proof -
  obtain res r' where run: "run_command_turn w cid chat_id user content ids r = (res, r')" by (metis surj_pair)
  obtain c where c: "get_client (dk_db (rm_desk r)) user cid = Inr c"
    using assms by (cases "get_client (dk_db (rm_desk r)) user cid") (auto simp: turn_route_def)
  with assms run have "u_role user \<noteq> Role_user" using read_only_turn by (auto simp: turn_route_def)
  then have "effective_capabilities (dk_db (rm_desk r)) user cid = ALL_CAPABILITIES"
    using c by (cases "u_role user") (auto simp: effective_capabilities_def get_client_def can_access_def assignment_exists_def split: option.splits if_splits)
  then show ?thesis using c by (simp add: require_capability_def ALL_CAPABILITIES_def)
qed

section \<open>A chat that asks for the plan of April\<close>

definition chat_room :: room where
  "chat_room = \<lparr>
     rm_desk = empty_desk (empty_db\<lparr>d_users := [sample_user 1 Role_admin, sample_user 2 Role_user], d_clients := [sample_client 7]\<rparr>),
     rm_chats = [\<lparr>ch_id = 50, ch_client_id = 7, ch_user_id = 1, ch_title = None, ch_context_type = Some ''project'',
       ch_context_key = None, ch_created_at = 0, ch_updated_at = 0\<rparr>],
     rm_messages = []\<rparr>"

definition april_payload :: kwargs where
  "april_payload = [(''wants_content_plan'', ABool True), (''ready'', ABool True),
     (''start_date'', AStr ''2026-04-01''), (''end_date'', AStr ''2026-04-30'')]"

definition april_world :: chat_world where
  "april_world = \<lparr>cw_env = \<lparr>e_now = mid_march, e_today = 739692, e_intel_enabled = True\<rparr>,
     cw_intent = (\<lambda>_ _ _ _. Ai_payload april_payload), cw_planner = one_post, cw_tools = no_world,
     cw_llm = scripted [delete_call], cw_answer = (\<lambda>_ _ _ _. (''Yes.'', [])),
     cw_stream = (\<lambda>_ _ _. \<lparr>sa_sources = [], sa_fallback = [], sa_error_fallback = [], sa_deltas = None\<rparr>),
     cw_upload = (\<lambda>_ _. Inl (not_found ''Upload not found.'')), cw_permalink = (\<lambda>_. [])\<rparr>"

lemma april_intent: "classify (Ai_payload april_payload) ''Plan April'' 739692 =
  \<lparr>in_wants = True, in_ready = True, in_start_date = Some 739707, in_end_date = Some 739736, in_question = None,
    in_instructions = None, in_assignee_hint = None\<rparr>"
proof -
  have "strip ''Plan April'' \<noteq> []" by code_simp
  moreover have "date_fromisoformat ''2026-04-01'' = Some 739707" "date_fromisoformat ''2026-04-30'' = Some 739736" by code_simp+
  ultimately show ?thesis
    by (simp add: classify_def parse_intent_def april_payload_def flag_def if_true_def date_on_or_after_def clean_text_def)
qed

lemma april_open:
  "\<exists>history r1. open_turn april_world 7 50 (sample_user 1 Role_admin) ''Plan April'' [] chat_room = Inr ((history, None), r1)"
proof -
  have "case open_turn april_world 7 50 (sample_user 1 Role_admin) ''Plan April'' [] chat_room of
      Inr ((h, None), r1) \<Rightarrow> True | _ \<Rightarrow> False" by code_simp
  then show ?thesis by (auto split: sum.splits prod.splits option.splits)
qed

lemma april_drafts:
  "\<exists>history r1 reply plan r2. open_turn april_world 7 50 (sample_user 1 Role_admin) ''Plan April'' [] chat_room = Inr ((history, None), r1) \<and>
     maybe_handle_plan_request april_world 7 ''Plan April'' history (sample_user 1 Role_admin) r1 = Inr (Some (reply, Some plan), r2)"
proof -
  obtain history r1 where o: "open_turn april_world 7 50 (sample_user 1 Role_admin) ''Plan April'' [] chat_room = Inr ((history, None), r1)"
    using april_open by blast
  have "case add_drafts mid_march 7 (Some 1) None [spring_item] (use_id (rm_desk chat_room)) of Inl e \<Rightarrow> False
      | Inr (xs, k) \<Rightarrow> xs \<noteq> []" by code_simp
  then obtain xs k where a: "add_drafts mid_march 7 (Some 1) None [spring_item] (use_id (rm_desk chat_room)) = Inr (xs, k)" "xs \<noteq> []"
    by (auto split: sum.splits prod.splits)
  have "maybe_handle_plan_request april_world 7 ''Plan April'' history (sample_user 1 Role_admin) r1 =
      Inr (Some (plan_reply 739707 739736 (length xs) None, Some (plan_card 739707 739736 xs)), r1\<lparr>rm_desk := k\<rparr>)"
    using open_turn_effect [OF o] a
    by (simp add: maybe_handle_plan_request_def april_world_def april_intent generate_plan_from_chat_def resolve_chat_assignee_def
        on_desk_def one_post_drafts sample_user_def)
  with o show ?thesis by blast
qed


lemma april_turn_drafts:
  "\<not> desk_untouched (rm_desk chat_room) (rm_desk (snd (turn_route april_world 7 50 (sample_user 1 Role_admin) ''Plan April'' [] chat_room)))"
proof -
  let ?u = "sample_user 1 Role_admin"
  obtain history r1 reply plan r2 where
    o: "open_turn april_world 7 50 ?u ''Plan April'' [] chat_room = Inr ((history, None), r1)"
    and m: "maybe_handle_plan_request april_world 7 ''Plan April'' history ?u r1 = Inr (Some (reply, Some plan), r2)"
    using april_drafts by blast
  from chat_drafts [OF m] obtain xs :: "drafted list" where
    xs: "1 \<le> length xs" "d_tasks (dk_db (rm_desk r2)) = d_tasks (dk_db (rm_desk r1)) @ map fst xs" by blast
  let ?fin = "finalize_command_turn april_world 7 50 ?u ''Plan April'' (plain_reply reply) (Some plan)"
  have "\<exists>c. get_client (dk_db (rm_desk chat_room)) ?u 7 = Inr c"
    by (simp add: get_client_def chat_room_def empty_desk_def client_get_def sample_client_def can_access_def sample_user_def)
  then have run: "turn_route april_world 7 50 ?u ''Plan April'' [] chat_room = atomically ?fin r2"
    using o m by (auto simp: turn_route_def run_command_turn_def)
  have "d_tasks (dk_db (rm_desk (snd (atomically ?fin r2)))) = d_tasks (dk_db (rm_desk r2))"
    by (auto simp: atomically_def finalize_command_turn_def plain_reply_def Let_def result_simps put_message_def put_chat_def use_id_def
        dest!: add_message_effect split: sum.split)
  moreover have "d_tasks (dk_db (rm_desk r1)) = d_tasks (dk_db (rm_desk chat_room))"
    using open_turn_effect [OF o] by (simp add: use_id_def)
  moreover have "d_tasks (dk_db k') = d_tasks (dk_db k)" if "desk_untouched k k'" for k k'
    using that unfolding desk_untouched_def by (cases k; cases k'; cases "dk_db k"; cases "dk_db k'") auto
  ultimately show ?thesis using xs run by fastforce
qed

theorem chat_change_needs_capability_witness:
  "\<exists>c. require_capability (dk_db (rm_desk chat_room)) (sample_user 1 Role_admin) 7 Cap_manage_calendar = Inr c"
  by (rule chat_change_needs_capability [OF april_turn_drafts])

theorem read_only_chat_only_talks_witness:
  "desk_untouched (rm_desk chat_room)
     (rm_desk (snd (run_command_turn april_world 7 50 (sample_user 2 Role_user) ''Plan April'' [] chat_room)))"
proof -
  obtain res r' where run: "run_command_turn april_world 7 50 (sample_user 2 Role_user) ''Plan April'' [] chat_room = (res, r')"
    by (metis surj_pair)
  have "u_role (sample_user 2 Role_user) = Role_user" by (simp add: sample_user_def)
  from read_only_chat_only_talks [OF this run] show ?thesis by (simp add: run)
qed

theorem streamed_chat_turn_agrees_witness:
  "streamed_as (run_command_turn april_world 7 50 (sample_user 1 Role_admin) ''Delete it'' [] chat_room)
     (command_turn_stream april_world 7 50 (sample_user 1 Role_admin) ''Delete it'' [] chat_room)"
proof -
  have "streams_completion (cw_llm april_world)"
    by (simp add: april_world_def scripted_streams)
  then show ?thesis by (rule streamed_chat_turn_agrees)
qed

text \<open>A chat whose last message carries a pending card.\<close>

definition card_room :: "uuid list \<Rightarrow> room" where
  "card_room tids = chat_room\<lparr>
     rm_desk := (rm_desk chat_room)\<lparr>dk_db := (dk_db (rm_desk chat_room))\<lparr>d_tasks := [(sample_task 30 7)\<lparr>t_event_id := Some 40\<rparr>]\<rparr>,
       dk_events := [draft_event 40 7 (Some 1) spring_item]\<rparr>,
     rm_messages := [\<lparr>ms_id = 60, ms_chat_id = 50, ms_role = Air_assistant, ms_content = ''Drafted.'', ms_tokens = None,
       ms_meta = empty_meta\<lparr>mm_action := Some \<lparr>pa_status = Card_pending, pa_start_date = 739707, pa_end_date = 739736,
         pa_task_ids = tids, pa_items = []\<rparr>\<rparr>, ms_created_at = 0\<rparr>]\<rparr>"


theorem deleted_draft_blocks_card_witness:
  "approve_plan_draft april_world 7 50 60 (sample_user 1 Role_admin) (card_room [30, 31]) = Inl task_not_found \<and>
   reject_plan_draft april_world 7 50 60 ''Discarded from chat.'' (sample_user 1 Role_admin) (card_room [30, 31]) = Inl task_not_found"
proof -
  have "case require_pending_action 7 50 60 (card_room [30, 31]) of Inl e \<Rightarrow> False | Inr (m, tids) \<Rightarrow> tids = [30, 31]" by code_simp
  then obtain m where p: "require_pending_action 7 50 60 (card_room [30, 31]) = Inr (m, [30, 31])"
    by (auto split: sum.splits prod.splits)
  have "get_for_client 7 31 (dk_db (rm_desk (card_room [30, 31]))) = None" by code_simp
  moreover have "u_role (sample_user 1 Role_admin) \<noteq> Role_user" by (simp add: sample_user_def)
  ultimately show ?thesis using deleted_draft_blocks_card [OF p, of 31] by simp
qed

end
