(* ===== verification/Spec2Isabelle.thy ===== *)
theory Spec2Isabelle
  imports Job_Queue Rate_Limit Middleware Approval Rag_Index Web_Fetch Report_Mail Integrations Command_Agent Notifications Chat_Safety
begin

text \<open>
  A verification development for the backend of MarketingOS (\<^verbatim>\<open>src/app\<close>, Python, FastAPI over
  SQLAlchemy). The program serves clients of an agency: users sign in, are assigned clients with
  capabilities, edit profiles and a planning board, let an assistant stage changes that a human
  approves, and a worker compiles everything known of a client into a profile and rules that every
  agent must follow.

  The model. A request or a job is a function on an explicit state, the record \<open>db\<close> of
  \<^verbatim>\<open>Database\<close> (the tables as lists of rows), or a record around it for the tables fewer
  services share;
  an operation that may raise returns \<open>exn + 'a\<close>, where an \<open>AppError\<close> is one of the
  application's errors and a \<open>Crash\<close> any other exception. Code that commits several times, or
  that other processes can interrupt, is a step relation, and the properties are about all its
  reachable states. Timestamps are integers; identifiers are numbers with an injective text form.

  The theories and what they model.

  \<^item> \<^verbatim>\<open>Prelude\<close>: results, tables (\<^verbatim>\<open>repositories/base.py\<close>), strings,
    pagination (\<^verbatim>\<open>core/pagination.py\<close>); the locale of a repository.
  \<^item> \<^verbatim>\<open>Enums\<close>: \<^verbatim>\<open>models/enums.py\<close> and \<^verbatim>\<open>core/exceptions.py\<close>; the
    locale of a string enumeration, interpreted for each.
  \<^item> \<^verbatim>\<open>Database\<close>: the rows (\<^verbatim>\<open>models/\<close>), the request bodies
    (\<^verbatim>\<open>schemas/\<close>) and the constraints a flush checks.
  \<^item> \<^verbatim>\<open>Access\<close>: \<^verbatim>\<open>client_service.py\<close> and \<^verbatim>\<open>assignment_service.py\<close> with
    their repositories. Access and capability checks, listings, assignment. Properties: no leak between
    clients, the listing is the access relation, assigning grants and unassigning revokes exactly.
  \<^item> \<^verbatim>\<open>Rate_Limit\<close>: \<^verbatim>\<open>core/rate_limit.py\<close>. Both stores refine one reference
    sliding window; bounds in any window; forwarded headers.
  \<^item> \<^verbatim>\<open>Auth\<close>: \<^verbatim>\<open>auth_service.py\<close>, \<^verbatim>\<open>core/security.py\<close>,
    \<^verbatim>\<open>user_service.py\<close>. Tokens authenticate their owner until expiry, logout revokes, guesses
    are bounded. Password hashing and the JWT codec are parameters with their documented laws.
  \<^item> \<^verbatim>\<open>Audit_Trail\<close>: \<^verbatim>\<open>audit_service.py\<close>: diffs, the derived entity and action,
    listing and retention.
  \<^item> \<^verbatim>\<open>Middleware\<close>: \<^verbatim>\<open>core/middleware.py\<close> over lists of ASGI messages: the audit
    middleware is transparent, the body guard bounds, the fallback diff redacts.
  \<^item> \<^verbatim>\<open>Job_Queue\<close>: \<^verbatim>\<open>intelligence/job_queue.py\<close> and one turn of
    \<^verbatim>\<open>worker.py\<close>. The claim loop is a program of queries between which other workers commit;
    one running job per client, bounded retries, recovery of stale jobs, priority.
  \<^item> \<^verbatim>\<open>Client_Updates\<close>: the edits of clients, brands and users, with the rebuild they queue.
  \<^item> \<^verbatim>\<open>Plan\<close>: \<^verbatim>\<open>plan_service.py\<close> and its repository: the board, its windows and
    its invariants over any sequence of requests.
  \<^item> \<^verbatim>\<open>Proposals\<close>, \<^verbatim>\<open>Approval\<close>: \<^verbatim>\<open>proposal_service.py\<close>: staging
    by dry run, creation, rejection, approval with its fresh snapshots and replay; all or nothing, at
    most once, authorised, and a staged update does what was staged.
  \<^item> \<^verbatim>\<open>Chunking\<close>, \<^verbatim>\<open>Text_Extraction\<close>, \<^verbatim>\<open>Knowledge\<close>:
    \<^verbatim>\<open>chunking_service.py\<close>, \<^verbatim>\<open>integrations/documents/extractor.py\<close>,
    \<^verbatim>\<open>ingestion_service.py\<close>: what a client's file says, as sources with text.
  \<^item> \<^verbatim>\<open>Directives\<close>: \<^verbatim>\<open>ai/directives.py\<close>, \<^verbatim>\<open>reconcile.py\<close> and the
    review gate of \<^verbatim>\<open>orchestrator.py\<close>: normalising, fallback, the capability net (its regular
    expressions as patterns with a matcher), conflicts and flags.
  \<^item> \<^verbatim>\<open>Intelligence\<close>, \<^verbatim>\<open>Rag_Index\<close>: \<^verbatim>\<open>orchestrator.py\<close>,
    \<^verbatim>\<open>intelligence_service.py\<close>, \<^verbatim>\<open>context_service.py\<close>,
    \<^verbatim>\<open>client_agent.py\<close>: a build from the file to a published version, the administrator's
    actions, the reader. Over any history: one ready version, the flags are the active rules, no hard
    rule before an approval, the index exact.

  \<^item> \<^verbatim>\<open>Web_Fetch\<close>: \<^verbatim>\<open>utils/web.py\<close>: the address guard and the pinned connection with
    its redirects. However the resolver and the servers change their answers, no connection reaches an
    address that is not public.
  \<^item> \<^verbatim>\<open>Report_Mail\<close>: \<^verbatim>\<open>report_email/\<close> and its sweep in \<^verbatim>\<open>scheduler_service.py\<close>: due
    dates on the client's clock, the delivery with retries, log and cooldown. In sequence at most one mail a
    client and day is accepted; two overlapping deliveries send two.
  \<^item> \<^verbatim>\<open>OAuth_State\<close>, \<^verbatim>\<open>Integrations\<close>: \<^verbatim>\<open>integration_service.py\<close>: the signed
    state of an authorization, the connections with their tokens, the choice of accounts, the synchronisation
    of daily facts. Well-formed rows over any run, each outcome of a synchronisation, no account bound
    unasked.
  \<^item> \<^verbatim>\<open>Dates\<close>: Python's \<^verbatim>\<open>date\<close>: ordinals, ISO texts, months, with their round trips.
  \<^item> \<^verbatim>\<open>Command_Tools\<close>, \<^verbatim>\<open>Command_Agent\<close>: \<^verbatim>\<open>ai/tools/\<close> and
    \<^verbatim>\<open>ai/command_agent.py\<close>: every tool with the coercions of its arguments, and a turn in six rounds,
    plain and streamed. Whatever the model answers, a turn stages only what the user may stage.
  \<^item> \<^verbatim>\<open>Doubles\<close>, \<^verbatim>\<open>Desk\<close>, \<^verbatim>\<open>Alerts\<close>: the arithmetic of doubles, the rows of campaigns,
    alerts, notifications and events (the record \<open>desk\<close> around \<open>db\<close>), and \<^verbatim>\<open>alert_service.py\<close>: after
    an evaluation the live alerts mirror the findings.
  \<^item> \<^verbatim>\<open>Notifications\<close>: \<^verbatim>\<open>notification_service.py\<close>,
    \<^verbatim>\<open>notification_email_service.py\<close> and the watchdog sweep: the sweep keeps the board reconciled, the
    digest marks exactly what was mailed.
  \<^item> \<^verbatim>\<open>Calendar\<close>: \<^verbatim>\<open>calendar_service.py\<close>: the month view and the edits, decisions and
    deletions of events.
  \<^item> \<^verbatim>\<open>Plan_Generation\<close>: \<^verbatim>\<open>ai/plan_generation.py\<close> and
    \<^verbatim>\<open>plan_generation_service.py\<close>: what the model proposes is clamped into the range, drafting stores
    the whole plan and nothing else, and the review of drafts.
  \<^item> \<^verbatim>\<open>Auto_Plan\<close>: the monthly sweep of \<^verbatim>\<open>scheduler_service.py\<close>: which month it plans, one
    plan a month in sequence, and a doubled plan when two ticks overlap.
  \<^item> \<^verbatim>\<open>Assistant\<close>, \<^verbatim>\<open>Chat_Turns\<close>, \<^verbatim>\<open>Chat_Safety\<close>: \<^verbatim>\<open>assistant_service.py\<close>
    with \<^verbatim>\<open>ai_chat_repository.py\<close> and \<^verbatim>\<open>plan_chat_intent.py\<close>: chats and messages (the record
    \<open>room\<close> around \<open>desk\<close>), the turn that answers, drafts or stages, the card of a drafted plan. A read-only
    account changes nothing by chatting; the streamed turn leaves the same room as the plain one; a card
    names exactly the plan and is resolved once.

  How they interact. An edit queues a job in the transaction of the edit (\<^verbatim>\<open>Client_Updates\<close> uses
  \<^verbatim>\<open>Job_Queue\<close>); the worker claims it and runs a build (\<^verbatim>\<open>Intelligence\<close>); approving a
  proposal runs the operations of \<^verbatim>\<open>Plan\<close>, \<^verbatim>\<open>Access\<close> and \<^verbatim>\<open>Client_Updates\<close> and writes
  \<^verbatim>\<open>Audit_Trail\<close> rows; the middleware wraps every request and resolves its actor through
  \<^verbatim>\<open>Auth\<close>. A chat turn (\<^verbatim>\<open>Chat_Turns\<close>) first asks whether the message wants a plan and drafts it
  with \<^verbatim>\<open>Plan_Generation\<close>, else it runs the agent of \<^verbatim>\<open>Command_Agent\<close>, whose staged operations
  become a proposal of \<^verbatim>\<open>Proposals\<close>; approving a card runs the batch of \<^verbatim>\<open>Plan_Generation\<close>. The
  sweeps evaluate \<^verbatim>\<open>Alerts\<close>, draft plans and deliver \<^verbatim>\<open>Notifications\<close> for every active client.

  Bounds. Recursions follow the data, or a measure with its termination proof (the chunk loop: the
  text left). The claim loop stops after three attempts, a turn of the agent after six rounds, a fetch after
  its redirects, as in the code: these counters are the code's own, no fuel is added. The regular expressions
  have bounded repetitions, or as many as there are characters left.

  Parameters. Password hash and check, the JWT codec, SHA-256, the keyed hash and the cipher, the object store
  and the uploads, the parsers of office files, the embedder and retrieval, the language models (what each
  answers, up to the JSON it parses to), the figures of ad performance, the e-mail provider, the ad platforms,
  the URL library, the resolver and the servers, the zone data, and the texts of exceptions of libraries.
  Where a property needs a law of one, it is a named hypothesis.

  Not modelled: most of the HTTP routing and response shaping (the gates of the assistant's routes are),
  the prompt texts and the generators of \<^verbatim>\<open>app/ai\<close> that only assemble them, the network clients of the
  providers, platform insights, dashboards and reports (read-only aggregation and rendering), retrieval by
  similarity, the onboarding wizard, seed data and migrations. Sweeps take their clients one after the other,
  and where overlapping runs matter they are given as interleaved steps. Strings are of ASCII characters where
  the code compares or folds case, and a dash of the source is written as two hyphens.
\<close>

end
